(* ===== verification/Prelude.thy ===== *)
theory Prelude
  imports Main "HOL-Library.Word" "HOL-Library.Char_ord" "HOL-Library.List_Lexorder"
begin

text \<open>
  Shared vocabulary of the development: the JavaScript values the clients compute with
  (code units, bytes, strings, insertion-ordered maps), errors as sums, and the lemmas on
  lists that several components use.

  A JavaScript string is a sequence of UTF-16 code units. Text that a person typed, and that
  the code counts, slices or encodes, is a \<open>jstr\<close>. Identifiers, hexadecimal text and other
  protocol text, which the code only compares and matches against ASCII classes, is a
  \<open>string\<close>.
\<close>

section \<open>Types\<close>

type_synonym byte = "8 word"
type_synonym bytes = "8 word list"
type_synonym jstr = "16 word list"

text \<open>A failing computation: \<open>Inl\<close> is the exception, \<open>Inr\<close> the value.\<close>

definition bindE :: "'e + 'a \<Rightarrow> ('a \<Rightarrow> 'e + 'b) \<Rightarrow> 'e + 'b" where
  "bindE r f = (case r of Inl e \<Rightarrow> Inl e | Inr x \<Rightarrow> f x)"

definition ofOption :: "'e \<Rightarrow> 'a option \<Rightarrow> 'e + 'a" where
  "ofOption e r = (case r of None \<Rightarrow> Inl e | Some x \<Rightarrow> Inr x)"

lemma bindE_simps [simp]:
  "bindE (Inl e) f = Inl e"
  "bindE (Inr x) f = f x"
  by (simp_all add: bindE_def)

lemma bindE_Inr_iff: "bindE r f = Inr y \<longleftrightarrow> (\<exists>x. r = Inr x \<and> f x = Inr y)"
  by (cases r) auto

lemma bindE_Inl_iff: "bindE r f = Inl e \<longleftrightarrow> r = Inl e \<or> (\<exists>x. r = Inr x \<and> f x = Inl e)"
  by (cases r) auto

lemma ofOption_simps [simp]:
  "ofOption e None = Inl e"
  "ofOption e (Some x) = Inr x"
  by (simp_all add: ofOption_def)

lemma ofOption_Inr_iff: "ofOption e r = Inr x \<longleftrightarrow> r = Some x"
  by (cases r) auto

section \<open>Lists as JavaScript arrays\<close>

text \<open>\<open>xs.slice(-n)\<close> for a positive \<open>n\<close>: the last \<open>n\<close> elements.\<close>

definition take_last :: "nat \<Rightarrow> 'a list \<Rightarrow> 'a list" where
  "take_last n xs = drop (length xs - n) xs"

lemma length_take_last [simp]: "length (take_last n xs) = min n (length xs)"
  by (simp add: take_last_def)

lemma take_last_short: "length xs \<le> n \<Longrightarrow> take_last n xs = xs"
  by (simp add: take_last_def)

lemma set_take_last_subset: "set (take_last n xs) \<subseteq> set xs"
  by (simp add: take_last_def set_drop_subset)

lemma in_set_take_lastD: "x \<in> set (take_last n xs) \<Longrightarrow> x \<in> set xs"
  using set_take_last_subset by (rule subsetD)

lemma distinct_take_last: "distinct xs \<Longrightarrow> distinct (take_last n xs)"
  by (simp add: take_last_def)

lemma take_last_append_one: "0 < n \<Longrightarrow> take_last n (xs @ [x]) = take_last (n - 1) xs @ [x]"
  by (cases n) (simp_all add: take_last_def)

lemma last_in_take_last: "0 < n \<Longrightarrow> x \<in> set (take_last n (xs @ [x]))"
  by (simp add: take_last_append_one)

text \<open>\<open>s.match(/.{1,n}/g)\<close> on text without line terminators, and the array batching loops:
  consecutive pieces of \<open>n\<close> elements, the last one possibly shorter.\<close>

function chunks :: "nat \<Rightarrow> 'a list \<Rightarrow> 'a list list" where
  "chunks n xs = (if xs = [] \<or> n = 0 then [] else take n xs # chunks n (drop n xs))"
  by pat_completeness auto
termination
  by (relation "measure (\<lambda>(n, xs). length xs)") auto

declare chunks.simps [simp del]

lemma chunks_Nil [simp]: "chunks n [] = []"
  by (simp add: chunks.simps)

lemma chunks_step: "xs \<noteq> [] \<Longrightarrow> 0 < n \<Longrightarrow> chunks n xs = take n xs # chunks n (drop n xs)"
  by (simp add: chunks.simps)

lemma concat_chunks: "0 < n \<Longrightarrow> concat (chunks n xs) = xs"
proof (induction n xs rule: chunks.induct)
  case (1 n xs)
  then show ?case by (cases "xs = []") (simp_all add: chunks_step)
qed

lemma chunks_sizes: "c \<in> set (chunks n xs) \<Longrightarrow> c \<noteq> [] \<and> length c \<le> n"
proof (induction n xs rule: chunks.induct)
  case (1 n xs)
  show ?case
  proof (cases "xs = [] \<or> n = 0")
    case True
    with 1 show ?thesis by (simp add: chunks.simps)
  next
    case False
    with "1.prems" have "c = take n xs \<or> c \<in> set (chunks n (drop n xs))"
      by (simp add: chunks_step)
    with False "1.IH" show ?thesis by auto
  qed
qed

lemma length_chunks: "0 < n \<Longrightarrow> length (chunks n xs) = (length xs + n - 1) div n"
proof (induction n xs rule: chunks.induct)
  case (1 n xs)
  show ?case
  proof (cases "xs = []")
    case True
    with 1 show ?thesis by simp
  next
    case False
    with 1 have IH: "length (chunks n (drop n xs)) = (length xs - n + n - 1) div n"
      by simp
    from False "1.prems" have "(length xs + n - 1) div n = Suc ((length xs - 1) div n)"
      by (cases xs) (auto simp: le_div_geq)
    moreover from "1.prems" have "(length xs - n + n - 1) div n = (length xs - 1) div n"
      by (cases "n \<le> length xs") auto
    ultimately show ?thesis using False "1.prems" IH by (simp add: chunks_step)
  qed
qed

lemma chunks_exact: "length xs = k * n \<Longrightarrow> c \<in> set (chunks n xs) \<Longrightarrow> length c = n"
proof (induction k arbitrary: xs)
  case 0
  then show ?case by simp
next
  case (Suc k)
  show ?case
  proof (cases "xs = [] \<or> n = 0")
    case True
    with Suc.prems show ?thesis by (simp add: chunks.simps)
  next
    case False
    with Suc.prems(2) have "c = take n xs \<or> c \<in> set (chunks n (drop n xs))"
      by (simp add: chunks_step)
    with Suc.IH [of "drop n xs"] Suc.prems(1) show ?thesis by auto
  qed
qed

lemma chunks_elements: "0 < n \<Longrightarrow> c \<in> set (chunks n xs) \<Longrightarrow> set c \<subseteq> set xs"
  using concat_chunks [of n xs] by (metis UN_upper set_concat)

text \<open>\<open>parts.join(sep)\<close>.\<close>

fun join_with :: "'a list \<Rightarrow> 'a list list \<Rightarrow> 'a list" where
  "join_with sep [] = []"
| "join_with sep [x] = x"
| "join_with sep (x # y # xs) = x @ sep @ join_with sep (y # xs)"

text \<open>\<open>s.split(c)\<close> for a one-character separator: never empty.\<close>

fun split_on :: "'a \<Rightarrow> 'a list \<Rightarrow> 'a list list" where
  "split_on c [] = [[]]"
| "split_on c (x # xs) =
     (if x = c then [] # split_on c xs
      else (case split_on c xs of [] \<Rightarrow> [[x]] | p # ps \<Rightarrow> (x # p) # ps))"

lemma split_on_nonempty [simp]: "split_on c xs \<noteq> []"
  by (induction xs) (auto split: list.splits)

lemma join_split_on: "join_with [c] (split_on c xs) = xs"
proof (induction xs)
  case Nil
  then show ?case by simp
next
  case (Cons x xs)
  obtain p ps where s: "split_on c xs = p # ps"
    by (cases "split_on c xs") auto
  with Cons show ?case by (cases ps) auto
qed

text \<open>Keeping the first element of each key: the \<open>seen\<close> set idiom
  \<open>filter((x) => seen.has(key(x)) ? false : (seen.add(key(x)), true))\<close>.\<close>

fun keep_first :: "('a \<Rightarrow> 'k) \<Rightarrow> 'k list \<Rightarrow> 'a list \<Rightarrow> 'a list" where
  "keep_first key seen [] = []"
| "keep_first key seen (x # xs) =
     (if key x \<in> set seen then keep_first key seen xs
      else x # keep_first key (key x # seen) xs)"

lemma keep_first_keys:
  "key ` set (keep_first key seen xs) = key ` set xs - set seen"
  by (induction xs arbitrary: seen) auto

lemma keep_first_distinct:
  "distinct (map key (keep_first key seen xs)) \<and>
   key ` set (keep_first key seen xs) \<inter> set seen = {}"
  by (induction xs arbitrary: seen) (auto simp: keep_first_keys)

lemma keep_first_subset: "set (keep_first key seen xs) \<subseteq> set xs"
  by (induction xs arbitrary: seen) auto

lemma keep_first_id:
  "distinct (map key xs) \<Longrightarrow> key ` set xs \<inter> set seen = {} \<Longrightarrow> keep_first key seen xs = xs"
proof (induction xs arbitrary: seen)
  case Nil
  then show ?case by simp
next
  case (Cons x xs)
  then show ?case by (auto intro!: Cons.IH)
qed

section \<open>JavaScript Map: an association list in insertion order\<close>

type_synonym ('k, 'v) jsmap = "('k \<times> 'v) list"

text \<open>\<open>map.set(k, v)\<close> keeps the place of a key it already holds; \<open>map.delete(k)\<close>.\<close>

fun jm_set :: "'k \<Rightarrow> 'v \<Rightarrow> ('k, 'v) jsmap \<Rightarrow> ('k, 'v) jsmap" where
  "jm_set k v [] = [(k, v)]"
| "jm_set k v ((k', v') # m) = (if k' = k then (k, v) # m else (k', v') # jm_set k v m)"

definition jm_get :: "('k, 'v) jsmap \<Rightarrow> 'k \<Rightarrow> 'v option" where
  "jm_get m k = map_of m k"

definition jm_del :: "'k \<Rightarrow> ('k, 'v) jsmap \<Rightarrow> ('k, 'v) jsmap" where
  "jm_del k m = filter (\<lambda>(k', _). k' \<noteq> k) m"

definition jm_ok :: "('k, 'v) jsmap \<Rightarrow> bool" where
  "jm_ok m \<longleftrightarrow> distinct (map fst m)"

lemma jm_get_Nil [simp]: "jm_get [] k = None"
  by (simp add: jm_get_def)

lemma jm_get_set [simp]: "jm_get (jm_set k v m) k' = (if k' = k then Some v else jm_get m k')"
  by (induction k v m rule: jm_set.induct) (auto simp: jm_get_def)

lemma jm_keys_set: "fst ` set (jm_set k v m) = insert k (fst ` set m)"
  by (induction k v m rule: jm_set.induct) auto

lemma jm_ok_set [intro, simp]: "jm_ok m \<Longrightarrow> jm_ok (jm_set k v m)"
  unfolding jm_ok_def
  by (induction k v m rule: jm_set.induct) (auto simp: jm_keys_set)

lemma jm_get_del [simp]: "jm_get (jm_del k m) k' = (if k' = k then None else jm_get m k')"
  by (induction m) (auto simp: jm_get_def jm_del_def)

lemma jm_ok_del [intro, simp]: "jm_ok m \<Longrightarrow> jm_ok (jm_del k m)"
  unfolding jm_ok_def jm_del_def by (induction m) auto

lemma jm_get_None_iff: "jm_get m k = None \<longleftrightarrow> k \<notin> fst ` set m"
  by (simp add: jm_get_def map_of_eq_None_iff)

lemma length_jm_set:
  "length (jm_set k v m) = (if jm_get m k = None then Suc (length m) else length m)"
  by (induction k v m rule: jm_set.induct) (auto simp: jm_get_def)

lemma length_jm_del:
  "jm_ok m \<Longrightarrow> length (jm_del k m) = (if jm_get m k = None then length m else length m - 1)"
proof (induction m)
  case Nil
  then show ?case by (simp add: jm_del_def jm_get_def)
next
  case (Cons p m)
  obtain k' v' where p: "p = (k', v')" by (cases p)
  from Cons.prems have ok: "jm_ok m" and notin: "k' \<notin> fst ` set m"
    by (auto simp: jm_ok_def p)
  show ?case
  proof (cases "k' = k")
    case True
    with notin have "filter (\<lambda>(a, _). a \<noteq> k) m = m"
      by (intro filter_True) force
    with True p show ?thesis by (simp add: jm_del_def jm_get_def)
  next
    case False
    with Cons.IH [OF ok] p have IH: "length (jm_del k m) =
      (if jm_get m k = None then length m else length m - 1)" by simp
    show ?thesis
    proof (cases "jm_get m k = None")
      case True
      with False p IH show ?thesis by (simp add: jm_del_def jm_get_def)
    next
      case found: False
      then have "0 < length m" by (cases m) (auto simp: jm_get_def)
      with False p IH found show ?thesis by (auto simp: jm_del_def jm_get_def)
    qed
  qed
qed

text \<open>\<open>new Map(xs.map((x) => [key(x), x])).values()\<close>: one element per key, the last one, at the
  place of the first.\<close>

definition keep_last :: "('a \<Rightarrow> 'k) \<Rightarrow> 'a list \<Rightarrow> 'a list" where
  "keep_last key xs = map snd (foldl (\<lambda>m x. jm_set (key x) x m) [] xs)"

lemma jm_fold_get:
  "jm_get (foldl (\<lambda>m x. jm_set (key x) x m) m xs) k =
   (case filter (\<lambda>x. key x = k) xs of [] \<Rightarrow> jm_get m k | ys \<Rightarrow> Some (last ys))"
  by (induction xs arbitrary: m) (auto split: list.splits)

lemma jm_fold_ok: "jm_ok m \<Longrightarrow> jm_ok (foldl (\<lambda>m x. jm_set (key x) x m) m xs)"
  by (induction xs arbitrary: m) auto

lemma jm_fold_entries:
  "\<forall>(k, x) \<in> set m. key x = k \<Longrightarrow>
   \<forall>(k, x) \<in> set (foldl (\<lambda>m x. jm_set (key x) x m) m xs). key x = k"
proof (induction xs arbitrary: m)
  case Nil
  then show ?case by simp
next
  case (Cons x xs)
  have "\<forall>(k, y) \<in> set (jm_set (key x) x m). key y = k"
    using Cons.prems by (induction "key x" x m rule: jm_set.induct) auto
  then show ?case using Cons.IH by simp
qed

lemma jm_entries_iff: "jm_ok m \<Longrightarrow> (k, v) \<in> set m \<longleftrightarrow> jm_get m k = Some v"
  by (simp add: jm_ok_def jm_get_def)

lemma keep_last_keys_map:
  "map key (keep_last key xs) = map fst (foldl (\<lambda>m x. jm_set (key x) x m) [] xs)"
  using jm_fold_entries [of "[]" key xs] by (auto simp: keep_last_def)

lemma keep_last_distinct: "distinct (map key (keep_last key xs))"
  using jm_fold_ok [of "[]" key xs] by (simp add: keep_last_keys_map jm_ok_def)

lemma keep_last_member:
  "x \<in> set (keep_last key xs) \<longleftrightarrow>
   filter (\<lambda>y. key y = key x) xs \<noteq> [] \<and> last (filter (\<lambda>y. key y = key x) xs) = x"
proof -
  let ?m = "foldl (\<lambda>m x. jm_set (key x) x m) [] xs"
  have ok: "jm_ok ?m" by (rule jm_fold_ok) (simp add: jm_ok_def)
  have "x \<in> set (keep_last key xs) \<longleftrightarrow> (key x, x) \<in> set ?m"
    using jm_fold_entries [of "[]" key xs] by (force simp: keep_last_def)
  also have "\<dots> \<longleftrightarrow> jm_get ?m (key x) = Some x"
    by (rule jm_entries_iff [OF ok])
  finally show ?thesis
    by (simp add: jm_fold_get split: list.splits)
qed

lemma keep_last_subset: "set (keep_last key xs) \<subseteq> set xs"
proof
  fix x assume "x \<in> set (keep_last key xs)"
  then have "x \<in> set (filter (\<lambda>y. key y = key x) xs)"
    by (metis keep_last_member last_in_set)
  then show "x \<in> set xs" by simp
qed

lemma keep_last_keys: "key ` set (keep_last key xs) = key ` set xs"
proof
  show "key ` set (keep_last key xs) \<subseteq> key ` set xs"
    using keep_last_subset by (rule image_mono)
  show "key ` set xs \<subseteq> key ` set (keep_last key xs)"
  proof
    fix k assume "k \<in> key ` set xs"
    then obtain x where x: "x \<in> set xs" "key x = k" by auto
    let ?ys = "filter (\<lambda>y. key y = k) xs"
    from x have ne: "?ys \<noteq> []" by (auto simp: filter_empty_conv)
    then have "last ?ys \<in> set ?ys" by (rule last_in_set)
    then have "key (last ?ys) = k" by simp
    with ne have "last ?ys \<in> set (keep_last key xs)" by (simp add: keep_last_member)
    with \<open>key (last ?ys) = k\<close> show "k \<in> key ` set (keep_last key xs)" by force
  qed
qed

section \<open>A store that may forget\<close>

text \<open>The contract of a bounded cache: what was written is read back at once, writing one key never
  changes what another holds, except that the other may have been dropped, and clearing forgets
  everything. What a client needs from it is that an invariant of the written entries is an
  invariant of the read ones.\<close>

locale forgetful_store =
  fixes get :: "'s \<Rightarrow> 'k \<Rightarrow> 'v option"
    and put :: "'k \<Rightarrow> 'v \<Rightarrow> 's \<Rightarrow> 's"
    and clear :: "'s \<Rightarrow> 's"
  assumes get_put: "get (put k v s) k = Some v"
    and get_put_other: "k \<noteq> j \<Longrightarrow> get (put k v s) j = Some w \<Longrightarrow> get s j = Some w"
    and get_clear: "get (clear s) j = None"
begin

definition every :: "('k \<Rightarrow> 'v \<Rightarrow> bool) \<Rightarrow> 's \<Rightarrow> bool" where
  "every Q s \<longleftrightarrow> (\<forall>k v. get s k = Some v \<longrightarrow> Q k v)"

lemma every_put: "every Q s \<Longrightarrow> Q k v \<Longrightarrow> every Q (put k v s)"
  unfolding every_def by (metis get_put get_put_other option.inject)

lemma every_clear: "every Q (clear s)"
  by (simp add: every_def get_clear)

lemma everyD: "every Q s \<Longrightarrow> get s k = Some v \<Longrightarrow> Q k v"
  by (simp add: every_def)

end

end
