(* ===== verification/Bytes_Hex.thy ===== *)
theory Bytes_Hex
  imports Prelude "HOL-Library.Word"
begin

unbundle bit_operations_syntax

text \<open>
  The byte helpers of \<open>lib/crypto/core.ts\<close> (the same file on both clients): hexadecimal
  encoding, concatenation into one buffer, and the comparison that inspects every byte.
\<close>

section \<open>Errors of the cryptographic core\<close>

text \<open>Every \<open>throw\<close> of the file, and one value for whatever the third-party primitives throw.\<close>

datatype core_error =
    OddHexLength
  | NonHexCharacter
  | FingerprintMismatch
  | SelfAddressed
  | WrappedLength
  | WrappedTruncated
  | PrimitiveThrow

section \<open>Hexadecimal\<close>

definition hex_digit :: "nat \<Rightarrow> char" where
  "hex_digit n = ''0123456789abcdef'' ! n"

text \<open>\<open>byte.toString(16)\<close> for a byte, and \<open>padStart\<close>.\<close>

definition byte_radix16 :: "byte \<Rightarrow> string" where
  "byte_radix16 b =
     (if unat b < 16 then [hex_digit (unat b)]
      else [hex_digit (unat b div 16), hex_digit (unat b mod 16)])"

definition pad_start :: "nat \<Rightarrow> char \<Rightarrow> string \<Rightarrow> string" where
  "pad_start n c s = replicate (n - length s) c @ s"

definition to_hex :: "bytes \<Rightarrow> string" where
  "to_hex bs = concat (map (\<lambda>b. pad_start 2 CHR ''0'' (byte_radix16 b)) bs)"

definition char_code :: "char \<Rightarrow> nat" where
  "char_code c = of_char c"

text \<open>The class \<open>[0-9a-fA-F]\<close> with the value \<open>parseInt(_, 16)\<close> gives each of its members.\<close>

definition hex_value :: "char \<Rightarrow> nat option" where
  "hex_value c =
     (let n = char_code c in
      if 0x30 \<le> n \<and> n \<le> 0x39 then Some (n - 0x30)
      else if 0x61 \<le> n \<and> n \<le> 0x66 then Some (n - 0x61 + 10)
      else if 0x41 \<le> n \<and> n \<le> 0x46 then Some (n - 0x41 + 10)
      else None)"

definition is_hex :: "char \<Rightarrow> bool" where
  "is_hex c \<longleftrightarrow> hex_value c \<noteq> None"

fun hex_pairs :: "string \<Rightarrow> bytes" where
  "hex_pairs (a # b # s) = of_nat (16 * the (hex_value a) + the (hex_value b)) # hex_pairs s"
| "hex_pairs s = []"

definition from_hex :: "string \<Rightarrow> core_error + bytes" where
  "from_hex value =
     (if length value mod 2 \<noteq> 0 then Inl OddHexLength
      else if \<not> list_all is_hex value then Inl NonHexCharacter
      else Inr (hex_pairs value))"

text \<open>\<open>toLowerCase\<close> on the characters U+0000 to U+00FF.\<close>

definition lower_char :: "char \<Rightarrow> char" where
  "lower_char c =
     (let n = char_code c in
      if (0x41 \<le> n \<and> n \<le> 0x5A) \<or> (0xC0 \<le> n \<and> n \<le> 0xDE \<and> n \<noteq> 0xD7) then char_of (n + 32) else c)"

definition to_lower :: "string \<Rightarrow> string" where
  "to_lower = map lower_char"

lemma less16_cases: "k < (16 :: nat) \<Longrightarrow> k \<in> set (rev [0, 1, 2, 3, 4, 5, 6, 7, 8, 9, 10, 11, 12, 13, 14, 15])"
  by simp arith

lemma hex_value_digit [simp]: "n < 16 \<Longrightarrow> hex_value (hex_digit n) = Some n"
  by (drule less16_cases) (auto simp: hex_value_def hex_digit_def char_code_def)

lemma is_hex_digit [simp]: "n < 16 \<Longrightarrow> is_hex (hex_digit n)"
  by (simp add: is_hex_def)

lemma hex_value_less: "hex_value c = Some n \<Longrightarrow> n < 16"
  by (auto simp: hex_value_def Let_def split: if_splits)

lemma unat_byte_less [simp]: "unat (b :: byte) < 256"
  using unsigned_less [of b] by simp

lemma pad_radix16:
  "pad_start 2 CHR ''0'' (byte_radix16 b) = [hex_digit (unat b div 16), hex_digit (unat b mod 16)]"
  by (auto simp: pad_start_def byte_radix16_def hex_digit_def)

lemma to_hex_simps [simp]:
  "to_hex [] = []"
  "to_hex (b # bs) = hex_digit (unat b div 16) # hex_digit (unat b mod 16) # to_hex bs"
  by (simp_all add: to_hex_def pad_radix16)

lemma length_to_hex [simp]: "length (to_hex bs) = 2 * length bs"
  by (induction bs) auto

lemma byte_div16 [simp]: "unat (b :: byte) div 16 < 16"
  using unat_byte_less [of b] by (simp add: less_mult_imp_div_less)

lemma list_all_hex_to_hex [simp]: "list_all is_hex (to_hex bs)"
  by (induction bs) auto

lemma hex_pairs_to_hex [simp]: "hex_pairs (to_hex bs) = bs"
proof (induction bs)
  case (Cons b bs)
  have "of_nat (16 * (unat b div 16) + unat b mod 16) = b"
    by (simp del: of_nat_add of_nat_mult)
  with Cons show ?case by simp
qed simp

lemma from_hex_to_hex [simp]: "from_hex (to_hex bs) = Inr bs"
  by (simp add: from_hex_def)

lemma from_hex_InrD:
  "from_hex s = Inr bs \<Longrightarrow> even (length s) \<and> list_all is_hex s \<and> bs = hex_pairs s"
  by (auto simp: from_hex_def even_iff_mod_2_eq_zero split: if_splits)

lemma digit_of_value: "hex_value c = Some n \<Longrightarrow> hex_digit n = lower_char c"
proof -
  assume v: "hex_value c = Some n"
  define k where "k = char_code c"
  then have c: "c = char_of k" by (simp add: char_code_def)
  have vk: "(k = n + 48 \<and> n < 10) \<or> (k = n + 87 \<and> 10 \<le> n \<and> n < 16) \<or> (k = n + 55 \<and> 10 \<le> n \<and> n < 16)"
    using v by (auto simp: hex_value_def Let_def k_def [symmetric] split: if_splits)
  then have "n < 16" by auto
  from less16_cases [OF this] vk have "char_code (hex_digit n) = char_code (lower_char c)"
    unfolding c set_rev list.set insert_iff empty_iff
    by (elim disjE) (simp_all add: hex_digit_def lower_char_def char_code_def)
  then show ?thesis by (simp add: char_code_def)
qed

lemma to_hex_hex_pairs:
  "even (length s) \<Longrightarrow> list_all is_hex s \<Longrightarrow> to_hex (hex_pairs s) = to_lower s"
proof (induction s rule: hex_pairs.induct)
  case (1 a b s)
  then obtain m n where v: "hex_value a = Some m" "hex_value b = Some n"
    by (auto simp: is_hex_def)
  then have l: "m < 16" "n < 16" by (auto dest: hex_value_less)
  then have "unat (of_nat (16 * m + n) :: byte) = 16 * m + n"
    by (subst unat_of_nat) simp
  then have "unat (16 * of_nat m + of_nat n :: byte) = 16 * m + n" by simp
  with 1 v l show ?case
    by (simp add: to_lower_def digit_of_value [symmetric])
qed (auto simp: to_lower_def)

text \<open>A value that is read back is the value that was written, up to letter case.\<close>

lemma to_hex_from_hex: "from_hex s = Inr bs \<Longrightarrow> to_hex bs = to_lower s"
  by (auto dest: from_hex_InrD simp: to_hex_hex_pairs)

lemma from_hex_length: "from_hex s = Inr bs \<Longrightarrow> 2 * length bs = length s"
proof -
  assume a: "from_hex s = Inr bs"
  have "length (to_hex bs) = length (to_lower s)" using to_hex_from_hex [OF a] by simp
  then show ?thesis by (simp add: to_lower_def)
qed

lemma to_hex_inj: "to_hex as = to_hex bs \<Longrightarrow> as = bs"
  by (metis from_hex_to_hex sum.inject(2))

lemma lower_hex_digit: "n < 16 \<Longrightarrow> lower_char (hex_digit n) = hex_digit n"
  by (drule less16_cases) (auto simp: lower_char_def hex_digit_def char_code_def)

lemma to_lower_to_hex [simp]: "to_lower (to_hex bs) = to_hex bs"
  by (induction bs) (auto simp: to_lower_def lower_hex_digit)

section \<open>Concatenation and comparison\<close>

text \<open>\<open>out.set(part, offset)\<close> on a buffer that is long enough.\<close>

definition set_at :: "bytes \<Rightarrow> nat \<Rightarrow> bytes \<Rightarrow> bytes" where
  "set_at out offset part = take offset out @ part @ drop (offset + length part) out"

fun concat_loop :: "bytes \<Rightarrow> nat \<Rightarrow> bytes list \<Rightarrow> bytes" where
  "concat_loop out offset [] = out"
| "concat_loop out offset (part # parts) =
     concat_loop (set_at out offset part) (offset + length part) parts"

definition concat_bytes :: "bytes list \<Rightarrow> bytes" where
  "concat_bytes parts =
     (let total = foldl (\<lambda>sum part. sum + length part) 0 parts
      in concat_loop (replicate total 0) 0 parts)"

lemma concat_loop_eq:
  "length out = offset + length (concat parts) \<Longrightarrow>
   concat_loop out offset parts = take offset out @ concat parts"
proof (induction parts arbitrary: out offset)
  case Nil
  then show ?case by simp
next
  case (Cons p ps)
  have "length (set_at out offset p) = offset + length p + length (concat ps)"
    using Cons.prems by (simp add: set_at_def)
  then have "concat_loop (set_at out offset p) (offset + length p) ps =
      take (offset + length p) (set_at out offset p) @ concat ps"
    by (rule Cons.IH)
  with Cons.prems show ?case by (simp add: set_at_def)
qed

lemma foldl_total: "foldl (\<lambda>sum part. sum + length part) n parts = n + length (concat parts)"
  by (induction parts arbitrary: n) auto

lemma concat_bytes_eq [simp]: "concat_bytes parts = concat parts"
  by (simp add: concat_bytes_def foldl_total concat_loop_eq)

text \<open>The comparison that runs over every byte before it answers.\<close>

fun byte_difference :: "byte \<Rightarrow> bytes \<Rightarrow> bytes \<Rightarrow> byte" where
  "byte_difference difference (l # left) (r # right) =
     byte_difference (difference OR (l XOR r)) left right"
| "byte_difference difference _ _ = difference"

definition equal_bytes :: "bytes \<Rightarrow> bytes \<Rightarrow> bool" where
  "equal_bytes left right =
     (if length left \<noteq> length right then False else byte_difference 0 left right = 0)"

lemma or_eq_0: "(a :: byte) OR b = 0 \<longleftrightarrow> a = 0 \<and> b = 0"
  by (simp add: or_eq_0_iff)

lemma xor_eq_0: "(a :: byte) XOR b = 0 \<longleftrightarrow> a = b"
  by (auto simp: bit_eq_iff bit_simps)

lemma byte_difference_zero:
  "length left = length right \<Longrightarrow> byte_difference d left right = 0 \<longleftrightarrow> d = 0 \<and> left = right"
  by (induction d left right rule: byte_difference.induct) (auto simp: or_eq_0 xor_eq_0)

lemma equal_bytes_iff [simp]: "equal_bytes left right \<longleftrightarrow> left = right"
  by (auto simp: equal_bytes_def byte_difference_zero)

end
