(* ===== verification/Text_Codec.thy ===== *)
theory Text_Codec
  imports Prelude
begin

text \<open>
  Strings of the JavaScript runtime: code units, code points, whitespace trimming, and the
  \<open>TextEncoder\<close>/\<open>TextDecoder\<close> pair every cryptographic operation of the clients goes through.

  The decoder is the one of the Encoding standard: it drops one leading byte order mark,
  replaces every maximal ill-formed run by U+FFFD and starts again at the offending byte. The
  encoder replaces a surrogate that stands alone by U+FFFD. The round trip therefore holds for
  exactly the well-formed texts that do not begin with U+FEFF.
\<close>

section \<open>Code units and code points\<close>

definition is_high :: "16 word \<Rightarrow> bool" where
  "is_high u \<longleftrightarrow> 0xD800 \<le> u \<and> u \<le> 0xDBFF"

definition is_low :: "16 word \<Rightarrow> bool" where
  "is_low u \<longleftrightarrow> 0xDC00 \<le> u \<and> u \<le> 0xDFFF"

text \<open>The string iterator (\<open>Array.from(value)\<close>): a surrogate pair is one code point, a surrogate
  that stands alone is itself.\<close>

fun code_points :: "jstr \<Rightarrow> nat list" where
  "code_points [] = []"
| "code_points [u] = [unat u]"
| "code_points (u # v # us) =
     (if is_high u \<and> is_low v
      then (0x10000 + (unat u - 0xD800) * 0x400 + (unat v - 0xDC00)) # code_points us
      else unat u # code_points (v # us))"

definition units_of_cp :: "nat \<Rightarrow> jstr" where
  "units_of_cp c =
     (if c < 0x10000 then [of_nat c]
      else [of_nat (0xD800 + (c - 0x10000) div 0x400), of_nat (0xDC00 + (c - 0x10000) mod 0x400)])"

definition from_cps :: "nat list \<Rightarrow> jstr" where
  "from_cps cs = concat (map units_of_cp cs)"

definition units_of :: "string \<Rightarrow> jstr" where
  "units_of s = map (\<lambda>c. of_nat (of_char c)) s"

lemma from_cps_simps [simp]:
  "from_cps [] = []"
  "from_cps (c # cs) = units_of_cp c @ from_cps cs"
  by (simp_all add: from_cps_def)

lemma from_cps_append [simp]: "from_cps (xs @ ys) = from_cps xs @ from_cps ys"
  by (simp add: from_cps_def)

lemma units_of_cp_unit [simp]: "units_of_cp (unat (u :: 16 word)) = [u]"
proof -
  have "unat u < 0x10000" using unsigned_less [of u] by simp
  then show ?thesis by (simp add: units_of_cp_def)
qed

lemma units_of_cp_pair:
  assumes "is_high u" and "is_low v"
  shows "units_of_cp (0x10000 + (unat u - 0xD800) * 0x400 + (unat v - 0xDC00)) = [u, v]"
proof -
  from assms have u: "0xD800 \<le> unat u" "unat u \<le> 0xDBFF"
    and v: "0xDC00 \<le> unat v" "unat v \<le> 0xDFFF"
    by (auto simp: is_high_def is_low_def word_le_nat_alt)
  define a b where "a = unat u - 0xD800" and "b = unat v - 0xDC00"
  with u v have ua: "unat u = 0xD800 + a" and vb: "unat v = 0xDC00 + b" and "b < 0x400"
    by simp_all
  then have "(a * 0x400 + b) div 0x400 = a" "(a * 0x400 + b) mod 0x400 = b"
    by simp_all
  then have "units_of_cp (0x10000 + a * 0x400 + b) = [of_nat (0xD800 + a), of_nat (0xDC00 + b)]"
    by (simp add: units_of_cp_def add.assoc)
  also have "\<dots> = [u, v]"
    unfolding ua [symmetric] vb [symmetric] by simp
  finally show ?thesis by (simp add: a_def b_def)
qed

lemma from_cps_code_points [simp]: "from_cps (code_points s) = s"
  by (induction s rule: code_points.induct) (auto simp: units_of_cp_pair)

text \<open>Well-formed text: every high surrogate is followed by a low one, and no low one stands alone.\<close>

fun well_formed :: "jstr \<Rightarrow> bool" where
  "well_formed [] = True"
| "well_formed [u] = (\<not> is_high u \<and> \<not> is_low u)"
| "well_formed (u # v # us) =
     (if is_high u then is_low v \<and> well_formed us
      else \<not> is_low u \<and> well_formed (v # us))"

definition is_scalar :: "nat \<Rightarrow> bool" where
  "is_scalar c \<longleftrightarrow> c < 0x110000 \<and> \<not> (0xD800 \<le> c \<and> c \<le> 0xDFFF)"

lemma well_formed_scalars: "well_formed s \<Longrightarrow> \<forall>c \<in> set (code_points s). is_scalar c"
proof (induction s rule: code_points.induct)
  case 1
  then show ?case by simp
next
  case (2 u)
  have "unat u < 0x10000" using unsigned_less [of u] by simp
  with 2 show ?case by (auto simp: is_high_def is_low_def is_scalar_def word_le_nat_alt)
next
  case (3 u v us)
  show ?case
  proof (cases "is_high u \<and> is_low v")
    case True
    then have "0xD800 \<le> unat u" "unat u \<le> 0xDBFF" "0xDC00 \<le> unat v" "unat v \<le> 0xDFFF"
      by (auto simp: is_high_def is_low_def word_le_nat_alt)
    then have "is_scalar (0x10000 + (unat u - 0xD800) * 0x400 + (unat v - 0xDC00))"
      by (auto simp: is_scalar_def)
    with True 3 show ?thesis by auto
  next
    case False
    with "3.prems" have n: "\<not> is_high u" "\<not> is_low u" "well_formed (v # us)"
      by (auto split: if_splits)
    have "unat u < 0x10000" using unsigned_less [of u] by simp
    with n have "is_scalar (unat u)"
      by (auto simp: is_high_def is_low_def is_scalar_def word_le_nat_alt)
    with False n 3 show ?thesis by auto
  qed
qed

section \<open>UTF-8\<close>

definition utf8_cp :: "nat \<Rightarrow> nat list" where
  "utf8_cp c =
     (if c < 0x80 then [c]
      else if c < 0x800 then [0xC0 + c div 0x40, 0x80 + c mod 0x40]
      else if c < 0x10000 then [0xE0 + c div 0x1000, 0x80 + c div 0x40 mod 0x40, 0x80 + c mod 0x40]
      else [0xF0 + c div 0x40000, 0x80 + c div 0x1000 mod 0x40,
            0x80 + c div 0x40 mod 0x40, 0x80 + c mod 0x40])"

definition to_scalar :: "nat \<Rightarrow> nat" where
  "to_scalar c = (if 0xD800 \<le> c \<and> c \<le> 0xDFFF then 0xFFFD else c)"

text \<open>\<open>new TextEncoder().encode(s)\<close>.\<close>

definition text_encode :: "jstr \<Rightarrow> bytes" where
  "text_encode s = map of_nat (concat (map (utf8_cp \<circ> to_scalar) (code_points s)))"

text \<open>The UTF-8 decoder: bytes still needed, the code point so far, and the range the next
  continuation byte must lie in.\<close>

function utf8_dec :: "nat \<Rightarrow> nat \<Rightarrow> nat \<Rightarrow> nat \<Rightarrow> nat list \<Rightarrow> nat list" where
  "utf8_dec need cp lo hi [] = (if need = 0 then [] else [0xFFFD])"
| "utf8_dec 0 cp lo hi (b # bs) =
     (if b < 0x80 then b # utf8_dec 0 0 0x80 0xBF bs
      else if 0xC2 \<le> b \<and> b \<le> 0xDF then utf8_dec 1 (b - 0xC0) 0x80 0xBF bs
      else if 0xE0 \<le> b \<and> b \<le> 0xEF then
        utf8_dec 2 (b - 0xE0) (if b = 0xE0 then 0xA0 else 0x80) (if b = 0xED then 0x9F else 0xBF) bs
      else if 0xF0 \<le> b \<and> b \<le> 0xF4 then
        utf8_dec 3 (b - 0xF0) (if b = 0xF0 then 0x90 else 0x80) (if b = 0xF4 then 0x8F else 0xBF) bs
      else 0xFFFD # utf8_dec 0 0 0x80 0xBF bs)"
| "utf8_dec (Suc n) cp lo hi (b # bs) =
     (if lo \<le> b \<and> b \<le> hi
      then (if n = 0 then (cp * 0x40 + (b - 0x80)) # utf8_dec 0 0 0x80 0xBF bs
            else utf8_dec n (cp * 0x40 + (b - 0x80)) 0x80 0xBF bs)
      else 0xFFFD # utf8_dec 0 0 0x80 0xBF (b # bs))"
  by pat_completeness auto
termination
  by (relation "measures [\<lambda>(need, cp, lo, hi, bs). length bs, \<lambda>(need, cp, lo, hi, bs). need]") auto

definition strip_bom :: "nat list \<Rightarrow> nat list" where
  "strip_bom bs = (if take 3 bs = [0xEF, 0xBB, 0xBF] then drop 3 bs else bs)"

text \<open>\<open>new TextDecoder().decode(bytes)\<close>.\<close>

definition text_decode :: "bytes \<Rightarrow> jstr" where
  "text_decode bs = from_cps (utf8_dec 0 0 0x80 0xBF (strip_bom (map unat bs)))"

lemma utf8_cp_bytes: "c < 0x110000 \<Longrightarrow> \<forall>b \<in> set (utf8_cp c). b < 0x100"
  by (auto simp: utf8_cp_def)

text \<open>One encoded code point is decoded to itself, whatever follows. The three multi-byte forms
  are stated over their payload groups.\<close>

lemma utf8_dec_two:
  assumes "2 \<le> p" and "p < 32" and "r < 64"
  shows "utf8_dec 0 cp lo hi ((0xC0 + p) # (0x80 + r) # bs) = (p * 64 + r) # utf8_dec 0 0 0x80 0xBF bs"
  using assms by simp

lemma utf8_dec_three:
  assumes "p < 16" and "q < 64" and "r < 64" and "p = 0 \<longrightarrow> 32 \<le> q" and "p = 13 \<longrightarrow> q < 32"
  shows "utf8_dec 0 cp lo hi ((0xE0 + p) # (0x80 + q) # (0x80 + r) # bs) =
    (p * 4096 + q * 64 + r) # utf8_dec 0 0 0x80 0xBF bs"
  using assms by (auto simp: numeral_2_eq_2)

lemma utf8_dec_four:
  assumes "p < 5" and "q < 64" and "r < 64" and "s < 64"
    and "p = 0 \<longrightarrow> 16 \<le> q" and "p = 4 \<longrightarrow> q < 16"
  shows "utf8_dec 0 cp lo hi ((0xF0 + p) # (0x80 + q) # (0x80 + r) # (0x80 + s) # bs) =
    (p * 262144 + q * 4096 + r * 64 + s) # utf8_dec 0 0 0x80 0xBF bs"
  using assms by (auto simp: numeral_2_eq_2 numeral_3_eq_3)

lemma cp_groups:
  "c div 262144 * 262144 + c div 4096 mod 64 * 4096 + c div 64 mod 64 * 64 + c mod 64 = (c :: nat)"
proof -
  define a b d where "a = c div 64" and "b = a div 64" and "d = b div 64"
  have "a * 64 + c mod 64 = c" "b * 64 + a mod 64 = a" "d * 64 + b mod 64 = b"
    by (simp_all add: a_def b_def d_def)
  then have "d * 262144 + b mod 64 * 4096 + a mod 64 * 64 + c mod 64 = c" by linarith
  moreover have "c div 4096 = b" "c div 262144 = d"
    by (simp_all add: a_def b_def d_def flip: div_mult2_eq)
  ultimately show ?thesis by (simp add: a_def)
qed

lemma cp_groups_bmp: "c div 4096 * 4096 + c div 64 mod 64 * 64 + c mod 64 = (c :: nat)"
proof -
  define a b where "a = c div 64" and "b = a div 64"
  have "a * 64 + c mod 64 = c" "b * 64 + a mod 64 = a" by (simp_all add: a_def b_def)
  then have "b * 4096 + a mod 64 * 64 + c mod 64 = c" by linarith
  moreover have "c div 4096 = b" by (simp add: a_def b_def flip: div_mult2_eq)
  ultimately show ?thesis by (simp add: a_def)
qed

lemma cp_groups_surrogate:
  fixes c :: nat
  assumes "0x800 \<le> c" and "c < 0x10000" and "\<not> (0xD800 \<le> c \<and> c \<le> 0xDFFF)"
  shows "c div 4096 < 16" and "c div 4096 = 0 \<Longrightarrow> 32 \<le> c div 64 mod 64"
    and "c div 4096 = 13 \<Longrightarrow> c div 64 mod 64 < 32"
proof -
  define a where "a = c div 64"
  have d: "c div 4096 = a div 64" by (simp add: a_def flip: div_mult2_eq)
  from assms have a: "32 \<le> a" "a < 1024" "a < 864 \<or> 896 \<le> a" unfolding a_def by auto
  from a show "c div 4096 < 16" by (simp add: d)
  show "32 \<le> c div 64 mod 64" if "c div 4096 = 0"
    using that a unfolding d a_def [symmetric] by simp
  show "c div 64 mod 64 < 32" if "c div 4096 = 13"
    using that a div_mult_mod_eq [of a 64] unfolding d a_def [symmetric] by linarith
qed

lemma cp_groups_astral:
  fixes c :: nat
  assumes "0x10000 \<le> c" and "c < 0x110000"
  shows "c div 262144 < 5" and "c div 262144 = 0 \<Longrightarrow> 16 \<le> c div 4096 mod 64"
    and "c div 262144 = 4 \<Longrightarrow> c div 4096 mod 64 < 16"
proof -
  define b where "b = c div 4096"
  have d: "c div 262144 = b div 64" by (simp add: b_def flip: div_mult2_eq)
  from assms have b: "16 \<le> b" "b < 272" unfolding b_def by simp_all
  from b show "c div 262144 < 5" by (simp add: d)
  show "16 \<le> c div 4096 mod 64" if "c div 262144 = 0"
    using that b unfolding d b_def [symmetric] by simp
  show "c div 4096 mod 64 < 16" if "c div 262144 = 4"
    using that b div_mult_mod_eq [of b 64] unfolding d b_def [symmetric] by linarith
qed

lemma utf8_dec_cp:
  assumes "is_scalar c"
  shows "utf8_dec 0 cp lo hi (utf8_cp c @ bs) = c # utf8_dec 0 0 0x80 0xBF bs"
proof -
  have sc: "c < 0x110000" "\<not> (0xD800 \<le> c \<and> c \<le> 0xDFFF)"
    using assms by (simp_all add: is_scalar_def)
  consider "c < 0x80" | "0x80 \<le> c" "c < 0x800" | "0x800 \<le> c" "c < 0x10000" | "0x10000 \<le> c"
    by linarith
  then show ?thesis
  proof cases
    case 1
    then show ?thesis by (simp add: utf8_cp_def)
  next
    case 2
    then have e: "utf8_cp c = [0xC0 + c div 64, 0x80 + c mod 64]" by (simp add: utf8_cp_def)
    have "utf8_dec 0 cp lo hi ((0xC0 + c div 64) # (0x80 + c mod 64) # bs) =
        (c div 64 * 64 + c mod 64) # utf8_dec 0 0 0x80 0xBF bs"
      by (rule utf8_dec_two) (use 2 in auto)
    then show ?thesis by (simp only: e append.simps div_mult_mod_eq)
  next
    case 3
    then have e: "utf8_cp c = [0xE0 + c div 4096, 0x80 + c div 64 mod 64, 0x80 + c mod 64]"
      by (simp add: utf8_cp_def)
    have v: "c div 4096 * 4096 + c div 64 mod 64 * 64 + c mod 64 = c" by (rule cp_groups_bmp)
    have "utf8_dec 0 cp lo hi ((0xE0 + c div 4096) # (0x80 + c div 64 mod 64) # (0x80 + c mod 64) # bs) =
        (c div 4096 * 4096 + c div 64 mod 64 * 64 + c mod 64) # utf8_dec 0 0 0x80 0xBF bs"
      by (rule utf8_dec_three) (use cp_groups_surrogate [OF 3 sc(2)] in auto)
    then show ?thesis by (simp only: e append.simps v)
  next
    case 4
    then have e: "utf8_cp c = [0xF0 + c div 262144, 0x80 + c div 4096 mod 64,
        0x80 + c div 64 mod 64, 0x80 + c mod 64]"
      by (simp add: utf8_cp_def)
    have v: "c div 262144 * 262144 + c div 4096 mod 64 * 4096 + c div 64 mod 64 * 64 + c mod 64 = c"
      by (rule cp_groups)
    have "utf8_dec 0 cp lo hi ((0xF0 + c div 262144) # (0x80 + c div 4096 mod 64) #
          (0x80 + c div 64 mod 64) # (0x80 + c mod 64) # bs) =
        (c div 262144 * 262144 + c div 4096 mod 64 * 4096 + c div 64 mod 64 * 64 + c mod 64)
          # utf8_dec 0 0 0x80 0xBF bs"
      by (rule utf8_dec_four) (use cp_groups_astral [OF 4 sc(1)] in auto)
    then show ?thesis by (simp only: e append.simps v)
  qed
qed

lemma utf8_dec_cps:
  "\<forall>c \<in> set cs. is_scalar c \<Longrightarrow>
   utf8_dec 0 0 0x80 0xBF (concat (map utf8_cp cs)) = cs"
  by (induction cs) (simp_all add: utf8_dec_cp)

text \<open>A byte order mark at the front of the encoding comes from U+FEFF at the front of the text.\<close>

lemma utf8_bom_cp:
  assumes "is_scalar c" and "c \<noteq> 0xFEFF"
  shows "take 3 (utf8_cp c @ bs) \<noteq> [0xEF, 0xBB, 0xBF]"
proof
  assume t: "take 3 (utf8_cp c @ bs) = [0xEF, 0xBB, 0xBF]"
  have sc: "c < 0x110000" using assms by (simp add: is_scalar_def)
  consider "c < 0x80" | "0x80 \<le> c" "c < 0x800" | "0x800 \<le> c" "c < 0x10000" | "0x10000 \<le> c"
    by linarith
  then show False
  proof cases
    case 3
    with t have "0xE0 + c div 4096 = 0xEF" "0x80 + c div 64 mod 64 = 0xBB" "0x80 + c mod 64 = 0xBF"
      by (simp_all add: utf8_cp_def numeral_3_eq_3)
    then have "c div 64 div 64 = 15" "c div 64 mod 64 = 59" "c mod 64 = 63"
      by (simp_all flip: div_mult2_eq)
    moreover have "c div 64 div 64 * 64 + c div 64 mod 64 = c div 64" "c div 64 * 64 + c mod 64 = c"
      by simp_all
    ultimately have "c = 0xFEFF" by linarith
    with assms show False by simp
  next
    case 4
    with t show False by (simp add: utf8_cp_def numeral_3_eq_3)
  next
    case 2
    with t have "0xC0 + c div 64 = 0xEF" by (simp add: utf8_cp_def numeral_3_eq_3)
    with 2 show False by simp
  next
    case 1
    with t show False by (simp add: utf8_cp_def numeral_3_eq_3)
  qed
qed

definition plain_text :: "jstr \<Rightarrow> bool" where
  "plain_text s \<longleftrightarrow> well_formed s \<and> take 1 s \<noteq> [0xFEFF]"

lemma text_encode_bytes:
  assumes "\<forall>c \<in> set cs. is_scalar c"
  shows "map unat (map of_nat (concat (map utf8_cp cs)) :: bytes) = concat (map utf8_cp cs)"
proof -
  have "\<forall>b \<in> set (concat (map utf8_cp cs)). b < 0x100"
    using assms utf8_cp_bytes by (fastforce simp: is_scalar_def)
  then show ?thesis
    by (auto intro!: map_idI simp: unat_of_nat)
qed

lemma to_scalar_id: "is_scalar c \<Longrightarrow> to_scalar c = c"
  by (auto simp: to_scalar_def is_scalar_def)

lemma is_scalar_to_scalar:
  assumes "c \<in> set (code_points s)"
  shows "is_scalar (to_scalar c)"
proof -
  have "\<forall>c \<in> set (code_points s). c < 0x110000"
  proof (induction s rule: code_points.induct)
    case (3 u v us)
    show ?case
    proof (cases "is_high u \<and> is_low v")
      case True
      then have "0xD800 \<le> unat u" "unat u \<le> 0xDBFF" "0xDC00 \<le> unat v" "unat v \<le> 0xDFFF"
        by (auto simp: is_high_def is_low_def word_le_nat_alt)
      with True 3 show ?thesis by auto
    next
      case False
      have "unat u < 0x10000" using unsigned_less [of u] by simp
      with False 3 show ?thesis by auto
    qed
  next
    case (2 u)
    have "unat u < 0x10000" using unsigned_less [of u] by simp
    then show ?case by simp
  qed simp
  with assms show ?thesis by (auto simp: to_scalar_def is_scalar_def)
qed

section \<open>The round trip\<close>

definition drop_bom_cp :: "nat list \<Rightarrow> nat list" where
  "drop_bom_cp cs = (if take 1 cs = [0xFEFF] then drop 1 cs else cs)"

lemma strip_bom_encoded:
  assumes "\<forall>c \<in> set cs. is_scalar c"
  shows "strip_bom (concat (map utf8_cp cs)) = concat (map utf8_cp (drop_bom_cp cs))"
proof (cases cs)
  case Nil
  then show ?thesis by (simp add: strip_bom_def drop_bom_cp_def)
next
  case (Cons c cs')
  show ?thesis
  proof (cases "c = 0xFEFF")
    case True
    then have "utf8_cp c = [0xEF, 0xBB, 0xBF]" by (simp add: utf8_cp_def)
    with Cons True show ?thesis by (simp add: strip_bom_def drop_bom_cp_def numeral_3_eq_3)
  next
    case False
    then show ?thesis
      using utf8_bom_cp [of c "concat (map utf8_cp cs')"] assms Cons
      by (simp add: strip_bom_def drop_bom_cp_def)
  qed
qed

lemma set_drop_bom_cp: "set (drop_bom_cp cs) \<subseteq> set cs"
  by (auto simp: drop_bom_cp_def dest: in_set_dropD)

lemma text_decode_encode_general:
  "text_decode (text_encode s) = from_cps (drop_bom_cp (map to_scalar (code_points s)))"
proof -
  let ?cs = "map to_scalar (code_points s)"
  have sc: "\<forall>c \<in> set ?cs. is_scalar c" by (auto intro: is_scalar_to_scalar)
  have e: "text_encode s = map of_nat (concat (map utf8_cp ?cs))"
    by (simp add: text_encode_def comp_def)
  from sc have "\<forall>c \<in> set (drop_bom_cp ?cs). is_scalar c"
    using set_drop_bom_cp by blast
  then show ?thesis
    by (simp only: text_decode_def e text_encode_bytes [OF sc] strip_bom_encoded [OF sc] utf8_dec_cps)
qed

lemma code_points_scalar_id: "well_formed s \<Longrightarrow> map to_scalar (code_points s) = code_points s"
  by (auto intro!: map_idI to_scalar_id dest: well_formed_scalars)

lemma code_points_hd:
  assumes "s \<noteq> []" and "hd s = 0xFEFF"
  shows "\<exists>t. code_points s = 0xFEFF # code_points t \<and> s = 0xFEFF # t"
proof -
  from assms obtain t where s: "s = 0xFEFF # t" by (cases s) auto
  then show ?thesis by (cases t) (auto simp: is_high_def)
qed

lemma code_points_take_one:
  assumes "well_formed s" and "take 1 (code_points s) = [0xFEFF]"
  shows "take 1 s = [0xFEFF]"
proof -
  have "s = from_cps (code_points s)" by simp
  with assms(2) have "take 1 s = take 1 (units_of_cp 0xFEFF @ from_cps (tl (code_points s)))"
    by (cases "code_points s") (auto simp del: from_cps_code_points)
  then show ?thesis by (simp add: units_of_cp_def)
qed

lemma text_decode_encode: "plain_text s \<Longrightarrow> text_decode (text_encode s) = s"
  using code_points_take_one [of s]
  by (auto simp: text_decode_encode_general code_points_scalar_id plain_text_def drop_bom_cp_def)

lemma text_encode_inj: "plain_text s \<Longrightarrow> plain_text t \<Longrightarrow> text_encode s = text_encode t \<Longrightarrow> s = t"
  by (metis text_decode_encode)

lemma text_decode_encode_bom:
  assumes "well_formed s"
  shows "text_decode (text_encode (0xFEFF # s)) = s"
proof -
  have "code_points (0xFEFF # s) = 0xFEFF # code_points s"
    by (cases s) (auto simp: is_high_def)
  with assms show ?thesis
    by (simp add: text_decode_encode_general code_points_scalar_id drop_bom_cp_def to_scalar_def)
qed

section \<open>Trimming\<close>

text \<open>White space and line terminators, as \<open>String.prototype.trim\<close> removes them.\<close>

definition js_space :: "16 word \<Rightarrow> bool" where
  "js_space u \<longleftrightarrow>
     (9 \<le> u \<and> u \<le> 13) \<or> u = 0x20 \<or> u = 0xA0 \<or> u = 0x1680 \<or> (0x2000 \<le> u \<and> u \<le> 0x200A) \<or>
     u = 0x2028 \<or> u = 0x2029 \<or> u = 0x202F \<or> u = 0x205F \<or> u = 0x3000 \<or> u = 0xFEFF"

definition trim_by :: "('a \<Rightarrow> bool) \<Rightarrow> 'a list \<Rightarrow> 'a list" where
  "trim_by ws xs = rev (dropWhile ws (rev (dropWhile ws xs)))"

definition js_trim :: "jstr \<Rightarrow> jstr" where
  "js_trim = trim_by js_space"

definition char_space :: "char \<Rightarrow> bool" where
  "char_space c = js_space (of_nat (of_char c))"

definition str_trim :: "string \<Rightarrow> string" where
  "str_trim = trim_by char_space"

lemma dropWhile_idem [simp]: "dropWhile P (dropWhile P xs) = dropWhile P xs"
  by (induction xs) auto

lemma hd_trim_by: "trim_by ws xs \<noteq> [] \<Longrightarrow> \<not> ws (hd (trim_by ws xs))"
proof -
  assume ne: "trim_by ws xs \<noteq> []"
  let ?ys = "dropWhile ws xs"
  obtain zs where zs: "?ys = trim_by ws xs @ zs"
    by (metis trim_by_def rev_append rev_rev_ident takeWhile_dropWhile_id)
  with ne have "hd (trim_by ws xs) = hd ?ys" "?ys \<noteq> []" by auto
  then show ?thesis by (simp add: hd_dropWhile)
qed

lemma last_trim_by: "trim_by ws xs \<noteq> [] \<Longrightarrow> \<not> ws (last (trim_by ws xs))"
  by (simp add: trim_by_def last_rev hd_dropWhile)

lemma trim_by_unchanged:
  assumes "xs = [] \<or> (\<not> ws (hd xs) \<and> \<not> ws (last xs))"
  shows "trim_by ws xs = xs"
proof (cases xs)
  case Nil
  then show ?thesis by (simp add: trim_by_def)
next
  case (Cons x ys)
  with assms have "dropWhile ws xs = xs" by simp
  moreover have "dropWhile ws (rev xs) = rev xs"
  proof (cases "rev xs")
    case (Cons z zs)
    then have "last xs = z" by (metis last_rev list.sel(1) rev_rev_ident)
    with assms Cons show ?thesis by auto
  qed simp
  ultimately show ?thesis by (simp add: trim_by_def)
qed

lemma trim_by_idem [simp]: "trim_by ws (trim_by ws xs) = trim_by ws xs"
  using hd_trim_by last_trim_by by (intro trim_by_unchanged) blast

lemma js_trim_no_bom: "take 1 (js_trim s) \<noteq> [0xFEFF]"
proof
  assume t: "take 1 (js_trim s) = [0xFEFF]"
  then have "js_trim s \<noteq> []" "hd (js_trim s) = 0xFEFF"
    by (cases "js_trim s"; auto)+
  then show False using hd_trim_by [of js_space s] by (simp add: js_trim_def js_space_def)
qed

end
