(* ===== verification/Crypto_Core.thy ===== *)
theory Crypto_Core
  imports Bytes_Hex Text_Codec
begin

text \<open>
  \<open>lib/crypto/core.ts\<close>, which both clients share byte for byte: identities, fingerprints and
  safety numbers, the sealing and opening of one message, and the wrapped key backup.

  The primitives come from third-party packages (\<open>@noble/curves\<close>, \<open>@noble/ciphers\<close>,
  \<open>@noble/hashes\<close>), so they are a parameter of every definition: a record \<open>primitives\<close>.
  A primitive the code lets throw has an option result. What the code relies on is stated by
  the predicates \<open>gcm_correct\<close>, \<open>agreement\<close> and \<open>signing_correct\<close>, the documented behaviour
  of an AEAD, of X25519 and of Ed25519. Random bytes are arguments.
\<close>

section \<open>Sizes and the key derivation cost\<close>

definition PUBLIC_KEY_BYTES :: nat where "PUBLIC_KEY_BYTES = 32"
definition PRIVATE_KEY_BYTES :: nat where "PRIVATE_KEY_BYTES = 32"
definition NONCE_BYTES :: nat where "NONCE_BYTES = 12"
definition FRANKING_KEY_BYTES :: nat where "FRANKING_KEY_BYTES = 32"
definition SALT_BYTES :: nat where "SALT_BYTES = 16"

definition KDF_MEMORY_KIB :: nat where "KDF_MEMORY_KIB = 19456"
definition KDF_ITERATIONS :: nat where "KDF_ITERATIONS = 2"
definition KDF_PARALLELISM :: nat where "KDF_PARALLELISM = 1"

record kdf_cost =
  memoryKib :: nat
  iterations :: nat
  parallelism :: nat

definition DEFAULT_KDF_COST :: kdf_cost where
  "DEFAULT_KDF_COST =
     \<lparr>memoryKib = KDF_MEMORY_KIB, iterations = KDF_ITERATIONS, parallelism = KDF_PARALLELISM\<rparr>"

section \<open>The third-party primitives\<close>

record primitives =
  x25519_public :: "bytes \<Rightarrow> bytes"
  x25519_shared :: "bytes \<Rightarrow> bytes \<Rightarrow> bytes option"
  ed25519_public :: "bytes \<Rightarrow> bytes"
  ed25519_sign :: "bytes \<Rightarrow> bytes \<Rightarrow> bytes"
  ed25519_verify :: "bytes \<Rightarrow> bytes \<Rightarrow> bytes \<Rightarrow> bool option"
  gcm_encrypt :: "bytes \<Rightarrow> bytes \<Rightarrow> bytes \<Rightarrow> bytes"
  gcm_decrypt :: "bytes \<Rightarrow> bytes \<Rightarrow> bytes \<Rightarrow> bytes option"
  hkdf_sha256 :: "bytes \<Rightarrow> bytes option \<Rightarrow> bytes \<Rightarrow> nat \<Rightarrow> bytes"
  hmac_sha256 :: "bytes \<Rightarrow> bytes \<Rightarrow> bytes"
  sha256 :: "bytes \<Rightarrow> bytes"
  argon2id :: "bytes \<Rightarrow> bytes \<Rightarrow> kdf_cost \<Rightarrow> nat \<Rightarrow> bytes"

text \<open>What the code relies on, as the packages document it: an AEAD opens what it sealed under the
  same 32-byte key and 12-byte nonce, and adds a tag of 16 bytes; both ends of an agreement between 32-byte keys reach the
  same secret; public keys have 32 bytes; a signature has 64 bytes and verifies under the public
  half of the key that made it; a derived key has the length that was asked for, and a SHA-256 digest has 32 bytes.\<close>

definition gcm_correct :: "primitives \<Rightarrow> bool" where
  "gcm_correct P \<longleftrightarrow>
     (\<forall>key nonce m. length key = 32 \<longrightarrow> length nonce = NONCE_BYTES \<longrightarrow>
        gcm_decrypt P key nonce (gcm_encrypt P key nonce m) = Some m \<and>
        length (gcm_encrypt P key nonce m) = length m + 16)"

definition agreement :: "primitives \<Rightarrow> bool" where
  "agreement P \<longleftrightarrow>
     (\<forall>a b. length a = PRIVATE_KEY_BYTES \<longrightarrow> length b = PRIVATE_KEY_BYTES \<longrightarrow>
        length (x25519_public P a) = PUBLIC_KEY_BYTES \<and>
        x25519_shared P a (x25519_public P b) \<noteq> None \<and>
        x25519_shared P a (x25519_public P b) = x25519_shared P b (x25519_public P a))"

definition signing_correct :: "primitives \<Rightarrow> bool" where
  "signing_correct P \<longleftrightarrow>
     (\<forall>m sk. length sk = PRIVATE_KEY_BYTES \<longrightarrow> length (ed25519_sign P m sk) = 64 \<and>
        ed25519_verify P (ed25519_sign P m sk) m (ed25519_public P sk) = Some True)"

definition digest_sizes :: "primitives \<Rightarrow> bool" where
  "digest_sizes P \<longleftrightarrow>
     (\<forall>ikm salt info n. length (hkdf_sha256 P ikm salt info n) = n) \<and>
     (\<forall>m. length (sha256 P m) = 32) \<and> (\<forall>k m. length (hmac_sha256 P k m) = 32)"

definition primitives_ok :: "primitives \<Rightarrow> bool" where
  "primitives_ok P \<longleftrightarrow> gcm_correct P \<and> agreement P \<and> signing_correct P \<and> digest_sizes P"

section \<open>Identities and messages\<close>

definition INFO_MESSAGE :: bytes where
  "INFO_MESSAGE = text_encode (units_of ''vazute/e2ee/message-key/v1'')"
definition INFO_BACKUP :: bytes where
  "INFO_BACKUP = text_encode (units_of ''vazute/e2ee/backup-key/v1'')"
definition INFO_FINGERPRINT :: bytes where
  "INFO_FINGERPRINT = text_encode (units_of ''vazute/e2ee/fingerprint/v1'')"

record identity_key_pair =
  exchangePublicKey :: bytes
  exchangePrivateKey :: bytes
  signingPublicKey :: bytes
  signingPrivateKey :: bytes

record encrypted_message =
  ciphertext :: bytes
  nonce :: bytes
  senderEphemeralKey :: bytes
  senderCopy :: "bytes option"
  frankingCommitment :: bytes
  frankingSignature :: bytes

record decrypted_message =
  plaintext :: jstr
  frankingKey :: bytes
  commitmentVerified :: bool

text \<open>\<open>array.fill(0)\<close> on the two private halves.\<close>

definition wipeIdentity :: "identity_key_pair \<Rightarrow> identity_key_pair" where
  "wipeIdentity i =
     i\<lparr>exchangePrivateKey := replicate (length (exchangePrivateKey i)) 0,
       signingPrivateKey := replicate (length (signingPrivateKey i)) 0\<rparr>"

text \<open>The two secret keys the library draws are the arguments.\<close>

definition generateIdentity :: "primitives \<Rightarrow> bytes \<Rightarrow> bytes \<Rightarrow> identity_key_pair" where
  "generateIdentity P exchangeSecret signingSecret =
     \<lparr>exchangePublicKey = x25519_public P exchangeSecret, exchangePrivateKey = exchangeSecret,
      signingPublicKey = ed25519_public P signingSecret, signingPrivateKey = signingSecret\<rparr>"

definition identity_ok :: "primitives \<Rightarrow> identity_key_pair \<Rightarrow> bool" where
  "identity_ok P i \<longleftrightarrow>
     exchangePublicKey i = x25519_public P (exchangePrivateKey i) \<and>
     signingPublicKey i = ed25519_public P (signingPrivateKey i) \<and>
     length (exchangePrivateKey i) = PRIVATE_KEY_BYTES \<and>
     length (signingPrivateKey i) = PRIVATE_KEY_BYTES"

section \<open>Fingerprints and safety numbers\<close>

definition fingerprint :: "primitives \<Rightarrow> bytes \<Rightarrow> bytes \<Rightarrow> string" where
  "fingerprint P exchangePublic signingPublic =
     to_hex (hkdf_sha256 P (concat_bytes [exchangePublic, signingPublic]) None INFO_FINGERPRINT 32)"

definition peerFingerprint :: "primitives \<Rightarrow> string \<Rightarrow> string \<Rightarrow> core_error + string" where
  "peerFingerprint P exchangePublicHex signingPublicHex =
     bindE (from_hex exchangePublicHex) (\<lambda>e.
     bindE (from_hex signingPublicHex) (\<lambda>s.
     Inr (fingerprint P e s)))"

definition assertPeerFingerprint ::
  "primitives \<Rightarrow> string \<Rightarrow> string \<Rightarrow> string \<Rightarrow> core_error + string" where
  "assertPeerFingerprint P exchangePublicHex signingPublicHex statedFingerprint =
     bindE (peerFingerprint P exchangePublicHex signingPublicHex) (\<lambda>computed.
     if statedFingerprint \<noteq> [] \<and> computed \<noteq> to_lower statedFingerprint
     then Inl FingerprintMismatch else Inr computed)"

definition safetyNumber :: "primitives \<Rightarrow> string \<Rightarrow> string \<Rightarrow> string" where
  "safetyNumber P first second =
     (let ordered = sort [first, second];
          digest = to_hex (sha256 P (text_encode (units_of (join_with '':'' ordered))))
      in join_with '' '' (chunks 4 (take 40 digest)))"

section \<open>Sealing and opening a message\<close>

definition messageKey :: "primitives \<Rightarrow> bytes \<Rightarrow> bytes \<Rightarrow> bytes" where
  "messageKey P sharedSecret ephemeralPublicKey =
     hkdf_sha256 P sharedSecret (Some ephemeralPublicKey) INFO_MESSAGE 32"

definition franking_commitment :: "primitives \<Rightarrow> bytes \<Rightarrow> jstr \<Rightarrow> bytes" where
  "franking_commitment P key text = hmac_sha256 P key (text_encode text)"

text \<open>\<open>clientNonce.replace(/-/g, '')\<close>.\<close>

definition without_dashes :: "string \<Rightarrow> string" where
  "without_dashes s = filter (\<lambda>c. c \<noteq> CHR ''-'') s"

definition frankingSigningPayload :: "bytes \<Rightarrow> string \<Rightarrow> core_error + bytes" where
  "frankingSigningPayload commitment clientNonce =
     bindE (from_hex (without_dashes clientNonce)) (\<lambda>n. Inr (concat_bytes [commitment, n]))"

definition verifyFrankingSignature ::
  "primitives \<Rightarrow> bytes \<Rightarrow> bytes \<Rightarrow> bytes \<Rightarrow> string \<Rightarrow> bool" where
  "verifyFrankingSignature P commitment signature signingPublic clientNonce =
     (case frankingSigningPayload commitment clientNonce of
        Inl _ \<Rightarrow> False
      | Inr payload \<Rightarrow> (case ed25519_verify P signature payload signingPublic of
                          None \<Rightarrow> False | Some b \<Rightarrow> b))"

text \<open>The random values one call draws, in the order it draws them.\<close>

record encrypt_random =
  rnd_ephemeral :: bytes
  rnd_franking :: bytes
  rnd_nonce :: bytes

definition encryptMessage ::
  "primitives \<Rightarrow> encrypt_random \<Rightarrow> jstr \<Rightarrow> bytes \<Rightarrow> bytes \<Rightarrow> bytes \<Rightarrow> string \<Rightarrow>
   core_error + encrypted_message" where
  "encryptMessage P r text recipientExchangePublic senderExchangePublic senderSigningPrivate clientNonce =
     (if equal_bytes recipientExchangePublic senderExchangePublic then Inl SelfAddressed
      else
        let ephemeralPublic = x25519_public P (rnd_ephemeral r) in
        bindE (ofOption PrimitiveThrow (x25519_shared P (rnd_ephemeral r) recipientExchangePublic))
          (\<lambda>shared.
        let key = messageKey P shared ephemeralPublic;
            commitment = franking_commitment P (rnd_franking r) text;
            payload = concat_bytes [rnd_franking r, text_encode text];
            ct = gcm_encrypt P key (rnd_nonce r) payload in
        bindE (ofOption PrimitiveThrow (x25519_shared P (rnd_ephemeral r) senderExchangePublic))
          (\<lambda>senderShared.
        let copy = gcm_encrypt P (messageKey P senderShared ephemeralPublic) (rnd_nonce r) key in
        bindE (frankingSigningPayload commitment clientNonce) (\<lambda>toSign.
        Inr \<lparr>ciphertext = ct, nonce = rnd_nonce r, senderEphemeralKey = ephemeralPublic,
             senderCopy = Some copy, frankingCommitment = commitment,
             frankingSignature = ed25519_sign P toSign senderSigningPrivate\<rparr>))))"

definition openSenderCopy :: "primitives \<Rightarrow> encrypted_message \<Rightarrow> bytes \<Rightarrow> bytes option" where
  "openSenderCopy P message derivedKey =
     (case senderCopy message of
        None \<Rightarrow> None
      | Some copy \<Rightarrow> if copy = [] then None else gcm_decrypt P derivedKey (nonce message) copy)"

definition decryptMessage ::
  "primitives \<Rightarrow> encrypted_message \<Rightarrow> bytes \<Rightarrow> core_error + decrypted_message" where
  "decryptMessage P message exchangePrivate =
     bindE (ofOption PrimitiveThrow (x25519_shared P exchangePrivate (senderEphemeralKey message)))
       (\<lambda>shared.
     let derived = messageKey P shared (senderEphemeralKey message);
         key = (case openSenderCopy P message derived of None \<Rightarrow> derived | Some k \<Rightarrow> k) in
     bindE (ofOption PrimitiveThrow (gcm_decrypt P key (nonce message) (ciphertext message)))
       (\<lambda>payload.
     let fk = take FRANKING_KEY_BYTES payload;
         text = text_decode (drop FRANKING_KEY_BYTES payload) in
     Inr \<lparr>plaintext = text, frankingKey = fk,
          commitmentVerified = equal_bytes (franking_commitment P fk text) (frankingCommitment message)\<rparr>))"

section \<open>The wrapped backup and the recovery code\<close>

definition deriveWrappingKey :: "primitives \<Rightarrow> jstr \<Rightarrow> bytes \<Rightarrow> kdf_cost \<Rightarrow> bytes" where
  "deriveWrappingKey P secret salt cost = argon2id P (text_encode secret) salt cost 32"

definition serializeIdentity :: "identity_key_pair \<Rightarrow> bytes" where
  "serializeIdentity i = concat_bytes [exchangePrivateKey i, signingPrivateKey i]"

definition deserializeIdentity :: "primitives \<Rightarrow> bytes \<Rightarrow> core_error + identity_key_pair" where
  "deserializeIdentity P bs =
     (if length bs \<noteq> PRIVATE_KEY_BYTES * 2 then Inl WrappedLength
      else let ex = take PRIVATE_KEY_BYTES bs; sg = drop PRIVATE_KEY_BYTES bs in
           Inr \<lparr>exchangePublicKey = x25519_public P ex, exchangePrivateKey = ex,
                signingPublicKey = ed25519_public P sg, signingPrivateKey = sg\<rparr>)"

definition backupKey :: "primitives \<Rightarrow> bytes \<Rightarrow> bytes" where
  "backupKey P wrappingKey = hkdf_sha256 P wrappingKey None INFO_BACKUP 32"

definition wrapIdentity :: "primitives \<Rightarrow> bytes \<Rightarrow> identity_key_pair \<Rightarrow> bytes \<Rightarrow> bytes" where
  "wrapIdentity P freshNonce identity wrappingKey =
     concat_bytes [freshNonce,
       gcm_encrypt P (backupKey P wrappingKey) freshNonce (serializeIdentity identity)]"

definition unwrapIdentity :: "primitives \<Rightarrow> bytes \<Rightarrow> bytes \<Rightarrow> core_error + identity_key_pair" where
  "unwrapIdentity P wrapped wrappingKey =
     (if length wrapped \<le> NONCE_BYTES then Inl WrappedTruncated
      else bindE (ofOption PrimitiveThrow
                    (gcm_decrypt P (backupKey P wrappingKey) (take NONCE_BYTES wrapped)
                      (drop NONCE_BYTES wrapped)))
             (deserializeIdentity P))"

definition recovery_alphabet :: string where
  "recovery_alphabet = ''23456789ABCDEFGHJKLMNPQRSTUVWXYZ''"

text \<open>The twenty random bytes are the argument.\<close>

definition generateRecoveryCode :: "bytes \<Rightarrow> string" where
  "generateRecoveryCode random =
     (let characters = map (\<lambda>b. recovery_alphabet ! (unat b mod length recovery_alphabet)) random
      in join_with ''-'' (chunks 5 characters))"

section \<open>Lemmas\<close>

definition random_ok :: "encrypt_random \<Rightarrow> bool" where
  "random_ok r \<longleftrightarrow>
     length (rnd_ephemeral r) = PRIVATE_KEY_BYTES \<and> length (rnd_franking r) = FRANKING_KEY_BYTES \<and>
     length (rnd_nonce r) = NONCE_BYTES"

lemmas core_sizes = PRIVATE_KEY_BYTES_def PUBLIC_KEY_BYTES_def NONCE_BYTES_def FRANKING_KEY_BYTES_def

lemma length_messageKey: "primitives_ok P \<Longrightarrow> length (messageKey P s e) = 32"
  by (simp add: primitives_ok_def digest_sizes_def messageKey_def)

lemma length_backupKey: "primitives_ok P \<Longrightarrow> length (backupKey P w) = 32"
  by (simp add: primitives_ok_def digest_sizes_def backupKey_def)

lemma gcm_round_trip:
  "primitives_ok P \<Longrightarrow> length key = 32 \<Longrightarrow> length n = NONCE_BYTES \<Longrightarrow>
   gcm_decrypt P key n (gcm_encrypt P key n m) = Some m"
  by (simp add: primitives_ok_def gcm_correct_def)

lemma gcm_nonempty:
  "primitives_ok P \<Longrightarrow> length key = 32 \<Longrightarrow> length n = NONCE_BYTES \<Longrightarrow>
   length (gcm_encrypt P key n m) = length m + 16"
  by (simp add: primitives_ok_def gcm_correct_def)

lemma agreement_sym:
  "primitives_ok P \<Longrightarrow> length a = PRIVATE_KEY_BYTES \<Longrightarrow> length b = PRIVATE_KEY_BYTES \<Longrightarrow>
   x25519_shared P b (x25519_public P a) = x25519_shared P a (x25519_public P b)"
  by (simp add: primitives_ok_def agreement_def)

text \<open>What a successful seal consists of.\<close>

lemma encryptMessage_InrD:
  assumes "encryptMessage P r text rpub spub sk n = Inr m"
  obtains shared senderShared payload where
    "rpub \<noteq> spub"
    and "x25519_shared P (rnd_ephemeral r) rpub = Some shared"
    and "x25519_shared P (rnd_ephemeral r) spub = Some senderShared"
    and "frankingSigningPayload (franking_commitment P (rnd_franking r) text) n = Inr payload"
    and "m = \<lparr>ciphertext = gcm_encrypt P (messageKey P shared (x25519_public P (rnd_ephemeral r)))
              (rnd_nonce r) (rnd_franking r @ text_encode text),
            nonce = rnd_nonce r, senderEphemeralKey = x25519_public P (rnd_ephemeral r),
            senderCopy = Some (gcm_encrypt P
              (messageKey P senderShared (x25519_public P (rnd_ephemeral r))) (rnd_nonce r)
              (messageKey P shared (x25519_public P (rnd_ephemeral r)))),
            frankingCommitment = franking_commitment P (rnd_franking r) text,
            frankingSignature = ed25519_sign P payload sk\<rparr>"
  using assms
  by (auto simp: encryptMessage_def bindE_Inr_iff ofOption_Inr_iff Let_def split: if_splits)

lemma encryptMessage_self: "encryptMessage P r text pub pub sk n = Inl SelfAddressed"
  by (simp add: encryptMessage_def)

text \<open>Opening with the direct key, once the sender's copy is known not to open under it.\<close>

lemma decryptMessage_direct:
  assumes "x25519_shared P priv (senderEphemeralKey m) = Some s"
    and "openSenderCopy P m (messageKey P s (senderEphemeralKey m)) = None"
    and "gcm_decrypt P (messageKey P s (senderEphemeralKey m)) (nonce m) (ciphertext m) = Some (fk @ bs)"
    and "length fk = FRANKING_KEY_BYTES"
  shows "decryptMessage P m priv = Inr \<lparr>plaintext = text_decode bs, frankingKey = fk,
     commitmentVerified = (franking_commitment P fk (text_decode bs) = frankingCommitment m)\<rparr>"
  using assms by (simp add: decryptMessage_def Let_def)

lemma decryptMessage_copy:
  assumes "x25519_shared P priv (senderEphemeralKey m) = Some s"
    and "openSenderCopy P m (messageKey P s (senderEphemeralKey m)) = Some k"
    and "gcm_decrypt P k (nonce m) (ciphertext m) = Some (fk @ bs)"
    and "length fk = FRANKING_KEY_BYTES"
  shows "decryptMessage P m priv = Inr \<lparr>plaintext = text_decode bs, frankingKey = fk,
     commitmentVerified = (franking_commitment P fk (text_decode bs) = frankingCommitment m)\<rparr>"
  using assms by (simp add: decryptMessage_def Let_def)

text \<open>Both parties reach the text the encoding decodes to.\<close>

lemma recipient_opens_decoded:
  assumes ok: "primitives_ok P" "random_ok r" "length rsk = PRIVATE_KEY_BYTES"
    and enc: "encryptMessage P r text (x25519_public P rsk) spub sk n = Inr m"
    and other: "\<And>s. x25519_shared P rsk (senderEphemeralKey m) = Some s \<Longrightarrow>
       openSenderCopy P m (messageKey P s (senderEphemeralKey m)) = None"
  shows "decryptMessage P m rsk = Inr \<lparr>plaintext = text_decode (text_encode text),
     frankingKey = rnd_franking r,
     commitmentVerified = (franking_commitment P (rnd_franking r) (text_decode (text_encode text)) =
                           franking_commitment P (rnd_franking r) text)\<rparr>"
proof -
  from enc obtain shared where
    sh: "x25519_shared P (rnd_ephemeral r) (x25519_public P rsk) = Some shared"
    and m: "senderEphemeralKey m = x25519_public P (rnd_ephemeral r)" "nonce m = rnd_nonce r"
      "ciphertext m = gcm_encrypt P (messageKey P shared (senderEphemeralKey m)) (nonce m)
         (rnd_franking r @ text_encode text)"
      "frankingCommitment m = franking_commitment P (rnd_franking r) text"
    by (elim encryptMessage_InrD) auto
  have s: "x25519_shared P rsk (senderEphemeralKey m) = Some shared"
    using ok sh by (simp add: m agreement_sym random_ok_def)
  show ?thesis
    using decryptMessage_direct [OF s other [OF s], of "rnd_franking r" "text_encode text"] ok m
    by (simp add: gcm_round_trip length_messageKey random_ok_def)
qed

lemma sender_opens_decoded:
  assumes ok: "primitives_ok P" "random_ok r" "length ssk = PRIVATE_KEY_BYTES"
    and enc: "encryptMessage P r text rpub (x25519_public P ssk) sk n = Inr m"
  shows "decryptMessage P m ssk = Inr \<lparr>plaintext = text_decode (text_encode text),
     frankingKey = rnd_franking r,
     commitmentVerified = (franking_commitment P (rnd_franking r) (text_decode (text_encode text)) =
                           franking_commitment P (rnd_franking r) text)\<rparr>"
proof -
  from enc obtain shared senderShared where
    sh: "x25519_shared P (rnd_ephemeral r) (x25519_public P ssk) = Some senderShared"
    and m: "senderEphemeralKey m = x25519_public P (rnd_ephemeral r)" "nonce m = rnd_nonce r"
      "ciphertext m = gcm_encrypt P (messageKey P shared (senderEphemeralKey m)) (nonce m)
         (rnd_franking r @ text_encode text)"
      "senderCopy m = Some (gcm_encrypt P (messageKey P senderShared (senderEphemeralKey m)) (nonce m)
         (messageKey P shared (senderEphemeralKey m)))"
      "frankingCommitment m = franking_commitment P (rnd_franking r) text"
    by (elim encryptMessage_InrD) auto
  have s: "x25519_shared P ssk (senderEphemeralKey m) = Some senderShared"
    using ok sh by (simp add: m agreement_sym random_ok_def)
  have "senderCopy m \<noteq> Some []"
    using ok m gcm_nonempty [of P "messageKey P senderShared (senderEphemeralKey m)" "nonce m"
        "messageKey P shared (senderEphemeralKey m)"]
    by (auto simp: length_messageKey random_ok_def)
  with m ok have o: "openSenderCopy P m (messageKey P senderShared (senderEphemeralKey m)) =
      Some (messageKey P shared (senderEphemeralKey m))"
    by (simp add: openSenderCopy_def gcm_round_trip length_messageKey random_ok_def)
  show ?thesis
    using decryptMessage_copy [OF s o, of "rnd_franking r" "text_encode text"] ok m
    by (simp add: gcm_round_trip length_messageKey random_ok_def)
qed

text \<open>The commitment only decides the verdict of \<open>decryptMessage\<close>, not what it opens.\<close>

lemma openSenderCopy_other_commitment [simp]:
  "openSenderCopy P (m\<lparr>frankingCommitment := c, frankingSignature := s\<rparr>) k = openSenderCopy P m k"
  by (simp add: openSenderCopy_def split: option.splits)

lemma decryptMessage_other_commitment:
  assumes "decryptMessage P m k = Inr r"
  shows "\<exists>r'. decryptMessage P (m\<lparr>frankingCommitment := c, frankingSignature := s\<rparr>) k = Inr r' \<and>
    plaintext r' = plaintext r \<and> frankingKey r' = frankingKey r"
proof -
  from assms obtain shared payload where
    "x25519_shared P k (senderEphemeralKey m) = Some shared"
    "gcm_decrypt P (case openSenderCopy P m (messageKey P shared (senderEphemeralKey m)) of
        None \<Rightarrow> messageKey P shared (senderEphemeralKey m) | Some k \<Rightarrow> k) (nonce m) (ciphertext m) = Some payload"
    "plaintext r = text_decode (drop FRANKING_KEY_BYTES payload)"
    "frankingKey r = take FRANKING_KEY_BYTES payload"
    by (auto simp: decryptMessage_def bindE_Inr_iff ofOption_Inr_iff Let_def)
  then show ?thesis by (simp add: decryptMessage_def Let_def)
qed

lemma length_signature:
  "primitives_ok P \<Longrightarrow> length sk = PRIVATE_KEY_BYTES \<Longrightarrow> length (ed25519_sign P m sk) = 64"
  by (simp add: primitives_ok_def signing_correct_def)

lemma length_exchange_public:
  "primitives_ok P \<Longrightarrow> length a = PRIVATE_KEY_BYTES \<Longrightarrow> length (x25519_public P a) = 32"
  unfolding primitives_ok_def agreement_def PUBLIC_KEY_BYTES_def by blast

lemma length_commitment: "primitives_ok P \<Longrightarrow> length (franking_commitment P k t) = 32"
  by (simp add: primitives_ok_def digest_sizes_def franking_commitment_def)

end
