(* ===== verification/Core_Claims.thy ===== *)
theory Core_Claims
  imports Crypto_Core
begin

text \<open>
  What \<open>lib/crypto/core.ts\<close> promises, proved for every instance of the primitives that satisfies
  their documented behaviour, and the concrete instance the witnesses evaluate.
\<close>

section \<open>A concrete instance of the primitives\<close>

definition pad32 :: "bytes \<Rightarrow> bytes" where
  "pad32 m = take 32 (m @ replicate 32 0)"

definition pad64 :: "bytes \<Rightarrow> bytes" where
  "pad64 m = take 64 (m @ replicate 64 0)"

definition sample_primitives :: primitives where
  "sample_primitives =
     \<lparr>x25519_public = (\<lambda>a. a), x25519_shared = (\<lambda>a b. Some (map2 (+) a b)),
      ed25519_public = (\<lambda>a. a), ed25519_sign = (\<lambda>m sk. pad64 (sk @ m)),
      ed25519_verify = (\<lambda>sig m pk. Some (sig = pad64 (pk @ m))),
      gcm_encrypt = (\<lambda>k n m. take 16 k @ m),
      gcm_decrypt = (\<lambda>k n c. if take 16 c = take 16 k then Some (drop 16 c) else None),
      hkdf_sha256 = (\<lambda>ikm salt info n.
        take n (ikm @ (case salt of None \<Rightarrow> [] | Some s \<Rightarrow> s) @ replicate n 0)),
      hmac_sha256 = (\<lambda>k m. pad32 (k @ m)), sha256 = pad32,
      argon2id = (\<lambda>s salt cost n. take n (s @ salt @ replicate n 0))\<rparr>"

lemma map2_plus_sym: "map2 (+) a b = map2 (+) b (a :: byte list)"
  by (induction a arbitrary: b) (auto simp: zip_Cons1 add.commute split: list.splits)

lemma sample_primitives_ok: "primitives_ok sample_primitives"
  by (auto simp: primitives_ok_def gcm_correct_def agreement_def signing_correct_def digest_sizes_def
      sample_primitives_def pad32_def pad64_def map2_plus_sym core_sizes)

definition sample_random :: encrypt_random where
  "sample_random = \<lparr>rnd_ephemeral = replicate 32 1, rnd_franking = replicate 32 2,
     rnd_nonce = replicate 12 3\<rparr>"

lemma sample_random_ok: "random_ok sample_random"
  by (simp add: random_ok_def sample_random_def core_sizes)

text \<open>A sealed message: recipient key 5, sender key 7, text \<open>hi\<close>.\<close>

definition sample_message :: encrypted_message where
  "sample_message =
     (let commitment = pad32 (replicate 32 2 @ text_encode (units_of ''hi'')) in
      \<lparr>ciphertext = replicate 16 6 @ replicate 32 2 @ text_encode (units_of ''hi''),
       nonce = replicate 12 3, senderEphemeralKey = replicate 32 1,
       senderCopy = Some (replicate 16 8 @ replicate 32 6), frankingCommitment = commitment,
       frankingSignature = pad64 (replicate 32 7 @ commitment @ [0xAB, 0xCD])\<rparr>)"

lemma sample_nonce: "from_hex (without_dashes ''ab-cd'') = Inr [0xAB, 0xCD]"
  by code_simp

lemmas sample_simps = sample_message_def sample_primitives_def sample_random_def Let_def

lemma sample_encrypts:
  "encryptMessage sample_primitives sample_random (units_of ''hi'')
     (x25519_public sample_primitives (replicate 32 5)) (x25519_public sample_primitives (replicate 32 7))
     (replicate 32 7) ''ab-cd'' = Inr sample_message"
  by (simp add: encryptMessage_def sample_simps messageKey_def franking_commitment_def
      frankingSigningPayload_def sample_nonce replicate_eq_replicate)

lemma sample_plain: "plain_text (units_of ''hi'')"
  by code_simp

section \<open>Messages\<close>

text \<open>A message sealed by \<open>encryptMessage\<close> is opened by its recipient: whatever the sender's key,
  \<open>decryptMessage\<close> returns the exact text with its franking key and a commitment that verifies.
  The text must be plain (well-formed UTF-16 not starting with a byte order mark), and the
  sender's copy must not authenticate under the recipient's key.\<close>

theorem recipient_opens:
  assumes "primitives_ok P" and "random_ok r" and "length rsk = PRIVATE_KEY_BYTES"
    and "plain_text txt"
    and "encryptMessage P r txt (x25519_public P rsk) spub sk n = Inr m"
    and "\<And>s. x25519_shared P rsk (senderEphemeralKey m) = Some s \<Longrightarrow>
           openSenderCopy P m (messageKey P s (senderEphemeralKey m)) = None"
  shows "decryptMessage P m rsk =
    Inr \<lparr>plaintext = txt, frankingKey = rnd_franking r, commitmentVerified = True\<rparr>"
  using recipient_opens_decoded [OF assms(1,2,3,5,6)] assms(4) by (simp add: text_decode_encode)

theorem recipient_opens_witness:
  "decryptMessage sample_primitives sample_message (replicate 32 5) =
    Inr \<lparr>plaintext = units_of ''hi'', frankingKey = rnd_franking sample_random,
      commitmentVerified = True\<rparr>"
  by (rule recipient_opens [OF sample_primitives_ok sample_random_ok _ sample_plain sample_encrypts])
    (auto simp: openSenderCopy_def sample_simps messageKey_def core_sizes replicate_eq_replicate)

text \<open>The author of a message opens it again with their own private key, through the copy of the
  message key sealed under it: the same text, the same franking key, and a commitment that
  verifies. This holds whatever the recipient's key, so a conversation reads on both ends.\<close>

theorem sender_opens:
  assumes "primitives_ok P" and "random_ok r" and "length ssk = PRIVATE_KEY_BYTES"
    and "plain_text txt"
    and "encryptMessage P r txt rpub (x25519_public P ssk) sk n = Inr m"
  shows "decryptMessage P m ssk =
    Inr \<lparr>plaintext = txt, frankingKey = rnd_franking r, commitmentVerified = True\<rparr>"
  using sender_opens_decoded [OF assms(1,2,3,5)] assms(4) by (simp add: text_decode_encode)

theorem sender_opens_witness:
  "decryptMessage sample_primitives sample_message (replicate 32 7) =
    Inr \<lparr>plaintext = units_of ''hi'', frankingKey = rnd_franking sample_random,
      commitmentVerified = True\<rparr>"
  by (rule sender_opens [OF sample_primitives_ok sample_random_ok _ sample_plain sample_encrypts])
    (simp add: core_sizes)

text \<open>Sealing is total on valid keys, and its only refusals are the two the code names. Between two
  different public keys it succeeds exactly when the client nonce is hexadecimal up to dashes,
  and the signature it attaches verifies under the sender's signing key for that nonce. A
  message addressed to oneself is refused before any ciphertext exists, because the body and
  the sender's copy would then share one key and one nonce.\<close>

theorem seal_outcome:
  assumes "primitives_ok P" and "random_ok r" and "length rsk = PRIVATE_KEY_BYTES"
    and "length ssk = PRIVATE_KEY_BYTES" and "length sign = PRIVATE_KEY_BYTES"
  shows "case encryptMessage P r txt (x25519_public P rsk) (x25519_public P ssk) sign n of
      Inl e \<Rightarrow> (x25519_public P rsk = x25519_public P ssk \<and> e = SelfAddressed) \<or>
               (x25519_public P rsk \<noteq> x25519_public P ssk \<and> from_hex (without_dashes n) = Inl e)
    | Inr m \<Rightarrow> x25519_public P rsk \<noteq> x25519_public P ssk \<and>
               (\<exists>nb. from_hex (without_dashes n) = Inr nb) \<and>
               verifyFrankingSignature P (frankingCommitment m) (frankingSignature m)
                 (ed25519_public P sign) n"
proof (cases "x25519_public P rsk = x25519_public P ssk")
  case True
  then show ?thesis by (simp add: encryptMessage_self)
next
  case False
  from assms obtain s1 s2 where
    "x25519_shared P (rnd_ephemeral r) (x25519_public P rsk) = Some s1"
    "x25519_shared P (rnd_ephemeral r) (x25519_public P ssk) = Some s2"
    unfolding primitives_ok_def agreement_def random_ok_def by blast
  with False assms show ?thesis
    by (cases "from_hex (without_dashes n)")
      (auto simp: encryptMessage_def Let_def frankingSigningPayload_def verifyFrankingSignature_def
        primitives_ok_def signing_correct_def)
qed

theorem seal_outcome_witness:
  "verifyFrankingSignature sample_primitives (frankingCommitment sample_message)
     (frankingSignature sample_message)
     (ed25519_public sample_primitives (replicate 32 7)) ''ab-cd''"
  using seal_outcome [OF sample_primitives_ok sample_random_ok, of "replicate 32 5" "replicate 32 7"
      "replicate 32 7" "''ab-cd''" "units_of ''hi''"] sample_encrypts
  by (simp add: core_sizes)

text \<open>The bytes a sender signs name one message: two payloads that are equal, over commitments of the
  same length, come from the same commitment and from client nonces that are the same
  identifier, up to the dashes and the case of its hexadecimal digits. So a signature cannot be
  moved to another message.\<close>

theorem signing_payload_binds:
  assumes "frankingSigningPayload c1 n1 = Inr p" and "frankingSigningPayload c2 n2 = Inr p"
    and "length c1 = length c2"
  shows "c1 = c2 \<and> to_lower (without_dashes n1) = to_lower (without_dashes n2)"
  using assms by (auto simp: frankingSigningPayload_def bindE_Inr_iff dest!: to_hex_from_hex)

theorem signing_payload_binds_witness:
  "([1, 2] :: bytes) = [1, 2] \<and> to_lower (without_dashes ''0a-FF'') = to_lower (without_dashes ''0A-f-f'')"
proof -
  have "frankingSigningPayload [1, 2] ''0a-FF'' = Inr [1, 2, 10, 255]" by code_simp
  moreover have "frankingSigningPayload [1, 2] ''0A-f-f'' = Inr [1, 2, 10, 255]" by code_simp
  ultimately show ?thesis using signing_payload_binds by blast
qed

section \<open>Backups and identities\<close>

text \<open>A wrapped identity unwraps, under the same wrapping key, to the same four keys; and nothing of
  at most twelve bytes, nor a blob whose opened content is not exactly 64 bytes, is ever taken
  for an identity.\<close>

theorem backup_round_trip:
  assumes "primitives_ok P" and "identity_ok P i" and "length fresh = NONCE_BYTES"
  shows "unwrapIdentity P (wrapIdentity P fresh i w) w = Inr i \<and>
    (\<forall>b. length b \<le> NONCE_BYTES \<longrightarrow> unwrapIdentity P b w = Inl WrappedTruncated) \<and>
    (\<forall>b j. unwrapIdentity P b w = Inr j \<longrightarrow> identity_ok P j)"
proof (intro conjI)
  have "length (gcm_encrypt P (backupKey P w) fresh (serializeIdentity i)) > 0"
    using assms by (simp add: gcm_nonempty length_backupKey)
  then show "unwrapIdentity P (wrapIdentity P fresh i w) w = Inr i"
    using assms
    by (simp add: unwrapIdentity_def wrapIdentity_def gcm_round_trip length_backupKey
        serializeIdentity_def deserializeIdentity_def identity_ok_def Let_def)
qed (auto simp: unwrapIdentity_def deserializeIdentity_def identity_ok_def bindE_Inr_iff core_sizes
        Let_def split: if_splits)

definition sample_identity :: identity_key_pair where
  "sample_identity = generateIdentity sample_primitives (replicate 32 5) (replicate 32 9)"

theorem backup_round_trip_witness:
  "unwrapIdentity sample_primitives
     (wrapIdentity sample_primitives (replicate 12 1) sample_identity (replicate 32 4))
     (replicate 32 4) = Inr sample_identity"
  by (rule backup_round_trip [OF sample_primitives_ok, THEN conjunct1])
    (simp_all add: identity_ok_def sample_identity_def generateIdentity_def sample_primitives_def core_sizes)

section \<open>Fingerprints and codes\<close>

text \<open>A stated fingerprint is never what a client trusts. \<open>assertPeerFingerprint\<close> returns a value only
  when both served keys are hexadecimal, the value is always the fingerprint computed from
  those two keys (64 lower-case hexadecimal digits), and a fingerprint that was stated must be
  that value up to case; a stated one that differs is refused as a mismatch.\<close>

theorem peer_fingerprint_computed:
  assumes "primitives_ok P"
  shows "assertPeerFingerprint P e s stated = Inr f \<longleftrightarrow>
    (\<exists>eb sb. from_hex e = Inr eb \<and> from_hex s = Inr sb \<and> f = fingerprint P eb sb \<and>
       length f = 64 \<and> (stated = [] \<or> to_lower stated = f))"
proof -
  have len: "length (fingerprint P eb sb) = 64" for eb sb
    using assms by (simp add: fingerprint_def primitives_ok_def digest_sizes_def)
  show ?thesis
    by (auto simp: assertPeerFingerprint_def peerFingerprint_def bindE_Inr_iff split: if_splits)
      (metis len)+
qed

theorem peer_fingerprint_computed_witness:
  "assertPeerFingerprint sample_primitives ''0a'' ''0B'' [] =
     Inr (fingerprint sample_primitives [10] [11])"
proof -
  have "from_hex ''0a'' = Inr [10]" "from_hex ''0B'' = Inr [11]" by code_simp+
  moreover have "length (fingerprint sample_primitives [10] [11]) = 64"
    by (simp add: fingerprint_def sample_primitives_def)
  ultimately show ?thesis
    by (subst peer_fingerprint_computed [OF sample_primitives_ok]) simp
qed

text \<open>Two people read the same safety number whichever of them computes it, and it is always ten
  groups of four lower-case hexadecimal digits separated by single spaces.\<close>

theorem safety_number_shared:
  assumes "primitives_ok P"
  shows "safetyNumber P a b = safetyNumber P b a \<and>
    (\<exists>gs. safetyNumber P a b = join_with '' '' gs \<and> length gs = 10 \<and>
       (\<forall>g \<in> set gs. length g = 4 \<and> list_all is_hex g))"
proof
  show "safetyNumber P a b = safetyNumber P b a"
    by (simp add: safetyNumber_def insort_key_left_comm) (metis linorder_not_less order.asym order.strict_iff_not)
  define d where "d = to_hex (sha256 P (text_encode (units_of (join_with '':'' (sort [a, b])))))"
  have len: "length (take 40 d) = 10 * 4"
    using assms by (simp add: d_def primitives_ok_def digest_sizes_def)
  have "set (take 40 d) \<subseteq> {c. is_hex c}"
    using list_all_hex_to_hex by (force simp: d_def list_all_iff dest: in_set_takeD)
  then have "\<forall>g \<in> set (chunks 4 (take 40 d)). length g = 4 \<and> list_all is_hex g"
    using chunks_exact [OF len] chunks_elements [of 4 _ "take 40 d"] by (fastforce simp: list_all_iff)
  moreover have "length (chunks 4 (take 40 d)) = 10" using len by (simp add: length_chunks)
  ultimately show "\<exists>gs. safetyNumber P a b = join_with '' '' gs \<and> length gs = 10 \<and>
       (\<forall>g \<in> set gs. length g = 4 \<and> list_all is_hex g)"
    unfolding safetyNumber_def Let_def d_def by blast
qed

theorem safety_number_shared_witness:
  "safetyNumber sample_primitives ''ab'' ''cd'' = safetyNumber sample_primitives ''cd'' ''ab''"
  by (rule safety_number_shared [OF sample_primitives_ok, THEN conjunct1])

lemma residues_256:
  assumes "i < 32"
  shows "length (filter (\<lambda>b. b mod 32 = i) [0..<256]) = 8"
proof -
  have "set (filter (\<lambda>b. b mod 32 = i) [0..<256]) = (\<lambda>k. 32 * k + i) ` {..<8}"
  proof (intro set_eqI iffI)
    fix b assume "b \<in> set (filter (\<lambda>b. b mod 32 = i) [0..<256])"
    then have "b = 32 * (b div 32) + i" "b div 32 < 8" by auto
    then show "b \<in> (\<lambda>k. 32 * k + i) ` {..<8}" by blast
  qed (use assms in auto)
  moreover have "card ((\<lambda>k. 32 * k + i) ` {..<(8 :: nat)}) = 8"
    by (simp add: card_image inj_on_def)
  moreover have "distinct (filter (\<lambda>b. b mod 32 = i) [0..<256])" by simp
  ultimately show ?thesis by (metis distinct_card)
qed

lemma alphabet_share:
  assumes "i < length recovery_alphabet"
  shows "length (filter (\<lambda>b. recovery_alphabet ! (b mod length recovery_alphabet) =
      recovery_alphabet ! i) [0..<256]) = 8"
proof -
  have d: "distinct recovery_alphabet" by code_simp
  have l: "length recovery_alphabet = 32" by code_simp
  have "recovery_alphabet ! (b mod 32) = recovery_alphabet ! i \<longleftrightarrow> b mod 32 = i" for b
    using d l assms by (simp add: nth_eq_iff_index_eq)
  then show ?thesis using residues_256 [of i] assms by (simp add: l)
qed

text \<open>A recovery code made from twenty random bytes is four dash-separated groups of five characters
  of the 32-letter alphabet without look-alikes, and it is unbiased: reducing a byte modulo the
  alphabet gives every letter for exactly eight of the 256 bytes.\<close>

theorem recovery_code_shape:
  assumes "length random = 20"
  shows "\<exists>gs. generateRecoveryCode random = join_with ''-'' gs \<and> length gs = 4 \<and>
      (\<forall>g \<in> set gs. length g = 5 \<and> set g \<subseteq> set recovery_alphabet) \<and>
      (\<forall>c \<in> set recovery_alphabet.
         length (filter (\<lambda>b. recovery_alphabet ! (b mod length recovery_alphabet) = c) [0..<256]) = 8)"
proof -
  define cs where "cs = map (\<lambda>b. recovery_alphabet ! (unat b mod length recovery_alphabet)) random"
  have len: "length cs = 4 * 5" using assms by (simp add: cs_def)
  have "0 < length recovery_alphabet" by (simp add: recovery_alphabet_def)
  then have "set cs \<subseteq> set recovery_alphabet" by (auto simp: cs_def)
  then have "\<forall>g \<in> set (chunks 5 cs). length g = 5 \<and> set g \<subseteq> set recovery_alphabet"
    using chunks_exact [OF len] chunks_elements [of 5 _ cs] by fastforce
  moreover have "length (chunks 5 cs) = 4" using len by (simp add: length_chunks)
  moreover have "\<forall>c \<in> set recovery_alphabet.
      length (filter (\<lambda>b. recovery_alphabet ! (b mod length recovery_alphabet) = c) [0..<256]) = 8"
    using alphabet_share by (auto simp: in_set_conv_nth)
  ultimately show ?thesis unfolding generateRecoveryCode_def Let_def cs_def by blast
qed

theorem recovery_code_shape_witness:
  "\<exists>gs. generateRecoveryCode (replicate 20 0) = join_with ''-'' gs \<and> length gs = 4"
  using recovery_code_shape [of "replicate 20 0"] by (simp, blast)

text \<open>Hexadecimal text and bytes convert without loss: every byte string survives \<open>toHex\<close> then
  \<open>fromHex\<close>; text that \<open>fromHex\<close> accepts comes back from \<open>toHex\<close> in lower case, with two digits
  per byte; and it accepts exactly the even-length strings of hexadecimal digits.\<close>

theorem hex_round_trip:
  "from_hex (to_hex bs) = Inr bs \<and>
   (case from_hex s of
      Inl e \<Rightarrow> odd (length s) \<and> e = OddHexLength \<or>
               even (length s) \<and> \<not> list_all is_hex s \<and> e = NonHexCharacter
    | Inr r \<Rightarrow> to_hex r = to_lower s \<and> length s = 2 * length r \<and> list_all is_hex s)"
proof -
  have "from_hex s = Inr r \<Longrightarrow> list_all is_hex s" for r
    using from_hex_InrD by blast
  then show ?thesis
    by (auto split: sum.splits simp: to_hex_from_hex from_hex_length)
      (auto simp: from_hex_def split: if_splits)
qed

end
