(* ===== verification/Message_Crypto.thy ===== *)
theory Message_Crypto
  imports Crypto_Core
begin

text \<open>
  \<open>lib/crypto/cache.ts\<close> and \<open>lib/crypto/messages.ts\<close>: turning a stored envelope into what a
  reader is shown, and text into an envelope.

  The module-level \<open>cache\<close> of decrypted texts is an explicit argument and result. A field that is
  missing, \<open>null\<close> or \<open>undefined\<close> is \<open>None\<close>; \<open>truthy\<close> also drops the empty string, as the
  conditions of the code do.
\<close>

section \<open>The cache of decrypted texts\<close>

datatype message_authenticity = Verified | Unchecked | Unrecognised | Forged

record decrypted_content =
  dc_text :: jstr
  dc_frankingKey :: bytes
  dc_commitmentVerified :: "bool option"
  dc_authenticity :: message_authenticity

type_synonym decrypt_cache = "(string, decrypted_content) jsmap"

definition CACHE_LIMIT :: nat where "CACHE_LIMIT = 500"

definition lookup_content :: "decrypt_cache \<Rightarrow> string \<Rightarrow> decrypted_content option" where
  "lookup_content cache i = jm_get cache i"

text \<open>At the limit the oldest entry goes first, whether or not \<open>i\<close> is already held.\<close>

definition remember :: "string \<Rightarrow> decrypted_content \<Rightarrow> decrypt_cache \<Rightarrow> decrypt_cache" where
  "remember i content cache =
     (let kept = (if length cache \<ge> CACHE_LIMIT
                  then (case cache of [] \<Rightarrow> [] | (oldest, _) # _ \<Rightarrow> jm_del oldest cache)
                  else cache)
      in jm_set i content kept)"

definition clearDecryptionCache :: "decrypt_cache \<Rightarrow> decrypt_cache" where
  "clearDecryptionCache cache = []"

definition cache_ok :: "decrypt_cache \<Rightarrow> bool" where
  "cache_ok cache \<longleftrightarrow> jm_ok cache \<and> length cache \<le> CACHE_LIMIT"

lemma remember_lookup [simp]: "lookup_content (remember i d cache) i = Some d"
  by (simp add: remember_def lookup_content_def Let_def split: list.splits)

lemma remember_lookup_other:
  "i \<noteq> j \<Longrightarrow> lookup_content (remember i d cache) j = Some e \<Longrightarrow> lookup_content cache j = Some e"
  by (auto simp: remember_def lookup_content_def Let_def split: list.splits if_splits)

lemma lookup_clear [simp]: "lookup_content (clearDecryptionCache cache) i = None"
  by (simp add: lookup_content_def clearDecryptionCache_def)

interpretation contents: forgetful_store lookup_content remember clearDecryptionCache
  by unfold_locales (auto intro: remember_lookup_other)

lemma cache_ok_clear [simp]: "cache_ok (clearDecryptionCache cache)"
  by (simp add: cache_ok_def clearDecryptionCache_def jm_ok_def)

lemma cache_ok_remember:
  assumes "cache_ok cache"
  shows "cache_ok (remember i d cache)"
proof (cases "length cache \<ge> CACHE_LIMIT")
  case True
  then obtain oldest x rest where c: "cache = (oldest, x) # rest"
    by (cases cache) (auto simp: CACHE_LIMIT_def)
  have ok: "jm_ok cache" using assms by (simp add: cache_ok_def)
  have "length (jm_del oldest cache) = length cache - 1"
    using length_jm_del [OF ok, of oldest] by (simp add: c jm_get_def)
  with assms True ok show ?thesis
    by (auto simp: remember_def cache_ok_def c CACHE_LIMIT_def length_jm_set)
next
  case False
  with assms show ?thesis
    by (auto simp: remember_def cache_ok_def length_jm_set)
qed

section \<open>Envelopes\<close>

record envelope =
  e_ciphertext :: "string option"
  e_nonce :: "string option"
  e_sender_ephemeral_key :: "string option"
  e_sender_copy :: "string option"
  e_franking_commitment :: "string option"
  e_franking_signature :: "string option"
  e_client_nonce :: "string option"
  e_sender_signing_key :: "string option"

record direct_message =
  dm_id :: string
  dm_body :: "jstr option"
  dm_envelope :: envelope

record message_conversation =
  last_message_id :: string
  last_message_body :: "jstr option"
  last_message_ciphertext :: "string option"
  last_message_nonce :: "string option"
  last_message_sender_ephemeral_key :: "string option"
  last_message_sender_copy :: "string option"

datatype untrusted_reason = ForgedMessage | MalformedMessage | UnrecognisedMessage

datatype message_content =
    Plain jstr
  | Encrypted decrypted_content
  | Locked
  | Undecryptable
  | Untrusted untrusted_reason

definition truthy :: "string option \<Rightarrow> string option" where
  "truthy v = (case v of Some (c # cs) \<Rightarrow> Some (c # cs) | _ \<Rightarrow> None)"

definition authenticate :: "primitives \<Rightarrow> envelope \<Rightarrow> bytes option \<Rightarrow> message_authenticity" where
  "authenticate P e trustedSigningKey =
     (case (trustedSigningKey, truthy (e_franking_commitment e), truthy (e_franking_signature e),
            truthy (e_client_nonce e)) of
        (Some trusted, Some commitment, Some signature, Some client_nonce) \<Rightarrow>
          (case (from_hex commitment, from_hex signature) of
             (Inr c, Inr s) \<Rightarrow>
               if verifyFrankingSignature P c s trusted client_nonce then Verified
               else (case truthy (e_sender_signing_key e) of
                       None \<Rightarrow> Unrecognised
                     | Some recorded \<Rightarrow>
                         (case from_hex recorded of
                            Inl _ \<Rightarrow> Unrecognised
                          | Inr r \<Rightarrow> if equal_bytes r trusted then Forged else Unrecognised))
           | _ \<Rightarrow> Unrecognised)
      | _ \<Rightarrow> Unchecked)"

definition inspect ::
  "primitives \<Rightarrow> jstr \<Rightarrow> bytes \<Rightarrow> envelope \<Rightarrow> bytes option \<Rightarrow> bool option \<times> message_authenticity" where
  "inspect P text fk e trustedSigningKey =
     ((case truthy (e_franking_commitment e) of
         None \<Rightarrow> None
       | Some commitment \<Rightarrow>
           (case from_hex commitment of
              Inl _ \<Rightarrow> Some False
            | Inr c \<Rightarrow> Some (equal_bytes (franking_commitment P fk text) c))),
      authenticate P e trustedSigningKey)"

text \<open>\<open>{ ...content, ...inspect(...) }\<close>.\<close>

definition judge ::
  "primitives \<Rightarrow> jstr \<Rightarrow> bytes \<Rightarrow> envelope \<Rightarrow> bytes option \<Rightarrow> decrypted_content" where
  "judge P text fk e trustedSigningKey =
     (let (cv, au) = inspect P text fk e trustedSigningKey
      in \<lparr>dc_text = text, dc_frankingKey = fk, dc_commitmentVerified = cv, dc_authenticity = au\<rparr>)"

definition present :: "decrypted_content \<Rightarrow> message_content" where
  "present content =
     (if dc_authenticity content = Forged then Untrusted ForgedMessage
      else if dc_commitmentVerified content = Some False then Untrusted MalformedMessage
      else if dc_authenticity content = Unrecognised then Untrusted UnrecognisedMessage
      else Encrypted content)"

text \<open>The \<open>fromHex\<close> calls that build the argument of \<open>decryptMessage\<close>, then the call itself: one
  \<open>try\<close> block, whose exceptions are all alike to the caller.\<close>

definition open_envelope ::
  "primitives \<Rightarrow> envelope \<Rightarrow> string \<Rightarrow> string \<Rightarrow> string \<Rightarrow> bytes \<Rightarrow> core_error + decrypted_message" where
  "open_envelope P e ct nn eph exchangePrivate =
     bindE (from_hex ct) (\<lambda>c. bindE (from_hex nn) (\<lambda>n. bindE (from_hex eph) (\<lambda>k.
     bindE (case truthy (e_sender_copy e) of
              None \<Rightarrow> Inr None
            | Some s \<Rightarrow> bindE (from_hex s) (\<lambda>b. Inr (Some b)))
       (\<lambda>copy.
     decryptMessage P
       \<lparr>ciphertext = c, nonce = n, senderEphemeralKey = k, senderCopy = copy,
        frankingCommitment = [], frankingSignature = []\<rparr> exchangePrivate))))"

definition stale :: "decrypted_content \<Rightarrow> envelope \<Rightarrow> bytes option \<Rightarrow> bool" where
  "stale cached e trustedSigningKey \<longleftrightarrow>
     (dc_commitmentVerified cached = None \<and> truthy (e_franking_commitment e) \<noteq> None) \<or>
     (dc_authenticity cached = Unchecked \<and> trustedSigningKey \<noteq> None)"

definition decryptEnvelope ::
  "primitives \<Rightarrow> decrypt_cache \<Rightarrow> string \<Rightarrow> envelope \<Rightarrow> identity_key_pair option \<Rightarrow> bytes option \<Rightarrow>
   message_content \<times> decrypt_cache" where
  "decryptEnvelope P cache i e identity trustedSigningKey =
     (case (truthy (e_ciphertext e), truthy (e_nonce e), truthy (e_sender_ephemeral_key e)) of
        (Some ct, Some nn, Some eph) \<Rightarrow>
          (case identity of
             None \<Rightarrow> (Locked, cache)
           | Some own \<Rightarrow>
               (case lookup_content cache i of
                  Some cached \<Rightarrow>
                    if \<not> stale cached e trustedSigningKey then (present cached, cache)
                    else let rejudged = judge P (dc_text cached) (dc_frankingKey cached) e trustedSigningKey
                         in (present rejudged, remember i rejudged cache)
                | None \<Rightarrow>
                    (case open_envelope P e ct nn eph (exchangePrivateKey own) of
                       Inl _ \<Rightarrow> (Undecryptable, cache)
                     | Inr r \<Rightarrow>
                         let content = judge P (plaintext r) (frankingKey r) e trustedSigningKey
                         in (present content, remember i content cache))))
      | _ \<Rightarrow> (Undecryptable, cache))"

definition readMessage ::
  "primitives \<Rightarrow> decrypt_cache \<Rightarrow> direct_message \<Rightarrow> identity_key_pair option \<Rightarrow> bytes option \<Rightarrow>
   message_content \<times> decrypt_cache" where
  "readMessage P cache m identity trustedSigningKey =
     (case dm_body m of
        Some text \<Rightarrow> (Plain text, cache)
      | None \<Rightarrow> decryptEnvelope P cache (dm_id m) (dm_envelope m) identity trustedSigningKey)"

definition readConversationPreview ::
  "primitives \<Rightarrow> decrypt_cache \<Rightarrow> message_conversation \<Rightarrow> identity_key_pair option \<Rightarrow>
   message_content \<times> decrypt_cache" where
  "readConversationPreview P cache c identity =
     (case last_message_body c of
        Some text \<Rightarrow> (Plain text, cache)
      | None \<Rightarrow>
          decryptEnvelope P cache (last_message_id c)
            \<lparr>e_ciphertext = last_message_ciphertext c, e_nonce = last_message_nonce c,
             e_sender_ephemeral_key = last_message_sender_ephemeral_key c,
             e_sender_copy = last_message_sender_copy c, e_franking_commitment = None,
             e_franking_signature = None, e_client_nonce = None, e_sender_signing_key = None\<rparr>
            identity None)"

section \<open>Sealing\<close>

record peer_public_keys =
  peer_exchange_public_key :: string
  peer_signing_public_key :: string
  peer_key_fingerprint :: string

record encrypted_payload =
  p_ciphertext :: string
  p_nonce :: string
  p_sender_ephemeral_key :: string
  p_sender_copy :: string
  p_franking_commitment :: string
  p_franking_signature :: string

definition sealMessage ::
  "primitives \<Rightarrow> encrypt_random \<Rightarrow> jstr \<Rightarrow> peer_public_keys \<Rightarrow> identity_key_pair \<Rightarrow> string \<Rightarrow>
   core_error + encrypted_payload" where
  "sealMessage P r text peer identity clientNonce =
     bindE (assertPeerFingerprint P (peer_exchange_public_key peer) (peer_signing_public_key peer)
              (peer_key_fingerprint peer)) (\<lambda>_.
     bindE (from_hex (peer_exchange_public_key peer)) (\<lambda>recipient.
     bindE (encryptMessage P r text recipient (exchangePublicKey identity)
              (signingPrivateKey identity) clientNonce) (\<lambda>m.
     Inr \<lparr>p_ciphertext = to_hex (ciphertext m), p_nonce = to_hex (nonce m),
          p_sender_ephemeral_key = to_hex (senderEphemeralKey m),
          p_sender_copy = to_hex (case senderCopy m of None \<Rightarrow> [] | Some b \<Rightarrow> b),
          p_franking_commitment = to_hex (frankingCommitment m),
          p_franking_signature = to_hex (frankingSignature m)\<rparr>)))"

end
