(* ===== verification/Message_Claims.thy ===== *)
theory Message_Claims
  imports Message_Crypto Core_Claims
begin

text \<open>
  What the reading and sealing of messages promises: the cache never changes a verdict, what is drawn
  has passed every check its fields allow, and what one side seals the other side shows.
\<close>

section \<open>A session of reads\<close>

text \<open>The envelope fields of a message as the conversation list repeats them.\<close>

definition conversation_of :: "direct_message \<Rightarrow> message_conversation" where
  "conversation_of m =
     \<lparr>last_message_id = dm_id m, last_message_body = dm_body m,
      last_message_ciphertext = e_ciphertext (dm_envelope m), last_message_nonce = e_nonce (dm_envelope m),
      last_message_sender_ephemeral_key = e_sender_ephemeral_key (dm_envelope m),
      last_message_sender_copy = e_sender_copy (dm_envelope m)\<rparr>"

text \<open>Everything the clients do with the cache during one session of the identity \<open>own\<close>: draw a
  conversation row, draw a message with or without the trusted key of its author, and clear.
  \<open>W\<close> gives the message of an id, which never changes; \<open>K\<close> the trusted key of its author.\<close>

inductive reachable_cache ::
  "primitives \<Rightarrow> (string \<Rightarrow> direct_message) \<Rightarrow> (string \<Rightarrow> bytes) \<Rightarrow> identity_key_pair \<Rightarrow>
   decrypt_cache \<Rightarrow> bool"
  for P W K own where
  start: "reachable_cache P W K own []"
| preview: "reachable_cache P W K own c \<Longrightarrow>
    reachable_cache P W K own (snd (readConversationPreview P c (conversation_of (W i)) (Some own)))"
| thread: "reachable_cache P W K own c \<Longrightarrow> key = None \<or> key = Some (K i) \<Longrightarrow>
    reachable_cache P W K own (snd (readMessage P c (W i) (Some own) key))"
| sign_out: "reachable_cache P W K own c \<Longrightarrow> reachable_cache P W K own (clearDecryptionCache c)"

definition open_message ::
  "primitives \<Rightarrow> direct_message \<Rightarrow> identity_key_pair \<Rightarrow> core_error + decrypted_message" where
  "open_message P m own =
     (let e = dm_envelope m in
      case (truthy (e_ciphertext e), truthy (e_nonce e), truthy (e_sender_ephemeral_key e)) of
        (Some ct, Some nn, Some eph) \<Rightarrow> open_envelope P e ct nn eph (exchangePrivateKey own)
      | _ \<Rightarrow> Inl PrimitiveThrow)"

text \<open>What an entry can hold: the text the envelope opens to, with the verdicts of one of the three
  ways the message is looked at.\<close>

definition entry_ok ::
  "primitives \<Rightarrow> (string \<Rightarrow> direct_message) \<Rightarrow> (string \<Rightarrow> bytes) \<Rightarrow> identity_key_pair \<Rightarrow>
   string \<Rightarrow> decrypted_content \<Rightarrow> bool" where
  "entry_ok P W K own i d \<longleftrightarrow>
     (\<exists>r. open_message P (W i) own = Inr r \<and> dc_text d = plaintext r \<and> dc_frankingKey d = frankingKey r \<and>
        (dc_commitmentVerified d, dc_authenticity d) \<in>
          {(None, Unchecked),
           inspect P (plaintext r) (frankingKey r) (dm_envelope (W i)) None,
           inspect P (plaintext r) (frankingKey r) (dm_envelope (W i)) (Some (K i))})"

lemma authenticate_no_key [simp]: "authenticate P e None = Unchecked"
  by (simp add: authenticate_def)

lemma judge_simps [simp]:
  "dc_text (judge P t fk e k) = t"
  "dc_frankingKey (judge P t fk e k) = fk"
  "dc_commitmentVerified (judge P t fk e k) = fst (inspect P t fk e k)"
  "dc_authenticity (judge P t fk e k) = snd (inspect P t fk e k)"
  by (simp_all add: judge_def split: prod.splits)

lemma open_envelope_copy:
  "e_sender_copy e = e_sender_copy e' \<Longrightarrow> open_envelope P e ct nn eph k = open_envelope P e' ct nn eph k"
  by (simp add: open_envelope_def)

text \<open>One call of \<open>decryptEnvelope\<close> writes at most the entry of its id, and that entry is right
  whenever the one it replaces was.\<close>

lemma decryptEnvelope_every:
  assumes "contents.every Q c"
    and "\<And>d. Q i d \<Longrightarrow> stale d e key \<Longrightarrow> Q i (judge P (dc_text d) (dc_frankingKey d) e key)"
    and "\<And>ct nn eph r. truthy (e_ciphertext e) = Some ct \<Longrightarrow> truthy (e_nonce e) = Some nn \<Longrightarrow>
      truthy (e_sender_ephemeral_key e) = Some eph \<Longrightarrow>
      open_envelope P e ct nn eph (exchangePrivateKey own) = Inr r \<Longrightarrow>
      Q i (judge P (plaintext r) (frankingKey r) e key)"
  shows "contents.every Q (snd (decryptEnvelope P c i e (Some own) key))"
proof -
  have "contents.every Q (remember i (judge P (dc_text d) (dc_frankingKey d) e key) c)"
    if "lookup_content c i = Some d" "stale d e key" for d
    using contents.every_put assms(1,2) contents.everyD that by metis
  moreover have "contents.every Q (remember i (judge P (plaintext r) (frankingKey r) e key) c)"
    if "truthy (e_ciphertext e) = Some ct" "truthy (e_nonce e) = Some nn"
      "truthy (e_sender_ephemeral_key e) = Some eph"
      "open_envelope P e ct nn eph (exchangePrivateKey own) = Inr r" for ct nn eph r
    using contents.every_put assms(1,3) that by metis
  ultimately show ?thesis
    using assms(1) unfolding decryptEnvelope_def Let_def
    by (simp split: option.splits sum.splits)
qed

lemma entry_judged:
  assumes "open_message P (W i) own = Inr r" and "key = None \<or> key = Some (K i)"
  shows "entry_ok P W K own i (judge P (plaintext r) (frankingKey r) (dm_envelope (W i)) key)"
  using assms by (auto simp: entry_ok_def)

lemma entry_rejudged:
  assumes "entry_ok P W K own i d" and "key = None \<or> key = Some (K i)"
  shows "entry_ok P W K own i (judge P (dc_text d) (dc_frankingKey d) (dm_envelope (W i)) key)"
  using assms entry_judged by (force simp: entry_ok_def)

text \<open>The envelope the preview builds: the sealed fields without the signed ones.\<close>

definition preview_envelope :: "envelope \<Rightarrow> envelope" where
  "preview_envelope e =
     e\<lparr>e_franking_commitment := None, e_franking_signature := None, e_client_nonce := None,
       e_sender_signing_key := None\<rparr>"

lemma preview_fields [simp]:
  "e_ciphertext (preview_envelope e) = e_ciphertext e"
  "e_nonce (preview_envelope e) = e_nonce e"
  "e_sender_ephemeral_key (preview_envelope e) = e_sender_ephemeral_key e"
  "open_envelope P (preview_envelope e) ct nn eph k = open_envelope P e ct nn eph k"
  "\<not> stale d (preview_envelope e) None"
  "inspect P t fk (preview_envelope e) None = (None, Unchecked)"
  by (simp_all add: preview_envelope_def open_envelope_def stale_def inspect_def truthy_def)

lemma readConversationPreview_of:
  "readConversationPreview P c (conversation_of m) own =
    (case dm_body m of Some t \<Rightarrow> (Plain t, c)
     | None \<Rightarrow> decryptEnvelope P c (dm_id m) (preview_envelope (dm_envelope m)) own None)"
  by (cases "dm_envelope m")
    (simp add: readConversationPreview_def conversation_of_def preview_envelope_def split: option.splits)

lemma open_message_fields:
  "truthy (e_ciphertext (dm_envelope m)) = Some ct \<Longrightarrow> truthy (e_nonce (dm_envelope m)) = Some nn \<Longrightarrow>
   truthy (e_sender_ephemeral_key (dm_envelope m)) = Some eph \<Longrightarrow>
   open_envelope P (dm_envelope m) ct nn eph (exchangePrivateKey own) = r \<Longrightarrow> open_message P m own = r"
  by (simp add: open_message_def)

lemma reachable_entries:
  assumes "\<And>i. dm_id (W i) = i" and "reachable_cache P W K own c"
  shows "contents.every (entry_ok P W K own) c"
  using assms(2)
proof (induction rule: reachable_cache.induct)
  case start
  then show ?case by (simp only: contents.every_def) (simp add: lookup_content_def)
next
  case (preview c i)
  have "contents.every (entry_ok P W K own)
    (snd (decryptEnvelope P c i (preview_envelope (dm_envelope (W i))) (Some own) None))"
    using preview.IH
    by (rule decryptEnvelope_every) (auto simp: entry_ok_def dest!: open_message_fields)
  with preview.IH show ?case
    by (simp add: readConversationPreview_of assms(1) split: option.splits)
next
  case (thread c key i)
  have "contents.every (entry_ok P W K own)
    (snd (decryptEnvelope P c i (dm_envelope (W i)) (Some own) key))"
    using thread.IH
    by (rule decryptEnvelope_every)
      (use thread.hyps(2) in \<open>auto intro: entry_rejudged entry_judged dest!: open_message_fields\<close>)
  with thread.IH show ?case
    by (simp add: readMessage_def assms(1) split: option.splits)
next
  case (sign_out c)
  show ?case by (rule contents.every_clear)
qed

text \<open>The verdict of an entry that need not be judged again is the one a trusted key gives.\<close>

lemma entry_fresh:
  assumes "entry_ok P W K own i d" and "\<not> stale d (dm_envelope (W i)) (Some (K i))"
    and "open_message P (W i) own = Inr r"
  shows "d = judge P (plaintext r) (frankingKey r) (dm_envelope (W i)) (Some (K i))"
  using assms
  by (auto simp: entry_ok_def stale_def inspect_def intro!: decrypted_content.equality)

lemma read_as_fresh:
  assumes "\<And>i. dm_id (W i) = i" and "reachable_cache P W K own c"
  shows "fst (readMessage P c (W i) (Some own) (Some (K i))) =
         fst (readMessage P [] (W i) (Some own) (Some (K i)))"
proof (cases "lookup_content c i")
  case None
  then show ?thesis
    by (auto simp: readMessage_def decryptEnvelope_def assms(1) lookup_content_def Let_def
        split: option.splits sum.splits)
next
  case (Some d)
  then have d: "entry_ok P W K own i d"
    using reachable_entries [OF assms] contents.everyD by metis
  then obtain r where r: "open_message P (W i) own = Inr r" "dc_text d = plaintext r"
    "dc_frankingKey d = frankingKey r" by (auto simp: entry_ok_def)
  then show ?thesis
    using Some entry_fresh [OF d _ r(1)]
    by (auto simp: readMessage_def decryptEnvelope_def assms(1) open_message_def lookup_content_def Let_def
        split: option.splits sum.splits)
qed

lemma fresh_read:
  assumes "dm_body m = None"
  shows "fst (readMessage P [] m (Some own) key) =
    (case open_message P m own of
       Inl _ \<Rightarrow> Undecryptable
     | Inr r \<Rightarrow> present (judge P (plaintext r) (frankingKey r) (dm_envelope m) key))"
  using assms
  by (auto simp: readMessage_def decryptEnvelope_def open_message_def lookup_content_def Let_def
      split: option.splits sum.splits)

lemma present_Encrypted_iff:
  "present d = Encrypted d' \<longleftrightarrow>
   d' = d \<and> dc_authenticity d \<in> {Verified, Unchecked} \<and> dc_commitmentVerified d \<noteq> Some False"
  by (cases "dc_authenticity d") (auto simp: present_def)

lemma authenticate_complete:
  assumes "truthy (e_franking_commitment e) = Some cm" and "truthy (e_franking_signature e) = Some sg"
    and "truthy (e_client_nonce e) = Some n"
  shows "authenticate P e (Some k) \<in> {Verified, Unchecked} \<longleftrightarrow>
    (\<exists>c s. from_hex cm = Inr c \<and> from_hex sg = Inr s \<and> verifyFrankingSignature P c s k n)"
    and "authenticate P e (Some k) \<noteq> Unchecked"
  using assms by (auto simp: authenticate_def split: sum.splits option.splits)

lemma inspect_complete:
  assumes "truthy (e_franking_commitment e) = Some cm"
  shows "fst (inspect P t fk e k) \<noteq> Some False \<longleftrightarrow> from_hex cm = Inr (franking_commitment P fk t)"
    and "fst (inspect P t fk e k) \<noteq> None"
  using assms by (auto simp: inspect_def split: sum.splits)

text \<open>C1: The cache never changes what a reader sees. After any sequence of conversation previews, thread
  reads (with or without the author's trusted key) and sign-outs, reading a message with the
  trusted key gives exactly what it would give with an empty cache: a verdict reached by a
  preview that saw neither commitment nor key is never inherited.\<close>

theorem cache_transparent:
  assumes "\<And>i. dm_id (W i) = i" and "reachable_cache P W K own c"
  shows "fst (readMessage P c (W i) (Some own) (Some (K i))) =
         fst (readMessage P [] (W i) (Some own) (Some (K i)))"
  by (rule read_as_fresh [OF assms])

definition sample_envelope :: envelope where
  "sample_envelope =
     \<lparr>e_ciphertext = Some (to_hex (ciphertext sample_message)),
      e_nonce = Some (to_hex (nonce sample_message)),
      e_sender_ephemeral_key = Some (to_hex (senderEphemeralKey sample_message)),
      e_sender_copy = map_option to_hex (senderCopy sample_message),
      e_franking_commitment = Some (to_hex (frankingCommitment sample_message)),
      e_franking_signature = Some (to_hex (frankingSignature sample_message)),
      e_client_nonce = Some ''ab-cd'', e_sender_signing_key = None\<rparr>"

definition sample_dm :: "string \<Rightarrow> direct_message" where
  "sample_dm i = \<lparr>dm_id = i, dm_body = None, dm_envelope = sample_envelope\<rparr>"

definition sample_preview_cache :: decrypt_cache where
  "sample_preview_cache = snd (readConversationPreview sample_primitives []
     (conversation_of (sample_dm ''m1'')) (Some sample_identity))"

lemma sample_preview_reachable:
  "reachable_cache sample_primitives sample_dm (\<lambda>_. replicate 32 7) sample_identity sample_preview_cache"
  unfolding sample_preview_cache_def by (intro reachable_cache.intros)

theorem cache_transparent_witness:
  "fst (readMessage sample_primitives sample_preview_cache (sample_dm ''m1'') (Some sample_identity)
     (Some (replicate 32 7))) =
   fst (readMessage sample_primitives [] (sample_dm ''m1'') (Some sample_identity)
     (Some (replicate 32 7)))"
  by (rule cache_transparent [OF _ sample_preview_reachable]) (simp add: sample_dm_def)

text \<open>What the two checks say, in terms of the fields of the envelope: a commitment that is there must be
  the one of the opened text; a message carries a signature when it has all three fields the signature needs.\<close>

definition commitment_holds :: "primitives \<Rightarrow> decrypted_message \<Rightarrow> envelope \<Rightarrow> bool" where
  "commitment_holds P r e \<longleftrightarrow>
     (\<forall>cm. truthy (e_franking_commitment e) = Some cm \<longrightarrow>
        from_hex cm = Inr (franking_commitment P (frankingKey r) (plaintext r)))"

definition signature_verifies :: "primitives \<Rightarrow> envelope \<Rightarrow> bytes \<Rightarrow> bool" where
  "signature_verifies P e key \<longleftrightarrow>
     (\<exists>cm sg n c s. truthy (e_franking_commitment e) = Some cm \<and> truthy (e_franking_signature e) = Some sg \<and>
        truthy (e_client_nonce e) = Some n \<and> from_hex cm = Inr c \<and> from_hex sg = Inr s \<and>
        verifyFrankingSignature P c s key n)"

definition carries_signature :: "envelope \<Rightarrow> bool" where
  "carries_signature e \<longleftrightarrow> truthy (e_franking_commitment e) \<noteq> None \<and> truthy (e_franking_signature e) \<noteq> None \<and>
     truthy (e_client_nonce e) \<noteq> None"

lemma authenticate_Verified: "authenticate P e (Some k) = Verified \<longleftrightarrow> signature_verifies P e k"
  by (auto simp: authenticate_def signature_verifies_def split: sum.splits option.splits)

lemma authenticate_Unchecked: "authenticate P e (Some k) = Unchecked \<longleftrightarrow> \<not> carries_signature e"
  by (auto simp: authenticate_def carries_signature_def split: sum.splits option.splits)

lemma commitment_judged:
  "fst (inspect P (plaintext r) (frankingKey r) e k) \<noteq> Some False \<longleftrightarrow> commitment_holds P r e"
proof (cases "truthy (e_franking_commitment e)")
  case None
  then show ?thesis by (simp add: inspect_def commitment_holds_def)
next
  case (Some cm)
  then show ?thesis using inspect_complete(1) [OF Some] by (simp add: commitment_holds_def)
qed

lemma authenticity_judged [simp]: "snd (inspect P txt fk e k) = authenticate P e k"
  by (simp add: inspect_def)

lemma judged_verdicts:
  assumes "commitment_holds P r e" and "carries_signature e \<longrightarrow> signature_verifies P e k"
  shows "inspect P (plaintext r) (frankingKey r) e (Some k) =
    (if truthy (e_franking_commitment e) = None then None else Some True,
     if signature_verifies P e k then Verified else Unchecked)"
proof (rule prod_eqI)
  show "fst (inspect P (plaintext r) (frankingKey r) e (Some k)) =
      fst (if truthy (e_franking_commitment e) = None then None else Some True,
        if signature_verifies P e k then Verified else Unchecked)"
    using assms(1) by (auto simp: inspect_def commitment_holds_def split: option.split)
  show "snd (inspect P (plaintext r) (frankingKey r) e (Some k)) =
      snd (if truthy (e_franking_commitment e) = None then None else Some True,
        if signature_verifies P e k then Verified else Unchecked)"
    using assms(2) authenticate_Verified [of P e k] authenticate_Unchecked [of P e k] by auto
qed

lemma drawn_fresh:
  "fst (readMessage P [] m (Some own) (Some key)) = Encrypted d \<longleftrightarrow>
   dm_body m = None \<and>
   (\<exists>r. open_message P m own = Inr r \<and> d = judge P (plaintext r) (frankingKey r) (dm_envelope m) (Some key) \<and>
        commitment_holds P r (dm_envelope m) \<and>
        (carries_signature (dm_envelope m) \<longrightarrow> signature_verifies P (dm_envelope m) key))"
proof (cases "dm_body m")
  case None
  then show ?thesis
    unfolding fresh_read [OF None]
    by (cases "open_message P m own")
      (auto simp: present_Encrypted_iff commitment_judged authenticate_Verified authenticate_Unchecked)
next
  case (Some t)
  then show ?thesis by (simp add: readMessage_def)
qed

text \<open>C2: What a reader is shown, for every message the server can deliver and whatever was read before.
  A body that comes in the clear is drawn as it is. Of the others exactly those are drawn that open under
  the own key, match the commitment if there is one, and whose signature verifies under the trusted key of
  the author if commitment, signature and client nonce are all there; the text is the opened one. So a
  message with any of the three missing is drawn without a check of its author, and only the verdict
  \<open>Verified\<close>, which is that of a signature that verifies, tells the others apart from it.\<close>

theorem drawn_unless_refuted:
  assumes "\<And>i. dm_id (W i) = i" and "reachable_cache P W K own c"
  shows "(\<forall>t. fst (readMessage P c (W i) (Some own) (Some (K i))) = Plain t \<longleftrightarrow> dm_body (W i) = Some t) \<and>
    (\<forall>d. fst (readMessage P c (W i) (Some own) (Some (K i))) = Encrypted d \<longleftrightarrow>
       dm_body (W i) = None \<and>
       (\<exists>r. open_message P (W i) own = Inr r \<and>
            dc_text d = plaintext r \<and> dc_frankingKey d = frankingKey r \<and>
            dc_commitmentVerified d =
              (if truthy (e_franking_commitment (dm_envelope (W i))) = None then None else Some True) \<and>
            dc_authenticity d =
              (if signature_verifies P (dm_envelope (W i)) (K i) then Verified else Unchecked) \<and>
            commitment_holds P r (dm_envelope (W i)) \<and>
            (carries_signature (dm_envelope (W i)) \<longrightarrow> signature_verifies P (dm_envelope (W i)) (K i))))"
proof -
  have "fst (readMessage P c (W i) (Some own) (Some (K i))) = Plain t \<longleftrightarrow> dm_body (W i) = Some t" for t
    unfolding read_as_fresh [OF assms]
    by (cases "dm_body (W i)")
      (simp_all add: fresh_read present_def split: sum.split, simp add: readMessage_def)
  moreover have "d = judge P (plaintext r) (frankingKey r) (dm_envelope (W i)) (Some (K i)) \<longleftrightarrow>
      dc_text d = plaintext r \<and> dc_frankingKey d = frankingKey r \<and>
      dc_commitmentVerified d = (if truthy (e_franking_commitment (dm_envelope (W i))) = None then None else Some True) \<and>
      dc_authenticity d = (if signature_verifies P (dm_envelope (W i)) (K i) then Verified else Unchecked)"
    if "commitment_holds P r (dm_envelope (W i))"
      "carries_signature (dm_envelope (W i)) \<longrightarrow> signature_verifies P (dm_envelope (W i)) (K i)" for d r
    using that judged_verdicts by (cases d) (auto simp: judge_def split: prod.splits)
  ultimately show ?thesis
    unfolding read_as_fresh [OF assms] drawn_fresh by blast
qed

lemma truthy_empty [simp]: "truthy (Some []) = None" "truthy None = None"
  by (simp_all add: truthy_def)

lemma truthy_nonempty: "n \<noteq> [] \<Longrightarrow> truthy (Some n) = Some n"
  by (cases n) (auto simp: truthy_def)

lemma truthy_to_hex [simp]: "truthy (Some (to_hex b)) = (if b = [] then None else Some (to_hex b))"
  by (cases b) (auto simp: truthy_def)

lemma sample_truthy:
  "truthy (e_franking_commitment (dm_envelope (sample_dm i))) =
     Some (to_hex (frankingCommitment sample_message))"
  "truthy (e_franking_signature (dm_envelope (sample_dm i))) =
     Some (to_hex (frankingSignature sample_message))"
  "truthy (e_client_nonce (dm_envelope (sample_dm i))) = Some ''ab-cd''"
  by (simp_all add: sample_dm_def sample_envelope_def sample_message_def Let_def pad32_def pad64_def)
    (simp add: truthy_def)

text \<open>The message a sealed payload becomes on the server, and what opening its envelope amounts to.\<close>

definition delivered :: "string \<Rightarrow> string \<Rightarrow> encrypted_payload \<Rightarrow> direct_message" where
  "delivered i client_nonce p =
     \<lparr>dm_id = i, dm_body = None,
      dm_envelope = \<lparr>e_ciphertext = Some (p_ciphertext p), e_nonce = Some (p_nonce p),
        e_sender_ephemeral_key = Some (p_sender_ephemeral_key p), e_sender_copy = Some (p_sender_copy p),
        e_franking_commitment = Some (p_franking_commitment p),
        e_franking_signature = Some (p_franking_signature p), e_client_nonce = Some client_nonce,
        e_sender_signing_key = None\<rparr>\<rparr>"

definition payload_of :: "encrypted_message \<Rightarrow> encrypted_payload" where
  "payload_of m =
     \<lparr>p_ciphertext = to_hex (ciphertext m), p_nonce = to_hex (nonce m),
      p_sender_ephemeral_key = to_hex (senderEphemeralKey m),
      p_sender_copy = to_hex (case senderCopy m of None \<Rightarrow> [] | Some b \<Rightarrow> b),
      p_franking_commitment = to_hex (frankingCommitment m),
      p_franking_signature = to_hex (frankingSignature m)\<rparr>"

lemma open_delivered:
  assumes "ciphertext m \<noteq> []" and "nonce m \<noteq> []" and "senderEphemeralKey m \<noteq> []"
    and "senderCopy m \<noteq> Some []"
    and "decryptMessage P m (exchangePrivateKey own) = Inr r"
  shows "\<exists>r'. open_message P (delivered i n (payload_of m)) own = Inr r' \<and>
    plaintext r' = plaintext r \<and> frankingKey r' = frankingKey r"
proof -
  have "open_message P (delivered i n (payload_of m)) own =
      decryptMessage P (m\<lparr>frankingCommitment := [], frankingSignature := []\<rparr>) (exchangePrivateKey own)"
    using assms(1-4)
    by (cases m; cases "senderCopy m")
      (simp_all add: open_message_def delivered_def payload_of_def open_envelope_def)
  then show ?thesis using decryptMessage_other_commitment [OF assms(5)] by metis
qed

lemma sealMessage_InrD:
  assumes "sealMessage P r txt peer own n = Inr p"
  obtains e m where "from_hex (peer_exchange_public_key peer) = Inr e"
    and "encryptMessage P r txt e (exchangePublicKey own) (signingPrivateKey own) n = Inr m"
    and "p = payload_of m"
  using assms by (auto simp: sealMessage_def bindE_Inr_iff payload_of_def)

text \<open>A message that opens to its own text and carries its author's commitment and signature reads
  as verified.\<close>

lemma delivered_reads:
  assumes ok: "primitives_ok P" "random_ok r" "identity_ok P author" and n: "n \<noteq> []"
    and enc: "encryptMessage P r txt e (exchangePublicKey author) (signingPrivateKey author) n = Inr m"
    and dec: "decryptMessage P m (exchangePrivateKey own) =
      Inr \<lparr>plaintext = txt, frankingKey = rnd_franking r, commitmentVerified = True\<rparr>"
  shows "fst (readMessage P [] (delivered i n (payload_of m)) (Some own) (Some (signingPublicKey author))) =
    Encrypted \<lparr>dc_text = txt, dc_frankingKey = rnd_franking r, dc_commitmentVerified = Some True,
      dc_authenticity = Verified\<rparr>"
proof -
  obtain shared senderShared payload where
    sg: "frankingSigningPayload (franking_commitment P (rnd_franking r) txt) n = Inr payload"
    and m: "m = \<lparr>ciphertext = gcm_encrypt P (messageKey P shared (x25519_public P (rnd_ephemeral r)))
              (rnd_nonce r) (rnd_franking r @ text_encode txt),
            nonce = rnd_nonce r, senderEphemeralKey = x25519_public P (rnd_ephemeral r),
            senderCopy = Some (gcm_encrypt P
              (messageKey P senderShared (x25519_public P (rnd_ephemeral r))) (rnd_nonce r)
              (messageKey P shared (x25519_public P (rnd_ephemeral r)))),
            frankingCommitment = franking_commitment P (rnd_franking r) txt,
            frankingSignature = ed25519_sign P payload (signingPrivateKey author)\<rparr>"
    using enc by (rule encryptMessage_InrD)
  have ne: "xs \<noteq> []" if "length xs = Suc k" for xs :: bytes and k using that by auto
  have sizes: "ciphertext m \<noteq> []" "nonce m \<noteq> []" "senderEphemeralKey m \<noteq> []" "senderCopy m \<noteq> Some []"
    "frankingCommitment m \<noteq> []" "frankingSignature m \<noteq> []"
    using ok length_exchange_public [of P "rnd_ephemeral r"]
      length_commitment [of P "rnd_franking r" "txt"] length_signature [of P "signingPrivateKey author" payload]
    by (auto simp: m random_ok_def identity_ok_def core_sizes gcm_nonempty length_messageKey
        dest!: arg_cong [of _ "[]" length])
  from open_delivered [OF sizes(1-4) dec]
  obtain r' where r': "open_message P (delivered i n (payload_of m)) own = Inr r'"
    "plaintext r' = txt" "frankingKey r' = rnd_franking r" by auto
  have "verifyFrankingSignature P (frankingCommitment m) (frankingSignature m) (signingPublicKey author) n"
    using ok sg by (simp add: verifyFrankingSignature_def m primitives_ok_def signing_correct_def identity_ok_def)
  then have "judge P txt (rnd_franking r) (dm_envelope (delivered i n (payload_of m)))
      (Some (signingPublicKey author)) =
    \<lparr>dc_text = txt, dc_frankingKey = rnd_franking r, dc_commitmentVerified = Some True, dc_authenticity = Verified\<rparr>"
    using sizes n
    by (simp add: judge_def inspect_def delivered_def payload_of_def authenticate_def truthy_nonempty)
      (simp add: m)
  moreover have "dm_body (delivered i n (payload_of m)) = None" by (simp add: delivered_def)
  ultimately show ?thesis by (simp add: fresh_read r' present_def)
qed

lemma sample_delivered: "sample_dm i = delivered i ''ab-cd'' (payload_of sample_message)"
  by (simp add: sample_dm_def sample_envelope_def delivered_def payload_of_def sample_message_def Let_def)

definition sample_author :: identity_key_pair where
  "sample_author = generateIdentity sample_primitives (replicate 32 7) (replicate 32 7)"

lemma sample_identities_ok:
  "identity_ok sample_primitives sample_author" "identity_ok sample_primitives sample_identity"
  by (simp_all add: identity_ok_def sample_author_def sample_identity_def generateIdentity_def
      sample_primitives_def core_sizes)

lemma sample_keys [simp]:
  "exchangePrivateKey sample_identity = replicate 32 5" "exchangePublicKey sample_identity = replicate 32 5"
  "exchangePublicKey sample_author = replicate 32 7" "exchangePrivateKey sample_author = replicate 32 7"
  "signingPrivateKey sample_author = replicate 32 7" "signingPublicKey sample_author = replicate 32 7"
  by (simp_all add: sample_identity_def sample_author_def generateIdentity_def sample_primitives_def)

lemma sample_copy_closed:
  "x25519_shared sample_primitives (replicate 32 5) (senderEphemeralKey sample_message) = Some s \<Longrightarrow>
   openSenderCopy sample_primitives sample_message
     (messageKey sample_primitives s (senderEphemeralKey sample_message)) = None"
  by (auto simp: openSenderCopy_def sample_simps messageKey_def core_sizes replicate_eq_replicate)

lemma sample_decrypts:
  "decryptMessage sample_primitives sample_message (exchangePrivateKey sample_identity) =
    Inr \<lparr>plaintext = units_of ''hi'', frankingKey = rnd_franking sample_random, commitmentVerified = True\<rparr>"
  using recipient_opens_decoded [OF sample_primitives_ok sample_random_ok _ sample_encrypts sample_copy_closed]
  by (simp add: text_decode_encode [OF sample_plain] PRIVATE_KEY_BYTES_def)

lemma sample_encrypts_author:
  "encryptMessage sample_primitives sample_random (units_of ''hi'') (replicate 32 5)
     (exchangePublicKey sample_author) (signingPrivateKey sample_author) ''ab-cd'' = Inr sample_message"
proof -
  have "x25519_public sample_primitives k = k" for k by (simp add: sample_primitives_def)
  then show ?thesis using sample_encrypts by simp
qed

lemma sample_read:
  "fst (readMessage sample_primitives [] (sample_dm i) (Some sample_identity) (Some (replicate 32 7))) =
   Encrypted \<lparr>dc_text = units_of ''hi'', dc_frankingKey = rnd_franking sample_random,
     dc_commitmentVerified = Some True, dc_authenticity = Verified\<rparr>"
  using delivered_reads [OF sample_primitives_ok sample_random_ok sample_identities_ok(1) _
      sample_encrypts_author sample_decrypts, of i]
  by (simp add: sample_delivered)

lemma sample_dm_fields: "dm_id (sample_dm i) = i" "dm_body (sample_dm i) = None"
  by (simp_all add: sample_dm_def)

text \<open>The sample message, read after its preview; and the same message as a server hands it out that has
  taken the signature away.\<close>

definition stripped_dm :: "string \<Rightarrow> direct_message" where
  "stripped_dm i = (sample_dm i)\<lparr>dm_envelope := sample_envelope\<lparr>e_franking_signature := None\<rparr>\<rparr>"

theorem drawn_unless_refuted_witness:
  "signature_verifies sample_primitives sample_envelope (replicate 32 7) \<and>
   (\<exists>d. fst (readMessage sample_primitives [] (stripped_dm ''m1'') (Some sample_identity)
      (Some (replicate 32 9))) = Encrypted d \<and> dc_text d = units_of ''hi'' \<and> dc_authenticity d = Unchecked)"
proof
  let ?read = "fst (readMessage sample_primitives sample_preview_cache (sample_dm ''m1'') (Some sample_identity)
      (Some (replicate 32 7)))"
  have "?read = Encrypted \<lparr>dc_text = units_of ''hi'', dc_frankingKey = rnd_franking sample_random,
     dc_commitmentVerified = Some True, dc_authenticity = Verified\<rparr>"
    using read_as_fresh [OF sample_dm_fields(1) sample_preview_reachable] sample_read by metis
  with drawn_unless_refuted [OF sample_dm_fields(1) sample_preview_reachable, of "''m1''"]
  show "signature_verifies sample_primitives sample_envelope (replicate 32 7)"
    by (auto simp: sample_dm_def split: if_splits)
next
  have o: "open_message sample_primitives (stripped_dm ''m1'') sample_identity =
      open_message sample_primitives (sample_dm ''m1'') sample_identity"
    by (simp add: open_message_def stripped_dm_def sample_dm_def open_envelope_def Let_def split: option.split)
  let ?d = "\<lparr>dc_text = units_of ''hi'', dc_frankingKey = rnd_franking sample_random,
     dc_commitmentVerified = Some True, dc_authenticity = Verified\<rparr>"
  obtain r where r: "open_message sample_primitives (sample_dm ''m1'') sample_identity = Inr r"
      "?d = judge sample_primitives (plaintext r) (frankingKey r) (dm_envelope (sample_dm ''m1''))
        (Some (replicate 32 7))" "commitment_holds sample_primitives r (dm_envelope (sample_dm ''m1''))"
    using sample_read [of "''m1''"] unfolding drawn_fresh by blast
  from arg_cong [OF r(2), of dc_text] have r_text: "plaintext r = units_of ''hi''" by simp
  have "reachable_cache sample_primitives stripped_dm (\<lambda>_. replicate 32 9) sample_identity []"
    by (rule reachable_cache.start)
  moreover have "dm_id (stripped_dm i) = i" for i by (simp add: stripped_dm_def sample_dm_def)
  moreover have "dm_body (stripped_dm ''m1'') = None" "\<not> carries_signature (dm_envelope (stripped_dm ''m1''))"
    "commitment_holds sample_primitives r (dm_envelope (stripped_dm ''m1''))"
    using r(3) by (simp_all add: stripped_dm_def sample_dm_def carries_signature_def commitment_holds_def)
  moreover have "\<not> signature_verifies sample_primitives (dm_envelope (stripped_dm ''m1'')) (replicate 32 9)"
    by (simp add: stripped_dm_def sample_dm_def signature_verifies_def)
  ultimately show "\<exists>d. fst (readMessage sample_primitives [] (stripped_dm ''m1'') (Some sample_identity)
      (Some (replicate 32 9))) = Encrypted d \<and> dc_text d = units_of ''hi'' \<and> dc_authenticity d = Unchecked"
    using drawn_unless_refuted [of stripped_dm sample_primitives "\<lambda>_. replicate 32 9" sample_identity "[]" "''m1''"]
      r(1) r_text o by (auto intro!: exI [of _ "\<lparr>dc_text = plaintext r, dc_frankingKey = frankingKey r,
        dc_commitmentVerified = (if truthy (e_franking_commitment (dm_envelope (stripped_dm ''m1''))) = None
          then None else Some True), dc_authenticity = Unchecked\<rparr>"])
qed

text \<open>C3: What one side seals, both sides show. When \<open>sealMessage\<close> to a peer whose directory entry is that
  of \<open>other\<close> succeeds, the delivered envelope reads for the author and for the peer as the exact
  text, with a verified commitment and a verified author. The text must be plain and the
  sender's copy must not authenticate under the peer's key.\<close>

theorem sealed_message_reads:
  assumes "primitives_ok P" and "random_ok r" and "identity_ok P author" and "identity_ok P other"
    and "plain_text t" and "n \<noteq> []"
    and "sealMessage P r t \<lparr>peer_exchange_public_key = to_hex (exchangePublicKey other),
          peer_signing_public_key = to_hex (signingPublicKey other), peer_key_fingerprint = stated\<rparr>
          author n = Inr p"
    and "\<And>m s. p = payload_of m \<Longrightarrow>
      x25519_shared P (exchangePrivateKey other) (senderEphemeralKey m) = Some s \<Longrightarrow>
      openSenderCopy P m (messageKey P s (senderEphemeralKey m)) = None"
    and "own \<in> {author, other}"
  shows "fst (readMessage P [] (delivered i n p) (Some own) (Some (signingPublicKey author))) =
    Encrypted \<lparr>dc_text = t, dc_frankingKey = rnd_franking r, dc_commitmentVerified = Some True,
      dc_authenticity = Verified\<rparr>"
proof -
  obtain m where p: "p = payload_of m" and enc: "encryptMessage P r t (x25519_public P (exchangePrivateKey other))
      (x25519_public P (exchangePrivateKey author)) (signingPrivateKey author) n = Inr m"
    using assms(3,4,7) by (elim sealMessage_InrD) (auto simp: identity_ok_def)
  have "decryptMessage P m (exchangePrivateKey own) =
    Inr \<lparr>plaintext = t, frankingKey = rnd_franking r, commitmentVerified = True\<rparr>"
    using assms(9) recipient_opens_decoded [OF assms(1,2) _ enc] sender_opens_decoded [OF assms(1,2) _ enc]
      assms(3,4,8) p by (auto simp: identity_ok_def text_decode_encode [OF assms(5)])
  then show ?thesis
    using delivered_reads [OF assms(1-3,6)] enc assms(3) by (simp add: p identity_ok_def)
qed

definition sample_peer :: peer_public_keys where
  "sample_peer = \<lparr>peer_exchange_public_key = to_hex (exchangePublicKey sample_identity),
     peer_signing_public_key = to_hex (signingPublicKey sample_identity), peer_key_fingerprint = []\<rparr>"

lemma sample_seals:
  "sealMessage sample_primitives sample_random (units_of ''hi'') sample_peer sample_author ''ab-cd'' =
     Inr (payload_of sample_message)"
  by (simp add: sealMessage_def sample_peer_def assertPeerFingerprint_def peerFingerprint_def
      sample_encrypts_author [simplified] payload_of_def)

lemma payload_of_fields:
  "payload_of m = payload_of m' \<Longrightarrow> nonce m = nonce m' \<and> senderEphemeralKey m = senderEphemeralKey m' \<and>
     (case senderCopy m of None \<Rightarrow> [] | Some b \<Rightarrow> b) = (case senderCopy m' of None \<Rightarrow> [] | Some b \<Rightarrow> b)"
  by (auto simp: payload_of_def dest: to_hex_inj)

lemma openSenderCopy_alt:
  "openSenderCopy P m k = (let c = (case senderCopy m of None \<Rightarrow> [] | Some b \<Rightarrow> b) in
     if c = [] then None else gcm_decrypt P k (nonce m) c)"
  by (simp add: openSenderCopy_def split: option.splits)

lemma payload_copy:
  "payload_of m = payload_of m' \<Longrightarrow> openSenderCopy P m k = openSenderCopy P m' k"
  using payload_of_fields [of m m'] by (auto simp: openSenderCopy_alt Let_def)

theorem sealed_message_reads_witness:
  "fst (readMessage sample_primitives [] (delivered ''m1'' ''ab-cd'' (payload_of sample_message))
     (Some sample_identity) (Some (signingPublicKey sample_author))) =
   Encrypted \<lparr>dc_text = units_of ''hi'', dc_frankingKey = rnd_franking sample_random,
     dc_commitmentVerified = Some True, dc_authenticity = Verified\<rparr>"
proof (rule sealed_message_reads [OF sample_primitives_ok sample_random_ok sample_identities_ok sample_plain
      _ sample_seals [unfolded sample_peer_def]])
  fix m s
  assume "payload_of sample_message = payload_of m"
    and "x25519_shared sample_primitives (exchangePrivateKey sample_identity) (senderEphemeralKey m) = Some s"
  then show "openSenderCopy sample_primitives m (messageKey sample_primitives s (senderEphemeralKey m)) = None"
    using sample_copy_closed payload_copy payload_of_fields sample_keys(1) by metis
qed simp_all

text \<open>A directory entry whose stated fingerprint is not that of its own keys is never sealed to: the
  call fails before any random value is used, so no ciphertext to a contradictory entry exists;
  and nobody seals to themselves.\<close>

theorem seal_fails_closed:
  assumes "from_hex (peer_exchange_public_key peer) = Inr e" and "from_hex (peer_signing_public_key peer) = Inr s"
    and "peer_key_fingerprint peer \<noteq> []"
    and "to_lower (peer_key_fingerprint peer) \<noteq> fingerprint P e s \<or> e = exchangePublicKey own"
  shows "sealMessage P r t peer own n \<in> {Inl FingerprintMismatch, Inl SelfAddressed}"
  using assms
  by (auto simp: sealMessage_def assertPeerFingerprint_def peerFingerprint_def encryptMessage_self)

theorem seal_fails_closed_witness:
  "sealMessage sample_primitives sample_random (units_of ''hi'')
     \<lparr>peer_exchange_public_key = to_hex (replicate 32 5), peer_signing_public_key = to_hex (replicate 32 9),
      peer_key_fingerprint = ''00''\<rparr> sample_author ''ab-cd'' \<in> {Inl FingerprintMismatch, Inl SelfAddressed}"
proof -
  have "length (fingerprint sample_primitives (replicate 32 5) (replicate 32 9)) = 64"
    by (simp add: fingerprint_def sample_primitives_def)
  then have "to_lower ''00'' \<noteq> fingerprint sample_primitives (replicate 32 5) (replicate 32 9)"
    by (auto simp: to_lower_def dest!: arg_cong [of _ "fingerprint _ _ _" length])
  then show ?thesis by (intro seal_fails_closed) auto
qed

end
