(* ===== verification/Json_Value.thy ===== *)
theory Json_Value
  imports Prelude Complex_Main
begin

text \<open>
  Values that come out of \<open>JSON.parse\<close>, and the local stores the clients keep them in.

  \<open>JSON.stringify\<close> and \<open>JSON.parse\<close> belong to the runtime, so a store is modelled by what parsing
  its text gives: \<open>Garbage\<close> for text that does not parse, \<open>Parsed v\<close> otherwise. A finite number is
  a rational. An absent property reads as \<open>None\<close>, which is \<open>undefined\<close>.
\<close>

datatype json =
    JNull
  | JBool bool
  | JNum rat
  | JStr string
  | JArr "json list"
  | JObj "(string \<times> json) list"

datatype stored = Garbage | Parsed json

type_synonym kv_store = "string \<Rightarrow> stored option"

text \<open>\<open>(value as Record<string, unknown>).key\<close>; a property of anything but a plain object is not
  read by the validators, which check \<open>typeof value === 'object'\<close> first.\<close>

definition json_prop :: "json \<Rightarrow> string \<Rightarrow> json option" where
  "json_prop v k = (case v of JObj ps \<Rightarrow> jm_get ps k | _ \<Rightarrow> None)"

fun is_string :: "json option \<Rightarrow> bool" where
  "is_string (Some (JStr _)) = True"
| "is_string _ = False"

fun the_string :: "json option \<Rightarrow> string" where
  "the_string (Some (JStr s)) = s"
| "the_string _ = []"

fun is_number :: "json option \<Rightarrow> bool" where
  "is_number (Some (JNum _)) = True"
| "is_number _ = False"

fun the_number :: "json option \<Rightarrow> rat" where
  "the_number (Some (JNum q)) = q"
| "the_number _ = 0"

fun is_bool :: "json option \<Rightarrow> bool" where
  "is_bool (Some (JBool _)) = True"
| "is_bool _ = False"

text \<open>\<open>value && typeof value === 'object'\<close> holds of objects and of arrays; an array has no named
  property.\<close>

definition is_object :: "json \<Rightarrow> bool" where
  "is_object v = (case v of JObj _ \<Rightarrow> True | JArr _ \<Rightarrow> True | _ \<Rightarrow> False)"

text \<open>\<open>Number.isInteger\<close> and \<open>Number.isSafeInteger\<close>.\<close>

definition is_integer :: "rat \<Rightarrow> bool" where
  "is_integer q \<longleftrightarrow> snd (quotient_of q) = 1"

definition is_safe_integer :: "rat \<Rightarrow> bool" where
  "is_safe_integer q \<longleftrightarrow> is_integer q \<and> \<bar>q\<bar> \<le> 9007199254740991"

text \<open>The parsed content of one entry, as \<open>getItem\<close> then \<open>JSON.parse\<close> give it inside a \<open>try\<close>:
  a failing read, a missing entry and unparseable text are all \<open>None\<close>.\<close>

definition read_parsed :: "bool \<Rightarrow> kv_store \<Rightarrow> string \<Rightarrow> json option" where
  "read_parsed read_ok store key =
     (if read_ok then (case store key of Some (Parsed v) \<Rightarrow> Some v | _ \<Rightarrow> None) else None)"

lemma the_string_of: "is_string v \<Longrightarrow> v = Some (JStr (the_string v))"
  by (cases v rule: is_string.cases) auto

lemma is_string_iff: "is_string v \<longleftrightarrow> (\<exists>s. v = Some (JStr s))"
  by (cases v rule: is_string.cases) auto

lemma is_number_iff: "is_number v \<longleftrightarrow> (\<exists>q. v = Some (JNum q))"
  by (cases v rule: is_number.cases) auto

end
