(* ===== verification/Peer_Trust.thy ===== *)
theory Peer_Trust
  imports Bytes_Hex Json_Value
begin

text \<open>
  Trust on first use: \<open>lib/crypto/trust.ts\<close> (the pin and the comparison), \<open>lib/crypto/pins.ts\<close>
  (where a device keeps its pins) and \<open>hooks/use-peer-trust.ts\<close> (check and accept).

  The device's key-value store is a \<open>kv_store\<close>; an \<open>io\<close> record says whether a read or a write of it
  fails. The abstract specification is a map from account and contact to a fingerprint; the
  concrete operations refine it, which the last section states.
\<close>

section \<open>Pins and the comparison\<close>

record peer_pin =
  pin_fingerprint :: string
  pin_username :: string
  pin_pinnedAt :: string

datatype peer_trust = First_Contact | Unchanged | Changed

definition is_fingerprint :: "string \<Rightarrow> bool" where
  "is_fingerprint s \<longleftrightarrow> length s = 64 \<and> list_all (\<lambda>c. is_hex c \<and> lower_char c = c) s"

definition isPeerPin :: "json option \<Rightarrow> bool" where
  "isPeerPin value =
     (case value of
        None \<Rightarrow> False
      | Some v \<Rightarrow>
          is_object v \<and>
          is_string (json_prop v ''fingerprint'') \<and> is_fingerprint (the_string (json_prop v ''fingerprint'')) \<and>
          is_string (json_prop v ''username'') \<and> is_string (json_prop v ''pinnedAt''))"

definition pin_of_json :: "json \<Rightarrow> peer_pin" where
  "pin_of_json v =
     \<lparr>pin_fingerprint = the_string (json_prop v ''fingerprint''),
      pin_username = the_string (json_prop v ''username''),
      pin_pinnedAt = the_string (json_prop v ''pinnedAt'')\<rparr>"

definition json_of_pin :: "peer_pin \<Rightarrow> json" where
  "json_of_pin p =
     JObj [(''fingerprint'', JStr (pin_fingerprint p)), (''username'', JStr (pin_username p)),
           (''pinnedAt'', JStr (pin_pinnedAt p))]"

definition pinFor :: "string \<Rightarrow> string \<Rightarrow> string \<Rightarrow> peer_pin" where
  "pinFor fp username nowIso =
     \<lparr>pin_fingerprint = to_lower fp, pin_username = username, pin_pinnedAt = nowIso\<rparr>"

definition comparePeerKeys :: "json option \<Rightarrow> string \<Rightarrow> peer_trust" where
  "comparePeerKeys pinned currentFingerprint =
     (if \<not> isPeerPin pinned then First_Contact
      else if pin_fingerprint (pin_of_json (the pinned)) = to_lower currentFingerprint then Unchanged
      else Changed)"

section \<open>The pin store\<close>

record io =
  can_read :: bool
  can_write :: bool

definition pins_storageKey :: "string \<Rightarrow> string" where
  "pins_storageKey ownUserId = ''vazute.e2ee.pins.'' @ ownUserId"

definition pins_readAll :: "io \<Rightarrow> kv_store \<Rightarrow> string \<Rightarrow> (string, json) jsmap" where
  "pins_readAll i disk ownUserId =
     (case read_parsed (can_read i) disk (pins_storageKey ownUserId) of
        Some (JObj entries) \<Rightarrow> entries
      | _ \<Rightarrow> [])"

definition loadPin :: "io \<Rightarrow> kv_store \<Rightarrow> string \<Rightarrow> string \<Rightarrow> json option" where
  "loadPin i disk ownUserId peerUserId =
     (let pin = jm_get (pins_readAll i disk ownUserId) peerUserId
      in if isPeerPin pin then pin else None)"

definition savePin :: "io \<Rightarrow> kv_store \<Rightarrow> string \<Rightarrow> string \<Rightarrow> peer_pin \<Rightarrow> kv_store" where
  "savePin i disk ownUserId peerUserId pin =
     (let entries = jm_set peerUserId (json_of_pin pin) (pins_readAll i disk ownUserId)
      in if can_write i then disk(pins_storageKey ownUserId \<mapsto> Parsed (JObj entries)) else disk)"

definition forgetPins :: "io \<Rightarrow> kv_store \<Rightarrow> string \<Rightarrow> kv_store" where
  "forgetPins i disk ownUserId =
     (if can_write i then disk(pins_storageKey ownUserId := None) else disk)"

section \<open>The check and the acceptance\<close>

text \<open>The effect of the hook for an account, a contact and the fingerprint served now, and
  \<open>accept\<close>. Both do nothing while one of the three, or the username, is missing.\<close>

definition check_peer ::
  "io \<Rightarrow> string \<Rightarrow> string \<Rightarrow> string \<Rightarrow> string \<Rightarrow> string \<Rightarrow> kv_store \<Rightarrow> peer_trust option \<times> kv_store" where
  "check_peer i nowIso own peer username fp disk =
     (if own = [] \<or> peer = [] \<or> username = [] \<or> fp = [] then (None, disk)
      else let trust = comparePeerKeys (loadPin i disk own peer) fp
           in (Some trust,
               if trust = First_Contact then savePin i disk own peer (pinFor fp username nowIso)
               else disk))"

definition accept_peer ::
  "io \<Rightarrow> string \<Rightarrow> string \<Rightarrow> string \<Rightarrow> string \<Rightarrow> string \<Rightarrow> kv_store \<Rightarrow> peer_trust option \<times> kv_store" where
  "accept_peer i nowIso own peer username fp disk =
     (if own = [] \<or> peer = [] \<or> username = [] \<or> fp = [] then (None, disk)
      else (Some Unchanged, savePin i disk own peer (pinFor fp username nowIso)))"

text \<open>\<open>result && result.key === currentKey ? result.trust : null\<close>.\<close>

definition peer_key :: "string \<Rightarrow> string \<Rightarrow> string \<Rightarrow> string option" where
  "peer_key own peer fp =
     (if own = [] \<or> peer = [] \<or> fp = [] then None else Some (own @ '':'' @ peer @ '':'' @ fp))"

definition shown_trust :: "(string \<times> peer_trust) option \<Rightarrow> string option \<Rightarrow> peer_trust option" where
  "shown_trust result currentKey =
     (case result of None \<Rightarrow> None
      | Some (key, trust) \<Rightarrow> if Some key = currentKey then Some trust else None)"

section \<open>Refinement of the abstract pin map\<close>

type_synonym pin_map = "string \<times> string \<Rightarrow> string option"

definition io_ok :: io where "io_ok = \<lparr>can_read = True, can_write = True\<rparr>"

definition pins_abs :: "kv_store \<Rightarrow> pin_map" where
  "pins_abs disk = (\<lambda>(own, peer).
     map_option (\<lambda>v. pin_fingerprint (pin_of_json v)) (loadPin io_ok disk own peer))"

definition spec_trust :: "string option \<Rightarrow> string \<Rightarrow> peer_trust" where
  "spec_trust pinned fp =
     (case pinned of None \<Rightarrow> First_Contact | Some g \<Rightarrow> if g = fp then Unchanged else Changed)"

definition spec_serve :: "string \<times> string \<Rightarrow> string \<Rightarrow> pin_map \<Rightarrow> pin_map" where
  "spec_serve who fp pins = (if pins who = None then pins(who \<mapsto> fp) else pins)"

lemma isPeerPin_json_of_pin [simp]:
  "isPeerPin (Some (json_of_pin p)) \<longleftrightarrow> is_fingerprint (pin_fingerprint p)"
  by (simp add: isPeerPin_def json_of_pin_def json_prop_def is_object_def jm_get_def)

lemma pin_of_json_of_pin [simp]: "pin_of_json (json_of_pin p) = p"
  by (simp add: pin_of_json_def json_of_pin_def json_prop_def jm_get_def)

lemma readAll_savePin:
  "pins_readAll io_ok (savePin io_ok disk own peer pin) own' =
   (if own' = own then jm_set peer (json_of_pin pin) (pins_readAll io_ok disk own)
    else pins_readAll io_ok disk own')"
  by (simp add: savePin_def pins_readAll_def io_ok_def read_parsed_def pins_storageKey_def)

lemma readAll_forgetPins:
  "pins_readAll io_ok (forgetPins io_ok disk own) own' =
   (if own' = own then [] else pins_readAll io_ok disk own')"
  by (simp add: forgetPins_def pins_readAll_def io_ok_def read_parsed_def pins_storageKey_def)

lemma pins_abs_save:
  "is_fingerprint (pin_fingerprint pin) \<Longrightarrow>
   pins_abs (savePin io_ok disk own peer pin) = (pins_abs disk)((own, peer) \<mapsto> pin_fingerprint pin)"
  by (auto simp: pins_abs_def loadPin_def readAll_savePin Let_def fun_eq_iff)

lemma pins_abs_forget:
  "pins_abs (forgetPins io_ok disk own) = (\<lambda>(o', p). if o' = own then None else pins_abs disk (o', p))"
  by (auto simp: pins_abs_def loadPin_def readAll_forgetPins Let_def fun_eq_iff isPeerPin_def)

lemma comparePeerKeys_spec:
  "comparePeerKeys (loadPin io_ok disk own peer) fp = spec_trust (pins_abs disk (own, peer)) (to_lower fp)"
  by (cases "jm_get (pins_readAll io_ok disk own) peer")
    (auto simp: comparePeerKeys_def loadPin_def pins_abs_def spec_trust_def Let_def isPeerPin_def)

lemma check_peer_spec:
  assumes "own \<noteq> []" and "peer \<noteq> []" and "username \<noteq> []" and "is_fingerprint (to_lower fp)"
  shows "fst (check_peer io_ok now own peer username fp disk) =
      Some (spec_trust (pins_abs disk (own, peer)) (to_lower fp))"
    and "pins_abs (snd (check_peer io_ok now own peer username fp disk)) =
      spec_serve (own, peer) (to_lower fp) (pins_abs disk)"
proof -
  have "fp \<noteq> []" using assms(4) by (auto simp: is_fingerprint_def to_lower_def)
  with assms show "fst (check_peer io_ok now own peer username fp disk) =
      Some (spec_trust (pins_abs disk (own, peer)) (to_lower fp))"
    and "pins_abs (snd (check_peer io_ok now own peer username fp disk)) =
      spec_serve (own, peer) (to_lower fp) (pins_abs disk)"
    by (auto simp: check_peer_def Let_def comparePeerKeys_spec spec_serve_def spec_trust_def pins_abs_save
        pinFor_def split: option.splits)
qed

lemma accept_peer_spec:
  assumes "own \<noteq> []" and "peer \<noteq> []" and "username \<noteq> []" and "is_fingerprint (to_lower fp)"
  shows "pins_abs (snd (accept_peer io_ok now own peer username fp disk)) =
    (pins_abs disk)((own, peer) \<mapsto> to_lower fp)"
proof -
  have "fp \<noteq> []" using assms(4) by (auto simp: is_fingerprint_def to_lower_def)
  with assms show ?thesis by (simp add: accept_peer_def pins_abs_save pinFor_def)
qed

section \<open>A device over time\<close>

text \<open>What a device does with pins: the page of a contact is opened with the keys the directory serves,
  the member accepts the keys on the page, the member asks the device to forget an account.\<close>

datatype pin_event =
    Served string string string string
  | Accepted string string string string
  | Forgotten string

fun pin_step :: "string \<Rightarrow> pin_event \<Rightarrow> kv_store \<Rightarrow> peer_trust option \<times> kv_store" where
  "pin_step now (Served own peer username fp) disk = check_peer io_ok now own peer username fp disk"
| "pin_step now (Accepted own peer username fp) disk = accept_peer io_ok now own peer username fp disk"
| "pin_step now (Forgotten own) disk = (None, forgetPins io_ok disk own)"

fun pin_run :: "string \<Rightarrow> pin_event list \<Rightarrow> kv_store \<Rightarrow> kv_store" where
  "pin_run now [] disk = disk"
| "pin_run now (e # es) disk = pin_run now es (snd (pin_step now e disk))"

text \<open>The fingerprint is always one derived from keys, see \<open>peerFingerprint\<close>.\<close>

fun pin_event_ok :: "pin_event \<Rightarrow> bool" where
  "pin_event_ok (Served own peer username fp) \<longleftrightarrow>
     own \<noteq> [] \<and> peer \<noteq> [] \<and> username \<noteq> [] \<and> is_fingerprint (to_lower fp)"
| "pin_event_ok (Accepted own peer username fp) \<longleftrightarrow>
     own \<noteq> [] \<and> peer \<noteq> [] \<and> username \<noteq> [] \<and> is_fingerprint (to_lower fp)"
| "pin_event_ok (Forgotten own) \<longleftrightarrow> True"

fun spec_pin_step :: "pin_event \<Rightarrow> pin_map \<Rightarrow> pin_map" where
  "spec_pin_step (Served own peer username fp) pins = spec_serve (own, peer) (to_lower fp) pins"
| "spec_pin_step (Accepted own peer username fp) pins = pins((own, peer) \<mapsto> to_lower fp)"
| "spec_pin_step (Forgotten own) pins = (\<lambda>(o', p). if o' = own then None else pins (o', p))"

text \<open>The events that may change what the device holds about a contact once it holds something.\<close>

fun releases_pin :: "string \<Rightarrow> string \<Rightarrow> pin_event \<Rightarrow> bool" where
  "releases_pin own peer (Served o' p u fp) \<longleftrightarrow> False"
| "releases_pin own peer (Accepted o' p u fp) \<longleftrightarrow> o' = own \<and> p = peer"
| "releases_pin own peer (Forgotten o') \<longleftrightarrow> o' = own"

lemma pin_step_abs:
  "pin_event_ok e \<Longrightarrow> pins_abs (snd (pin_step now e disk)) = spec_pin_step e (pins_abs disk)"
  by (cases e) (simp_all add: check_peer_spec accept_peer_spec pins_abs_forget)

lemma spec_pin_kept:
  "pins (own, peer) = Some g \<Longrightarrow> \<not> releases_pin own peer e \<Longrightarrow> spec_pin_step e pins (own, peer) = Some g"
  by (cases e) (auto simp: spec_serve_def)

lemma pin_run_kept:
  "pins_abs disk (own, peer) = Some g \<Longrightarrow> \<forall>e \<in> set es. pin_event_ok e \<and> \<not> releases_pin own peer e \<Longrightarrow>
   pins_abs (pin_run now es disk) (own, peer) = Some g"
  by (induction es arbitrary: disk) (auto simp: pin_step_abs spec_pin_kept)

text \<open>C4: The pin store is a map from account and contact to a fingerprint. Opening a contact's page
  answers what that map says (first contact, unchanged, changed) and adds to it only on first
  contact; accepting overwrites exactly the one contact's entry; forgetting an account drops
  exactly the entries of that account. The stored JSON object refines the map event by event.\<close>

theorem pins_refine_map:
  assumes "pin_event_ok e"
  shows "pins_abs (snd (pin_step now e disk)) = spec_pin_step e (pins_abs disk) \<and>
    (\<forall>own peer username fp. e = Served own peer username fp \<longrightarrow>
       fst (pin_step now e disk) = Some (spec_trust (pins_abs disk (own, peer)) (to_lower fp)))"
  using assms by (auto simp: pin_step_abs check_peer_spec)

definition sample_fp :: "char \<Rightarrow> string" where
  "sample_fp c = replicate 64 c"

lemma sample_fp_ok: "is_fingerprint (to_lower (sample_fp CHR ''A'')) \<and> is_fingerprint (to_lower (sample_fp CHR ''b''))"
  by (simp add: is_fingerprint_def sample_fp_def to_lower_def list_all_iff) code_simp

theorem pins_refine_map_witness:
  "pins_abs (snd (pin_step ''t'' (Served ''me'' ''you'' ''u'' (sample_fp CHR ''A'')) (\<lambda>_. None))) =
   spec_pin_step (Served ''me'' ''you'' ''u'' (sample_fp CHR ''A'')) (pins_abs (\<lambda>_. None))"
  by (rule pins_refine_map [THEN conjunct1]) (use sample_fp_ok in simp)

text \<open>A changed key is reported until the member accepts it. Once the device holds a fingerprint for a
  contact, no later page load, whatever keys the server serves and however often, changes it;
  so every load that serves different keys reports a change, and every load that serves the
  pinned ones does not, until the member accepts the new keys or forgets the account.\<close>

theorem change_reported_until_accepted:
  assumes "pins_abs disk (own, peer) = Some g"
    and "\<forall>e \<in> set es. pin_event_ok e \<and> \<not> releases_pin own peer e"
    and "pin_event_ok (Served own peer username fp)"
  shows "fst (pin_step now (Served own peer username fp) (pin_run now es disk)) =
    Some (if to_lower fp = g then Unchanged else Changed)"
  using assms by (auto simp: check_peer_spec pin_run_kept spec_trust_def)

theorem change_reported_until_accepted_witness:
  "fst (pin_step ''t'' (Served ''me'' ''you'' ''u'' (sample_fp CHR ''b''))
     (pin_run ''t'' [Served ''me'' ''you'' ''u'' (sample_fp CHR ''b''), Served ''me'' ''x'' ''u'' (sample_fp CHR ''b'')]
       (snd (pin_step ''t'' (Served ''me'' ''you'' ''u'' (sample_fp CHR ''A'')) (\<lambda>_. None))))) = Some Changed"
proof -
  have "pins_abs (\<lambda>_. None) (''me'', ''you'') = None"
    by (simp add: pins_abs_def loadPin_def pins_readAll_def read_parsed_def isPeerPin_def)
  then have "pins_abs (snd (pin_step ''t'' (Served ''me'' ''you'' ''u'' (sample_fp CHR ''A'')) (\<lambda>_. None)))
      (''me'', ''you'') = Some (to_lower (sample_fp CHR ''A''))"
    using sample_fp_ok by (subst pin_step_abs) (simp_all add: spec_serve_def)
  moreover have "to_lower (sample_fp CHR ''b'') \<noteq> to_lower (sample_fp CHR ''A'')"
    by (simp add: sample_fp_def to_lower_def) code_simp
  ultimately show ?thesis
    using sample_fp_ok by (subst change_reported_until_accepted) auto
qed

end
