(* ===== verification/Key_Session.thy ===== *)
theory Key_Session
  imports Crypto_Core Peer_Trust
begin

text \<open>
  \<open>lib/crypto/storage.ts\<close> (the keychain record of an identity), \<open>lib/crypto/session.ts\<close> (setting up,
  rotating and restoring) and the state of \<open>store/encryption.ts\<close>. What a session does with them is in
  Key_Lifecycle.

  A response of the server is an argument, \<open>Inl\<close> when the request fails. What a function sends is
  part of its result. Random bytes are arguments.
\<close>

section \<open>The keychain record\<close>

definition word_char :: "char \<Rightarrow> bool" where
  "word_char c \<longleftrightarrow> (let n = char_code c in
     48 \<le> n \<and> n \<le> 57 \<or> 65 \<le> n \<and> n \<le> 90 \<or> 97 \<le> n \<and> n \<le> 122 \<or> n = 95)"

definition entryKey :: "string \<Rightarrow> string" where
  "entryKey userId =
     ''vazute.e2ee.'' @ filter (\<lambda>c. word_char c \<or> c = CHR ''.'' \<or> c = CHR ''-'') userId"

text \<open>Ids made of the characters a keychain key allows; the ids of accounts are UUIDs.\<close>

definition safe_id :: "string \<Rightarrow> bool" where
  "safe_id u \<longleftrightarrow> list_all (\<lambda>c. word_char c \<or> c = CHR ''.'' \<or> c = CHR ''-'') u"

record loaded_identity =
  li_identity :: identity_key_pair
  li_fingerprint :: "json option"

definition json_of_identity :: "identity_key_pair \<Rightarrow> string \<Rightarrow> json" where
  "json_of_identity i fp =
     JObj [(''exchangePublicKey'', JStr (to_hex (exchangePublicKey i))),
           (''exchangePrivateKey'', JStr (to_hex (exchangePrivateKey i))),
           (''signingPublicKey'', JStr (to_hex (signingPublicKey i))),
           (''signingPrivateKey'', JStr (to_hex (signingPrivateKey i))),
           (''fingerprint'', JStr fp)]"

text \<open>\<open>fromHex(stored.field)\<close>: what is not a string has no hexadecimal reading, and a missing field
  throws.\<close>

definition hex_field :: "json \<Rightarrow> string \<Rightarrow> bytes option" where
  "hex_field v k =
     (case json_prop v k of
        Some (JStr s) \<Rightarrow> (case from_hex s of Inl _ \<Rightarrow> None | Inr b \<Rightarrow> Some b)
      | _ \<Rightarrow> None)"

definition loadIdentity :: "io \<Rightarrow> kv_store \<Rightarrow> string \<Rightarrow> loaded_identity option" where
  "loadIdentity i chain userId =
     (case read_parsed (can_read i) chain (entryKey userId) of
        None \<Rightarrow> None
      | Some v \<Rightarrow>
          (case (hex_field v ''exchangePublicKey'', hex_field v ''exchangePrivateKey'',
                 hex_field v ''signingPublicKey'', hex_field v ''signingPrivateKey'') of
             (Some a, Some b, Some c, Some d) \<Rightarrow>
               Some \<lparr>li_identity = \<lparr>exchangePublicKey = a, exchangePrivateKey = b,
                       signingPublicKey = c, signingPrivateKey = d\<rparr>,
                     li_fingerprint = json_prop v ''fingerprint''\<rparr>
           | _ \<Rightarrow> None))"

datatype key_error =
    Api_Failed
  | Wrong_Secret
  | Key_Mismatch
  | Password_Restore_Unavailable
  | Core_Failed core_error
  | Not_Authenticated
  | Identity_Locked
  | Storage_Failed

definition saveIdentity ::
  "io \<Rightarrow> kv_store \<Rightarrow> string \<Rightarrow> identity_key_pair \<Rightarrow> string \<Rightarrow> key_error + kv_store" where
  "saveIdentity i chain userId identity fp =
     (if can_write i then Inr (chain(entryKey userId \<mapsto> Parsed (json_of_identity identity fp)))
      else Inl Storage_Failed)"

definition forgetIdentity :: "io \<Rightarrow> kv_store \<Rightarrow> string \<Rightarrow> kv_store" where
  "forgetIdentity i chain userId =
     (if can_write i then chain(entryKey userId := None) else chain)"

section \<open>Setting up, rotating and restoring\<close>

record kdf_parameters =
  memory_kib :: nat
  kdf_iterations :: nat
  kdf_parallelism :: nat

record key_backup =
  password_wrapped_key :: "string option"
  password_kdf_salt :: "string option"
  password_kdf :: "kdf_parameters option"
  recovery_wrapped_key :: string
  recovery_kdf_salt :: string
  recovery_kdf :: kdf_parameters

record key_status =
  has_keys :: bool
  key_fingerprint :: "string option"

record keys_put =
  put_exchange_public_key :: string
  put_signing_public_key :: string
  put_key_fingerprint :: string
  put_recovery_wrapped_key :: string
  put_recovery_kdf_salt :: string
  put_recovery_kdf :: kdf_parameters

record backup_put =
  rot_recovery_wrapped_key :: string
  rot_recovery_kdf_salt :: string
  rot_recovery_kdf :: kdf_parameters
  rot_current_password :: jstr
  rot_totp_code :: "string option"

record setup_result =
  sr_identity :: identity_key_pair
  sr_fingerprint :: string
  sr_recoveryCode :: string

definition costFromApi :: "kdf_parameters \<Rightarrow> kdf_cost" where
  "costFromApi k = \<lparr>memoryKib = memory_kib k, iterations = kdf_iterations k, parallelism = kdf_parallelism k\<rparr>"

definition costToApi :: "kdf_cost \<Rightarrow> kdf_parameters" where
  "costToApi c = \<lparr>memory_kib = memoryKib c, kdf_iterations = iterations c, kdf_parallelism = parallelism c\<rparr>"

record setup_random =
  rnd_exchange :: bytes
  rnd_signing :: bytes
  rnd_code :: bytes
  rnd_salt :: bytes
  rnd_wrap_nonce :: bytes

text \<open>The body of the request, and what follows the answer to it.\<close>

definition setup_request :: "primitives \<Rightarrow> setup_random \<Rightarrow> keys_put" where
  "setup_request P r =
     (let identity = generateIdentity P (rnd_exchange r) (rnd_signing r);
          recoveryCode = generateRecoveryCode (rnd_code r);
          key = deriveWrappingKey P (units_of recoveryCode) (rnd_salt r) DEFAULT_KDF_COST
      in \<lparr>put_exchange_public_key = to_hex (exchangePublicKey identity),
          put_signing_public_key = to_hex (signingPublicKey identity),
          put_key_fingerprint = fingerprint P (exchangePublicKey identity) (signingPublicKey identity),
          put_recovery_wrapped_key = to_hex (wrapIdentity P (rnd_wrap_nonce r) identity key),
          put_recovery_kdf_salt = to_hex (rnd_salt r),
          put_recovery_kdf = costToApi DEFAULT_KDF_COST\<rparr>)"

definition setupIdentity ::
  "primitives \<Rightarrow> setup_random \<Rightarrow> io \<Rightarrow> kv_store \<Rightarrow> string \<Rightarrow> key_error + unit \<Rightarrow>
   key_error + setup_result \<times> kv_store" where
  "setupIdentity P r i chain userId answer =
     (let identity = generateIdentity P (rnd_exchange r) (rnd_signing r);
          fp = fingerprint P (exchangePublicKey identity) (signingPublicKey identity)
      in bindE answer (\<lambda>_.
         bindE (saveIdentity i chain userId identity fp) (\<lambda>chain'.
         Inr (\<lparr>sr_identity = identity, sr_fingerprint = fp,
               sr_recoveryCode = generateRecoveryCode (rnd_code r)\<rparr>, chain'))))"

definition passwordCopyStillExists :: "key_error + key_backup \<Rightarrow> bool" where
  "passwordCopyStillExists answer =
     (case answer of
        Inl _ \<Rightarrow> False
      | Inr b \<Rightarrow> (case password_wrapped_key b of Some (_ # _) \<Rightarrow> True | _ \<Rightarrow> False))"

definition rotate_request ::
  "primitives \<Rightarrow> setup_random \<Rightarrow> identity_key_pair \<Rightarrow> jstr \<Rightarrow> string option \<Rightarrow> backup_put" where
  "rotate_request P r identity currentPassword totpCode =
     (let code = generateRecoveryCode (rnd_code r);
          key = deriveWrappingKey P (units_of code) (rnd_salt r) DEFAULT_KDF_COST
      in \<lparr>rot_recovery_wrapped_key = to_hex (wrapIdentity P (rnd_wrap_nonce r) identity key),
          rot_recovery_kdf_salt = to_hex (rnd_salt r),
          rot_recovery_kdf = costToApi DEFAULT_KDF_COST,
          rot_current_password = currentPassword,
          rot_totp_code = (case totpCode of Some (c # cs) \<Rightarrow> Some (c # cs) | _ \<Rightarrow> None)\<rparr>)"

definition rotateRecoveryCode :: "setup_random \<Rightarrow> key_error + unit \<Rightarrow> key_error + string" where
  "rotateRecoveryCode r answer = bindE answer (\<lambda>_. Inr (generateRecoveryCode (rnd_code r)))"

datatype restore_kind = By_Password | By_Recovery

definition backup_copy ::
  "key_backup \<Rightarrow> restore_kind \<Rightarrow> key_error + string \<times> string \<times> kdf_parameters" where
  "backup_copy b kind =
     (case kind of
        By_Recovery \<Rightarrow> Inr (recovery_wrapped_key b, recovery_kdf_salt b, recovery_kdf b)
      | By_Password \<Rightarrow>
          (case (password_wrapped_key b, password_kdf_salt b, password_kdf b) of
             (Some (w # ws), Some (s # ss), Some k) \<Rightarrow> Inr (w # ws, s # ss, k)
           | _ \<Rightarrow> Inl Password_Restore_Unavailable))"

definition core_result :: "core_error + 'a \<Rightarrow> key_error + 'a" where
  "core_result r = (case r of Inl e \<Rightarrow> Inl (Core_Failed e) | Inr x \<Rightarrow> Inr x)"

definition open_backup ::
  "primitives \<Rightarrow> jstr \<Rightarrow> string \<times> string \<times> kdf_parameters \<Rightarrow> key_error + identity_key_pair" where
  "open_backup P secret copy =
     (case copy of (wrapped, salt, cost) \<Rightarrow>
        bindE (core_result (from_hex salt)) (\<lambda>s.
        let key = deriveWrappingKey P secret s (costFromApi cost)
        in case bindE (from_hex wrapped) (\<lambda>w. unwrapIdentity P w key) of
             Inl _ \<Rightarrow> Inl Wrong_Secret
           | Inr identity \<Rightarrow> Inr identity))"

definition restoreIdentity ::
  "primitives \<Rightarrow> io \<Rightarrow> kv_store \<Rightarrow> string \<Rightarrow> jstr \<Rightarrow> restore_kind \<Rightarrow> key_error + key_backup \<Rightarrow>
   key_error + key_status \<Rightarrow> key_error + (identity_key_pair \<times> string) \<times> kv_store" where
  "restoreIdentity P i chain userId secret kind backupAnswer statusAnswer =
     bindE backupAnswer (\<lambda>backup. bindE statusAnswer (\<lambda>status.
     bindE (backup_copy backup kind) (\<lambda>copy.
     bindE (open_backup P secret copy) (\<lambda>identity.
     let fp = fingerprint P (exchangePublicKey identity) (signingPublicKey identity) in
     if (case key_fingerprint status of Some (c # cs) \<Rightarrow> c # cs \<noteq> fp | _ \<Rightarrow> False) then Inl Key_Mismatch
     else bindE (saveIdentity i chain userId identity fp) (\<lambda>chain'. Inr ((identity, fp), chain'))))))"

definition fetchPeerKeys :: "key_error + 'k \<Rightarrow> 'k option" where
  "fetchPeerKeys answer = (case answer of Inl _ \<Rightarrow> None | Inr k \<Rightarrow> Some k)"

definition loadStoredIdentity :: "io \<Rightarrow> kv_store \<Rightarrow> string \<Rightarrow> loaded_identity option" where
  "loadStoredIdentity i chain userId = loadIdentity i chain userId"

section \<open>The loaded identity of a session\<close>

datatype encryption_status = Loading | Ready | Locked_Status | Absent | Unavailable

record encryption_state =
  en_status :: encryption_status
  en_identity :: "identity_key_pair option"
  en_fingerprint :: "json option"

definition encryption_initial :: encryption_state where
  "encryption_initial = \<lparr>en_status = Loading, en_identity = None, en_fingerprint = None\<rparr>"

definition setIdentity :: "identity_key_pair \<Rightarrow> json option \<Rightarrow> encryption_state \<Rightarrow> encryption_state" where
  "setIdentity i fp s = s\<lparr>en_identity := Some i, en_fingerprint := fp, en_status := Ready\<rparr>"

definition setStatus :: "encryption_status \<Rightarrow> encryption_state \<Rightarrow> encryption_state" where
  "setStatus st s = s\<lparr>en_status := st\<rparr>"

end
