(* ===== verification/Key_Claims.thy ===== *)
theory Key_Claims
  imports Key_Session Core_Claims
begin

text \<open>
  What setting up, restoring and loading an identity promise.
\<close>

section \<open>The keychain\<close>

lemma hex_field_identity [simp]:
  "hex_field (json_of_identity i fp) ''exchangePublicKey'' = Some (exchangePublicKey i)"
  "hex_field (json_of_identity i fp) ''exchangePrivateKey'' = Some (exchangePrivateKey i)"
  "hex_field (json_of_identity i fp) ''signingPublicKey'' = Some (signingPublicKey i)"
  "hex_field (json_of_identity i fp) ''signingPrivateKey'' = Some (signingPrivateKey i)"
  "json_prop (json_of_identity i fp) ''fingerprint'' = Some (JStr fp)"
  by (simp_all add: hex_field_def json_of_identity_def json_prop_def jm_get_def)

lemma load_saved:
  "saveIdentity io_ok chain u i fp = Inr chain' \<Longrightarrow>
   loadIdentity io_ok chain' u = Some \<lparr>li_identity = i, li_fingerprint = Some (JStr fp)\<rparr>"
  by (auto simp: saveIdentity_def loadIdentity_def io_ok_def read_parsed_def)

lemma entryKey_inj: "safe_id u \<Longrightarrow> safe_id v \<Longrightarrow> entryKey u = entryKey v \<Longrightarrow> u = v"
proof -
  have "filter (\<lambda>c. word_char c \<or> c = CHR ''.'' \<or> c = CHR ''-'') w = w" if "safe_id w" for w
    using that by (simp add: safe_id_def list_all_iff filter_id_conv)
  then show "safe_id u \<Longrightarrow> safe_id v \<Longrightarrow> entryKey u = entryKey v \<Longrightarrow> u = v"
    by (simp add: entryKey_def)
qed

text \<open>The keychain keeps identities apart. Saving an identity and loading it for the same user gives
  the same four keys and fingerprint; for every other user whose id has only the characters a
  keychain key allows, loading gives what it gave before; and forgetting a user removes exactly
  that user's identity.\<close>

theorem keychain_keeps_users_apart:
  assumes "safe_id u" and "saveIdentity io_ok chain u i fp = Inr chain'"
  shows "loadIdentity io_ok chain' u = Some \<lparr>li_identity = i, li_fingerprint = Some (JStr fp)\<rparr> \<and>
    loadIdentity io_ok (forgetIdentity io_ok chain' u) u = None \<and>
    (\<forall>v. safe_id v \<longrightarrow> v \<noteq> u \<longrightarrow>
       loadIdentity io_ok chain' v = loadIdentity io_ok chain v \<and>
       loadIdentity io_ok (forgetIdentity io_ok chain' u) v = loadIdentity io_ok chain v)"
proof (intro conjI allI impI)
  show "loadIdentity io_ok chain' u = Some \<lparr>li_identity = i, li_fingerprint = Some (JStr fp)\<rparr>"
    using assms(2) by (rule load_saved)
  show "loadIdentity io_ok (forgetIdentity io_ok chain' u) u = None"
    by (simp add: forgetIdentity_def loadIdentity_def io_ok_def read_parsed_def)
next
  fix v assume "safe_id v" and "v \<noteq> u"
  then have "entryKey v \<noteq> entryKey u" using entryKey_inj assms(1) by blast
  then show "loadIdentity io_ok chain' v = loadIdentity io_ok chain v"
    and "loadIdentity io_ok (forgetIdentity io_ok chain' u) v = loadIdentity io_ok chain v"
    using assms(2)
    by (auto simp: saveIdentity_def forgetIdentity_def loadIdentity_def io_ok_def read_parsed_def)
qed

theorem keychain_keeps_users_apart_witness:
  "loadIdentity io_ok ((\<lambda>_. None)(entryKey ''u-1'' \<mapsto> Parsed (json_of_identity sample_identity ''f''))) ''u-1'' =
     Some \<lparr>li_identity = sample_identity, li_fingerprint = Some (JStr ''f'')\<rparr>"
proof -
  have "safe_id ''u-1''" by code_simp
  then show ?thesis
    by (rule keychain_keeps_users_apart [where chain = "\<lambda>_. None", THEN conjunct1])
      (simp add: saveIdentity_def io_ok_def)
qed

section \<open>Setting up and restoring\<close>

definition setup_random_ok :: "setup_random \<Rightarrow> bool" where
  "setup_random_ok r \<longleftrightarrow> length (rnd_exchange r) = PRIVATE_KEY_BYTES \<and>
     length (rnd_signing r) = PRIVATE_KEY_BYTES \<and> length (rnd_wrap_nonce r) = NONCE_BYTES"

text \<open>The backup and the directory entry the server keeps from a set-up request.\<close>

definition stored_backup :: "keys_put \<Rightarrow> key_backup" where
  "stored_backup q =
     \<lparr>password_wrapped_key = None, password_kdf_salt = None, password_kdf = None,
      recovery_wrapped_key = put_recovery_wrapped_key q, recovery_kdf_salt = put_recovery_kdf_salt q,
      recovery_kdf = put_recovery_kdf q\<rparr>"

definition stored_status :: "keys_put \<Rightarrow> key_status" where
  "stored_status q = \<lparr>has_keys = True, key_fingerprint = Some (put_key_fingerprint q)\<rparr>"

lemma cost_round_trip [simp]: "costFromApi (costToApi c) = c"
  by (simp add: costFromApi_def costToApi_def)

lemma unwrap_wrap:
  assumes "primitives_ok P" and "identity_ok P i" and "length n = NONCE_BYTES"
  shows "unwrapIdentity P (wrapIdentity P n i w) w = Inr i"
proof -
  have "length (gcm_encrypt P (backupKey P w) n (serializeIdentity i)) > 0"
    using assms by (simp add: gcm_nonempty length_backupKey)
  then show ?thesis
    using assms
    by (simp add: unwrapIdentity_def wrapIdentity_def gcm_round_trip length_backupKey
        serializeIdentity_def deserializeIdentity_def identity_ok_def Let_def)
qed

lemma generated_ok: "setup_random_ok r \<Longrightarrow> identity_ok P (generateIdentity P (rnd_exchange r) (rnd_signing r))"
  by (simp add: setup_random_ok_def identity_ok_def generateIdentity_def)

lemma code_opens_backup:
  assumes "primitives_ok P" and "setup_random_ok r"
  shows "restoreIdentity P io_ok chain u (units_of (generateRecoveryCode (rnd_code r))) By_Recovery
      (Inr (stored_backup (setup_request P r))) (Inr (stored_status (setup_request P r))) =
    (let k = generateIdentity P (rnd_exchange r) (rnd_signing r);
         fp = fingerprint P (exchangePublicKey k) (signingPublicKey k)
     in Inr ((k, fp), chain(entryKey u \<mapsto> Parsed (json_of_identity k fp))))"
proof -
  let ?id = "generateIdentity P (rnd_exchange r) (rnd_signing r)"
  have "unwrapIdentity P (wrapIdentity P (rnd_wrap_nonce r) ?id w) w = Inr ?id" for w
    using unwrap_wrap [OF assms(1) generated_ok [OF assms(2)]] assms(2) by (simp add: setup_random_ok_def)
  then have "open_backup P (units_of (generateRecoveryCode (rnd_code r)))
      (recovery_wrapped_key (stored_backup (setup_request P r)),
       recovery_kdf_salt (stored_backup (setup_request P r)),
       recovery_kdf (stored_backup (setup_request P r))) = Inr ?id"
    by (simp add: open_backup_def core_result_def stored_backup_def setup_request_def Let_def)
  then show ?thesis
    by (auto simp: restoreIdentity_def backup_copy_def stored_status_def setup_request_def Let_def
        saveIdentity_def io_ok_def split: list.splits)
qed

lemma no_password_copy:
  "restoreIdentity P i chain u pw By_Password (Inr (stored_backup q)) (Inr st) = Inl Password_Restore_Unavailable"
  by (simp add: restoreIdentity_def backup_copy_def stored_backup_def)

definition sample_setup :: setup_random where
  "sample_setup = \<lparr>rnd_exchange = replicate 32 5, rnd_signing = replicate 32 9,
     rnd_code = replicate 20 0, rnd_salt = replicate 16 4, rnd_wrap_nonce = replicate 12 1\<rparr>"

definition sample_setup_result :: setup_result where
  "sample_setup_result = \<lparr>sr_identity = sample_identity,
     sr_fingerprint = fingerprint sample_primitives (exchangePublicKey sample_identity)
       (signingPublicKey sample_identity),
     sr_recoveryCode = generateRecoveryCode (replicate 20 0)\<rparr>"

lemma open_backup_Inr_iff:
  "open_backup P secret copy = Inr identity \<longleftrightarrow>
   (\<exists>wrapped salt cost s w. copy = (wrapped, salt, cost) \<and> from_hex salt = Inr s \<and> from_hex wrapped = Inr w \<and>
      unwrapIdentity P w (deriveWrappingKey P secret s (costFromApi cost)) = Inr identity)"
proof -
  obtain wrapped salt cost where c: "copy = (wrapped, salt, cost)" by (cases copy)
  show ?thesis
    by (cases "from_hex salt"; cases "from_hex wrapped")
      (auto simp: open_backup_def c core_result_def Let_def split: sum.splits)
qed

lemma mismatch_iff:
  "(case f of Some (c # cs) \<Rightarrow> c # cs \<noteq> fp | _ \<Rightarrow> False) \<longleftrightarrow> f \<notin> {None, Some [], Some fp}"
  by (auto split: option.splits list.splits)

text \<open>A restore never installs keys the directory does not list. When it succeeds, the backup copy
  that was asked for opened under the secret with that copy's own salt and cost, the four keys
  are consistent with each other, and their fingerprint is the one the directory states, if it
  states one. Every other outcome leaves the keychain as it was.\<close>

theorem restore_only_listed_keys:
  "restoreIdentity P i chain u secret kind (Inr backup) (Inr status) = Inr ((identity, fp), chain') \<longleftrightarrow>
   (\<exists>wrapped salt cost s w.
      backup_copy backup kind = Inr (wrapped, salt, cost) \<and> from_hex salt = Inr s \<and> from_hex wrapped = Inr w \<and>
      unwrapIdentity P w (deriveWrappingKey P secret s (costFromApi cost)) = Inr identity) \<and>
   fp = fingerprint P (exchangePublicKey identity) (signingPublicKey identity) \<and>
   (\<exists>stated. key_fingerprint status = stated \<and> stated \<in> {None, Some [], Some fp}) \<and>
   saveIdentity i chain u identity fp = Inr chain'"
  by (auto simp: restoreIdentity_def bindE_Inr_iff open_backup_Inr_iff mismatch_iff Let_def split: if_splits)

end
