(* ===== verification/Key_Lifecycle.thy ===== *)
theory Key_Lifecycle
  imports Key_Claims
begin

text \<open>
  The loaded identity over the life of a session: \<open>clear\<close> of \<open>store/encryption.ts\<close>, and the session
  effect and the set-up and restore mutations of \<open>hooks/use-encryption.ts\<close>. The web client has the
  same code in \<open>store/encryption.ts\<close> and \<open>hooks/useEncryption.ts\<close> over another storage, so the
  operations of the storage are arguments here. The locale \<open>identity_store\<close> states what the session
  relies on of them; the keychain provides it at the end of this theory, IndexedDB in Web_Keys.
\<close>

section \<open>The storage of identities\<close>

record 'st key_storage =
  ks_load :: "io \<Rightarrow> 'st \<Rightarrow> string \<Rightarrow> loaded_identity option"
  ks_save :: "io \<Rightarrow> 'st \<Rightarrow> string \<Rightarrow> identity_key_pair \<Rightarrow> string \<Rightarrow> key_error + 'st"
  ks_forget :: "io \<Rightarrow> 'st \<Rightarrow> string \<Rightarrow> 'st"

definition keychain_storage :: "kv_store key_storage" where
  "keychain_storage = \<lparr>ks_load = loadStoredIdentity, ks_save = saveIdentity, ks_forget = forgetIdentity\<rparr>"

text \<open>\<open>clear\<close>: the private bytes that were in memory are what the first component becomes. With a user
  id the stored identity and the pins of the account go too. \<open>i\<close> and \<open>j\<close> say which accesses to the
  two storages fail.\<close>

definition clear_encryption ::
  "'st key_storage \<Rightarrow> io \<Rightarrow> io \<Rightarrow> string option \<Rightarrow> encryption_state \<times> 'st \<times> kv_store \<Rightarrow>
   identity_key_pair option \<times> encryption_state \<times> 'st \<times> kv_store" where
  "clear_encryption K i j userId = (\<lambda>(s, st, disk).
     (map_option wipeIdentity (en_identity s),
      s\<lparr>en_identity := None, en_fingerprint := None, en_status := Loading\<rparr>,
      (case userId of None \<Rightarrow> st | Some [] \<Rightarrow> st | Some u \<Rightarrow> ks_forget K i st u),
      (case userId of None \<Rightarrow> disk | Some [] \<Rightarrow> disk | Some u \<Rightarrow> forgetPins j disk u)))"

section \<open>The session\<close>

text \<open>The effect that keeps the store honest. A run is cancelled as soon as one of its dependencies
  changes, and a cancelled run changes nothing, so only the live run is kept: the user and the
  key status it was started with, and the await it stands at.\<close>

datatype run_phase = Asking_Storage | Reading_Storage

text \<open>A set-up or a restore is a mutation of its own: it takes the user of the moment it is started,
  waits for the server and the storage, and ends with \<open>setIdentity\<close>, whoever is signed in by then.
  \<open>kw_result\<close> is what it has stored and not yet shown.\<close>

record key_work =
  kw_user :: string
  kw_result :: "(identity_key_pair \<times> string) option"

record 'st encryption_session =
  es_user :: "string option"
  es_status :: "key_status option"
  es_run :: "(string \<times> key_status \<times> run_phase) option"
  es_store :: encryption_state
  es_storage :: 'st
  es_work :: "key_work list"

definition session_initial :: "'st \<Rightarrow> 'st encryption_session" where
  "session_initial st =
     \<lparr>es_user = None, es_status = None, es_run = None, es_store = encryption_initial,
      es_storage = st, es_work = []\<rparr>"

definition start_effect :: "'st encryption_session \<Rightarrow> 'st encryption_session" where
  "start_effect s =
     (case es_user s of
        None \<Rightarrow> s\<lparr>es_run := None, es_store := setStatus Loading (es_store s)\<rparr>
      | Some u \<Rightarrow>
          (case es_status s of
             None \<Rightarrow> s\<lparr>es_run := None\<rparr>
           | Some st \<Rightarrow> s\<lparr>es_run := Some (u, st, Asking_Storage)\<rparr>))"

text \<open>\<open>!status.key_fingerprint || status.key_fingerprint === stored.fingerprint\<close>.\<close>

definition directory_agrees :: "key_status \<Rightarrow> json option \<Rightarrow> bool" where
  "directory_agrees st fp \<longleftrightarrow>
     (case key_fingerprint st of Some (c # cs) \<Rightarrow> fp = Some (JStr (c # cs)) | _ \<Rightarrow> True)"

definition storage_answer ::
  "key_status \<Rightarrow> loaded_identity option \<Rightarrow> encryption_state \<Rightarrow> encryption_state" where
  "storage_answer st stored s =
     (case stored of
        Some l \<Rightarrow> if directory_agrees st (li_fingerprint l) then setIdentity (li_identity l) (li_fingerprint l) s
                  else setStatus (if has_keys st then Locked_Status else Absent) s
      | None \<Rightarrow> setStatus (if has_keys st then Locked_Status else Absent) s)"

text \<open>The second effect: without a session the identity leaves the memory, and only the memory.\<close>

definition session_ends :: "'st key_storage \<Rightarrow> 'st encryption_session \<Rightarrow> 'st encryption_session" where
  "session_ends K s =
     (let s' = start_effect (s\<lparr>es_user := None, es_status := None\<rparr>)
      in s'\<lparr>es_store := fst (snd (clear_encryption K io_ok io_ok None (es_store s', es_storage s', \<lambda>_. None)))\<rparr>)"

section \<open>Set-ups and restores under way\<close>

definition work_started :: "'st encryption_session \<Rightarrow> key_error + 'st encryption_session" where
  "work_started s =
     (case es_user s of
        Some (c # cs) \<Rightarrow> Inr (s\<lparr>es_work := es_work s @ [\<lparr>kw_user = c # cs, kw_result = None\<rparr>]\<rparr>)
      | _ \<Rightarrow> Inl Not_Authenticated)"

definition drop_work :: "nat \<Rightarrow> 'st encryption_session \<Rightarrow> 'st encryption_session" where
  "drop_work n s = s\<lparr>es_work := take n (es_work s) @ drop (Suc n) (es_work s)\<rparr>"

text \<open>\<open>await saveIdentity(userId, identity, fingerprint)\<close>, the last step of both, and the \<open>onSuccess\<close> of
  the mutation. Invalidating the key status is followed by an answer like any other.\<close>

definition work_saves ::
  "'st key_storage \<Rightarrow> io \<Rightarrow> nat \<Rightarrow> identity_key_pair \<Rightarrow> string \<Rightarrow> 'st encryption_session \<Rightarrow> 'st encryption_session" where
  "work_saves K i n identity fp s =
     (let w = es_work s ! n in
      case ks_save K i (es_storage s) (kw_user w) identity fp of
        Inl _ \<Rightarrow> drop_work n s
      | Inr st \<Rightarrow> s\<lparr>es_storage := st, es_work := (es_work s)[n := w\<lparr>kw_result := Some (identity, fp)\<rparr>]\<rparr>)"

definition work_succeeds :: "nat \<Rightarrow> 'st encryption_session \<Rightarrow> 'st encryption_session" where
  "work_succeeds n s =
     (case kw_result (es_work s ! n) of
        Some (identity, fp) \<Rightarrow>
          drop_work n (s\<lparr>es_store := setIdentity identity (Some (JStr fp)) (es_store s)\<rparr>)
      | None \<Rightarrow> s)"

text \<open>A rotation of the recovery code needs the identity in memory; it changes neither store.\<close>

definition rotation_started :: "encryption_state \<Rightarrow> key_error + identity_key_pair" where
  "rotation_started s = (case en_identity s of None \<Rightarrow> Inl Identity_Locked | Some k \<Rightarrow> Inr k)"

section \<open>The events\<close>

text \<open>Two things the code leaves open. \<open>se_outlives\<close>: a set-up or a restore may end when its user is no
  longer the one signed in. \<open>se_switches\<close>: the signed-in user may change without a sign-out, which
  happens on the web when a rotation returns the account another tab has signed in to.\<close>

record session_events =
  se_outlives :: bool
  se_switches :: bool

text \<open>\<open>owned\<close> says which keys are those of a user: what a set-up generates for the user, or a restore
  opens from the user's backup. Ids of users are UUIDs.\<close>

inductive encryption_step ::
  "'st key_storage \<Rightarrow> session_events \<Rightarrow> (string \<Rightarrow> identity_key_pair \<Rightarrow> bool) \<Rightarrow>
   'st encryption_session \<Rightarrow> 'st encryption_session \<Rightarrow> bool"
  for K E owned where
  signed_in: "es_user s = None \<Longrightarrow> safe_id u \<Longrightarrow>
    encryption_step K E owned s (start_effect (s\<lparr>es_user := Some u\<rparr>))"
| switched: "se_switches E \<Longrightarrow> es_user s \<noteq> None \<Longrightarrow> safe_id u \<Longrightarrow>
    encryption_step K E owned s (start_effect (s\<lparr>es_user := Some u, es_status := None\<rparr>))"
| status_answer: "encryption_step K E owned s (start_effect (s\<lparr>es_status := Some st\<rparr>))"
| no_storage: "es_run s = Some (u, st, Asking_Storage) \<Longrightarrow>
    encryption_step K E owned s (s\<lparr>es_run := None, es_store := setStatus Unavailable (es_store s)\<rparr>)"
| has_storage: "es_run s = Some (u, st, Asking_Storage) \<Longrightarrow>
    encryption_step K E owned s (s\<lparr>es_run := Some (u, st, Reading_Storage)\<rparr>)"
| storage_read: "es_run s = Some (u, st, Reading_Storage) \<Longrightarrow> stored = ks_load K i (es_storage s) u \<Longrightarrow>
    encryption_step K E owned s (s\<lparr>es_run := None, es_store := storage_answer st stored (es_store s)\<rparr>)"
| started: "work_started s = Inr s' \<Longrightarrow> encryption_step K E owned s s'"
| failed: "n < length (es_work s) \<Longrightarrow> encryption_step K E owned s (drop_work n s)"
| saved: "n < length (es_work s) \<Longrightarrow> kw_result (es_work s ! n) = None \<Longrightarrow> owned (kw_user (es_work s ! n)) identity \<Longrightarrow>
    encryption_step K E owned s (work_saves K i n identity fp s)"
| succeeded: "n < length (es_work s) \<Longrightarrow> se_outlives E \<or> es_user s = Some (kw_user (es_work s ! n)) \<Longrightarrow>
    encryption_step K E owned s (work_succeeds n s)"
| signed_out: "es_user s \<noteq> None \<Longrightarrow> encryption_step K E owned s (session_ends K s)"

definition owned_storage ::
  "'st key_storage \<Rightarrow> (string \<Rightarrow> identity_key_pair \<Rightarrow> bool) \<Rightarrow> 'st \<Rightarrow> bool" where
  "owned_storage K owned st \<longleftrightarrow>
     (\<forall>i u l. safe_id u \<longrightarrow> ks_load K i st u = Some l \<longrightarrow> owned u (li_identity l))"

inductive encryption_reachable ::
  "'st key_storage \<Rightarrow> session_events \<Rightarrow> (string \<Rightarrow> identity_key_pair \<Rightarrow> bool) \<Rightarrow> 'st encryption_session \<Rightarrow> bool"
  for K E owned where
  initial: "owned_storage K owned st \<Longrightarrow> encryption_reachable K E owned (session_initial st)"
| step: "encryption_reachable K E owned s \<Longrightarrow> encryption_step K E owned s s' \<Longrightarrow>
    encryption_reachable K E owned s'"

text \<open>The invariant of the session.\<close>

definition session_ok ::
  "'st key_storage \<Rightarrow> session_events \<Rightarrow> (string \<Rightarrow> identity_key_pair \<Rightarrow> bool) \<Rightarrow> 'st encryption_session \<Rightarrow> bool" where
  "session_ok K E owned s \<longleftrightarrow>
     (\<forall>u. es_user s = Some u \<longrightarrow> safe_id u) \<and>
     owned_storage K owned (es_storage s) \<and>
     (\<forall>w \<in> set (es_work s). safe_id (kw_user w) \<and>
        (\<forall>k fp. kw_result w = Some (k, fp) \<longrightarrow> owned (kw_user w) k)) \<and>
     (\<forall>u st ph. es_run s = Some (u, st, ph) \<longrightarrow> es_user s = Some u \<and> es_status s = Some st) \<and>
     (en_status (es_store s) = Ready \<longrightarrow> en_identity (es_store s) \<noteq> None) \<and>
     (\<forall>k. en_identity (es_store s) = Some k \<longrightarrow>
        (\<exists>u. owned u k \<and> (se_outlives E \<or> se_switches E \<or> es_user s = Some u)))"

lemmas session_simps = start_effect_def setStatus_def setIdentity_def storage_answer_def clear_encryption_def
  session_ends_def Let_def

section \<open>What a session relies on\<close>

locale identity_store =
  fixes K :: "'st key_storage"
  assumes load_saved_as: "\<And>i j st u v k fp st'. safe_id u \<Longrightarrow> safe_id v \<Longrightarrow> ks_save K i st u k fp = Inr st' \<Longrightarrow>
      ks_load K j st' v =
        (if v = u then (if can_read j then Some \<lparr>li_identity = k, li_fingerprint = Some (JStr fp)\<rparr> else None)
         else ks_load K j st v)"
    and load_forgotten: "\<And>i j st u v. safe_id u \<Longrightarrow> safe_id v \<Longrightarrow>
      ks_load K j (ks_forget K i st u) v = (if v = u \<and> can_write i then None else ks_load K j st v)"
begin

lemma owned_save:
  "owned_storage K owned st \<Longrightarrow> safe_id u \<Longrightarrow> owned u k \<Longrightarrow> ks_save K i st u k fp = Inr st' \<Longrightarrow>
   owned_storage K owned st'"
  by (auto simp: owned_storage_def load_saved_as split: if_splits)

lemma session_ok_drop: "session_ok K E owned s \<Longrightarrow> session_ok K E owned (drop_work n s)"
  by (auto simp: session_ok_def drop_work_def dest!: in_set_takeD in_set_dropD)

lemma session_ok_saves:
  assumes "session_ok K E owned s" and "n < length (es_work s)" and "owned (kw_user (es_work s ! n)) k"
  shows "session_ok K E owned (work_saves K i n k fp s)"
proof (cases "ks_save K i (es_storage s) (kw_user (es_work s ! n)) k fp")
  case (Inl e)
  then show ?thesis using assms by (simp add: work_saves_def session_ok_drop)
next
  case (Inr st)
  have w: "es_work s ! n \<in> set (es_work s)" using assms(2) by simp
  then have "safe_id (kw_user (es_work s ! n))" using assms(1) by (simp add: session_ok_def)
  moreover from this have "owned_storage K owned st"
    using assms Inr by (auto simp: session_ok_def intro: owned_save)
  ultimately show ?thesis
    using assms Inr by (auto simp: work_saves_def session_ok_def Let_def dest!: set_update_subset_insert [THEN subsetD])
qed

lemma session_ok_succeeds:
  assumes "session_ok K E owned s" and "n < length (es_work s)"
    and "se_outlives E \<or> es_user s = Some (kw_user (es_work s ! n))"
  shows "session_ok K E owned (work_succeeds n s)"
proof (cases "kw_result (es_work s ! n)")
  case None
  then show ?thesis using assms by (simp add: work_succeeds_def)
next
  case (Some r)
  obtain k fp where r: "r = (k, fp)" by (cases r)
  have "owned (kw_user (es_work s ! n)) k"
    using assms(1,2) Some r by (simp add: session_ok_def)
  then have "session_ok K E owned (s\<lparr>es_store := setIdentity k (Some (JStr fp)) (es_store s)\<rparr>)"
    using assms by (auto simp: session_ok_def setIdentity_def)
  then show ?thesis using Some r by (simp add: work_succeeds_def session_ok_drop)
qed

lemma session_ok_step:
  assumes "encryption_step K E owned s s'" and "session_ok K E owned s"
  shows "session_ok K E owned s'"
  using assms
proof (induction rule: encryption_step.induct)
  case (signed_in s u)
  then show ?case by (auto simp: session_ok_def session_simps split: option.splits)
next
  case (switched s u)
  then show ?case by (auto simp: session_ok_def session_simps split: option.splits)
next
  case (status_answer s st)
  then show ?case by (auto simp: session_ok_def session_simps split: option.splits)
next
  case (storage_read s u st stored i)
  then have "es_user s = Some u" "safe_id u" by (simp_all add: session_ok_def)
  moreover have "owned u (li_identity l)" if "stored = Some l" for l
    using that storage_read calculation by (auto simp: session_ok_def owned_storage_def)
  ultimately show ?case
    using storage_read by (auto simp: session_ok_def session_simps split: option.splits)
next
  case (started s s')
  then show ?case
    by (auto simp: work_started_def session_ok_def split: option.splits list.splits)
next
  case (signed_out s)
  then show ?case by (auto simp: session_ok_def session_simps split: option.splits)
qed (auto simp: session_ok_drop session_ok_saves session_ok_succeeds, auto simp: session_ok_def session_simps)

lemma session_ok_reachable: "encryption_reachable K E owned s \<Longrightarrow> session_ok K E owned s"
proof (induction rule: encryption_reachable.induct)
  case (initial st)
  then show ?case by (simp add: session_ok_def session_initial_def encryption_initial_def)
next
  case (step s s')
  then show ?case by (blast intro: session_ok_step)
qed

lemma keys_have_an_owner:
  "encryption_reachable K E owned s \<Longrightarrow>
   (en_status (es_store s) = Ready \<longrightarrow> en_identity (es_store s) \<noteq> None) \<and>
   (\<forall>k. en_identity (es_store s) = Some k \<longrightarrow>
      (\<exists>u. owned u k \<and> (se_outlives E \<or> se_switches E \<or> es_user s = Some u))) \<and>
   (\<forall>i u l. safe_id u \<longrightarrow> ks_load K i (es_storage s) u = Some l \<longrightarrow> owned u (li_identity l))"
  using session_ok_reachable [of E owned s] by (simp add: session_ok_def owned_storage_def)

end

section \<open>The keychain of the phone\<close>

interpretation keychain: identity_store keychain_storage
proof
  fix i j st u v k fp st'
  assume "safe_id u" and "safe_id v" and "ks_save keychain_storage i st u k fp = Inr st'"
  then show "ks_load keychain_storage j st' v =
      (if v = u then (if can_read j then Some \<lparr>li_identity = k, li_fingerprint = Some (JStr fp)\<rparr> else None)
       else ks_load keychain_storage j st v)"
    using entryKey_inj [of u v]
    by (auto simp: keychain_storage_def loadStoredIdentity_def saveIdentity_def loadIdentity_def read_parsed_def
        split: if_splits)
next
  fix i j st u v
  assume "safe_id u" and "safe_id v"
  then show "ks_load keychain_storage j (ks_forget keychain_storage i st u) v =
      (if v = u \<and> can_write i then None else ks_load keychain_storage j st v)"
    using entryKey_inj [of u v]
    by (auto simp: keychain_storage_def loadStoredIdentity_def forgetIdentity_def loadIdentity_def read_parsed_def)
qed

text \<open>The phone: no account is switched to without a sign-out.\<close>

definition phone :: "bool \<Rightarrow> session_events" where
  "phone outlives = \<lparr>se_outlives = outlives, se_switches = False\<rparr>"

text \<open>C6: The keys in memory are those of the account that is signed in. In every reachable state of the
  session on a phone, an identity in the store is one that was set up, restored or stored for the
  current user, with nobody signed in there is none, and the status says ready only when one is
  there; the keychain holds under the entry of each account only keys of that account. This rests on
  one condition: that a set-up or a restore does not end after its session. Without it the identity
  in the store is still one of some account of the device, but it need not be the current one
  (lemma late_restore_readies_next_account).\<close>

theorem keys_of_current_user:
  assumes "encryption_reachable keychain_storage (phone outlives) owned s"
  shows "(en_status (es_store s) = Ready \<longrightarrow> en_identity (es_store s) \<noteq> None) \<and>
    (case en_identity (es_store s) of
       None \<Rightarrow> True
     | Some identity \<Rightarrow> \<exists>u. owned u identity \<and> (outlives \<or> es_user s = Some u)) \<and>
    (\<forall>i u l. safe_id u \<longrightarrow> loadIdentity i (es_storage s) u = Some l \<longrightarrow> owned u (li_identity l))"
  using keychain.keys_have_an_owner [OF assms]
  by (auto simp: phone_def keychain_storage_def loadStoredIdentity_def split: option.splits)

text \<open>A run: the keys of an account are in the keychain, it signs in, and they are loaded.\<close>

definition sample_chain :: kv_store where
  "sample_chain = (\<lambda>_. None)(entryKey ''u-1'' \<mapsto> Parsed (json_of_identity sample_identity ''f''))"

definition sample_owned :: "string \<Rightarrow> identity_key_pair \<Rightarrow> bool" where
  "sample_owned u identity \<longleftrightarrow> u = ''u-1'' \<and> identity = sample_identity"

definition sample_status :: key_status where
  "sample_status = \<lparr>has_keys = True, key_fingerprint = Some ''f''\<rparr>"

lemma sample_ids: "safe_id ''u-1''" "safe_id ''u-2''"
  by code_simp+

lemma sample_chain_owned: "owned_storage keychain_storage sample_owned sample_chain"
proof -
  have "u = ''u-1''" if "safe_id u" "entryKey u = entryKey ''u-1''" for u
    using entryKey_inj that sample_ids(1) by blast
  then show ?thesis
    by (auto simp: owned_storage_def keychain_storage_def loadStoredIdentity_def loadIdentity_def sample_chain_def
        read_parsed_def sample_owned_def split: if_splits)
qed

text \<open>The states of a run in which nothing fails: signed in, the status known, the stored keys loaded.\<close>

definition after_sign_in :: "string \<Rightarrow> 'st encryption_session \<Rightarrow> 'st encryption_session" where
  "after_sign_in u s = start_effect (s\<lparr>es_user := Some u\<rparr>)"

definition after_load ::
  "'st key_storage \<Rightarrow> string \<Rightarrow> key_status \<Rightarrow> 'st encryption_session \<Rightarrow> 'st encryption_session" where
  "after_load K u st s =
     s\<lparr>es_status := Some st, es_run := None,
       es_store := storage_answer st (ks_load K io_ok (es_storage s) u) (es_store s)\<rparr>"

lemma reach_sign_in:
  "encryption_reachable K E owned s \<Longrightarrow> es_user s = None \<Longrightarrow> safe_id u \<Longrightarrow>
   encryption_reachable K E owned (after_sign_in u s)"
  unfolding after_sign_in_def by (blast intro: encryption_reachable.step encryption_step.signed_in)

lemma reach_load:
  assumes "encryption_reachable K E owned s" and "es_user s = Some u"
  shows "encryption_reachable K E owned (after_load K u st s)"
proof -
  let ?a = "s\<lparr>es_status := Some st, es_run := Some (u, st, Asking_Storage)\<rparr>"
  have "encryption_reachable K E owned (start_effect (s\<lparr>es_status := Some st\<rparr>))"
    using assms(1) by (rule encryption_reachable.step) (rule encryption_step.status_answer)
  then have "encryption_reachable K E owned ?a"
    using assms(2) by (simp add: start_effect_def)
  then have b: "encryption_reachable K E owned (?a\<lparr>es_run := Some (u, st, Reading_Storage)\<rparr>)"
    by (rule encryption_reachable.step) (rule encryption_step.has_storage, simp)
  show ?thesis
    using encryption_reachable.step [OF b encryption_step.storage_read [where i = io_ok, OF _ refl]]
    by (simp add: after_load_def)
qed

definition sample_session :: "kv_store encryption_session" where
  "sample_session =
     after_load keychain_storage ''u-1'' sample_status (after_sign_in ''u-1'' (session_initial sample_chain))"

lemma sample_session_reachable: "encryption_reachable keychain_storage E sample_owned sample_session"
  unfolding sample_session_def
  by (intro reach_load reach_sign_in encryption_reachable.initial sample_chain_owned sample_ids)
    (simp_all add: after_sign_in_def session_initial_def start_effect_def)

lemma sample_session_store:
  "es_user sample_session = Some ''u-1''" "en_status (es_store sample_session) = Ready"
  "en_identity (es_store sample_session) = Some sample_identity"
  by (simp_all add: sample_session_def after_load_def after_sign_in_def session_initial_def session_simps
      keychain_storage_def loadStoredIdentity_def loadIdentity_def sample_chain_def read_parsed_def io_ok_def
      directory_agrees_def sample_status_def encryption_initial_def)

theorem keys_of_current_user_witness:
  "\<exists>u. sample_owned u sample_identity \<and> (False \<or> es_user sample_session = Some u)"
  using keys_of_current_user [OF sample_session_reachable [of "phone False"]]
  by (simp only: sample_session_store option.case simp_thms)

section \<open>A restore that ends too late\<close>

text \<open>An account starts a restore and signs out while its keys are being stored; the next account
  signs in and has no keys; then the restore ends.\<close>

definition no_keys :: key_status where
  "no_keys = \<lparr>has_keys = False, key_fingerprint = None\<rparr>"

definition late_restore :: "kv_store encryption_session" where
  "late_restore =
     (let s = after_sign_in ''u-1'' (session_initial (\<lambda>_. None));
          s = s\<lparr>es_work := [\<lparr>kw_user = ''u-1'', kw_result = None\<rparr>]\<rparr>;
          s = session_ends keychain_storage (work_saves keychain_storage io_ok 0 sample_identity ''f'' s)
      in after_load keychain_storage ''u-2'' no_keys (after_sign_in ''u-2'' s))"

lemma late_restore_reachable:
  assumes "se_outlives E" and "\<And>k. owned ''u-1'' k \<longleftrightarrow> k = sample_identity"
  shows "encryption_reachable keychain_storage E owned late_restore"
proof -
  let ?s1 = "after_sign_in ''u-1'' (session_initial (\<lambda>_. None) :: kv_store encryption_session)"
  let ?s2 = "?s1\<lparr>es_work := [\<lparr>kw_user = ''u-1'', kw_result = None\<rparr>]\<rparr>"
  let ?s3 = "work_saves keychain_storage io_ok 0 sample_identity ''f'' ?s2"
  have "encryption_reachable keychain_storage E owned (session_initial (\<lambda>_. None))"
    by (rule encryption_reachable.initial)
      (simp add: owned_storage_def keychain_storage_def loadStoredIdentity_def loadIdentity_def read_parsed_def)
  then have 1: "encryption_reachable keychain_storage E owned ?s1"
    by (rule reach_sign_in) (simp_all add: session_initial_def sample_ids)
  have 2: "encryption_reachable keychain_storage E owned ?s2"
    by (rule encryption_reachable.step [OF 1 encryption_step.started])
      (simp add: work_started_def after_sign_in_def start_effect_def session_initial_def)
  have 3: "encryption_reachable keychain_storage E owned ?s3"
    by (rule encryption_reachable.step [OF 2 encryption_step.saved]) (simp_all add: assms(2))
  have "es_user ?s3 = Some ''u-1''"
    by (simp add: work_saves_def keychain_storage_def saveIdentity_def io_ok_def after_sign_in_def start_effect_def
        session_initial_def Let_def)
  then have "encryption_reachable keychain_storage E owned (session_ends keychain_storage ?s3)"
    by (intro encryption_reachable.step [OF 3 encryption_step.signed_out]) simp
  then show ?thesis
    unfolding late_restore_def Let_def
    by (intro reach_load reach_sign_in sample_ids)
      (simp_all add: session_simps work_saves_def keychain_storage_def saveIdentity_def io_ok_def after_sign_in_def
        session_initial_def)
qed

text \<open>The second account is then told it is ready, with the identity of the first.\<close>

lemma late_restore_readies_next_account:
  "es_user late_restore = Some ''u-2'' \<and> en_status (es_store late_restore) = Absent \<and>
   es_user (work_succeeds 0 late_restore) = Some ''u-2'' \<and>
   en_status (es_store (work_succeeds 0 late_restore)) = Ready \<and>
   en_identity (es_store (work_succeeds 0 late_restore)) = Some sample_identity \<and>
   encryption_reachable keychain_storage (phone True) sample_owned (work_succeeds 0 late_restore)"
proof -
  have state: "es_user late_restore = Some ''u-2''" "en_status (es_store late_restore) = Absent"
    "es_work late_restore = [\<lparr>kw_user = ''u-1'', kw_result = Some (sample_identity, ''f'')\<rparr>]"
    by (simp_all add: late_restore_def after_load_def after_sign_in_def session_initial_def session_simps
        work_saves_def keychain_storage_def loadStoredIdentity_def loadIdentity_def saveIdentity_def read_parsed_def
        io_ok_def no_keys_def entryKey_def word_char_def char_code_def)
  have "encryption_reachable keychain_storage (phone True) sample_owned late_restore"
    by (rule late_restore_reachable) (simp_all add: phone_def sample_owned_def)
  then have "encryption_reachable keychain_storage (phone True) sample_owned (work_succeeds 0 late_restore)"
    by (rule encryption_reachable.step) (rule encryption_step.succeeded, simp_all add: state phone_def)
  then show ?thesis
    using state by (simp add: work_succeeds_def drop_work_def setIdentity_def)
qed

end
