(* ===== verification/Js_Text.thy ===== *)
theory Js_Text
  imports Json_Value Text_Codec
begin

text \<open>
  Numbers written as text and read back, as the clients do it in URLs, labels and dates:
  \<open>String(n)\<close>, \<open>padStart\<close>, \<open>Number(digits)\<close>, and the ASCII classes of their regular expressions.
\<close>

section \<open>ASCII classes\<close>

definition is_digit :: "char \<Rightarrow> bool" where
  "is_digit c \<longleftrightarrow> CHR ''0'' \<le> c \<and> c \<le> CHR ''9''"

definition is_letter :: "char \<Rightarrow> bool" where
  "is_letter c \<longleftrightarrow> (CHR ''A'' \<le> c \<and> c \<le> CHR ''Z'') \<or> (CHR ''a'' \<le> c \<and> c \<le> CHR ''z'')"

definition starts_with :: "string \<Rightarrow> string \<Rightarrow> bool" where
  "starts_with p s \<longleftrightarrow> take (length p) s = p"

definition contains_text :: "string \<Rightarrow> string \<Rightarrow> bool" where
  "contains_text p s \<longleftrightarrow> list_ex (\<lambda>n. starts_with p (drop n s)) [0 ..< Suc (length s)]"

section \<open>Decimal numbers\<close>

definition digit :: "nat \<Rightarrow> char" where
  "digit d = char_of (48 + d)"

definition digit_value :: "char \<Rightarrow> nat" where
  "digit_value c = of_char c - 48"

fun decimal :: "nat \<Rightarrow> string" where
  "decimal n = (if n < 10 then [digit n] else decimal (n div 10) @ [digit (n mod 10)])"

declare decimal.simps [simp del]

text \<open>\<open>String(n)\<close> of an integer.\<close>

definition decimal_int :: "int \<Rightarrow> string" where
  "decimal_int i = (if i < 0 then CHR ''-'' # decimal (nat (- i)) else decimal (nat i))"

text \<open>\<open>Number(s)\<close> of a string of digits.\<close>

definition parse_digits :: "string \<Rightarrow> nat" where
  "parse_digits s = foldl (\<lambda>n c. 10 * n + digit_value c) 0 s"

text \<open>\<open>s.padStart(n, '0')\<close>.\<close>

definition pad_start :: "nat \<Rightarrow> string \<Rightarrow> string" where
  "pad_start n s = replicate (n - length s) (CHR ''0'') @ s"

lemma of_char_digit [simp]: "d < 10 \<Longrightarrow> of_char (digit d) = (48 + d :: nat)"
  by (simp add: digit_def)

lemma digit_value_digit [simp]: "d < 10 \<Longrightarrow> digit_value (digit d) = d"
  by (simp add: digit_value_def)

lemma digit_eval [simp]:
  "digit 0 = CHR ''0''"
  "digit (Suc 0) = CHR ''1''"
  "digit 2 = CHR ''2''"
  "digit 3 = CHR ''3''"
  "digit 4 = CHR ''4''"
  "digit 5 = CHR ''5''"
  "digit 6 = CHR ''6''"
  "digit 7 = CHR ''7''"
  "digit 8 = CHR ''8''"
  "digit 9 = CHR ''9''"
  by code_simp+

lemma char_le_nat: "(c :: char) \<le> d \<longleftrightarrow> (of_char c :: nat) \<le> of_char d"
  by (simp add: less_eq_char_def)

lemma is_digit_nat: "is_digit c \<longleftrightarrow> 48 \<le> (of_char c :: nat) \<and> (of_char c :: nat) \<le> 57"
  by (simp add: is_digit_def char_le_nat)

lemma is_digit_digit [simp]: "d < 10 \<Longrightarrow> is_digit (digit d)"
  by (simp add: is_digit_nat)

lemma digit_of_digit_value: "is_digit c \<Longrightarrow> digit (digit_value c) = c"
  by (simp add: is_digit_nat digit_def digit_value_def)

lemma digit_value_less: "is_digit c \<Longrightarrow> digit_value c < 10"
  unfolding is_digit_nat digit_value_def by linarith

lemma parse_digits_append: "parse_digits (s @ [c]) = 10 * parse_digits s + digit_value c"
  by (simp add: parse_digits_def)

lemma parse_digits_less: "list_all is_digit s \<Longrightarrow> parse_digits s < 10 ^ length s"
proof (induction s rule: rev_induct)
  case (snoc c s)
  then have "digit_value c < 10" using digit_value_less [of c] by simp
  with snoc show ?case by (simp add: parse_digits_append)
qed (simp add: parse_digits_def)

lemma parse_digits_decimal [simp]: "parse_digits (decimal n) = n"
proof (induction n rule: decimal.induct)
  case (1 n)
  show ?case
  proof (cases "n < 10")
    case True
    then show ?thesis by (simp add: decimal.simps parse_digits_def)
  next
    case False
    with 1 have "parse_digits (decimal (n div 10)) = n div 10" by simp
    with False show ?thesis by (subst decimal.simps) (simp add: parse_digits_append)
  qed
qed

lemma decimal_digits: "c \<in> set (decimal n) \<Longrightarrow> is_digit c"
proof (induction n rule: decimal.induct)
  case (1 n)
  then show ?case by (cases "n < 10") (auto simp: decimal.simps [of n])
qed

lemma decimal_nonempty [simp]: "decimal n \<noteq> []"
  by (simp add: decimal.simps [of n])

lemma decimal_inj [simp]: "decimal m = decimal n \<longleftrightarrow> m = n"
  by (metis parse_digits_decimal)

lemma length_decimal_le: "n < 10 ^ k \<Longrightarrow> 0 < k \<Longrightarrow> length (decimal n) \<le> k"
proof (induction k arbitrary: n)
  case 0
  then show ?case by simp
next
  case (Suc k)
  show ?case
  proof (cases "n < 10")
    case True
    then show ?thesis by (simp add: decimal.simps)
  next
    case False
    with Suc.prems have "0 < k" by (cases k) auto
    moreover from Suc.prems have "n div 10 < 10 ^ k" by (simp add: less_mult_imp_div_less)
    ultimately have "length (decimal (n div 10)) \<le> k" by (rule Suc.IH [rotated])
    with False show ?thesis by (simp add: decimal.simps [of n])
  qed
qed

lemma parse_pad_start [simp]: "parse_digits (pad_start n s) = parse_digits s"
proof -
  have z: "digit_value (CHR ''0'') = 0" by (simp add: digit_value_def)
  have "foldl (\<lambda>n c. 10 * n + digit_value c) 0 (replicate k (CHR ''0'')) = 0" for k
    by (induction k) (simp_all add: z)
  then show ?thesis by (simp add: pad_start_def parse_digits_def)
qed

lemma length_pad_start [simp]: "length (pad_start n s) = max n (length s)"
  by (simp add: pad_start_def)

lemma pad_start_digits: "\<forall>c \<in> set s. is_digit c \<Longrightarrow> \<forall>c \<in> set (pad_start n s). is_digit c"
  by (auto simp: pad_start_def is_digit_def)

lemma length_padded: "n < 10 ^ k \<Longrightarrow> 0 < k \<Longrightarrow> length (pad_start k (decimal n)) = k"
  using length_decimal_le [of n k] by simp

text \<open>A digit string of a given width is the padded reading of itself.\<close>

lemma pad_parse:
  assumes "\<forall>c \<in> set s. is_digit c" and "0 < length s"
  shows "pad_start (length s) (decimal (parse_digits s)) = s"
  using assms
proof (induction s rule: rev_induct)
  case Nil
  then show ?case by simp
next
  case (snoc c s)
  let ?n = "parse_digits s" and ?v = "digit_value c"
  from snoc.prems have c: "is_digit c" and s: "\<forall>c \<in> set s. is_digit c" by auto
  have v: "?v < 10" by (rule digit_value_less [OF c])
  show ?case
  proof (cases "s = []")
    case True
    with v c show ?thesis
      by (simp add: parse_digits_def decimal.simps digit_of_digit_value pad_start_def)
  next
    case False
    with snoc.IH s have IH: "pad_start (length s) (decimal ?n) = s" by simp
    show ?thesis
    proof (cases "?n = 0")
      case True
      with IH have "replicate (length s - 1) (CHR ''0'') @ [digit 0] = s"
        by (simp add: decimal.simps pad_start_def)
      moreover have "digit 0 = CHR ''0''"
        by simp
      moreover have "replicate (length s - 1) (CHR ''0'') @ [CHR ''0''] = replicate (length s) (CHR ''0'')"
        using False by (cases s) (simp_all add: replicate_append_same)
      ultimately have "replicate (length s) (CHR ''0'') = s" by simp
      with True v c show ?thesis
        by (simp add: parse_digits_append decimal.simps digit_of_digit_value pad_start_def)
    next
      case nz: False
      have "decimal (10 * ?n + ?v) = decimal ?n @ [c]"
        using nz v c by (subst decimal.simps) (simp add: digit_of_digit_value)
      with IH show ?thesis by (simp add: parse_digits_append pad_start_def)
    qed
  qed
qed

end
