(* ===== verification/Feeds.thy ===== *)
theory Feeds
  imports Message_Crypto Js_Text
begin

text \<open>
  The paged lists of the mobile client: \<open>lib/notifications.ts\<close>, \<open>lib/messages.ts\<close>,
  \<open>lib/social.ts\<close>, \<open>lib/history.ts\<close> (its merge) and \<open>lib/tracking-lookup.ts\<close>.

  Every list is fetched page by page and merged on the client, once with the \<open>seen\<close> set idiom and
  once through a \<open>Map\<close>. The locale \<open>feed_merge\<close> states what the screens need of a merge, and
  \<open>ordered_feed_merge\<close> what they need of its order; all five merges are interpretations.
  \<open>load_pages\<close> follows the page cursors the way an infinite query does.
\<close>

section \<open>Merging pages\<close>

text \<open>\<open>pages.flatMap((page) => page.items.filter(...))\<close> with one \<open>seen\<close> set for all pages.\<close>

fun filter_pages :: "('a \<Rightarrow> 'k) \<Rightarrow> 'k list \<Rightarrow> 'a list list \<Rightarrow> 'a list" where
  "filter_pages key seen [] = []"
| "filter_pages key seen (p # ps) =
     (let kept = keep_first key seen p
      in kept @ filter_pages key (rev (map key kept) @ seen) ps)"

lemma keep_first_append:
  "keep_first key seen (xs @ ys) =
   keep_first key seen xs @ keep_first key (rev (map key (keep_first key seen xs)) @ seen) ys"
  by (induction xs arbitrary: seen) auto

lemma filter_pages_concat: "filter_pages key seen ps = keep_first key seen (concat ps)"
  by (induction ps arbitrary: seen) (simp_all add: keep_first_append Let_def)

locale feed_merge =
  fixes key :: "'a \<Rightarrow> 'k"
    and items :: "'p \<Rightarrow> 'a list"
    and merge :: "'p list \<Rightarrow> 'a list"
  assumes merge_subset: "set (merge ps) \<subseteq> set (concat (map items ps))"
    and merge_keys: "key ` set (merge ps) = key ` set (concat (map items ps))"
    and merge_distinct: "distinct (map key (merge ps))"
begin

lemma shown_once:
  "k \<in> key ` set (concat (map items ps)) \<longleftrightarrow> (\<exists>!x. x \<in> set (merge ps) \<and> key x = k)"
proof
  assume "k \<in> key ` set (concat (map items ps))"
  then have "k \<in> key ` set (merge ps)" by (simp only: merge_keys)
  moreover have "inj_on key (set (merge ps))"
    using merge_distinct by (simp add: distinct_map)
  ultimately show "\<exists>!x. x \<in> set (merge ps) \<and> key x = k"
    by (auto dest: inj_onD)
next
  assume "\<exists>!x. x \<in> set (merge ps) \<and> key x = k"
  then have "k \<in> key ` set (merge ps)" by blast
  then show "k \<in> key ` set (concat (map items ps))" by (simp only: merge_keys)
qed

lemma shown_was_fetched: "x \<in> set (merge ps) \<Longrightarrow> \<exists>p \<in> set ps. x \<in> set (items p)"
  using merge_subset [of ps] by auto

lemma length_merge: "length (merge ps) = card (key ` set (concat (map items ps)))"
  by (metis merge_distinct merge_keys distinct_card length_map list.set_map)

lemma refetch_same_length:
  "key ` set (items p) \<subseteq> key ` set (concat (map items ps)) \<Longrightarrow> length (merge (ps @ [p])) = length (merge ps)"
  by (simp add: length_merge image_Un Un_absorb2)

end

locale ordered_feed_merge = feed_merge +
  fixes arrange :: "'a list list \<Rightarrow> 'a list"
  assumes merge_plain:
    "distinct (map key (arrange (map items ps))) \<Longrightarrow> merge ps = arrange (map items ps)"
begin

lemma merge_complete:
  "arrange (map items ps) = xs \<Longrightarrow> distinct (map key xs) \<Longrightarrow> merge ps = xs"
  by (rule trans [OF merge_plain]) simp_all

end

section \<open>Notifications (\<open>lib/notifications.ts\<close>)\<close>

datatype notification_kind = Follow_Request | Follow_Accepted | New_Follower

record social_notification =
  sn_id :: string
  sn_kind :: notification_kind
  sn_actor_id :: string
  sn_actor_username :: string
  sn_actor_avatar_url :: "string option"
  sn_read_at :: "string option"
  sn_created_at :: string

record notification_list =
  nl_items :: "social_notification list"
  nl_unread_count :: int
  nl_has_more :: bool

record cursor =
  cu_before :: string
  cu_beforeId :: string

definition notificationAction :: "(string \<Rightarrow> jstr) \<Rightarrow> notification_kind \<Rightarrow> jstr" where
  "notificationAction t kind =
     (case kind of
        Follow_Request \<Rightarrow> t ''notifications.actionFollowRequest''
      | Follow_Accepted \<Rightarrow> t ''notifications.actionFollowAccepted''
      | New_Follower \<Rightarrow> t ''notifications.actionNewFollower'')"

definition nextNotificationCursor :: "notification_list \<Rightarrow> cursor option" where
  "nextNotificationCursor page =
     (if \<not> nl_has_more page \<or> nl_items page = [] then None
      else let lastItem = last (nl_items page)
           in Some \<lparr>cu_before = sn_created_at lastItem, cu_beforeId = sn_id lastItem\<rparr>)"

definition uniqueNotifications :: "notification_list list \<Rightarrow> social_notification list" where
  "uniqueNotifications pages = filter_pages sn_id [] (map nl_items pages)"

definition markNotificationReadInResponse ::
  "notification_list \<Rightarrow> string \<Rightarrow> string \<Rightarrow> bool \<Rightarrow> notification_list" where
  "markNotificationReadInResponse response i readAt decrementUnread =
     response\<lparr>
       nl_unread_count := (if decrementUnread then max 0 (nl_unread_count response - 1)
                           else nl_unread_count response),
       nl_items := map (\<lambda>item. if sn_id item = i \<and> sn_read_at item = None
                               then item\<lparr>sn_read_at := Some readAt\<rparr> else item) (nl_items response)\<rparr>"

definition markAllNotificationsReadInResponse ::
  "notification_list \<Rightarrow> string \<Rightarrow> notification_list" where
  "markAllNotificationsReadInResponse response readAt =
     response\<lparr>
       nl_unread_count := 0,
       nl_items := map (\<lambda>item. if sn_read_at item = None
                               then item\<lparr>sn_read_at := Some readAt\<rparr> else item) (nl_items response)\<rparr>"

interpretation notifications: ordered_feed_merge sn_id nl_items uniqueNotifications concat
proof
  fix ps :: "notification_list list"
  let ?xs = "concat (map nl_items ps)"
  have m: "uniqueNotifications ps = keep_first sn_id [] ?xs"
    by (simp add: uniqueNotifications_def filter_pages_concat)
  show "set (uniqueNotifications ps) \<subseteq> set ?xs"
    by (simp only: m keep_first_subset)
  show "sn_id ` set (uniqueNotifications ps) = sn_id ` set ?xs"
    by (simp only: m keep_first_keys) simp
  show "distinct (map sn_id (uniqueNotifications ps))"
    by (simp only: m keep_first_distinct)
  show "uniqueNotifications ps = ?xs" if "distinct (map sn_id ?xs)"
    unfolding m by (rule keep_first_id [OF that]) simp
qed

section \<open>Direct messages (\<open>lib/messages.ts\<close>)\<close>

definition MESSAGE_BODY_LIMIT :: nat where "MESSAGE_BODY_LIMIT = 2000"
definition MESSAGE_CONVERSATION_PAGE_SIZE :: nat where "MESSAGE_CONVERSATION_PAGE_SIZE = 30"
definition MESSAGE_THREAD_PAGE_SIZE :: nat where "MESSAGE_THREAD_PAGE_SIZE = 50"

text \<open>A stored message with the fields beside its envelope, and a row of the conversation list.\<close>

record thread_message = direct_message +
  tm_sender_id :: string
  tm_recipient_id :: string
  tm_read_at :: "string option"
  tm_created_at :: string

record message_peer =
  mp_id :: string
  mp_username :: string
  mp_avatar_url :: "string option"

record message_thread =
  mt_user :: message_peer
  mt_can_message :: bool
  mt_messages :: "thread_message list"

record conversation_row = message_conversation +
  cr_user_id :: string
  cr_username :: string
  cr_avatar_url :: "string option"
  cr_last_message_sender_id :: string
  cr_last_message_at :: string
  cr_last_message_read_at :: "string option"
  cr_unread_count :: nat
  cr_can_message :: bool

text \<open>\<open>value.replace(/\r\n?/g, '\n')\<close>.\<close>

fun unify_newlines :: "jstr \<Rightarrow> jstr" where
  "unify_newlines [] = []"
| "unify_newlines [u] = [if u = 13 then 10 else u]"
| "unify_newlines (u # v # us) =
     (if u = 13 then (if v = 10 then 10 # unify_newlines us else 10 # unify_newlines (v # us))
      else u # unify_newlines (v # us))"

definition normalizeMessageBody :: "jstr \<Rightarrow> jstr" where
  "normalizeMessageBody value = js_trim (unify_newlines value)"

definition messageCharacterCount :: "jstr \<Rightarrow> nat" where
  "messageCharacterCount value = length (code_points value)"

definition clampMessageBody :: "jstr \<Rightarrow> jstr" where
  "clampMessageBody value = from_cps (take MESSAGE_BODY_LIMIT (code_points value))"

lemma clampMessageBody_short: "messageCharacterCount w \<le> 2000 \<Longrightarrow> clampMessageBody w = w"
  by (simp add: messageCharacterCount_def clampMessageBody_def MESSAGE_BODY_LIMIT_def)

definition nextMessageCursor :: "message_thread \<Rightarrow> cursor option" where
  "nextMessageCursor page =
     (if length (mt_messages page) < MESSAGE_THREAD_PAGE_SIZE then None
      else case mt_messages page of
        [] \<Rightarrow> None
      | firstMessage # _ \<Rightarrow>
          Some \<lparr>cu_before = tm_created_at firstMessage, cu_beforeId = dm_id firstMessage\<rparr>)"

definition uniqueThreadMessages :: "message_thread list \<Rightarrow> thread_message list" where
  "uniqueThreadMessages pages = keep_first dm_id [] (concat (map mt_messages (rev pages)))"

definition uniqueConversations :: "conversation_row list list \<Rightarrow> conversation_row list" where
  "uniqueConversations pages = filter_pages cr_user_id [] pages"

record message_retry =
  mr_body :: jstr
  mr_nonce :: string

definition nonceForMessage :: "jstr \<Rightarrow> message_retry option \<Rightarrow> string \<Rightarrow> string" where
  "nonceForMessage body retry fresh =
     (case retry of
        Some r \<Rightarrow> (if mr_body r = body then mr_nonce r else fresh)
      | None \<Rightarrow> fresh)"

interpretation threads: ordered_feed_merge dm_id mt_messages uniqueThreadMessages "\<lambda>ps. concat (rev ps)"
proof
  fix ps :: "message_thread list"
  let ?xs = "concat (map mt_messages (rev ps))"
  have s: "set ?xs = set (concat (map mt_messages ps))" by auto
  show "set (uniqueThreadMessages ps) \<subseteq> set (concat (map mt_messages ps))"
    unfolding uniqueThreadMessages_def s [symmetric] by (rule keep_first_subset)
  show "dm_id ` set (uniqueThreadMessages ps) = dm_id ` set (concat (map mt_messages ps))"
    unfolding uniqueThreadMessages_def s [symmetric] by (simp only: keep_first_keys) simp
  show "distinct (map dm_id (uniqueThreadMessages ps))"
    by (simp only: uniqueThreadMessages_def keep_first_distinct)
  show "uniqueThreadMessages ps = concat (rev (map mt_messages ps))"
    if "distinct (map dm_id (concat (rev (map mt_messages ps))))"
    using keep_first_id [of dm_id ?xs "[]"] that
    by (simp add: uniqueThreadMessages_def rev_map)
qed

interpretation conversations: ordered_feed_merge cr_user_id "\<lambda>p. p" uniqueConversations concat
proof
  fix ps :: "conversation_row list list"
  have m: "uniqueConversations ps = keep_first cr_user_id [] (concat (map (\<lambda>p. p) ps))"
    by (simp add: uniqueConversations_def filter_pages_concat)
  show "set (uniqueConversations ps) \<subseteq> set (concat (map (\<lambda>p. p) ps))"
    by (simp only: m keep_first_subset)
  show "cr_user_id ` set (uniqueConversations ps) = cr_user_id ` set (concat (map (\<lambda>p. p) ps))"
    by (simp only: m keep_first_keys) simp
  show "distinct (map cr_user_id (uniqueConversations ps))"
    by (simp only: m keep_first_distinct)
  show "uniqueConversations ps = concat (map (\<lambda>p. p) ps)"
    if "distinct (map cr_user_id (concat (map (\<lambda>p. p) ps)))"
    unfolding m by (rule keep_first_id [OF that]) simp
qed

section \<open>Activity (\<open>lib/social.ts\<close>)\<close>

definition SOCIAL_PAGE_LIMIT :: nat where "SOCIAL_PAGE_LIMIT = 20"

datatype media_type = Movie | Tv

definition media_type_text :: "media_type \<Rightarrow> string" where
  "media_type_text m = (case m of Movie \<Rightarrow> ''movie'' | Tv \<Rightarrow> ''tv'')"

datatype follow_status = Follow_Pending | Follow_Accepted_Status

record activity_item =
  ai_id :: string
  ai_user_id :: string
  ai_username :: string
  ai_avatar_url :: "string option"
  ai_action :: string
  ai_tmdb_id :: int
  ai_media_title :: jstr
  ai_media_type :: media_type
  ai_poster_path :: "string option"
  ai_episode_id :: "string option"
  ai_episode_name :: "jstr option"
  ai_season_number :: "nat option"
  ai_episode_number :: "nat option"
  ai_timestamp :: string

text \<open>\<open>/^[A-Za-z0-9_-]{2,50}$/.test(query.trim())\<close>.\<close>

definition people_search_char :: "16 word \<Rightarrow> bool" where
  "people_search_char u \<longleftrightarrow> (\<exists>c \<in> set (CHR ''_'' # CHR ''-'' # map char_of [48 ..< 58 :: nat] @
     map char_of [65 ..< 91 :: nat] @ map char_of [97 ..< 123 :: nat]). u = of_nat (of_char c))"

definition isValidPeopleSearch :: "jstr \<Rightarrow> bool" where
  "isValidPeopleSearch query =
     (let q = js_trim query
      in 2 \<le> length q \<and> length q \<le> 50 \<and> list_all people_search_char q)"

definition nextActivityCursor :: "activity_item list \<Rightarrow> cursor option" where
  "nextActivityCursor its =
     (if length its < SOCIAL_PAGE_LIMIT then None
      else if its = [] then None
      else Some \<lparr>cu_before = ai_timestamp (last its), cu_beforeId = ai_id (last its)\<rparr>)"

definition uniqueActivities :: "activity_item list list \<Rightarrow> activity_item list" where
  "uniqueActivities pages = keep_last ai_id (concat pages)"

definition relationshipLabel :: "(string \<Rightarrow> jstr) \<Rightarrow> follow_status option \<Rightarrow> bool \<Rightarrow> jstr" where
  "relationshipLabel t status isPublic =
     (case status of
        Some Follow_Accepted_Status \<Rightarrow> t ''social.unfollow''
      | Some Follow_Pending \<Rightarrow> t ''social.cancelRequest''
      | None \<Rightarrow> if isPublic then t ''social.follow'' else t ''social.request'')"

section \<open>Watch history (\<open>lib/history.ts\<close>)\<close>

definition HISTORY_PAGE_LIMIT :: nat where "HISTORY_PAGE_LIMIT = 50"

record history_item =
  hi_id :: string
  hi_media_id :: string
  hi_tmdb_id :: int
  hi_media_title :: jstr
  hi_media_type :: media_type
  hi_poster_path :: "string option"
  hi_episode_id :: "string option"
  hi_episode_name :: "jstr option"
  hi_season_number :: "nat option"
  hi_episode_number :: "nat option"
  hi_watched_at :: string

definition uniqueHistory :: "history_item list list \<Rightarrow> history_item list" where
  "uniqueHistory pages = keep_last hi_id (concat pages)"

text \<open>\<open>`S${...}E${...}`\<close>, with the name after a middle dot when there is one.\<close>

definition historyEpisodeLabel :: "history_item \<Rightarrow> jstr option" where
  "historyEpisodeLabel item =
     (case (hi_season_number item, hi_episode_number item) of
        (Some s, Some e) \<Rightarrow>
          (let code = units_of (''S'' @ pad_start 2 (decimal s) @ ''E'' @ pad_start 2 (decimal e))
           in (case hi_episode_name item of
                 Some (u # us) \<Rightarrow> Some (code @ [0x20, 0xB7, 0x20] @ (u # us))
               | _ \<Rightarrow> Some code))
      | _ \<Rightarrow> hi_episode_name item)"

lemma keep_last_merges:
  "set (keep_last key (concat ps)) \<subseteq> set (concat (map (\<lambda>p. p) ps))"
  "key ` set (keep_last key (concat ps)) = key ` set (concat (map (\<lambda>p. p) ps))"
  "distinct (map key (keep_last key (concat ps)))"
  by (simp_all only: list.map_ident keep_last_subset keep_last_keys keep_last_distinct)

interpretation activities: feed_merge ai_id "\<lambda>p. p" uniqueActivities
  by unfold_locales (simp_all only: uniqueActivities_def keep_last_merges)

interpretation history: feed_merge hi_id "\<lambda>p. p" uniqueHistory
  by unfold_locales (simp_all only: uniqueHistory_def keep_last_merges)

section \<open>Tracking lookups (\<open>lib/tracking-lookup.ts\<close>)\<close>

record lookup_target =
  lt_tmdb_id :: rat
  lt_media_type :: media_type

definition LOOKUP_BATCH_SIZE :: nat where "LOOKUP_BATCH_SIZE = 100"

definition valid_target :: "lookup_target \<Rightarrow> bool" where
  "valid_target target \<longleftrightarrow> is_integer (lt_tmdb_id target) \<and> 0 < lt_tmdb_id target"

definition lookup_key :: "lookup_target \<Rightarrow> string" where
  "lookup_key target =
     media_type_text (lt_media_type target) @ '':'' @ decimal_int \<lfloor>lt_tmdb_id target\<rfloor>"

definition buildTrackingLookupBatches :: "lookup_target list \<Rightarrow> lookup_target list list" where
  "buildTrackingLookupBatches targets =
     chunks LOOKUP_BATCH_SIZE (keep_last lookup_key (filter valid_target targets))"

end
