(* ===== verification/Message_Screen.thy ===== *)
theory Message_Screen
  imports Feeds Message_Claims Key_Session Peer_Trust
begin

text \<open>
  A conversation as it is used: the send mutation of \<open>hooks/use-messages.ts\<close> and the thread screen
  \<open>app/messages/[username].tsx\<close> (its composer, the key each message is checked against, the
  evidence of a report, the safety number and the read receipt). The rendering of the screen is
  left out.
\<close>

section \<open>Sending (\<open>useSendMessage\<close>)\<close>

datatype send_error =
    Encryption_Required
  | Seal_Failed core_error

datatype send_body =
    Sealed encrypted_payload string
  | In_Clear jstr string

text \<open>The body of the POST: \<open>peer\<close> is what \<open>fetchPeerKeys\<close> gave (or gave in the last five minutes),
  \<open>identity\<close> what the store holds.\<close>

definition send_payload ::
  "primitives \<Rightarrow> encrypt_random \<Rightarrow> peer_public_keys option \<Rightarrow> identity_key_pair option \<Rightarrow> jstr \<Rightarrow> string \<Rightarrow>
   send_error + send_body" where
  "send_payload P r peer identity body clientNonce =
     (case (peer, identity) of
        (Some _, None) \<Rightarrow> Inl Encryption_Required
      | (Some k, Some own) \<Rightarrow>
          (case sealMessage P r body k own clientNonce of
             Inl e \<Rightarrow> Inl (Seal_Failed e)
           | Inr payload \<Rightarrow> Inr (Sealed payload clientNonce))
      | (None, _) \<Rightarrow> Inr (In_Clear body clientNonce))"

text \<open>The directory entry of a peer in the query cache, with the time of its answer. \<open>fetchQuery\<close> hands out an
  entry younger than the stale time, the answer null included, and asks otherwise; nothing invalidates the
  key. \<open>directory\<close> is what the server answers at each moment, \<open>now\<close> the moment the mutation has its answer;
  \<open>kept\<close> is false when the cache was cleared while it was asked for.\<close>

type_synonym peer_entry = "(peer_public_keys option \<times> int) option"

definition PEER_STALE_MS :: int where "PEER_STALE_MS = 5 * 60 * 1000"

definition fetch_peer ::
  "(int \<Rightarrow> key_error + peer_public_keys) \<Rightarrow> bool \<Rightarrow> int \<Rightarrow> peer_entry \<Rightarrow> peer_public_keys option \<times> peer_entry" where
  "fetch_peer directory kept now entry =
     (let asked = fetchPeerKeys (directory now)
      in case entry of
           Some (peer, updated) \<Rightarrow>
             if now - updated < PEER_STALE_MS then (peer, entry)
             else (asked, if kept then Some (asked, now) else None)
         | None \<Rightarrow> (asked, if kept then Some (asked, now) else None))"

record message_to_send =
  ms_kept :: bool
  ms_identity :: "identity_key_pair option"
  ms_body :: jstr
  ms_nonce :: string
  ms_random :: encrypt_random

definition useSendMessage ::
  "primitives \<Rightarrow> (int \<Rightarrow> key_error + peer_public_keys) \<Rightarrow> int \<Rightarrow> message_to_send \<Rightarrow> peer_entry \<Rightarrow>
   (send_error + send_body) \<times> peer_entry" where
  "useSendMessage P directory now m entry =
     (let (peer, entry') = fetch_peer directory (ms_kept m) now entry
      in (send_payload P (ms_random m) peer (ms_identity m) (ms_body m) (ms_nonce m), entry'))"

text \<open>What happens to the entry: the query of the screen (\<open>usePeerKeys\<close>) is answered, the entry is dropped
  with the cache, a message is sent.\<close>

datatype peer_event = Screen_Asked int | Entry_Dropped int | Message_Sent int message_to_send

fun event_time :: "peer_event \<Rightarrow> int" where
  "event_time (Screen_Asked t) = t"
| "event_time (Entry_Dropped t) = t"
| "event_time (Message_Sent t m) = t"

definition peer_step ::
  "primitives \<Rightarrow> (int \<Rightarrow> key_error + peer_public_keys) \<Rightarrow> peer_entry \<Rightarrow> peer_event \<Rightarrow> peer_entry" where
  "peer_step P directory entry e =
     (case e of
        Screen_Asked t \<Rightarrow> Some (fetchPeerKeys (directory t), t)
      | Entry_Dropped t \<Rightarrow> None
      | Message_Sent t m \<Rightarrow> snd (useSendMessage P directory t m entry))"

definition peer_run ::
  "primitives \<Rightarrow> (int \<Rightarrow> key_error + peer_public_keys) \<Rightarrow> peer_event list \<Rightarrow> peer_entry" where
  "peer_run P directory es = foldl (peer_step P directory) None es"

section \<open>The composer\<close>

text \<open>\<open>co_pending\<close> is the request in flight. The text field and the button are disabled while it is,
  and while the thread does not allow messages.\<close>

record composer =
  co_username :: string
  co_body :: jstr
  co_retry :: "message_retry option"
  co_pending :: "(jstr \<times> string) option"
  co_can_message :: bool

datatype composer_event =
    Typed jstr
  | Submit string
  | Send_Succeeded
  | Send_Failed
  | Thread_Refetched bool

definition type_text :: "composer \<Rightarrow> jstr \<Rightarrow> composer" where
  "type_text c value =
     (if co_can_message c \<and> co_pending c = None then c\<lparr>co_body := clampMessageBody value\<rparr> else c)"

text \<open>\<open>submit\<close>: the new state and the request, if one is made. \<open>fresh\<close> is the UUID it would draw.\<close>

definition submit :: "composer \<Rightarrow> string \<Rightarrow> composer \<times> (jstr \<times> string) option" where
  "submit c fresh =
     (let normalizedBody = normalizeMessageBody (co_body c)
      in if co_username c = [] \<or> normalizedBody = [] \<or>
            MESSAGE_BODY_LIMIT < messageCharacterCount normalizedBody \<or>
            co_pending c \<noteq> None \<or> \<not> co_can_message c
         then (c, None)
         else let clientNonce = nonceForMessage normalizedBody (co_retry c) fresh
              in (c\<lparr>co_retry := Some \<lparr>mr_body = normalizedBody, mr_nonce = clientNonce\<rparr>,
                    co_pending := Some (normalizedBody, clientNonce)\<rparr>,
                  Some (normalizedBody, clientNonce)))"

definition composer_step :: "composer \<Rightarrow> composer_event \<Rightarrow> composer \<times> (jstr \<times> string) list" where
  "composer_step c ev =
     (case ev of
        Typed value \<Rightarrow> (type_text c value, [])
      | Submit fresh \<Rightarrow>
          (case submit c fresh of
             (c', None) \<Rightarrow> (c', [])
           | (c', Some request) \<Rightarrow> (c', [request]))
      | Send_Succeeded \<Rightarrow>
          (if co_pending c = None then (c, [])
           else (c\<lparr>co_body := [], co_retry := None, co_pending := None\<rparr>, []))
      | Send_Failed \<Rightarrow> (c\<lparr>co_pending := None\<rparr>, [])
      | Thread_Refetched allowed \<Rightarrow> (c\<lparr>co_can_message := allowed\<rparr>, []))"

fun composer_run :: "composer \<Rightarrow> composer_event list \<Rightarrow> composer \<times> (jstr \<times> string) list" where
  "composer_run c [] = (c, [])"
| "composer_run c (ev # evs) =
     (let (c', sent) = composer_step c ev; (c'', rest) = composer_run c' evs in (c'', sent @ rest))"

definition opened_composer :: "string \<Rightarrow> bool \<Rightarrow> composer" where
  "opened_composer username allowed =
     \<lparr>co_username = username, co_body = [], co_retry = None, co_pending = None, co_can_message = allowed\<rparr>"

section \<open>Keys, evidence and receipts of the thread\<close>

text \<open>The keys of the peer with the account they belong to, as the directory answers.\<close>

record peer_directory_entry = peer_public_keys +
  pd_user_id :: string
  pd_username :: string

definition peerFingerprintValue :: "primitives \<Rightarrow> peer_directory_entry option \<Rightarrow> string option" where
  "peerFingerprintValue P keys =
     (case keys of
        None \<Rightarrow> None
      | Some k \<Rightarrow>
          (case peerFingerprint P (peer_exchange_public_key k) (peer_signing_public_key k) of
             Inl _ \<Rightarrow> None
           | Inr fp \<Rightarrow> Some fp))"

definition safetyNumberValue :: "primitives \<Rightarrow> string option \<Rightarrow> peer_directory_entry option \<Rightarrow> string option" where
  "safetyNumberValue P ownFingerprint keys =
     (case (truthy ownFingerprint, peerFingerprintValue P keys) of
        (Some own, Some peer) \<Rightarrow> Some (safetyNumber P own peer)
      | _ \<Rightarrow> None)"

definition trust_subject ::
  "primitives \<Rightarrow> peer_directory_entry option \<Rightarrow> (string \<times> string \<times> string) option" where
  "trust_subject P keys =
     (case (keys, peerFingerprintValue P keys) of
        (Some k, Some fp) \<Rightarrow> if pd_user_id k \<noteq> [] then Some (pd_user_id k, pd_username k, fp) else None
      | _ \<Rightarrow> None)"

definition peerSigningKey :: "primitives \<Rightarrow> peer_directory_entry option \<Rightarrow> bytes option" where
  "peerSigningKey P keys =
     (case keys of
        None \<Rightarrow> None
      | Some k \<Rightarrow>
          (case bindE (assertPeerFingerprint P (peer_exchange_public_key k) (peer_signing_public_key k)
                         (peer_key_fingerprint k))
                  (\<lambda>_. from_hex (peer_signing_public_key k)) of
             Inl _ \<Rightarrow> None
           | Inr key \<Rightarrow> Some key))"

definition authorSigningKey ::
  "string option \<Rightarrow> identity_key_pair option \<Rightarrow> bytes option \<Rightarrow> thread_message \<Rightarrow> bytes option" where
  "authorSigningKey currentUser identity peerKey m =
     (if Some (tm_sender_id m) = currentUser then map_option signingPublicKey identity else peerKey)"

record report_evidence =
  re_revealedPlaintext :: jstr
  re_frankingKey :: string

text \<open>\<open>reportEvidence\<close> reads the message again, so it also leaves the cache as a read does.\<close>

definition reportEvidence ::
  "primitives \<Rightarrow> decrypt_cache \<Rightarrow> direct_message \<Rightarrow> identity_key_pair option \<Rightarrow> bytes option \<Rightarrow>
   report_evidence option" where
  "reportEvidence P cache m identity authorKey =
     (case fst (readMessage P cache m identity authorKey) of
        Encrypted content \<Rightarrow>
          Some \<lparr>re_revealedPlaintext = dc_text content, re_frankingKey = to_hex (dc_frankingKey content)\<rparr>
      | _ \<Rightarrow> None)"

definition threadIsEncrypted :: "thread_message list \<Rightarrow> bool" where
  "threadIsEncrypted messages = list_ex (\<lambda>m. dm_body m = None) messages"

definition lastOwnMessageId :: "string option \<Rightarrow> thread_message list \<Rightarrow> string option" where
  "lastOwnMessageId currentUser messages =
     map_option dm_id (find (\<lambda>m. Some (tm_sender_id m) = currentUser) (rev messages))"

definition newestUnreadIncoming :: "string option \<Rightarrow> thread_message list \<Rightarrow> thread_message option" where
  "newestUnreadIncoming currentUser messages =
     find (\<lambda>m. Some (tm_recipient_id m) = currentUser \<and> tm_read_at m = None) (rev messages)"

text \<open>The read receipt effect: the identifier to read through, and the new \<open>lastReadRequest\<close>.\<close>

definition read_receipt ::
  "string \<Rightarrow> thread_message option \<Rightarrow> bool \<Rightarrow> string option \<Rightarrow> string option \<times> string option" where
  "read_receipt username newest isMarkingRead lastReadRequest =
     (case newest of
        None \<Rightarrow> (None, lastReadRequest)
      | Some m \<Rightarrow>
          if username = [] \<or> isMarkingRead \<or> lastReadRequest = Some (dm_id m) then (None, lastReadRequest)
          else (Some (dm_id m), Some (dm_id m)))"

text \<open>\<open>previewText\<close>, with the translations as a parameter.\<close>

definition previewText :: "message_content \<Rightarrow> (string \<Rightarrow> jstr) \<Rightarrow> jstr" where
  "previewText content t =
     (case content of
        Plain text \<Rightarrow> text
      | Encrypted d \<Rightarrow> dc_text d
      | Locked \<Rightarrow> t ''messages.lockedPreview''
      | Untrusted reason \<Rightarrow>
          t (case reason of
               ForgedMessage \<Rightarrow> ''messages.notFromSender''
             | MalformedMessage \<Rightarrow> ''messages.malformedMessage''
             | UnrecognisedMessage \<Rightarrow> ''messages.unplaceableKey'')
      | Undecryptable \<Rightarrow> t ''messages.undecryptable'')"

section \<open>What is sent\<close>

lemma send_payload_lookup:
  "send_payload P r (fetchPeerKeys answer) identity body n =
     (case answer of
        Inl e \<Rightarrow> Inr (In_Clear body n)
      | Inr keys \<Rightarrow>
          (case identity of
             None \<Rightarrow> Inl Encryption_Required
           | Some own \<Rightarrow>
               (case sealMessage P r body keys own n of
                  Inl e \<Rightarrow> Inl (Seal_Failed e)
                | Inr payload \<Rightarrow> Inr (Sealed payload n))))"
  by (cases answer; cases identity) (simp_all only: send_payload_def fetchPeerKeys_def prod.case sum.case option.case)

lemma sealed_result: "(case x of Inl e \<Rightarrow> Inl (Seal_Failed e) | Inr p \<Rightarrow> Inr (Sealed p n)) \<noteq> Inr (In_Clear text m)"
  by (cases x) simp_all

lemma send_payload_with_keys: "send_payload P r (fetchPeerKeys (Inr k)) identity body n \<noteq> Inr (In_Clear t m)"
  by (cases identity) (simp_all only: send_payload_lookup sum.case option.case sealed_result, simp_all)

lemma send_payload_clear_iff:
  "send_payload P r (fetchPeerKeys answer) identity body n = Inr (In_Clear t m) \<longleftrightarrow>
   (\<exists>e. answer = Inl e) \<and> t = body \<and> m = n"
proof (cases answer)
  case (Inl e)
  then show ?thesis by (simp only: send_payload_lookup sum.case) auto
next
  case (Inr k)
  then show ?thesis using send_payload_with_keys by simp
qed

text \<open>The events since the entry was last dropped.\<close>

definition since_dropped :: "peer_event list \<Rightarrow> peer_event list" where
  "since_dropped es = rev (takeWhile (\<lambda>e. case e of Entry_Dropped _ \<Rightarrow> False | _ \<Rightarrow> True) (rev es))"

lemma since_dropped_simps [simp]:
  "since_dropped [] = []"
  "since_dropped (es @ [Screen_Asked t]) = since_dropped es @ [Screen_Asked t]"
  "since_dropped (es @ [Message_Sent t m]) = since_dropped es @ [Message_Sent t m]"
  "since_dropped (es @ [Entry_Dropped t]) = []"
  by (simp_all add: since_dropped_def)

lemma peer_run_simps [simp]:
  "peer_run P directory [] = None"
  "peer_run P directory (es @ [e]) = peer_step P directory (peer_run P directory es) e"
  by (simp_all add: peer_run_def)

lemma entry_of_lookup:
  "peer_run P directory es = Some (peer, t) \<Longrightarrow>
   peer = fetchPeerKeys (directory t) \<and> t \<in> event_time ` set (since_dropped es)"
proof (induction es rule: rev_induct)
  case Nil
  then show ?case by simp
next
  case (snoc e es)
  then show ?case
    by (cases e)
      (auto simp: peer_step_def useSendMessage_def fetch_peer_def Let_def split: option.splits if_splits prod.splits)
qed

lemma fetch_peer_cases:
  assumes "peer_run P directory es = entry"
  obtains t where "fst (fetch_peer directory kept now entry) = fetchPeerKeys (directory t)"
    and "t = now \<or> now - t < PEER_STALE_MS \<and> t \<in> event_time ` set (since_dropped es)"
proof (cases "\<exists>peer u. entry = Some (peer, u) \<and> now - u < PEER_STALE_MS")
  case True
  then obtain peer u where e: "entry = Some (peer, u)" "now - u < PEER_STALE_MS" by blast
  with entry_of_lookup [of P directory es peer u] assms
  have "peer = fetchPeerKeys (directory u)" "u \<in> event_time ` set (since_dropped es)" by simp_all
  with e show thesis by (intro that [of u]) (simp_all add: fetch_peer_def)
next
  case False
  then show thesis by (intro that [of now]) (auto simp: fetch_peer_def Let_def split: option.split)
qed

text \<open>While the entry is fresh and no screen asks, messages leave it as it is.\<close>

lemma entry_stays:
  assumes "peer_run P directory before = Some (peer, t)"
    and "\<forall>e \<in> set later. \<exists>u m. e = Message_Sent u m \<and> u - t < PEER_STALE_MS"
  shows "peer_run P directory (before @ later) = Some (peer, t)"
  using assms(2)
proof (induction later rule: rev_induct)
  case Nil
  then show ?case using assms(1) by simp
next
  case (snoc e later)
  then obtain u m where "e = Message_Sent u m" "u - t < PEER_STALE_MS" by auto
  with snoc show ?case
    unfolding append_assoc [symmetric] peer_run_simps
    by (simp add: peer_step_def useSendMessage_def fetch_peer_def split: prod.splits)
qed

text \<open>C12: In what form a text leaves the device, over any run of lookups, sends and sign-outs with a clock
  that does not go back. A send rests on a directory answer that is less than five minutes old, its own or
  one since the cache was last cleared: if that answer has keys the text is sealed to exactly those or the
  send fails, if it is an error of any kind the text leaves in the clear. In particular nothing leaves in
  the clear while every lookup of the last five minutes found keys. And one failed lookup is enough for
  five minutes: until the screen asks again every text is sent in the clear, whatever the directory has.\<close>

theorem clear_only_after_failed_lookup:
  assumes "sorted (map event_time (before @ [Message_Sent now m]))"
  shows "(\<exists>t. now - PEER_STALE_MS < t \<and> t \<le> now \<and> (t = now \<or> t \<in> event_time ` set (since_dropped before)) \<and>
     fst (useSendMessage P directory now m (peer_run P directory before)) =
       (case directory t of
          Inl e \<Rightarrow> Inr (In_Clear (ms_body m) (ms_nonce m))
        | Inr keys \<Rightarrow>
            (case ms_identity m of
               None \<Rightarrow> Inl Encryption_Required
             | Some own \<Rightarrow>
                 (case sealMessage P (ms_random m) (ms_body m) keys own (ms_nonce m) of
                    Inl e \<Rightarrow> Inl (Seal_Failed e)
                  | Inr payload \<Rightarrow> Inr (Sealed payload (ms_nonce m)))))) \<and>
   ((\<forall>t. now - PEER_STALE_MS < t \<and> t \<le> now \<longrightarrow> (\<exists>keys. directory t = Inr keys)) \<longrightarrow>
      fst (useSendMessage P directory now m (peer_run P directory before)) \<noteq> Inr (In_Clear txt n)) \<and>
   ((\<exists>first t e sends. before = first @ Screen_Asked t # sends \<and> directory t = Inl e \<and> now - t < PEER_STALE_MS \<and>
        (\<forall>x \<in> set sends. \<exists>u m'. x = Message_Sent u m')) \<longrightarrow>
      fst (useSendMessage P directory now m (peer_run P directory before)) =
        Inr (In_Clear (ms_body m) (ms_nonce m)))"
proof -
  let ?entry = "peer_run P directory before"
  let ?sent = "fst (useSendMessage P directory now m ?entry)"
  have result: "fst (useSendMessage P directory now m ?entry) =
      send_payload P (ms_random m) (fst (fetch_peer directory (ms_kept m) now ?entry)) (ms_identity m)
        (ms_body m) (ms_nonce m)"
    by (simp add: useSendMessage_def split: prod.splits)
  obtain t where t: "fst (fetch_peer directory (ms_kept m) now ?entry) = fetchPeerKeys (directory t)"
      "t = now \<or> now - t < PEER_STALE_MS \<and> t \<in> event_time ` set (since_dropped before)"
    using fetch_peer_cases [OF refl] by blast
  have "set (since_dropped before) \<subseteq> set before" unfolding since_dropped_def using set_takeWhileD by fastforce
  then have past: "t \<le> now" using t(2) assms by (auto simp: sorted_append)
  have young: "now - PEER_STALE_MS < t" using t(2) by (auto simp: PEER_STALE_MS_def)
  have clear: "fst (useSendMessage P directory now m ?entry) = Inr (In_Clear (ms_body m) (ms_nonce m))"
    if "before = first @ Screen_Asked u # sends" "directory u = Inl e" "now - u < PEER_STALE_MS"
      "\<forall>x \<in> set sends. \<exists>v m'. x = Message_Sent v m'" for first u e sends
  proof -
    have "peer_run P directory (first @ [Screen_Asked u]) = Some (None, u)"
      using that(2) by (simp add: peer_step_def fetchPeerKeys_def)
    moreover have "\<forall>x \<in> set sends. \<exists>v m'. x = Message_Sent v m' \<and> v - u < PEER_STALE_MS"
      using that(1,3,4) assms by (force simp: sorted_append)
    ultimately have "?entry = Some (None, u)"
      using entry_stays [of P directory "first @ [Screen_Asked u]" None u sends] that(1) by simp
    then show ?thesis using that(3) unfolding result by (simp add: fetch_peer_def send_payload_def)
  qed
  show ?thesis
  proof (intro conjI impI)
    show "fst (useSendMessage P directory now m ?entry) \<noteq> Inr (In_Clear txt n)"
      if "\<forall>t. now - PEER_STALE_MS < t \<and> t \<le> now \<longrightarrow> (\<exists>keys. directory t = Inr keys)"
      using that young past unfolding result t(1) send_payload_clear_iff by force
    show "\<exists>t. now - PEER_STALE_MS < t \<and> t \<le> now \<and> (t = now \<or> t \<in> event_time ` set (since_dropped before)) \<and>
        ?sent = (case directory t of
          Inl e \<Rightarrow> Inr (In_Clear (ms_body m) (ms_nonce m))
        | Inr keys \<Rightarrow>
            (case ms_identity m of
               None \<Rightarrow> Inl Encryption_Required
             | Some own \<Rightarrow>
                 (case sealMessage P (ms_random m) (ms_body m) keys own (ms_nonce m) of
                    Inl e \<Rightarrow> Inl (Seal_Failed e)
                  | Inr payload \<Rightarrow> Inr (Sealed payload (ms_nonce m)))))"
      using t(2) young past unfolding result t(1) send_payload_lookup by (intro exI [of _ t]) simp
    show "?sent = Inr (In_Clear (ms_body m) (ms_nonce m))"
      if "\<exists>first t e sends. before = first @ Screen_Asked t # sends \<and> directory t = Inl e \<and> now - t < PEER_STALE_MS \<and>
        (\<forall>x \<in> set sends. \<exists>u m'. x = Message_Sent u m')"
      using that clear by (elim exE conjE)
  qed
qed

text \<open>The directory does not answer at the moment the screen asks; three minutes later it would, with keys, and
  the message is sent in the clear all the same.\<close>

definition late_directory :: "int \<Rightarrow> key_error + peer_public_keys" where
  "late_directory t = (if t = 0 then Inl Api_Failed else Inr sample_peer)"

definition sample_send :: message_to_send where
  "sample_send =
     \<lparr>ms_kept = True, ms_identity = Some sample_author, ms_body = units_of ''hi'', ms_nonce = ''ab-cd'',
      ms_random = sample_random\<rparr>"

lemma clear_only_after_failed_lookup_witness:
  "fst (useSendMessage sample_primitives late_directory 180000 sample_send
      (peer_run sample_primitives late_directory [Screen_Asked 0])) =
   Inr (In_Clear (units_of ''hi'') ''ab-cd'')"
proof -
  have sorted: "sorted (map event_time ([Screen_Asked 0] @ [Message_Sent 180000 sample_send]))" by simp
  have "[Screen_Asked 0] = [] @ Screen_Asked 0 # []" "late_directory 0 = Inl Api_Failed"
      "180000 - 0 < PEER_STALE_MS" "\<forall>x \<in> set []. \<exists>u m'. x = Message_Sent u m'"
    by (simp_all add: late_directory_def PEER_STALE_MS_def)
  with clear_only_after_failed_lookup [OF sorted, of sample_primitives late_directory, THEN conjunct2, THEN conjunct2]
  have "fst (useSendMessage sample_primitives late_directory 180000 sample_send
      (peer_run sample_primitives late_directory [Screen_Asked 0])) =
     Inr (In_Clear (ms_body sample_send) (ms_nonce sample_send))" by blast
  then show ?thesis by (simp add: sample_send_def)
qed

section \<open>One nonce, one text\<close>

definition fresh_nonces :: "composer_event list \<Rightarrow> string list" where
  "fresh_nonces evs = concat (map (\<lambda>ev. case ev of Submit n \<Rightarrow> [n] | _ \<Rightarrow> []) evs)"

text \<open>What was sent under each nonce so far: the text being retried is the one last sent with its
  nonce, and no nonce still to be drawn has been used.\<close>

definition nonces_ok :: "(jstr \<times> string) list \<Rightarrow> string list \<Rightarrow> composer \<Rightarrow> bool" where
  "nonces_ok sent future c \<longleftrightarrow>
     inj_on snd (set sent) \<and> snd ` set sent \<inter> set future = {} \<and> distinct future \<and>
     (case co_retry c of None \<Rightarrow> True | Some r \<Rightarrow> (mr_body r, mr_nonce r) \<in> set sent)"

definition sendable :: "jstr \<Rightarrow> bool" where
  "sendable b \<longleftrightarrow> b \<noteq> [] \<and> messageCharacterCount b \<le> MESSAGE_BODY_LIMIT \<and> (\<exists>v. b = normalizeMessageBody v)"

lemma submit_cases:
  assumes "submit c fresh = (c', out)"
  obtains (refused) "c' = c" "out = None"
  | (sent) b where "out = Some (b, nonceForMessage b (co_retry c) fresh)" "sendable b"
      "co_retry c' = Some \<lparr>mr_body = b, mr_nonce = nonceForMessage b (co_retry c) fresh\<rparr>"
proof (cases "out")
  case None
  with assms have "c' = c" by (auto simp: submit_def Let_def split: if_splits)
  with None refused show thesis by simp
next
  case (Some request)
  let ?b = "normalizeMessageBody (co_body c)"
  from Some assms have "out = Some (?b, nonceForMessage ?b (co_retry c) fresh)" "sendable ?b"
      "co_retry c' = Some \<lparr>mr_body = ?b, mr_nonce = nonceForMessage ?b (co_retry c) fresh\<rparr>"
    by (auto simp: submit_def Let_def sendable_def split: if_splits)
  then show thesis by (rule sent)
qed

lemma nonces_ok_sent:
  assumes ok: "nonces_ok sent (fresh # future) c"
    and c': "co_retry c' = Some \<lparr>mr_body = b, mr_nonce = nonceForMessage b (co_retry c) fresh\<rparr>"
  shows "nonces_ok (sent @ [(b, nonceForMessage b (co_retry c) fresh)]) future c'"
proof (cases "\<exists>r. co_retry c = Some r \<and> mr_body r = b")
  case True
  then obtain r where r: "co_retry c = Some r" "mr_body r = b" by blast
  with ok have "(b, mr_nonce r) \<in> set sent" by (auto simp: nonces_ok_def)
  with ok r c' show ?thesis by (auto simp: nonces_ok_def nonceForMessage_def insert_absorb)
next
  case False
  then have "nonceForMessage b (co_retry c) fresh = fresh"
    by (auto simp: nonceForMessage_def split: option.splits)
  with ok c' show ?thesis by (auto simp: nonces_ok_def)
qed

lemma nonces_ok_weaken: "nonces_ok sent (fresh # future) c \<Longrightarrow> nonces_ok sent future c"
  by (auto simp: nonces_ok_def)

lemma nonces_ok_step:
  assumes "nonces_ok sent (fresh_nonces (ev # evs)) c" and "composer_step c ev = (c', out)"
  shows "nonces_ok (sent @ out) (fresh_nonces evs) c' \<and> fst ` set out \<subseteq> Collect sendable"
proof (cases ev)
  case (Submit fresh)
  obtain c2 o2 where s: "submit c fresh = (c2, o2)" by (cases "submit c fresh")
  from assms(1) Submit have ok: "nonces_ok sent (fresh # fresh_nonces evs) c" by (simp add: fresh_nonces_def)
  from s show ?thesis
  proof (cases rule: submit_cases)
    case refused
    with assms(2) Submit s nonces_ok_weaken [OF ok] show ?thesis by (simp add: composer_step_def)
  next
    case (sent b)
    with assms(2) Submit s nonces_ok_sent [OF ok sent(3)] show ?thesis by (auto simp: composer_step_def)
  qed
qed (use assms in \<open>auto simp: composer_step_def nonces_ok_def fresh_nonces_def type_text_def split: if_splits option.splits\<close>)

lemma nonces_ok_run:
  "nonces_ok sent (fresh_nonces evs) c \<Longrightarrow> composer_run c evs = (c', out) \<Longrightarrow>
   nonces_ok (sent @ out) [] c' \<and> fst ` set out \<subseteq> Collect sendable"
proof (induction evs arbitrary: c c' sent out)
  case Nil
  then show ?case by (simp add: fresh_nonces_def)
next
  case (Cons ev evs)
  obtain c1 s1 where s1: "composer_step c ev = (c1, s1)" by (cases "composer_step c ev")
  obtain c2 s2 where s2: "composer_run c1 evs = (c2, s2)" by (cases "composer_run c1 evs")
  from Cons.prems(2) s1 s2 have out: "out = s1 @ s2" "c' = c2" by auto
  from nonces_ok_step [OF Cons.prems(1) s1]
  have "nonces_ok (sent @ s1) (fresh_nonces evs) c1" and "fst ` set s1 \<subseteq> Collect sendable" by simp_all
  with Cons.IH [OF _ s2] out show ?case by fastforce
qed

text \<open>C13: In a conversation, a client nonce names one text. Over any run of the composer (typing,
  submitting, failures, successes, refetches in any order), as long as the platform never draws the
  same UUID twice, two requests with the same nonce carry the same text, so the server may treat
  the second as a retry of the first; a text submitted again after a failure, unchanged, goes out
  under the nonce it had; and every text sent is non-empty, trimmed, with unified line ends and at
  most 2000 characters.\<close>

theorem nonce_names_one_text:
  assumes "distinct (fresh_nonces evs)" and "composer_run (opened_composer u allowed) evs = (c, sent)"
  shows "inj_on snd (set sent) \<and> fst ` set sent \<subseteq> Collect sendable \<and>
    (\<forall>r fresh. co_retry c = Some r \<and> normalizeMessageBody (co_body c) = mr_body r \<longrightarrow>
       snd (submit c fresh) \<in> {None, Some (mr_body r, mr_nonce r)})"
proof (intro conjI)
  have "nonces_ok [] (fresh_nonces evs) (opened_composer u allowed)"
    using assms(1) by (simp add: nonces_ok_def opened_composer_def)
  from nonces_ok_run [OF this assms(2)]
  show "inj_on snd (set sent)" and "fst ` set sent \<subseteq> Collect sendable" by (simp_all add: nonces_ok_def)
qed (auto simp: submit_def Let_def nonceForMessage_def)

lemma nonce_names_one_text_witness:
  "\<exists>c sent. composer_run (opened_composer ''ana'' True)
       [Typed [0x68, 0x69], Submit ''n1'', Send_Failed, Submit ''n2'', Send_Failed] = (c, sent) \<and>
     inj_on snd (set sent) \<and> sent = [([0x68, 0x69], ''n1''), ([0x68, 0x69], ''n1'')]"
proof -
  let ?evs = "[Typed [0x68, 0x69], Submit ''n1'', Send_Failed, Submit ''n2'', Send_Failed]"
  obtain c sent where r: "composer_run (opened_composer ''ana'' True) ?evs = (c, sent)"
    by (cases "composer_run (opened_composer ''ana'' True) ?evs")
  have inj: "inj_on snd (set sent)"
    using nonce_names_one_text [OF _ r] by (simp add: fresh_nonces_def)
  have count: "messageCharacterCount [0x68, 0x69] = 2"
    by (simp add: messageCharacterCount_def is_high_def)
  moreover have "normalizeMessageBody [0x68, 0x69] = [0x68, 0x69]"
    by (simp add: normalizeMessageBody_def js_trim_def trim_by_def js_space_def)
  ultimately have "sent = [([0x68, 0x69], ''n1''), ([0x68, 0x69], ''n1'')]"
    using r by (simp add: composer_step_def opened_composer_def type_text_def submit_def nonceForMessage_def
        MESSAGE_BODY_LIMIT_def Let_def clampMessageBody_short)
  with r inj show ?thesis by blast
qed

section \<open>Reports\<close>

lemma fst_inspect: "fst (inspect P t fk e k) = fst (inspect P t fk e k')"
  by (simp add: inspect_def)

lemma read_encrypted_entry:
  assumes "\<And>i. dm_id (W i) = i" and "reachable_cache P W K own c" and "key = None \<or> key = Some (K i)"
    and cm: "truthy (e_franking_commitment (dm_envelope (W i))) = Some cm"
    and read: "fst (readMessage P c (W i) (Some own) key) = Encrypted d"
  shows "entry_ok P W K own i d \<and> dc_commitmentVerified d \<notin> {None, Some False}"
proof (cases "lookup_content c i")
  case None
  then obtain r where r: "open_message P (W i) own = Inr r"
      "present (judge P (plaintext r) (frankingKey r) (dm_envelope (W i)) key) = Encrypted d"
    using read by (auto simp: readMessage_def decryptEnvelope_def assms(1) open_message_def Let_def
        split: option.splits sum.splits)
  with entry_judged [where K = K and W = W and i = i, OF r(1) assms(3)] inspect_complete(2) [OF cm] show ?thesis
    by (auto simp: present_Encrypted_iff)
next
  case (Some d0)
  with reachable_entries [OF assms(1,2)] contents.everyD have ok: "entry_ok P W K own i d0" by metis
  show ?thesis
  proof (cases "stale d0 (dm_envelope (W i)) key")
    case True
    with Some read have "present (judge P (dc_text d0) (dc_frankingKey d0) (dm_envelope (W i)) key) = Encrypted d"
      by (auto simp: readMessage_def decryptEnvelope_def assms(1) Let_def split: option.splits)
    with entry_rejudged [where K = K and W = W and i = i, OF ok assms(3)] inspect_complete(2) [OF cm] show ?thesis
      by (auto simp: present_Encrypted_iff)
  next
    case False
    with Some read have "present d0 = Encrypted d"
      by (auto simp: readMessage_def decryptEnvelope_def assms(1) Let_def split: option.splits)
    with False ok cm show ?thesis by (auto simp: present_Encrypted_iff stale_def)
  qed
qed

text \<open>The evidence of a report always stands up. Whenever the thread screen offers evidence for a
  message whose sender committed to its text, whatever was read before and with or without the
  author's key, the revealed text and key recompute exactly that commitment, which is the check the
  server makes: a message whose content does not match its commitment cannot be reported as
  something its sender did not write.\<close>

theorem report_evidence_opens_commitment:
  assumes "\<And>i. dm_id (W i) = i" and "reachable_cache P W K own c" and "key = None \<or> key = Some (K i)"
    and "truthy (e_franking_commitment (dm_envelope (W i))) = Some cm"
    and "reportEvidence P c (W i) (Some own) key = Some evidence"
  shows "\<exists>fk. re_frankingKey evidence = to_hex fk \<and>
    from_hex cm = Inr (franking_commitment P fk (re_revealedPlaintext evidence))"
proof -
  from assms(5) obtain d where read: "fst (readMessage P c (W i) (Some own) key) = Encrypted d"
      and e: "evidence = \<lparr>re_revealedPlaintext = dc_text d, re_frankingKey = to_hex (dc_frankingKey d)\<rparr>"
    by (auto simp: reportEvidence_def split: message_content.splits)
  from read_encrypted_entry [OF assms(1-4) read]
  have ok: "entry_ok P W K own i d" and v: "dc_commitmentVerified d \<notin> {None, Some False}" by blast+
  from ok v have "dc_commitmentVerified d = fst (inspect P (dc_text d) (dc_frankingKey d) (dm_envelope (W i)) None)"
    unfolding entry_ok_def by (auto simp: fst_inspect [of _ _ _ _ "Some (K i)" None] dest!: arg_cong [where f = fst])
  with v have "fst (inspect P (dc_text d) (dc_frankingKey d) (dm_envelope (W i)) None) \<noteq> Some False" by simp
  with e inspect_complete(1) [OF assms(4)] show ?thesis by auto
qed

lemma report_evidence_opens_commitment_witness:
  "\<exists>fk. reportEvidence sample_primitives sample_preview_cache (sample_dm ''m1'') (Some sample_identity)
       (Some (replicate 32 7)) = Some \<lparr>re_revealedPlaintext = units_of ''hi'', re_frankingKey = to_hex fk\<rparr> \<and>
     from_hex (to_hex (frankingCommitment sample_message)) =
       Inr (franking_commitment sample_primitives fk (units_of ''hi''))"
proof -
  have "fst (readMessage sample_primitives sample_preview_cache (sample_dm ''m1'') (Some sample_identity)
      (Some (replicate 32 7))) =
    Encrypted \<lparr>dc_text = units_of ''hi'', dc_frankingKey = rnd_franking sample_random,
     dc_commitmentVerified = Some True, dc_authenticity = Verified\<rparr>"
    using read_as_fresh [OF sample_dm_fields(1) sample_preview_reachable] sample_read by metis
  then have e: "reportEvidence sample_primitives sample_preview_cache (sample_dm ''m1'') (Some sample_identity)
      (Some (replicate 32 7)) =
    Some \<lparr>re_revealedPlaintext = units_of ''hi'', re_frankingKey = to_hex (rnd_franking sample_random)\<rparr>"
    by (simp add: reportEvidence_def)
  show ?thesis
    using report_evidence_opens_commitment [OF sample_dm_fields(1) sample_preview_reachable _ sample_truthy(1) e]
    by (auto simp: e)
qed

end
