(* ===== verification/Web_Keys.thy ===== *)
theory Web_Keys
  imports Key_Lifecycle Message_Screen
begin

text \<open>
  The identity keys of the web client: \<open>lib/crypto/storage.ts\<close> over IndexedDB,
  \<open>lib/crypto/session.ts\<close>, whose derivations run in the worker of Derive_Worker, and the sign-out of
  \<open>hooks/useAuth.ts\<close> that can forget the keys. The session itself is the one of Key_Lifecycle.

  A derivation is an argument, \<open>Inl\<close> when it is rejected; Derive_Worker proves that it gives each
  caller the key of that caller.
\<close>

section \<open>IndexedDB\<close>

text \<open>\<open>IdentityKeyPair\<close> spread into a record with the user id, which is the key of the object store, and
  the fingerprint. The bytes are stored as they are.\<close>

record stored_identity = identity_key_pair +
  si_userId :: string
  si_fingerprint :: string

type_synonym indexed_db = "string \<Rightarrow> stored_identity option"

text \<open>An \<open>io\<close> says whether opening the database and the request succeed.\<close>

definition loadIdentity_web :: "io \<Rightarrow> indexed_db \<Rightarrow> string \<Rightarrow> loaded_identity option" where
  "loadIdentity_web i db userId =
     (if can_read i
      then map_option (\<lambda>s. \<lparr>li_identity =
               \<lparr>exchangePublicKey = exchangePublicKey s, exchangePrivateKey = exchangePrivateKey s,
                signingPublicKey = signingPublicKey s, signingPrivateKey = signingPrivateKey s\<rparr>,
             li_fingerprint = Some (JStr (si_fingerprint s))\<rparr>) (db userId)
      else None)"

definition saveIdentity_web ::
  "io \<Rightarrow> indexed_db \<Rightarrow> string \<Rightarrow> identity_key_pair \<Rightarrow> string \<Rightarrow> key_error + indexed_db" where
  "saveIdentity_web i db userId identity fp =
     (if can_write i
      then let r = \<lparr>exchangePublicKey = exchangePublicKey identity, exchangePrivateKey = exchangePrivateKey identity,
                    signingPublicKey = signingPublicKey identity, signingPrivateKey = signingPrivateKey identity,
                    si_userId = userId, si_fingerprint = fp\<rparr>
           in Inr (db(si_userId r \<mapsto> r))
      else Inl Storage_Failed)"

definition forgetIdentity_web :: "io \<Rightarrow> indexed_db \<Rightarrow> string \<Rightarrow> indexed_db" where
  "forgetIdentity_web i db userId = (if can_write i then db(userId := None) else db)"

definition indexed_storage :: "indexed_db key_storage" where
  "indexed_storage = \<lparr>ks_load = loadIdentity_web, ks_save = saveIdentity_web, ks_forget = forgetIdentity_web\<rparr>"

interpretation indexed: identity_store indexed_storage
  by unfold_locales
    (auto simp: indexed_storage_def loadIdentity_web_def saveIdentity_web_def forgetIdentity_web_def Let_def
      split: if_splits)

section \<open>Setting up, rotating and restoring\<close>

definition setup_request_web :: "primitives \<Rightarrow> setup_random \<Rightarrow> bytes \<Rightarrow> keys_put" where
  "setup_request_web P r recoveryKey =
     (let identity = generateIdentity P (rnd_exchange r) (rnd_signing r)
      in \<lparr>put_exchange_public_key = to_hex (exchangePublicKey identity),
          put_signing_public_key = to_hex (signingPublicKey identity),
          put_key_fingerprint = fingerprint P (exchangePublicKey identity) (signingPublicKey identity),
          put_recovery_wrapped_key = to_hex (wrapIdentity P (rnd_wrap_nonce r) identity recoveryKey),
          put_recovery_kdf_salt = to_hex (rnd_salt r),
          put_recovery_kdf = costToApi DEFAULT_KDF_COST\<rparr>)"

text \<open>\<open>derive\<close> is \<open>deriveWrappingKeyOffThread\<close>, \<open>server\<close> the answer to the request.\<close>

definition setupIdentity_web ::
  "primitives \<Rightarrow> setup_random \<Rightarrow> (jstr \<Rightarrow> bytes \<Rightarrow> kdf_cost \<Rightarrow> key_error + bytes) \<Rightarrow>
   (keys_put \<Rightarrow> key_error + unit) \<Rightarrow> io \<Rightarrow> indexed_db \<Rightarrow> string \<Rightarrow> key_error + setup_result \<times> indexed_db" where
  "setupIdentity_web P r derive server i db userId =
     (let identity = generateIdentity P (rnd_exchange r) (rnd_signing r);
          recoveryCode = generateRecoveryCode (rnd_code r);
          fp = fingerprint P (exchangePublicKey identity) (signingPublicKey identity)
      in bindE (derive (units_of recoveryCode) (rnd_salt r) DEFAULT_KDF_COST) (\<lambda>recoveryKey.
         bindE (server (setup_request_web P r recoveryKey)) (\<lambda>_.
         bindE (saveIdentity_web i db userId identity fp) (\<lambda>db'.
         Inr (\<lparr>sr_identity = identity, sr_fingerprint = fp, sr_recoveryCode = recoveryCode\<rparr>, db')))))"

text \<open>\<open>identity\<close> is what the caller's object holds once the derivation has ended.\<close>

definition rotate_request_web ::
  "primitives \<Rightarrow> setup_random \<Rightarrow> identity_key_pair \<Rightarrow> bytes \<Rightarrow> jstr \<Rightarrow> string option \<Rightarrow> backup_put" where
  "rotate_request_web P r identity key currentPassword totpCode =
     \<lparr>rot_recovery_wrapped_key = to_hex (wrapIdentity P (rnd_wrap_nonce r) identity key),
      rot_recovery_kdf_salt = to_hex (rnd_salt r),
      rot_recovery_kdf = costToApi DEFAULT_KDF_COST,
      rot_current_password = currentPassword,
      rot_totp_code = (case totpCode of Some (c # cs) \<Rightarrow> Some (c # cs) | _ \<Rightarrow> None)\<rparr>"

definition rotateRecoveryCode_web ::
  "primitives \<Rightarrow> setup_random \<Rightarrow> (jstr \<Rightarrow> bytes \<Rightarrow> kdf_cost \<Rightarrow> key_error + bytes) \<Rightarrow>
   (backup_put \<Rightarrow> key_error + unit) \<Rightarrow> identity_key_pair \<Rightarrow> jstr \<Rightarrow> string option \<Rightarrow> key_error + string" where
  "rotateRecoveryCode_web P r derive server identity currentPassword totpCode =
     (let recoveryCode = generateRecoveryCode (rnd_code r)
      in bindE (derive (units_of recoveryCode) (rnd_salt r) DEFAULT_KDF_COST) (\<lambda>key.
         bindE (server (rotate_request_web P r identity key currentPassword totpCode)) (\<lambda>_.
         Inr recoveryCode)))"

definition restoreIdentity_web ::
  "primitives \<Rightarrow> (jstr \<Rightarrow> bytes \<Rightarrow> kdf_cost \<Rightarrow> key_error + bytes) \<Rightarrow> io \<Rightarrow> indexed_db \<Rightarrow> string \<Rightarrow> jstr \<Rightarrow>
   restore_kind \<Rightarrow> key_error + key_backup \<Rightarrow> key_error + key_status \<Rightarrow>
   key_error + (identity_key_pair \<times> string) \<times> indexed_db" where
  "restoreIdentity_web P derive i db userId secret kind backupAnswer statusAnswer =
     bindE backupAnswer (\<lambda>backup. bindE statusAnswer (\<lambda>status.
     bindE (backup_copy backup kind) (\<lambda>(wrapped, salt, cost).
     bindE (core_result (from_hex salt)) (\<lambda>s.
     bindE (derive secret s (costFromApi cost)) (\<lambda>wrappingKey.
     case bindE (from_hex wrapped) (\<lambda>w. unwrapIdentity P w wrappingKey) of
       Inl _ \<Rightarrow> Inl Wrong_Secret
     | Inr identity \<Rightarrow>
         let fp = fingerprint P (exchangePublicKey identity) (signingPublicKey identity) in
         if (case key_fingerprint status of Some (c # cs) \<Rightarrow> c # cs \<noteq> fp | _ \<Rightarrow> False) then Inl Key_Mismatch
         else bindE (saveIdentity_web i db userId identity fp) (\<lambda>db'. Inr ((identity, fp), db')))))))"

section \<open>Signing out\<close>

record web_device =
  wd_session :: "indexed_db encryption_session"
  wd_pins :: kv_store

text \<open>What follows \<open>await endSession()\<close>, which never fails: \<open>clearKeys(userId)\<close> when forgetting was asked
  for, then the \<open>logout()\<close> of \<open>onSuccess\<close>, which ends the session.\<close>

definition logout_forgets :: "io \<Rightarrow> io \<Rightarrow> bool \<Rightarrow> string option \<Rightarrow> web_device \<Rightarrow> web_device" where
  "logout_forgets i j forgetKeys userId d =
     (if forgetKeys
      then (case clear_encryption indexed_storage i j userId
                   (es_store (wd_session d), es_storage (wd_session d), wd_pins d) of
              (_, store, db, pins) \<Rightarrow>
                d\<lparr>wd_session := (wd_session d)\<lparr>es_store := store, es_storage := db\<rparr>, wd_pins := pins\<rparr>)
      else d)"

definition useLogout_keys :: "io \<Rightarrow> io \<Rightarrow> bool \<Rightarrow> web_device \<Rightarrow> web_device" where
  "useLogout_keys i j forgetKeys d =
     (let d' = logout_forgets i j forgetKeys (es_user (wd_session d)) d
      in d'\<lparr>wd_session := session_ends indexed_storage (wd_session d')\<rparr>)"

section \<open>Both clients write and read the same backups\<close>

text \<open>The derivation off the main thread, when it succeeds.\<close>

definition derives :: "primitives \<Rightarrow> jstr \<Rightarrow> bytes \<Rightarrow> kdf_cost \<Rightarrow> key_error + bytes" where
  "derives P secret salt cost = Inr (deriveWrappingKey P secret salt cost)"

lemma web_setup_request:
  "setup_request_web P r (deriveWrappingKey P (units_of (generateRecoveryCode (rnd_code r))) (rnd_salt r) DEFAULT_KDF_COST) =
   setup_request P r"
  by (simp add: setup_request_web_def setup_request_def Let_def)

lemma web_rotate_request:
  "rotate_request_web P r identity
     (deriveWrappingKey P (units_of (generateRecoveryCode (rnd_code r))) (rnd_salt r) DEFAULT_KDF_COST) pw totp =
   rotate_request P r identity pw totp"
  by (simp add: rotate_request_web_def rotate_request_def Let_def)

lemma web_setup_agrees:
  "setupIdentity_web P r (derives P) (\<lambda>q. if q = setup_request P r then answer else other q) i db u =
   bindE (setupIdentity P r i chain u answer) (\<lambda>(res, _).
     Inr (res, db(u \<mapsto> \<lparr>exchangePublicKey = exchangePublicKey (sr_identity res),
       exchangePrivateKey = exchangePrivateKey (sr_identity res), signingPublicKey = signingPublicKey (sr_identity res),
       signingPrivateKey = signingPrivateKey (sr_identity res), si_userId = u, si_fingerprint = sr_fingerprint res\<rparr>)))"
  by (cases answer; cases "can_write i")
    (simp_all add: setupIdentity_web_def setupIdentity_def derives_def web_setup_request Let_def bindE_def
      saveIdentity_web_def saveIdentity_def)

lemma web_restore_agrees:
  "restoreIdentity_web P (derives P) i db u secret kind backup status =
   bindE (restoreIdentity P i chain u secret kind backup status) (\<lambda>((k, fp), _).
     Inr ((k, fp), db(u \<mapsto> \<lparr>exchangePublicKey = exchangePublicKey k, exchangePrivateKey = exchangePrivateKey k,
       signingPublicKey = signingPublicKey k, signingPrivateKey = signingPrivateKey k,
       si_userId = u, si_fingerprint = fp\<rparr>)))"
proof (cases backup; cases status)
  fix b st assume b: "backup = Inr b" and st: "status = Inr st"
  show ?thesis
  proof (cases "backup_copy b kind")
    case (Inr c)
    obtain wrapped salt cost where c: "c = (wrapped, salt, cost)" by (cases c)
    show ?thesis
      by (cases "from_hex salt"; cases "from_hex wrapped"; cases "can_write i")
        (auto simp: restoreIdentity_web_def restoreIdentity_def b st Inr c derives_def open_backup_def
          core_result_def bindE_def Let_def saveIdentity_web_def saveIdentity_def split: sum.splits option.splits list.splits)
  qed (simp add: restoreIdentity_web_def restoreIdentity_def b st bindE_def)
qed (simp_all add: restoreIdentity_web_def restoreIdentity_def bindE_def)

lemma load_saved_web: "can_write i \<Longrightarrow> can_read j \<Longrightarrow>
    \<exists>db'. saveIdentity_web i db u k fp = Inr db' \<and>
      loadIdentity_web j db' u = Some \<lparr>li_identity = k, li_fingerprint = Some (JStr fp)\<rparr>"
  by (simp add: saveIdentity_web_def loadIdentity_web_def)

lemma setup_result_phone:
  "setupIdentity P r i chain u answer = Inr (res, chain') \<Longrightarrow>
   sr_identity res = generateIdentity P (rnd_exchange r) (rnd_signing r) \<and>
   sr_fingerprint res = fingerprint P (exchangePublicKey (sr_identity res)) (signingPublicKey (sr_identity res)) \<and>
   sr_recoveryCode res = generateRecoveryCode (rnd_code r)"
  by (auto simp: setupIdentity_def Let_def bindE_Inr_iff)

lemma setup_result_web:
  "setupIdentity_web P r derive server i db u = Inr (res, db') \<Longrightarrow>
   sr_identity res = generateIdentity P (rnd_exchange r) (rnd_signing r) \<and>
   sr_fingerprint res = fingerprint P (exchangePublicKey (sr_identity res)) (signingPublicKey (sr_identity res)) \<and>
   sr_recoveryCode res = generateRecoveryCode (rnd_code r)"
  by (auto simp: setupIdentity_web_def Let_def bindE_Inr_iff)

text \<open>C5: The recovery code a set-up shows restores the identity, on either client. When a set-up
  succeeded, on a phone or in a browser, the backup and the directory entry the server keeps of its
  request open with that code on another phone and in another browser: both restores give the
  identity and the fingerprint of the set-up and leave them in the keychain and in IndexedDB. With
  the account password both are refused as unavailable.\<close>

theorem recovery_code_restores:
  assumes "primitives_ok P" and "setup_random_ok r"
    and "setupIdentity P r i1 chain1 u (Inr ()) = Inr (res, chain1') \<or>
      setupIdentity_web P r (derives P) (\<lambda>_. Inr ()) i1 db1 u = Inr (res, db1')"
  shows "\<exists>chain2' db2'.
    restoreIdentity P io_ok chain2 u (units_of (sr_recoveryCode res)) By_Recovery
      (Inr (stored_backup (setup_request P r))) (Inr (stored_status (setup_request P r))) =
      Inr ((sr_identity res, sr_fingerprint res), chain2') \<and>
    restoreIdentity_web P (derives P) io_ok db2 u (units_of (sr_recoveryCode res)) By_Recovery
      (Inr (stored_backup (setup_request P r))) (Inr (stored_status (setup_request P r))) =
      Inr ((sr_identity res, sr_fingerprint res), db2') \<and>
    loadIdentity io_ok chain2' u =
      Some \<lparr>li_identity = sr_identity res, li_fingerprint = Some (JStr (sr_fingerprint res))\<rparr> \<and>
    loadIdentity_web io_ok db2' u =
      Some \<lparr>li_identity = sr_identity res, li_fingerprint = Some (JStr (sr_fingerprint res))\<rparr> \<and>
    restoreIdentity P io_ok chain2 u pw By_Password
      (Inr (stored_backup (setup_request P r))) (Inr (stored_status (setup_request P r))) =
      Inl Password_Restore_Unavailable \<and>
    restoreIdentity_web P (derives P) io_ok db2 u pw By_Password
      (Inr (stored_backup (setup_request P r))) (Inr (stored_status (setup_request P r))) =
      Inl Password_Restore_Unavailable"
proof -
  let ?id = "generateIdentity P (rnd_exchange r) (rnd_signing r)"
  have res: "sr_identity res = ?id" "sr_recoveryCode res = generateRecoveryCode (rnd_code r)"
    "sr_fingerprint res = fingerprint P (exchangePublicKey ?id) (signingPublicKey ?id)"
    using assms(3) by (auto dest: setup_result_phone setup_result_web)
  show ?thesis
    unfolding web_restore_agrees [where chain = chain2] no_password_copy res code_opens_backup [OF assms(1,2)]
    by (simp add: Let_def loadIdentity_def loadIdentity_web_def read_parsed_def io_ok_def)
qed

theorem recovery_code_restores_witness:
  "\<exists>db. restoreIdentity_web sample_primitives (derives sample_primitives) io_ok (\<lambda>_. None) ''u-1''
      (units_of (generateRecoveryCode (replicate 20 0))) By_Recovery
      (Inr (stored_backup (setup_request sample_primitives sample_setup)))
      (Inr (stored_status (setup_request sample_primitives sample_setup))) =
      Inr ((sample_identity, sr_fingerprint sample_setup_result), db)"
proof -
  have "setup_random_ok sample_setup"
    by (simp add: setup_random_ok_def sample_setup_def core_sizes)
  moreover have "setupIdentity sample_primitives sample_setup io_ok (\<lambda>_. None) ''u-1'' (Inr ()) =
      Inr (sample_setup_result, (\<lambda>_. None)(entryKey ''u-1'' \<mapsto>
        Parsed (json_of_identity sample_identity (sr_fingerprint sample_setup_result))))"
    by (simp add: setupIdentity_def sample_setup_def sample_setup_result_def saveIdentity_def io_ok_def
        sample_identity_def Let_def)
  ultimately have "\<exists>chain db. restoreIdentity_web sample_primitives (derives sample_primitives) io_ok (\<lambda>_. None) ''u-1''
      (units_of (sr_recoveryCode sample_setup_result)) By_Recovery
      (Inr (stored_backup (setup_request sample_primitives sample_setup)))
      (Inr (stored_status (setup_request sample_primitives sample_setup))) =
      Inr ((sr_identity sample_setup_result, sr_fingerprint sample_setup_result), db)"
    using recovery_code_restores [OF sample_primitives_ok, of sample_setup io_ok "\<lambda>_. None" "''u-1''"
        sample_setup_result] by blast
  then show ?thesis by (simp add: sample_setup_result_def)
qed

section \<open>Forgetting the keys of a shared browser\<close>

lemma useLogout_forgetting:
  assumes "es_user (wd_session d) = Some u" and "u \<noteq> []"
  shows "es_storage (wd_session (useLogout_keys i j True d)) = forgetIdentity_web i (es_storage (wd_session d)) u"
    and "wd_pins (useLogout_keys i j True d) = forgetPins j (wd_pins d) u"
  using assms
  by (cases u; simp add: useLogout_keys_def logout_forgets_def session_simps indexed_storage_def)+

lemma useLogout_plain:
  "es_storage (wd_session (useLogout_keys i j False d)) = es_storage (wd_session d)"
  "wd_pins (useLogout_keys i j False d) = wd_pins d"
  by (simp_all add: useLogout_keys_def logout_forgets_def session_simps)

lemma useLogout_memory: "en_identity (es_store (wd_session (useLogout_keys i j forgetKeys d))) = None"
  by (simp add: useLogout_keys_def session_simps)

text \<open>A sign-out that forgets the keys leaves neither keys nor pins of the account in the browser and
  those of every other account as they were; the plain sign-out leaves both stores as they were; in
  both cases no identity stays in memory.\<close>

lemma sign_out_forgets:
  assumes "es_user (wd_session d) = Some u" and "u \<noteq> []"
  shows "loadIdentity_web i (es_storage (wd_session (useLogout_keys io_ok io_ok True d))) v =
      (if v = u then None else loadIdentity_web i (es_storage (wd_session d)) v)"
    and "pins_abs (wd_pins (useLogout_keys io_ok io_ok True d)) =
      (\<lambda>(own, peer). if own = u then None else pins_abs (wd_pins d) (own, peer))"
    and "loadIdentity_web i (es_storage (wd_session (useLogout_keys a b False d))) v =
      loadIdentity_web i (es_storage (wd_session d)) v"
    and "pins_abs (wd_pins (useLogout_keys a b False d)) = pins_abs (wd_pins d)"
    and "en_identity (es_store (wd_session (useLogout_keys a b forgetKeys d))) = None"
  using assms
  by (simp_all add: useLogout_forgetting useLogout_plain useLogout_memory pins_abs_forget)
    (simp add: forgetIdentity_web_def loadIdentity_web_def io_ok_def)

text \<open>But a restore that is still running stores the keys again.\<close>

lemma restore_undoes_forgetting:
  assumes "n < length (es_work s)" and "kw_user (es_work s ! n) = u"
  shows "loadIdentity_web io_ok (es_storage (work_saves indexed_storage io_ok n k fp s)) u =
    Some \<lparr>li_identity = k, li_fingerprint = Some (JStr fp)\<rparr>"
  using assms
  by (simp add: work_saves_def indexed_storage_def saveIdentity_web_def loadIdentity_web_def io_ok_def Let_def)

section \<open>The session of a browser\<close>

text \<open>Two tabs share the refresh cookie: when another tab has signed in as somebody else, the next
  rotation of this tab calls \<open>setAuth\<close> with that account, without a sign-out in between.\<close>

definition browser :: "bool \<Rightarrow> session_events" where
  "browser switches = \<lparr>se_outlives = False, se_switches = switches\<rparr>"

lemma web_keys_of_current_user:
  assumes "encryption_reachable indexed_storage (browser switches) owned s"
  shows "en_status (es_store s) = Ready \<longrightarrow> en_identity (es_store s) \<noteq> None"
    and "en_identity (es_store s) = Some k \<Longrightarrow> \<exists>u. owned u k \<and> (switches \<or> es_user s = Some u)"
    and "safe_id u \<Longrightarrow> loadIdentity_web i (es_storage s) u = Some l \<Longrightarrow> owned u (li_identity l)"
  using indexed.keys_have_an_owner [OF assms] by (auto simp: browser_def indexed_storage_def)

definition after_switch :: "string \<Rightarrow> 'st encryption_session \<Rightarrow> 'st encryption_session" where
  "after_switch v s = start_effect (s\<lparr>es_user := Some v, es_status := None\<rparr>)"

lemma after_switch_simps:
  "es_user (after_switch v s) = Some v" "es_store (after_switch v s) = es_store s"
  "es_storage (after_switch v s) = es_storage s" "es_work (after_switch v s) = es_work s"
  by (simp_all add: after_switch_def start_effect_def)

text \<open>C7: A switch of accounts keeps the keys of the previous one in use. When a browser holds the keys
  of one account and another account, whose keys are not in this browser, takes over without a
  sign-out, the session settles in the state that asks the new account to restore or set up its keys,
  but the identity in memory is still the one of the previous account, and a message of the new
  account to a contact with keys is sealed with it, as it would be with an identity of its own,
  instead of being refused. A sign-out in between removes the identity.\<close>

theorem switched_account_keeps_keys:
  fixes st :: key_status
  assumes "encryption_reachable indexed_storage (browser True) owned s"
    and "es_user s = Some u" and "en_identity (es_store s) = Some k"
    and "safe_id v" and "loadIdentity_web io_ok (es_storage s) v = None"
  shows "(\<exists>s'. encryption_reachable indexed_storage (browser True) owned s' \<and> es_user s' = Some v \<and>
      en_status (es_store s') = (if has_keys st then Locked_Status else Absent) \<and>
      send_payload P r (Some peer) (en_identity (es_store s')) body n =
        (case sealMessage P r body peer k n of
           Inl e \<Rightarrow> Inl (Seal_Failed e)
         | Inr payload \<Rightarrow> Inr (Sealed payload n))) \<and>
    send_payload P r (Some peer) (en_identity (es_store (session_ends indexed_storage s))) body n =
      Inl Encryption_Required"
proof (rule conjI)
  let ?s = "after_load indexed_storage v st (after_switch v s)"
  have "encryption_reachable indexed_storage (browser True) owned (after_switch v s)"
    unfolding after_switch_def
    by (rule encryption_reachable.step [OF assms(1) encryption_step.switched]) (simp_all add: browser_def assms)
  then have "encryption_reachable indexed_storage (browser True) owned ?s"
    by (rule reach_load) (simp add: after_switch_simps)
  moreover have "es_user ?s = Some v" "en_identity (es_store ?s) = Some k"
    "en_status (es_store ?s) = (if has_keys st then Locked_Status else Absent)"
    using assms
    by (simp_all add: after_load_def after_switch_simps storage_answer_def setStatus_def indexed_storage_def)
  ultimately show "\<exists>s'. encryption_reachable indexed_storage (browser True) owned s' \<and> es_user s' = Some v \<and>
      en_status (es_store s') = (if has_keys st then Locked_Status else Absent) \<and>
      send_payload P r (Some peer) (en_identity (es_store s')) body n =
        (case sealMessage P r body peer k n of
           Inl e \<Rightarrow> Inl (Seal_Failed e)
         | Inr payload \<Rightarrow> Inr (Sealed payload n))"
    by (intro exI [of _ ?s]) (simp add: send_payload_def)
  show "send_payload P r (Some peer) (en_identity (es_store (session_ends indexed_storage s))) body n =
      Inl Encryption_Required"
    by (simp add: session_simps send_payload_def)
qed

definition sample_db :: indexed_db where
  "sample_db = (\<lambda>_. None)(''u-1'' \<mapsto> \<lparr>exchangePublicKey = exchangePublicKey sample_identity,
     exchangePrivateKey = exchangePrivateKey sample_identity, signingPublicKey = signingPublicKey sample_identity,
     signingPrivateKey = signingPrivateKey sample_identity, si_userId = ''u-1'', si_fingerprint = ''f''\<rparr>)"

definition sample_tab :: "indexed_db encryption_session" where
  "sample_tab =
     after_load indexed_storage ''u-1'' sample_status (after_sign_in ''u-1'' (session_initial sample_db))"

lemma sample_tab_reachable: "encryption_reachable indexed_storage E sample_owned sample_tab"
proof -
  have "owned_storage indexed_storage sample_owned sample_db"
    by (auto simp: owned_storage_def indexed_storage_def loadIdentity_web_def sample_db_def sample_owned_def
        split: if_splits)
  then show ?thesis
    unfolding sample_tab_def
    by (intro reach_load reach_sign_in encryption_reachable.initial sample_ids)
      (simp_all add: after_sign_in_def session_initial_def start_effect_def)
qed

lemma switched_account_keeps_keys_witness:
  "\<forall>r peer body n. \<exists>s'. encryption_reachable indexed_storage (browser True) sample_owned s' \<and> es_user s' = Some ''u-2'' \<and>
      en_status (es_store s') = Absent \<and>
      send_payload sample_primitives r (Some peer) (en_identity (es_store s')) body n =
        (case sealMessage sample_primitives r body peer sample_identity n of
           Inl e \<Rightarrow> Inl (Seal_Failed e)
         | Inr payload \<Rightarrow> Inr (Sealed payload n))"
proof (intro allI)
  fix r peer body n
  have "es_user sample_tab = Some ''u-1''" "en_identity (es_store sample_tab) = Some sample_identity"
    "loadIdentity_web io_ok (es_storage sample_tab) ''u-2'' = None"
    by (simp_all add: sample_tab_def after_load_def after_sign_in_def session_initial_def session_simps
        indexed_storage_def loadIdentity_web_def sample_db_def io_ok_def directory_agrees_def sample_status_def)
  from switched_account_keeps_keys [OF sample_tab_reachable this(1,2) sample_ids(2) this(3), where st = no_keys]
  show "\<exists>s'. encryption_reachable indexed_storage (browser True) sample_owned s' \<and> es_user s' = Some ''u-2'' \<and>
      en_status (es_store s') = Absent \<and>
      send_payload sample_primitives r (Some peer) (en_identity (es_store s')) body n =
        (case sealMessage sample_primitives r body peer sample_identity n of
           Inl e \<Rightarrow> Inl (Seal_Failed e)
         | Inr payload \<Rightarrow> Inr (Sealed payload n))"
    by (simp add: no_keys_def)
qed

end
