(* ===== verification/Revocations.thy ===== *)
theory Revocations
  imports Json_Value Bytes_Hex
begin

text \<open>
  What has to be revoked on the server although the device is offline: the queue contract both
  \<open>lib/secure-session.ts\<close> (refresh tokens of signed-out sessions) and
  \<open>lib/secure-release-notifications.ts\<close> (push registrations) implement, and the flush loop of
  \<open>lib/session.ts\<close> and \<open>lib/release-notifications.ts\<close>, proved once against the contract.
\<close>

section \<open>Answers of the server\<close>

datatype net_outcome = Net_Ok | Net_Api nat | Net_Other

text \<open>\<open>shouldRetainRevocation\<close>, the same in both files: keep trying unless the server refused.\<close>

definition shouldRetainRevocation :: "net_outcome \<Rightarrow> bool" where
  "shouldRetainRevocation e =
     (case e of Net_Ok \<Rightarrow> False | Net_Other \<Rightarrow> True
      | Net_Api status \<Rightarrow> status = 0 \<or> status = 429 \<or> status \<ge> 500)"

text \<open>The loop: an entry the server accepted or refused for good is removed; the first entry to
  retain ends the loop.\<close>

fun flush_loop ::
  "('k \<Rightarrow> 's \<Rightarrow> 's) \<Rightarrow> ('e \<Rightarrow> 'k) \<Rightarrow> ('e \<Rightarrow> net_outcome) \<Rightarrow> 'e list \<Rightarrow> 's \<Rightarrow> 's" where
  "flush_loop rem key answer [] s = s"
| "flush_loop rem key answer (e # es) s =
     (if shouldRetainRevocation (answer e) then s
      else flush_loop rem key answer es (rem (key e) s))"

text \<open>The entries the loop sent and need not send again.\<close>

definition settled :: "('e \<Rightarrow> net_outcome) \<Rightarrow> 'e list \<Rightarrow> 'e list" where
  "settled answer es = takeWhile (\<lambda>e. \<not> shouldRetainRevocation (answer e)) es"

section \<open>The contract of a revocation queue\<close>

locale revocation_queue =
  fixes pending :: "'s \<Rightarrow> 'e list"
    and enqueue :: "'e \<Rightarrow> 's \<Rightarrow> 's"
    and rem :: "'k \<Rightarrow> 's \<Rightarrow> 's"
    and key :: "'e \<Rightarrow> 'k"
    and valid :: "'e \<Rightarrow> bool"
    and bound :: nat
  assumes pending_rem: "set (pending (rem k s)) = {e \<in> set (pending s). key e \<noteq> k}"
    and enqueue_in: "valid e \<Longrightarrow> e \<in> set (pending (enqueue e s))"
    and enqueue_old: "x \<in> set (pending (enqueue e s)) \<Longrightarrow> x = e \<or> x \<in> set (pending s)"
    and pending_valid: "x \<in> set (pending s) \<Longrightarrow> valid x"
    and pending_bound: "length (pending s) \<le> bound"
begin

lemma flush_pending:
  "set (pending (flush_loop rem key answer es s)) =
   {e \<in> set (pending s). key e \<notin> key ` set (settled answer es)}"
  by (induction es arbitrary: s) (auto simp: settled_def pending_rem)

text \<open>A flush removes only what was settled, and an online flush whose every answer settles leaves
  nothing.\<close>

lemma flush_keeps:
  "x \<in> set (pending s) \<Longrightarrow> key x \<notin> key ` set (settled answer es) \<Longrightarrow>
   x \<in> set (pending (flush_loop rem key answer es s))"
  by (simp add: flush_pending)

lemma flush_empties:
  "\<forall>e \<in> set (pending s). \<not> shouldRetainRevocation (answer e) \<Longrightarrow>
   pending (flush_loop rem key answer (pending s) s) = []"
proof -
  assume "\<forall>e \<in> set (pending s). \<not> shouldRetainRevocation (answer e)"
  then have "settled answer (pending s) = pending s"
    by (simp add: settled_def takeWhile_eq_all_conv)
  then have "set (pending (flush_loop rem key answer (pending s) s)) = {}"
    by (auto simp: flush_pending)
  then show ?thesis by simp
qed

lemma enqueue_bound: "length (pending (enqueue e s)) \<le> bound"
  by (rule pending_bound)

end

end
