(* ===== verification/Secure_Session.thy ===== *)
theory Secure_Session
  imports Revocations
begin

text \<open>
  \<open>lib/secure-session.ts\<close> of the mobile client: the refresh token (in the keychain, or in memory only
  for a session that is not kept), the cached session for offline starts, and the queue of refresh
  tokens still to be revoked.

  The keychain answers and the user object are values: a user is what the schema accepted. On
  the web build of the app every operation returns at once, so only the native behaviour is
  modelled. \<open>io\<close>-style flags say whether a keychain call fails.
\<close>

section \<open>The refresh token\<close>

type_synonym session_user = json

datatype cached_session = No_Cache | Unreadable_Cache | Cached string session_user

record secure_store =
  ss_volatile :: "string option"
  ss_refresh :: "string option"
  ss_cached :: cached_session
  ss_revocations :: "stored option"

text \<open>The synchronous part of \<open>readRefreshToken\<close> looks at the volatile token; what it captured, or
  else the keychain, is the answer.\<close>

definition readRefreshToken :: "bool \<Rightarrow> string option \<Rightarrow> secure_store \<Rightarrow> unit + string option" where
  "readRefreshToken ok captured s =
     (case captured of
        Some t \<Rightarrow> Inr (Some t)
      | None \<Rightarrow> if ok then Inr (ss_refresh s) else Inl ())"

text \<open>\<open>writeRefreshToken\<close>: what happens at the call, and when the keychain answers.\<close>

definition writeRefreshToken_call :: "string \<Rightarrow> bool \<Rightarrow> secure_store \<Rightarrow> secure_store" where
  "writeRefreshToken_call token persist s =
     (if persist then s\<lparr>ss_volatile := None\<rparr> else s\<lparr>ss_volatile := Some token\<rparr>)"

definition writeRefreshToken_done :: "string \<Rightarrow> bool \<Rightarrow> secure_store \<Rightarrow> secure_store" where
  "writeRefreshToken_done token persist s =
     (if persist then s\<lparr>ss_refresh := Some token\<rparr> else s\<lparr>ss_refresh := None\<rparr>)"

definition removeRefreshToken_call :: "secure_store \<Rightarrow> secure_store" where
  "removeRefreshToken_call s = s\<lparr>ss_volatile := None\<rparr>"

definition removeRefreshToken_done :: "bool \<Rightarrow> secure_store \<Rightarrow> secure_store" where
  "removeRefreshToken_done ok s = (if ok then s\<lparr>ss_refresh := None\<rparr> else s)"

section \<open>The cached session\<close>

definition readCachedSession :: "bool \<Rightarrow> secure_store \<Rightarrow> (string \<times> session_user) option \<times> secure_store" where
  "readCachedSession ok s =
     (if \<not> ok then (None, s)
      else (case ss_cached s of
              No_Cache \<Rightarrow> (None, s)
            | Unreadable_Cache \<Rightarrow> (None, s\<lparr>ss_cached := No_Cache\<rparr>)
            | Cached t u \<Rightarrow> (Some (t, u), s)))"

definition removeCachedSession :: "bool \<Rightarrow> secure_store \<Rightarrow> secure_store" where
  "removeCachedSession ok s = (if ok then s\<lparr>ss_cached := No_Cache\<rparr> else s)"

text \<open>A failing write throws, except that clearing the cache of a session that is not kept swallows
  its failure.\<close>

definition writeCachedSession ::
  "bool \<Rightarrow> string \<Rightarrow> session_user \<Rightarrow> bool \<Rightarrow> secure_store \<Rightarrow> unit + secure_store" where
  "writeCachedSession ok token user persist s =
     (if \<not> persist then Inr (removeCachedSession ok s)
      else if ok then Inr (s\<lparr>ss_cached := Cached token user\<rparr>) else Inl ())"

section \<open>Refresh tokens to revoke\<close>

definition MAX_LOGOUT_REVOCATIONS :: nat where "MAX_LOGOUT_REVOCATIONS = 5"

definition is_refresh_token :: "string \<Rightarrow> bool" where
  "is_refresh_token t \<longleftrightarrow> length t = 128 \<and> list_all (\<lambda>c. is_hex c \<and> lower_char c = c) t"

definition stored_tokens :: "json list \<Rightarrow> string list" where
  "stored_tokens vs =
     concat (map (\<lambda>v. case v of JStr t \<Rightarrow> if is_refresh_token t then [t] else [] | _ \<Rightarrow> []) vs)"

definition readPendingLogoutRevocations :: "secure_store \<Rightarrow> string list \<times> secure_store" where
  "readPendingLogoutRevocations s =
     (case ss_revocations s of
        None \<Rightarrow> ([], s)
      | Some (Parsed (JArr vs)) \<Rightarrow> (take_last MAX_LOGOUT_REVOCATIONS (stored_tokens vs), s)
      | Some _ \<Rightarrow> ([], s\<lparr>ss_revocations := None\<rparr>))"

definition writeLogoutRevocations :: "string list \<Rightarrow> secure_store \<Rightarrow> secure_store" where
  "writeLogoutRevocations tokens s =
     (let bounded = take_last MAX_LOGOUT_REVOCATIONS
            (keep_first (\<lambda>t. t) [] (filter is_refresh_token tokens))
      in s\<lparr>ss_revocations := if bounded = [] then None else Some (Parsed (JArr (map JStr bounded)))\<rparr>)"

definition queueLogoutRevocation :: "string \<Rightarrow> secure_store \<Rightarrow> secure_store" where
  "queueLogoutRevocation token s =
     (if \<not> is_refresh_token token then s
      else case readPendingLogoutRevocations s of
             (existing, s') \<Rightarrow> writeLogoutRevocations (existing @ [token]) s')"

definition removePendingLogoutRevocation :: "string \<Rightarrow> secure_store \<Rightarrow> secure_store" where
  "removePendingLogoutRevocation token s =
     (case readPendingLogoutRevocations s of
        (existing, s') \<Rightarrow> writeLogoutRevocations (filter (\<lambda>c. c \<noteq> token) existing) s')"

definition pending_logouts :: "secure_store \<Rightarrow> string list" where
  "pending_logouts s = fst (readPendingLogoutRevocations s)"

section \<open>It is a revocation queue\<close>

lemma stored_tokens_JStr [simp]: "stored_tokens (map JStr ts) = filter is_refresh_token ts"
  by (induction ts) (auto simp: stored_tokens_def)

lemma pending_logouts_valid: "t \<in> set (pending_logouts s) \<Longrightarrow> is_refresh_token t"
  by (auto simp: pending_logouts_def readPendingLogoutRevocations_def stored_tokens_def
      dest!: in_set_take_lastD split: option.splits stored.splits json.splits if_splits)

lemma pending_logouts_bound: "length (pending_logouts s) \<le> MAX_LOGOUT_REVOCATIONS"
  by (auto simp: pending_logouts_def readPendingLogoutRevocations_def
      split: option.splits stored.splits json.splits)

lemma pending_write:
  "pending_logouts (writeLogoutRevocations ts s) =
   take_last MAX_LOGOUT_REVOCATIONS (keep_first (\<lambda>t. t) [] (filter is_refresh_token ts))"
proof -
  let ?ts = "take_last MAX_LOGOUT_REVOCATIONS (keep_first (\<lambda>t. t) [] (filter is_refresh_token ts))"
  have "\<forall>t \<in> set ?ts. is_refresh_token t"
    using keep_first_subset [of "\<lambda>t. t" "[]" "filter is_refresh_token ts"] by (auto dest!: in_set_take_lastD)
  then have "filter is_refresh_token ?ts = ?ts" by (simp add: filter_id_conv)
  then show ?thesis
    by (simp add: pending_logouts_def readPendingLogoutRevocations_def writeLogoutRevocations_def Let_def
        take_last_short)
qed

lemma keep_first_set: "set (keep_first (\<lambda>t. t) [] ts) = set ts"
  using keep_first_keys [of "\<lambda>t. t" "[]" ts] by simp

lemma pending_logouts_read: "pending_logouts (snd (readPendingLogoutRevocations s)) = pending_logouts s"
  by (auto simp: pending_logouts_def readPendingLogoutRevocations_def
      split: option.splits stored.splits json.splits)

lemma length_keep_first: "length (keep_first key seen xs) \<le> length xs"
  by (induction xs arbitrary: seen) (auto intro: le_SucI)

lemma remove_unfold:
  "removePendingLogoutRevocation t s =
   writeLogoutRevocations (filter (\<lambda>c. c \<noteq> t) (pending_logouts s)) (snd (readPendingLogoutRevocations s))"
  by (simp add: removePendingLogoutRevocation_def pending_logouts_def case_prod_beta)

lemma queue_unfold:
  "is_refresh_token t \<Longrightarrow> queueLogoutRevocation t s =
   writeLogoutRevocations (pending_logouts s @ [t]) (snd (readPendingLogoutRevocations s))"
  by (simp add: queueLogoutRevocation_def pending_logouts_def case_prod_beta)

lemma pending_remove:
  "set (pending_logouts (removePendingLogoutRevocation t s)) = {e \<in> set (pending_logouts s). e \<noteq> t}"
proof -
  let ?ts = "filter (\<lambda>c. c \<noteq> t) (pending_logouts s)"
  have "filter is_refresh_token ?ts = ?ts"
    by (auto simp: pending_logouts_valid intro!: filter_cong)
  moreover have "length (keep_first (\<lambda>t. t) [] ?ts) \<le> MAX_LOGOUT_REVOCATIONS"
    using length_keep_first [of "\<lambda>t. t" "[]" ?ts] length_filter_le [of "\<lambda>c. c \<noteq> t" "pending_logouts s"]
      pending_logouts_bound [of s] by linarith
  ultimately have "pending_logouts (removePendingLogoutRevocation t s) = keep_first (\<lambda>t. t) [] ?ts"
    by (simp only: remove_unfold pending_write take_last_short)
  then show ?thesis by (auto simp: keep_first_set)
qed

lemma keep_first_append_one:
  "keep_first key seen (xs @ [x]) =
   keep_first key seen xs @ (if key x \<in> key ` set xs \<union> set seen then [] else [x])"
  by (induction xs arbitrary: seen) auto

lemma pending_queue:
  assumes "is_refresh_token t"
  shows "t \<in> set (pending_logouts (queueLogoutRevocation t s))"
    and "x \<in> set (pending_logouts (queueLogoutRevocation t s)) \<Longrightarrow> x = t \<or> x \<in> set (pending_logouts s)"
proof -
  let ?ts = "pending_logouts s"
  have valid: "filter is_refresh_token (?ts @ [t]) = ?ts @ [t]"
    using pending_logouts_valid assms by (simp add: filter_id_conv)
  then have q: "pending_logouts (queueLogoutRevocation t s) =
      take_last MAX_LOGOUT_REVOCATIONS (keep_first (\<lambda>t. t) [] (?ts @ [t]))"
    using assms
    by (simp only: queue_unfold pending_write if_True not_False_eq_True)
  have len: "length (keep_first (\<lambda>t. t) [] ?ts) \<le> MAX_LOGOUT_REVOCATIONS"
    using length_keep_first [of "\<lambda>t. t" "[]" ?ts] pending_logouts_bound [of s] by linarith
  show "t \<in> set (pending_logouts (queueLogoutRevocation t s))"
  proof (cases "t \<in> set ?ts")
    case True
    then show ?thesis
      using len by (simp add: q keep_first_append_one take_last_short keep_first_set)
  next
    case False
    then show ?thesis
      by (simp add: q keep_first_append_one last_in_take_last MAX_LOGOUT_REVOCATIONS_def)
  qed
  show "x \<in> set (pending_logouts (queueLogoutRevocation t s)) \<Longrightarrow> x = t \<or> x \<in> set (pending_logouts s)"
    unfolding q by (drule in_set_take_lastD) (auto simp: keep_first_set)
qed

lemma pending_queue_invalid: "\<not> is_refresh_token t \<Longrightarrow> queueLogoutRevocation t s = s"
  by (simp add: queueLogoutRevocation_def)

interpretation logouts: revocation_queue pending_logouts queueLogoutRevocation
  removePendingLogoutRevocation "\<lambda>t. t" is_refresh_token MAX_LOGOUT_REVOCATIONS
proof unfold_locales
  fix x e :: string and s
  assume "x \<in> set (pending_logouts (queueLogoutRevocation e s))"
  then show "x = e \<or> x \<in> set (pending_logouts s)"
    by (cases "is_refresh_token e") (auto simp: pending_queue_invalid dest: pending_queue(2))
qed (auto simp: pending_remove pending_queue(1) pending_logouts_valid pending_logouts_bound)

end
