(* ===== verification/Mobile_Session.thy ===== *)
theory Mobile_Session
  imports Secure_Session
begin

text \<open>
  \<open>store/auth.ts\<close> and \<open>lib/session.ts\<close> of the mobile client: signing in and out, restoring and
  refreshing a session, while several of these run at once.

  Every call of an asynchronous function is a thread. A thread has the generation its operation
  was started with and a program counter that names the \<open>await\<close> it stands at; one step runs it
  to the next \<open>await\<close>. \<open>credentialTail\<close> is the queue of the threads inside \<open>withCredentialLock\<close>,
  whose head runs; \<open>revocationTail\<close> is the queue of revocation jobs. What the keychain and the
  server answer is the input of a step. The calls of one \<open>Promise.all\<close> are one step.
\<close>

section \<open>The auth store\<close>

datatype auth_status = Auth_Loading | Authenticated | Offline | Anonymous | Restore_Error

record auth_state =
  au_status :: auth_status
  au_token :: "string option"
  au_user :: "session_user option"

definition hasLocalSession :: "auth_status \<Rightarrow> bool" where
  "hasLocalSession status \<longleftrightarrow> status = Authenticated \<or> status = Offline"

definition beginSessionRestore :: "auth_state \<Rightarrow> auth_state" where
  "beginSessionRestore a = a\<lparr>au_status := Auth_Loading, au_token := None, au_user := None\<rparr>"

definition failSessionRestore :: "auth_state \<Rightarrow> auth_state" where
  "failSessionRestore a = a\<lparr>au_status := Restore_Error, au_token := None, au_user := None\<rparr>"

definition setSession :: "string \<Rightarrow> session_user \<Rightarrow> auth_state \<Rightarrow> auth_state" where
  "setSession token user a = a\<lparr>au_status := Authenticated, au_token := Some token, au_user := Some user\<rparr>"

definition setOfflineSession :: "session_user \<Rightarrow> auth_state \<Rightarrow> auth_state" where
  "setOfflineSession user a = a\<lparr>au_status := Offline, au_token := None, au_user := Some user\<rparr>"

definition enterOfflineMode :: "auth_state \<Rightarrow> auth_state" where
  "enterOfflineMode a =
     (if au_user a \<noteq> None then a\<lparr>au_status := Offline, au_token := None\<rparr> else a)"

definition setUser :: "session_user \<Rightarrow> auth_state \<Rightarrow> auth_state" where
  "setUser user a = a\<lparr>au_user := Some user\<rparr>"

definition clearSession :: "auth_state \<Rightarrow> auth_state" where
  "clearSession a = a\<lparr>au_status := Anonymous, au_token := None, au_user := None\<rparr>"

definition auth_initial :: auth_state where
  "auth_initial = \<lparr>au_status = Auth_Loading, au_token = None, au_user = None\<rparr>"

lemmas auth_simps = beginSessionRestore_def failSessionRestore_def setSession_def setOfflineSession_def
  enterOfflineMode_def setUser_def clearSession_def hasLocalSession_def

section \<open>Threads, jobs and the module state\<close>

record auth_response =
  ar_access_token :: string
  ar_refresh_token :: string
  ar_user :: session_user

text \<open>\<open>Answer None\<close> is a response the schema rejects; a failing request always throws an
  \<open>ApiError\<close>, with status 0 when the server was not reached.\<close>

datatype reply = Answer "auth_response option" | Failure nat

datatype session_error = Err_Status nat | Err_Superseded | Err_Other

datatype origin =
    From_Hydrate string "(string \<times> session_user) option"
  | From_Refresh
  | From_Sign_In

datatype after_clear = After_Nothing | After_Sign_In bool

datatype session_pc =
    Hydrate_Reading "string option"
  | Hydrate_Caching string
  | Hydrate_Asking string "(string \<times> session_user) option"
  | Refresh_Reading "string option"
  | Refresh_Asking string
  | Sign_In_Asking
  | Logout_Reading "string option"
  | Clear_Waiting bool after_clear
  | Clear_Removing bool after_clear
  | Accept_Waiting auth_response origin
  | Accept_Superseded nat origin
  | Accept_Writing auth_response bool origin
  | Accept_Write_Failed nat origin
  | Accept_Clearing origin
  | Accept_Caching auth_response bool origin
  | Accept_Uncaching auth_response origin
  | Accept_Rejecting nat origin
  | Accept_Rejected nat origin
  | Finished

record session_thread =
  th_gen :: nat
  th_pc :: session_pc

datatype revocation_job = Revoke string | Flush | Flush_At "string list"

record session_state =
  generation :: nat
  persistent :: bool
  in_flight :: "(nat \<times> nat) option"
  credential :: "nat list"
  auth :: auth_state
  keys :: secure_store
  threads :: "nat \<Rightarrow> session_thread option"
  jobs :: "(nat \<times> revocation_job) list"
  job_ok :: "nat \<Rightarrow> bool option"
  next_id :: nat
  push_attached :: bool

record session_input =
  in_read_ok :: bool
  in_write_ok :: bool
  in_remove_token_ok :: bool
  in_remove_cache_ok :: bool
  in_detach_ok :: bool
  in_reply :: reply

definition go_to :: "nat \<Rightarrow> session_pc \<Rightarrow> session_state \<Rightarrow> session_state" where
  "go_to t pc s =
     s\<lparr>threads := (threads s)(t := map_option (\<lambda>th. th\<lparr>th_pc := pc\<rparr>) (threads s t))\<rparr>"

text \<open>The end of a call: \<open>finally\<close> forgets the refresh in flight when it is this one.\<close>

definition finish :: "nat \<Rightarrow> session_state \<Rightarrow> session_state" where
  "finish t s =
     (let s' = go_to t Finished s
      in case in_flight s of
           Some (_, t') \<Rightarrow> if t' = t then s'\<lparr>in_flight := None\<rparr> else s'
         | None \<Rightarrow> s')"

definition release :: "nat \<Rightarrow> session_state \<Rightarrow> session_state" where
  "release t s = s\<lparr>credential := remove1 t (credential s)\<rparr>"

definition holds_lock :: "nat \<Rightarrow> session_state \<Rightarrow> bool" where
  "holds_lock t s \<longleftrightarrow> (case credential s of [] \<Rightarrow> False | t' # _ \<Rightarrow> t' = t)"

definition beginSessionTransition :: "session_state \<Rightarrow> session_state" where
  "beginSessionTransition s = s\<lparr>generation := generation s + 1, in_flight := None\<rparr>"

text \<open>A new job of the revocation lock.\<close>

definition add_job :: "revocation_job \<Rightarrow> session_state \<Rightarrow> session_state" where
  "add_job j s = s\<lparr>jobs := jobs s @ [(next_id s, j)], next_id := next_id s + 1\<rparr>"

section \<open>Revocations\<close>

text \<open>One await of the job at the head of the revocation lock: the server's answer and, in the same
  step, the update of the stored queue, which only jobs touch. A keychain failure ends the job
  with an error.\<close>

definition end_job :: "bool \<Rightarrow> session_state \<Rightarrow> session_state" where
  "end_job ok s =
     (case jobs s of
        [] \<Rightarrow> s
      | (j, _) # rest \<Rightarrow> s\<lparr>jobs := rest, job_ok := (job_ok s)(j \<mapsto> ok)\<rparr>)"

definition revokeOrQueue_step :: "net_outcome \<Rightarrow> bool \<Rightarrow> string \<Rightarrow> session_state \<Rightarrow> session_state" where
  "revokeOrQueue_step answer store_ok token s =
     (if \<not> store_ok then end_job False s
      else end_job True (s\<lparr>keys := (if shouldRetainRevocation answer then queueLogoutRevocation token (keys s)
                                   else removePendingLogoutRevocation token (keys s))\<rparr>))"

definition flush_step :: "net_outcome \<Rightarrow> bool \<Rightarrow> string list \<Rightarrow> session_state \<Rightarrow> session_state" where
  "flush_step answer store_ok remaining s =
     (case remaining of
        [] \<Rightarrow> end_job True s
      | token # rest \<Rightarrow>
          if shouldRetainRevocation answer then end_job True s
          else if \<not> store_ok then end_job (answer = Net_Ok) s
          else (case jobs s of
                  [] \<Rightarrow> s
                | (j, _) # js \<Rightarrow> s\<lparr>keys := removePendingLogoutRevocation token (keys s), jobs := (j, Flush_At rest) # js\<rparr>))"

definition job_step :: "net_outcome \<Rightarrow> bool \<Rightarrow> session_state \<Rightarrow> session_state option" where
  "job_step answer store_ok s =
     (case jobs s of
        [] \<Rightarrow> None
      | (j, Revoke token) # _ \<Rightarrow> Some (revokeOrQueue_step answer store_ok token s)
      | (j, Flush) # js \<Rightarrow>
          if \<not> store_ok then Some (end_job False s)
          else (case readPendingLogoutRevocations (keys s) of
                  (pending, ks) \<Rightarrow> Some (s\<lparr>keys := ks, jobs := (j, Flush_At pending) # js\<rparr>))
      | (j, Flush_At remaining) # _ \<Rightarrow> Some (flush_step answer store_ok remaining s))"

section \<open>Clearing the stored session\<close>

definition start_clear :: "nat \<Rightarrow> nat \<Rightarrow> bool \<Rightarrow> after_clear \<Rightarrow> session_state \<Rightarrow> session_state" where
  "start_clear t gen detach after s =
     s\<lparr>threads := (threads s)(t \<mapsto> \<lparr>th_gen = gen, th_pc = Clear_Waiting detach after\<rparr>),
       credential := credential s @ [t]\<rparr>"

definition after_clearing :: "nat \<Rightarrow> after_clear \<Rightarrow> session_state \<Rightarrow> session_state" where
  "after_clearing t after s =
     (case after of
        After_Nothing \<Rightarrow> finish t s
      | After_Sign_In remember \<Rightarrow> go_to t Sign_In_Asking (s\<lparr>persistent := remember\<rparr>))"

definition remove_stored :: "session_input \<Rightarrow> bool \<Rightarrow> session_state \<Rightarrow> session_state" where
  "remove_stored i detach s =
     s\<lparr>keys := removeCachedSession (in_remove_cache_ok i)
                (removeRefreshToken_done (in_remove_token_ok i) (keys s)),
       push_attached := (push_attached s \<and> \<not> (detach \<and> in_detach_ok i))\<rparr>"

definition clear_step ::
  "session_input \<Rightarrow> nat \<Rightarrow> session_thread \<Rightarrow> session_state \<Rightarrow> session_state option" where
  "clear_step i t th s =
     (case th_pc th of
        Clear_Waiting detach after \<Rightarrow>
          if \<not> holds_lock t s then None
          else if th_gen th \<noteq> generation s then Some (after_clearing t after (release t s))
          else Some (go_to t (Clear_Removing detach after) (s\<lparr>keys := removeRefreshToken_call (keys s)\<rparr>))
      | Clear_Removing detach after \<Rightarrow>
          (let s1 = remove_stored i detach s;
               s2 = (if th_gen th = generation s then s1\<lparr>auth := clearSession (auth s)\<rparr> else s1)
           in Some (after_clearing t after (release t s2)))
      | _ \<Rightarrow> None)"

definition invalidateAndClear :: "nat \<Rightarrow> nat \<Rightarrow> session_state \<Rightarrow> session_state" where
  "invalidateAndClear t expectedGeneration s =
     (if expectedGeneration \<noteq> generation s then finish t s
      else let s1 = beginSessionTransition s
           in start_clear t (generation s1) True After_Nothing (s1\<lparr>auth := clearSession (auth s1)\<rparr>))"

text \<open>What the caller of a failing \<open>acceptSession\<close> or request does.\<close>

definition fail_origin :: "nat \<Rightarrow> nat \<Rightarrow> origin \<Rightarrow> session_error \<Rightarrow> session_state \<Rightarrow> session_state" where
  "fail_origin t gen from e s =
     (case from of
        From_Sign_In \<Rightarrow> finish t s
      | From_Refresh \<Rightarrow> if e = Err_Status 401 then invalidateAndClear t gen s else finish t s
      | From_Hydrate token cached \<Rightarrow>
          if e = Err_Superseded \<or> gen \<noteq> generation s then finish t s
          else if e = Err_Status 401 then invalidateAndClear t gen s
          else (case cached of
                  Some (cachedToken, user) \<Rightarrow>
                    if cachedToken = token then finish t (s\<lparr>auth := setOfflineSession user (auth s)\<rparr>)
                    else finish t (s\<lparr>auth := failSessionRestore (auth s)\<rparr>)
                | None \<Rightarrow> finish t (s\<lparr>auth := failSessionRestore (auth s)\<rparr>)))"

section \<open>Accepting a session\<close>

definition start_accept :: "nat \<Rightarrow> auth_response option \<Rightarrow> origin \<Rightarrow> session_state \<Rightarrow> session_state" where
  "start_accept t payload from s =
     (case payload of
        None \<Rightarrow> (case threads s t of None \<Rightarrow> s | Some th \<Rightarrow> fail_origin t (th_gen th) from Err_Other s)
      | Some r \<Rightarrow> go_to t (Accept_Waiting r from) (s\<lparr>credential := credential s @ [t]\<rparr>))"

definition accepted :: "nat \<Rightarrow> auth_response \<Rightarrow> origin \<Rightarrow> session_state \<Rightarrow> session_state" where
  "accepted t r from s =
     (let s1 = finish t (release t (s\<lparr>auth := setSession (ar_access_token r) (ar_user r) (auth s)\<rparr>))
      in case from of From_Hydrate _ _ \<Rightarrow> add_job Flush s1 | _ \<Rightarrow> s1)"

text \<open>\<open>rejectSupersededSession\<close>: the three calls start together; the removals are the next step, and
  the job is awaited.\<close>

definition rejectSupersededSession :: "nat \<Rightarrow> string \<Rightarrow> origin \<Rightarrow> session_state \<Rightarrow> session_state" where
  "rejectSupersededSession t token from s =
     go_to t (Accept_Rejecting (next_id s) from)
       (add_job (Revoke token) (s\<lparr>keys := removeRefreshToken_call (keys s)\<rparr>))"

definition accept_step ::
  "session_input \<Rightarrow> nat \<Rightarrow> session_thread \<Rightarrow> session_state \<Rightarrow> session_state option" where
  "accept_step i t th s =
     (let current = (th_gen th = generation s) in
      case th_pc th of
        Accept_Waiting r from \<Rightarrow>
          if \<not> holds_lock t s then None
          else if \<not> current
          then Some (go_to t (Accept_Superseded (next_id s) from) (add_job (Revoke (ar_refresh_token r)) s))
          else Some (go_to t (Accept_Writing r (persistent s) from)
                 (s\<lparr>keys := writeRefreshToken_call (ar_refresh_token r) (persistent s) (keys s)\<rparr>))
      | Accept_Superseded j from \<Rightarrow>
          (case job_ok s j of
             None \<Rightarrow> None
           | Some ok \<Rightarrow> Some (fail_origin t (th_gen th) from (if ok then Err_Superseded else Err_Other) (release t s)))
      | Accept_Writing r persist from \<Rightarrow>
          if in_write_ok i
          then let s1 = s\<lparr>keys := writeRefreshToken_done (ar_refresh_token r) persist (keys s)\<rparr>
               in if current then Some (go_to t (Accept_Caching r (persistent s) from) s1)
                  else Some (rejectSupersededSession t (ar_refresh_token r) from s1)
          else Some (go_to t (Accept_Write_Failed (next_id s) from) (add_job (Revoke (ar_refresh_token r)) s))
      | Accept_Write_Failed j from \<Rightarrow>
          (case job_ok s j of
             None \<Rightarrow> None
           | Some ok \<Rightarrow>
               if ok \<and> current
               then Some (go_to t (Accept_Clearing from) (s\<lparr>keys := removeRefreshToken_call (keys s)\<rparr>))
               else Some (fail_origin t (th_gen th) from Err_Other (release t s)))
      | Accept_Clearing from \<Rightarrow>
          (let s1 = remove_stored i True s
           in Some (fail_origin t (th_gen th) from Err_Other
                (release t (s1\<lparr>auth := clearSession (auth s1)\<rparr>))))
      | Accept_Caching r persist from \<Rightarrow>
          (case writeCachedSession (in_write_ok i) (ar_refresh_token r) (ar_user r) persist (keys s) of
             Inl _ \<Rightarrow> Some (go_to t (Accept_Uncaching r from) s)
           | Inr ks \<Rightarrow>
               if current then Some (accepted t r from (s\<lparr>keys := ks\<rparr>))
               else Some (rejectSupersededSession t (ar_refresh_token r) from (s\<lparr>keys := ks\<rparr>)))
      | Accept_Uncaching r from \<Rightarrow>
          (let s1 = s\<lparr>keys := removeCachedSession (in_remove_cache_ok i) (keys s)\<rparr>
           in if current then Some (accepted t r from s1)
              else Some (rejectSupersededSession t (ar_refresh_token r) from s1))
      | Accept_Rejecting j from \<Rightarrow> Some (go_to t (Accept_Rejected j from) (remove_stored i False s))
      | Accept_Rejected j from \<Rightarrow>
          (case job_ok s j of
             None \<Rightarrow> None
           | Some ok \<Rightarrow> Some (fail_origin t (th_gen th) from (if ok then Err_Superseded else Err_Other) (release t s)))
      | _ \<Rightarrow> None)"

section \<open>Restoring, refreshing, signing in and out\<close>

definition hydrate_step ::
  "session_input \<Rightarrow> nat \<Rightarrow> session_thread \<Rightarrow> session_state \<Rightarrow> session_state option" where
  "hydrate_step i t th s =
     (let current = (th_gen th = generation s) in
      case th_pc th of
        Hydrate_Reading captured \<Rightarrow>
          (case readRefreshToken (in_read_ok i) captured (keys s) of
             Inl _ \<Rightarrow> Some (finish t (if current then s\<lparr>auth := failSessionRestore (auth s)\<rparr> else s))
           | Inr token \<Rightarrow>
               if \<not> current then Some (finish t s)
               else (case token of
                       Some (c # cs) \<Rightarrow> Some (go_to t (Hydrate_Caching (c # cs)) s)
                     | _ \<Rightarrow> Some (start_clear t (th_gen th) True After_Nothing s)))
      | Hydrate_Caching token \<Rightarrow>
          (case readCachedSession (in_read_ok i) (keys s) of
             (cached, ks) \<Rightarrow> Some (go_to t (Hydrate_Asking token cached) (s\<lparr>keys := ks\<rparr>)))
      | Hydrate_Asking token cached \<Rightarrow>
          (case in_reply i of
             Answer payload \<Rightarrow> Some (start_accept t payload (From_Hydrate token cached) s)
           | Failure status \<Rightarrow> Some (fail_origin t (th_gen th) (From_Hydrate token cached) (Err_Status status) s))
      | _ \<Rightarrow> None)"

definition refresh_step ::
  "session_input \<Rightarrow> nat \<Rightarrow> session_thread \<Rightarrow> session_state \<Rightarrow> session_state option" where
  "refresh_step i t th s =
     (let current = (th_gen th = generation s) in
      case th_pc th of
        Refresh_Reading captured \<Rightarrow>
          (case readRefreshToken (in_read_ok i) captured (keys s) of
             Inl _ \<Rightarrow> Some (fail_origin t (th_gen th) From_Refresh Err_Other s)
           | Inr token \<Rightarrow>
               if \<not> current then Some (fail_origin t (th_gen th) From_Refresh Err_Superseded s)
               else (case token of
                       Some (c # cs) \<Rightarrow> Some (go_to t (Refresh_Asking (c # cs)) s)
                     | _ \<Rightarrow> Some (invalidateAndClear t (th_gen th) s)))
      | Refresh_Asking token \<Rightarrow>
          (case in_reply i of
             Answer payload \<Rightarrow> Some (start_accept t payload From_Refresh s)
           | Failure status \<Rightarrow> Some (fail_origin t (th_gen th) From_Refresh (Err_Status status) s))
      | _ \<Rightarrow> None)"

definition sign_in_step ::
  "session_input \<Rightarrow> nat \<Rightarrow> session_thread \<Rightarrow> session_state \<Rightarrow> session_state option" where
  "sign_in_step i t th s =
     (case th_pc th of
        Sign_In_Asking \<Rightarrow>
          (case in_reply i of
             Answer payload \<Rightarrow> Some (start_accept t payload From_Sign_In s)
           | Failure status \<Rightarrow> Some (fail_origin t (th_gen th) From_Sign_In (Err_Status status) s))
      | _ \<Rightarrow> None)"

definition logout_step ::
  "session_input \<Rightarrow> nat \<Rightarrow> session_thread \<Rightarrow> session_state \<Rightarrow> session_state option" where
  "logout_step i t th s =
     (case th_pc th of
        Logout_Reading captured \<Rightarrow>
          (let token = (case readRefreshToken (in_read_ok i) captured (keys s) of
                          Inl _ \<Rightarrow> None | Inr token \<Rightarrow> token);
               s1 = beginSessionTransition s;
               s2 = start_clear t (generation s1) True After_Nothing (s1\<lparr>auth := clearSession (auth s1)\<rparr>)
           in Some (case token of Some (c # cs) \<Rightarrow> add_job (Revoke (c # cs)) s2 | _ \<Rightarrow> s2))
      | _ \<Rightarrow> None)"

definition thread_step :: "session_input \<Rightarrow> nat \<Rightarrow> session_state \<Rightarrow> session_state option" where
  "thread_step i t s =
     (case threads s t of
        None \<Rightarrow> None
      | Some th \<Rightarrow>
          (case th_pc th of
             Hydrate_Reading _ \<Rightarrow> hydrate_step i t th s
           | Hydrate_Caching _ \<Rightarrow> hydrate_step i t th s
           | Hydrate_Asking _ _ \<Rightarrow> hydrate_step i t th s
           | Refresh_Reading _ \<Rightarrow> refresh_step i t th s
           | Refresh_Asking _ \<Rightarrow> refresh_step i t th s
           | Sign_In_Asking \<Rightarrow> sign_in_step i t th s
           | Logout_Reading _ \<Rightarrow> logout_step i t th s
           | Clear_Waiting _ _ \<Rightarrow> clear_step i t th s
           | Clear_Removing _ _ \<Rightarrow> clear_step i t th s
           | Finished \<Rightarrow> None
           | _ \<Rightarrow> accept_step i t th s))"

text \<open>The synchronous part of each exported function, up to its first \<open>await\<close>.\<close>

definition new_thread :: "session_thread \<Rightarrow> session_state \<Rightarrow> session_state" where
  "new_thread th s = s\<lparr>threads := (threads s)(next_id s \<mapsto> th), next_id := next_id s + 1\<rparr>"

definition hydrateSession :: "session_state \<Rightarrow> session_state" where
  "hydrateSession s =
     (let s1 = (beginSessionTransition s)\<lparr>persistent := True, auth := beginSessionRestore (auth s)\<rparr>
      in new_thread \<lparr>th_gen = generation s1, th_pc = Hydrate_Reading (ss_volatile (keys s1))\<rparr> s1)"

definition refreshSession :: "session_state \<Rightarrow> session_state" where
  "refreshSession s =
     (if (case in_flight s of Some (g, _) \<Rightarrow> g = generation s | None \<Rightarrow> False) then s
      else (new_thread \<lparr>th_gen = generation s, th_pc = Refresh_Reading (ss_volatile (keys s))\<rparr> s)
             \<lparr>in_flight := Some (generation s, next_id s)\<rparr>)"

definition resumeOfflineSession :: "session_state \<Rightarrow> session_state" where
  "resumeOfflineSession s = (if au_status (auth s) \<noteq> Offline then s else refreshSession s)"

text \<open>\<open>loginSession\<close> and \<open>registerSession\<close>, which differ in the request and in \<open>remember\<close>.\<close>

definition beginAuthentication :: "bool \<Rightarrow> session_state \<Rightarrow> session_state" where
  "beginAuthentication remember s =
     (let s1 = beginSessionTransition s;
          s2 = s1\<lparr>auth := clearSession (auth s1), next_id := next_id s1 + 1\<rparr>
      in start_clear (next_id s1) (generation s1) False (After_Sign_In remember) s2)"

definition clearLocalSession :: "session_state \<Rightarrow> session_state" where
  "clearLocalSession s =
     (let s1 = beginSessionTransition s;
          s2 = s1\<lparr>auth := clearSession (auth s1), next_id := next_id s1 + 1\<rparr>
      in start_clear (next_id s1) (generation s1) True After_Nothing s2)"

definition logoutSession :: "session_state \<Rightarrow> session_state" where
  "logoutSession s =
     new_thread \<lparr>th_gen = generation s, th_pc = Logout_Reading (ss_volatile (keys s))\<rparr> s"

definition flushPendingLogoutRevocations :: "session_state \<Rightarrow> session_state" where
  "flushPendingLogoutRevocations s = add_job Flush s"

section \<open>Events and reachable states\<close>

text \<open>The store is written from outside only by the screens of a signed-in user (\<open>setUser\<close> after a
  successful account request) and by the connectivity listener, which calls \<open>enterOfflineMode\<close> only
  while the status is \<open>authenticated\<close>.\<close>

datatype session_event =
    Call_Hydrate
  | Call_Refresh
  | Call_Resume
  | Call_Sign_In bool
  | Call_Clear_Local
  | Call_Logout
  | Call_Flush
  | Run nat session_input
  | Run_Job net_outcome bool
  | Set_User session_user
  | Lost_Connection

fun handle_event :: "session_event \<Rightarrow> session_state \<Rightarrow> session_state option" where
  "handle_event Call_Hydrate s = Some (hydrateSession s)"
| "handle_event Call_Refresh s = Some (refreshSession s)"
| "handle_event Call_Resume s = Some (resumeOfflineSession s)"
| "handle_event (Call_Sign_In remember) s = Some (beginAuthentication remember s)"
| "handle_event Call_Clear_Local s = Some (clearLocalSession s)"
| "handle_event Call_Logout s = Some (logoutSession s)"
| "handle_event Call_Flush s = Some (flushPendingLogoutRevocations s)"
| "handle_event (Run t i) s = thread_step i t s"
| "handle_event (Run_Job answer store_ok) s = job_step answer store_ok s"
| "handle_event (Set_User user) s =
     (if hasLocalSession (au_status (auth s)) then Some (s\<lparr>auth := setUser user (auth s)\<rparr>) else None)"
| "handle_event Lost_Connection s =
     (if au_status (auth s) = Authenticated then Some (s\<lparr>auth := enterOfflineMode (auth s)\<rparr>) else None)"

fun session_run :: "session_event list \<Rightarrow> session_state \<Rightarrow> session_state option" where
  "session_run [] s = Some s"
| "session_run (e # es) s = (case handle_event e s of None \<Rightarrow> None | Some s' \<Rightarrow> session_run es s')"

text \<open>Reachability by events of a kind \<open>P\<close>.\<close>

inductive session_reachable ::
  "(session_event \<Rightarrow> bool) \<Rightarrow> session_state \<Rightarrow> session_state \<Rightarrow> bool" for P s0 where
  start: "session_reachable P s0 s0"
| step: "session_reachable P s0 s \<Longrightarrow> P e \<Longrightarrow> handle_event e s = Some s' \<Longrightarrow> session_reachable P s0 s'"

lemma session_run_reachable:
  "session_run es s = Some s' \<Longrightarrow> session_reachable P s0 s \<Longrightarrow> \<forall>e \<in> set es. P e \<Longrightarrow>
   session_reachable P s0 s'"
proof (induction es arbitrary: s)
  case Nil
  then show ?case by simp
next
  case (Cons e es)
  then obtain s1 where "handle_event e s = Some s1" "session_run es s1 = Some s'"
    by (auto split: option.splits)
  moreover have "session_reachable P s0 s1"
    using Cons.prems \<open>handle_event e s = Some s1\<close> by (auto intro: session_reachable.step)
  ultimately show ?case using Cons.IH Cons.prems by auto
qed

definition session_start :: "secure_store \<Rightarrow> bool \<Rightarrow> session_state" where
  "session_start ks attached =
     \<lparr>generation = 0, persistent = True, in_flight = None, credential = [], auth = auth_initial,
      keys = ks\<lparr>ss_volatile := None\<rparr>, threads = (\<lambda>_. None), jobs = [], job_ok = (\<lambda>_. None), next_id = 0,
      push_attached = attached\<rparr>"

end
