(* ===== verification/Session_Claims.thy ===== *)
theory Session_Claims
  imports Mobile_Session
begin

text \<open>
  What the mobile session machine promises while several operations run at once: a superseded
  operation changes nothing that is shown, a sign-out is final but for a refresh called after it,
  nothing stays in the keychain of a signed-out device, and there is one refresh per session at a time.
\<close>

section \<open>Bookkeeping lemmas\<close>

lemma go_to_simps [simp]:
  "generation (go_to t pc s) = generation s" "auth (go_to t pc s) = auth s"
  "in_flight (go_to t pc s) = in_flight s" "credential (go_to t pc s) = credential s"
  "keys (go_to t pc s) = keys s" "next_id (go_to t pc s) = next_id s" "jobs (go_to t pc s) = jobs s"
  "job_ok (go_to t pc s) = job_ok s" "persistent (go_to t pc s) = persistent s"
  "threads (go_to t pc s) = (threads s)(t := map_option (\<lambda>th. th\<lparr>th_pc := pc\<rparr>) (threads s t))"
  by (simp_all add: go_to_def)

lemma finish_simps [simp]:
  "generation (finish t s) = generation s" "auth (finish t s) = auth s"
  "credential (finish t s) = credential s" "keys (finish t s) = keys s" "next_id (finish t s) = next_id s"
  "jobs (finish t s) = jobs s" "job_ok (finish t s) = job_ok s" "persistent (finish t s) = persistent s"
  "threads (finish t s) = threads (go_to t Finished s)"
  "in_flight (finish t s) = (case in_flight s of Some (g, t') \<Rightarrow> if t' = t then None else Some (g, t') | None \<Rightarrow> None)"
  by (auto simp: finish_def Let_def split: option.splits prod.splits)

lemma release_simps [simp]:
  "generation (release t s) = generation s" "auth (release t s) = auth s" "in_flight (release t s) = in_flight s"
  "keys (release t s) = keys s" "next_id (release t s) = next_id s" "threads (release t s) = threads s"
  "jobs (release t s) = jobs s" "job_ok (release t s) = job_ok s" "persistent (release t s) = persistent s"
  "credential (release t s) = remove1 t (credential s)"
  by (simp_all add: release_def)

lemma add_job_simps [simp]:
  "generation (add_job j s) = generation s" "auth (add_job j s) = auth s" "in_flight (add_job j s) = in_flight s"
  "keys (add_job j s) = keys s" "threads (add_job j s) = threads s" "credential (add_job j s) = credential s"
  "job_ok (add_job j s) = job_ok s" "next_id (add_job j s) = next_id s + 1" "persistent (add_job j s) = persistent s"
  by (simp_all add: add_job_def)

lemma remove_stored_simps [simp]:
  "generation (remove_stored i d s) = generation s" "auth (remove_stored i d s) = auth s"
  "in_flight (remove_stored i d s) = in_flight s" "threads (remove_stored i d s) = threads s"
  "credential (remove_stored i d s) = credential s" "next_id (remove_stored i d s) = next_id s"
  "job_ok (remove_stored i d s) = job_ok s" "persistent (remove_stored i d s) = persistent s"
  "keys (remove_stored i d s) =
     removeCachedSession (in_remove_cache_ok i) (removeRefreshToken_done (in_remove_token_ok i) (keys s))"
  by (simp_all add: remove_stored_def)

lemma transition_simps [simp]:
  "generation (beginSessionTransition s) = Suc (generation s)" "auth (beginSessionTransition s) = auth s"
  "in_flight (beginSessionTransition s) = None" "threads (beginSessionTransition s) = threads s"
  "credential (beginSessionTransition s) = credential s" "keys (beginSessionTransition s) = keys s"
  "next_id (beginSessionTransition s) = next_id s" "job_ok (beginSessionTransition s) = job_ok s"
  by (simp_all add: beginSessionTransition_def)

lemma start_clear_simps [simp]:
  "generation (start_clear t g d a s) = generation s" "auth (start_clear t g d a s) = auth s"
  "in_flight (start_clear t g d a s) = in_flight s" "keys (start_clear t g d a s) = keys s"
  "threads (start_clear t g d a s) = (threads s)(t \<mapsto> \<lparr>th_gen = g, th_pc = Clear_Waiting d a\<rparr>)"
  "credential (start_clear t g d a s) = credential s @ [t]" "next_id (start_clear t g d a s) = next_id s"
  "job_ok (start_clear t g d a s) = job_ok s"
  by (simp_all add: start_clear_def)

text \<open>A job changes the revocation queue and nothing else.\<close>

lemma job_step_frame:
  assumes "job_step answer ok s = Some s'"
  shows "generation s' = generation s \<and> auth s' = auth s \<and> in_flight s' = in_flight s \<and>
    threads s' = threads s \<and> credential s' = credential s \<and> next_id s' = next_id s \<and>
    ss_volatile (keys s') = ss_volatile (keys s) \<and> ss_refresh (keys s') = ss_refresh (keys s) \<and>
    ss_cached (keys s') = ss_cached (keys s)"
proof -
  have q: "ss_volatile (queueLogoutRevocation t k) = ss_volatile k \<and>
      ss_refresh (queueLogoutRevocation t k) = ss_refresh k \<and> ss_cached (queueLogoutRevocation t k) = ss_cached k" and
    r: "ss_volatile (removePendingLogoutRevocation t k) = ss_volatile k \<and>
      ss_refresh (removePendingLogoutRevocation t k) = ss_refresh k \<and>
      ss_cached (removePendingLogoutRevocation t k) = ss_cached k" and
    p: "ss_volatile (snd (readPendingLogoutRevocations k)) = ss_volatile k \<and>
      ss_refresh (snd (readPendingLogoutRevocations k)) = ss_refresh k \<and>
      ss_cached (snd (readPendingLogoutRevocations k)) = ss_cached k" for t k
    by (auto simp: queueLogoutRevocation_def removePendingLogoutRevocation_def writeLogoutRevocations_def
        readPendingLogoutRevocations_def Let_def split: option.splits stored.splits json.splits)
  show ?thesis
    using assms p [of "keys s"] q r
    by (auto simp: job_step_def revokeOrQueue_step_def flush_step_def end_job_def
        split: list.splits prod.splits revocation_job.splits if_splits)
qed

section \<open>Superseded operations\<close>

lemmas step_defs = thread_step_def hydrate_step_def refresh_step_def sign_in_step_def logout_step_def
  clear_step_def accept_step_def

lemma fail_origin_superseded:
  "g \<noteq> generation s \<Longrightarrow> fail_origin t g from e s = finish t s"
  by (auto simp: fail_origin_def invalidateAndClear_def split: origin.splits)

lemma superseded_frame:
  assumes "thread_step i t s = Some s'" and "threads s t = Some th" and "th_gen th \<noteq> generation s"
    and "\<forall>c. th_pc th \<noteq> Logout_Reading c"
  shows "generation s' = generation s \<and> (auth s' = auth s \<or> auth s' = clearSession (auth s))"
  using assms
  by (cases "th_pc th")
    (auto simp: step_defs Let_def start_accept_def fail_origin_superseded rejectSupersededSession_def
      after_clearing_def split: if_splits option.splits sum.splits prod.splits list.splits reply.splits
      after_clear.splits)

section \<open>The credential lock\<close>

fun critical :: "session_pc \<Rightarrow> bool" where
  "critical (Accept_Writing r p f) = True"
| "critical (Accept_Write_Failed j f) = True"
| "critical (Accept_Clearing f) = True"
| "critical (Accept_Caching r p f) = True"
| "critical (Accept_Uncaching r f) = True"
| "critical (Accept_Rejecting j f) = True"
| "critical pc = False"

fun holding :: "session_pc \<Rightarrow> bool" where
  "holding (Clear_Removing d a) = True"
| "holding (Accept_Superseded j f) = True"
| "holding (Accept_Rejected j f) = True"
| "holding pc = critical pc"

fun waiting :: "session_pc \<Rightarrow> bool" where
  "waiting (Clear_Waiting d a) = True"
| "waiting (Accept_Waiting r f) = True"
| "waiting pc = False"

definition lock_inv ::
  "nat list \<Rightarrow> (nat \<Rightarrow> session_thread option) \<Rightarrow> nat \<Rightarrow> nat \<Rightarrow> bool" where
  "lock_inv cred ths n g \<longleftrightarrow>
     distinct cred \<and>
     (\<forall>t. t \<in> set cred \<longleftrightarrow> (\<exists>th. ths t = Some th \<and> (holding (th_pc th) \<or> waiting (th_pc th)))) \<and>
     (\<forall>t th. ths t = Some th \<longrightarrow> holding (th_pc th) \<longrightarrow> cred \<noteq> [] \<and> hd cred = t) \<and>
     (\<forall>t th. ths t = Some th \<longrightarrow> t < n \<and> th_gen th \<le> g)"

lemma lock_next: "lock_inv cred ths n g \<Longrightarrow> lock_inv cred ths n (Suc g)"
  unfolding lock_inv_def by (meson le_SucI)

lemma lock_mono: "lock_inv cred ths n g \<Longrightarrow> n \<le> n' \<Longrightarrow> g \<le> g' \<Longrightarrow> lock_inv cred ths n' g'"
  unfolding lock_inv_def by (meson less_le_trans order_trans)

lemma lock_pc:
  assumes "lock_inv cred (ths(t := map_option (\<lambda>th. th\<lparr>th_pc := Finished\<rparr>) (ths t))) n g"
    and "\<not> holding pc" and "\<not> waiting pc"
  shows "lock_inv cred (ths(t := map_option (\<lambda>th. th\<lparr>th_pc := pc\<rparr>) (ths t))) n g"
proof -
  have "(\<exists>th. (ths(t := map_option (\<lambda>th. th\<lparr>th_pc := pc\<rparr>) (ths t))) t' = Some th \<and>
          (holding (th_pc th) \<or> waiting (th_pc th))) \<longleftrightarrow>
        (\<exists>th. (ths(t := map_option (\<lambda>th. th\<lparr>th_pc := Finished\<rparr>) (ths t))) t' = Some th \<and>
          (holding (th_pc th) \<or> waiting (th_pc th)))" for t'
    using assms(2,3) by auto
  with assms show ?thesis unfolding lock_inv_def by (auto split: if_splits)
qed

lemma lock_held:
  assumes "lock_inv cred ths n g" and "ths t = Some th" and "cred \<noteq> []" and "hd cred = t" and "holding pc"
  shows "lock_inv cred (ths(t \<mapsto> th\<lparr>th_pc := pc\<rparr>)) n g"
proof -
  have "t \<in> set cred" using assms(3,4) by auto
  with assms show ?thesis unfolding lock_inv_def by (auto split: if_splits)
qed

lemma lock_released:
  assumes "lock_inv cred ths n g" and "ths t = Some th" and "cred \<noteq> []" and "hd cred = t"
  shows "lock_inv (remove1 t cred) (ths(t \<mapsto> th\<lparr>th_pc := Finished\<rparr>)) n g"
  using assms unfolding lock_inv_def by (cases cred) (auto split: if_splits)

lemma lock_idle:
  assumes "lock_inv cred ths n g" and "ths t = Some th" and "\<not> holding (th_pc th)" and "\<not> waiting (th_pc th)"
  shows "lock_inv cred (ths(t \<mapsto> th\<lparr>th_pc := Finished\<rparr>)) n g"
  using assms unfolding lock_inv_def by (auto split: if_splits)

lemma lock_enqueue:
  assumes "lock_inv cred (ths(t \<mapsto> th\<lparr>th_pc := Finished\<rparr>)) n g" and "waiting (th_pc th')" and "th_gen th' \<le> g"
  shows "lock_inv (cred @ [t]) (ths(t \<mapsto> th')) n g"
proof -
  have "\<not> holding (th_pc th')" using assms(2) by (cases "th_pc th'") auto
  then show ?thesis using assms unfolding lock_inv_def by (auto simp: hd_append split: if_splits)
qed

lemma lock_new:
  assumes "lock_inv cred ths n g" and "\<not> holding (th_pc th)" and "\<not> waiting (th_pc th)" and "th_gen th \<le> g"
  shows "lock_inv cred (ths(n \<mapsto> th)) (Suc n) g"
  using assms unfolding lock_inv_def by (auto simp: less_Suc_eq split: if_splits)

lemma lock_new_enqueue:
  assumes "lock_inv cred ths n g" and "waiting (th_pc th)" and "th_gen th \<le> g"
  shows "lock_inv (cred @ [n]) (ths(n \<mapsto> th)) (Suc n) g"
proof -
  have "\<not> holding (th_pc th)" using assms(2) by (cases "th_pc th") auto
  then show ?thesis using assms unfolding lock_inv_def by (auto simp: hd_append less_Suc_eq split: if_splits)
qed

definition lock_ok :: "session_state \<Rightarrow> bool" where
  "lock_ok s \<longleftrightarrow> lock_inv (credential s) (threads s) (next_id s) (generation s)"

text \<open>The same with thread \<open>t\<close> counted as finished: what holds while \<open>t\<close> moves.\<close>

definition lock_without :: "nat \<Rightarrow> session_state \<Rightarrow> bool" where
  "lock_without t s \<longleftrightarrow> (\<exists>th. threads s t = Some th \<and> th_gen th \<le> generation s \<and>
     lock_inv (credential s) ((threads s)(t \<mapsto> th\<lparr>th_pc := Finished\<rparr>)) (next_id s) (generation s))"

lemma without_idle:
  "lock_ok s \<Longrightarrow> threads s t = Some th \<Longrightarrow> \<not> holding (th_pc th) \<Longrightarrow> \<not> waiting (th_pc th) \<Longrightarrow> lock_without t s"
  using lock_idle [of "credential s" "threads s" "next_id s" "generation s" t th]
  by (auto simp: lock_ok_def lock_without_def lock_inv_def)

lemma without_held:
  "lock_ok s \<Longrightarrow> threads s t = Some th \<Longrightarrow> credential s \<noteq> [] \<Longrightarrow> hd (credential s) = t \<Longrightarrow>
   lock_without t (release t s)"
  using lock_released [of "credential s" "threads s" "next_id s" "generation s" t th]
  by (auto simp: lock_ok_def lock_without_def lock_inv_def)

lemma without_ok: "lock_without t s \<Longrightarrow> lock_ok (finish t s)"
  by (auto simp: lock_without_def lock_ok_def)

lemma without_go: "lock_without t s \<Longrightarrow> \<not> holding pc \<Longrightarrow> \<not> waiting pc \<Longrightarrow> lock_ok (go_to t pc s)"
  using lock_pc [of "credential s" "threads s" t "next_id s" "generation s" pc]
  by (auto simp: lock_without_def lock_ok_def)

lemma without_clear: "lock_without t s \<Longrightarrow> g \<le> generation s \<Longrightarrow> lock_ok (start_clear t g d a s)"
  unfolding lock_without_def lock_ok_def
  by (elim exE conjE) (simp add: lock_enqueue)

lemma without_accept:
  "lock_without t s \<Longrightarrow> lock_ok (go_to t (Accept_Waiting r f) (s\<lparr>credential := credential s @ [t]\<rparr>))"
  unfolding lock_without_def lock_ok_def
  by (elim exE conjE) (simp add: lock_enqueue)

lemma held_go:
  "lock_ok s \<Longrightarrow> threads s t = Some th \<Longrightarrow> credential s \<noteq> [] \<Longrightarrow> hd (credential s) = t \<Longrightarrow> holding pc \<Longrightarrow>
   lock_ok (go_to t pc s)"
  using lock_held by (auto simp: lock_ok_def)

lemma lock_ok_frame:
  "lock_ok s \<Longrightarrow> credential s' = credential s \<Longrightarrow> threads s' = threads s \<Longrightarrow> next_id s \<le> next_id s' \<Longrightarrow>
   generation s \<le> generation s' \<Longrightarrow> lock_ok s'"
  using lock_mono by (auto simp: lock_ok_def)

lemma without_frame:
  "lock_without t s \<Longrightarrow> credential s' = credential s \<Longrightarrow> threads s' = threads s \<Longrightarrow> next_id s \<le> next_id s' \<Longrightarrow>
   generation s \<le> generation s' \<Longrightarrow> lock_without t s'"
  using lock_mono by (auto simp: lock_without_def intro: order_trans)

lemma without_invalidate: "lock_without t s \<Longrightarrow> lock_ok (invalidateAndClear t g s)"
  by (auto simp: invalidateAndClear_def Let_def without_ok
      intro!: without_clear intro: without_frame)

lemma without_fail: "lock_without t s \<Longrightarrow> lock_ok (fail_origin t g from e s)"
  by (auto simp: fail_origin_def without_invalidate
      intro!: without_ok intro: without_frame split: origin.splits option.splits prod.splits)

lemma without_after: "lock_without t s \<Longrightarrow> lock_ok (after_clearing t a s)"
  by (auto simp: after_clearing_def without_ok intro!: without_go intro: without_frame split: after_clear.splits)

lemma without_start_accept: "lock_without t s \<Longrightarrow> lock_ok (start_accept t r from s)"
  by (auto simp: start_accept_def without_accept without_fail lock_without_def split: option.splits)

lemma lock_ok_current:
  "lock_ok s \<Longrightarrow> threads s t = Some th \<Longrightarrow> holding (th_pc th) \<Longrightarrow> credential s \<noteq> [] \<and> hd (credential s) = t"
  by (auto simp: lock_ok_def lock_inv_def)

lemma holds_lock_iff: "holds_lock t s \<longleftrightarrow> credential s \<noteq> [] \<and> hd (credential s) = t"
  by (cases "credential s") (auto simp: holds_lock_def)

lemma frame_with [simp]:
  "lock_ok (s\<lparr>auth := a\<rparr>) = lock_ok s" "lock_ok (s\<lparr>keys := k\<rparr>) = lock_ok s"
  "lock_ok (s\<lparr>in_flight := f\<rparr>) = lock_ok s" "lock_ok (s\<lparr>persistent := p\<rparr>) = lock_ok s"
  "lock_ok (remove_stored i d s) = lock_ok s"
  by (simp_all add: lock_ok_def)

lemma without_with [simp]:
  "lock_without t (s\<lparr>auth := a\<rparr>) = lock_without t s" "lock_without t (s\<lparr>keys := k\<rparr>) = lock_without t s"
  "lock_without t (s\<lparr>in_flight := f\<rparr>) = lock_without t s" "lock_without t (s\<lparr>persistent := p\<rparr>) = lock_without t s"
  "lock_without t (remove_stored i d s) = lock_without t s"
  by (simp_all add: lock_without_def)

lemma release_with [simp]:
  "release t (s\<lparr>auth := a\<rparr>) = (release t s)\<lparr>auth := a\<rparr>" "release t (s\<lparr>keys := k\<rparr>) = (release t s)\<lparr>keys := k\<rparr>"
  "release t (remove_stored i d s) = remove_stored i d (release t s)"
  by (simp_all add: release_def remove_stored_def)

lemma lock_ok_add_job: "lock_ok s \<Longrightarrow> lock_ok (add_job j s)"
  by (rule lock_ok_frame) auto

lemma lock_ok_accept:
  assumes "accept_step i t th s = Some s'" and "threads s t = Some th" and "lock_ok s"
  shows "lock_ok s'"
proof (cases "credential s \<noteq> [] \<and> hd (credential s) = t")
  case True
  note rel = without_held [OF assms(3,2)]
  show ?thesis
    using assms True rel
    by (auto simp: accept_step_def Let_def accepted_def rejectSupersededSession_def without_fail without_ok
        lock_ok_add_job intro!: held_go lock_ok_add_job split: session_pc.splits if_splits option.splits sum.splits origin.splits)
next
  case False
  with lock_ok_current [OF assms(3,2)] have "\<not> holding (th_pc th)" by blast
  with assms(1) False show ?thesis
    by (cases "th_pc th") (auto simp: accept_step_def holds_lock_iff split: if_splits)
qed

lemma lock_ok_clear_step:
  assumes "clear_step i t th s = Some s'" and "threads s t = Some th" and "lock_ok s"
  shows "lock_ok s'"
proof (cases "credential s \<noteq> [] \<and> hd (credential s) = t")
  case True
  note rel = without_held [OF assms(3,2)]
  show ?thesis
    using assms True rel
    by (auto simp: clear_step_def Let_def without_after
        intro!: held_go split: session_pc.splits if_splits)
next
  case False
  with lock_ok_current [OF assms(3,2)] have "\<not> holding (th_pc th)" by blast
  with assms(1) False show ?thesis
    by (cases "th_pc th") (auto simp: clear_step_def holds_lock_iff split: if_splits)
qed

lemma lock_ok_idle_steps:
  assumes "threads s t = Some th" and "lock_ok s"
  shows "hydrate_step i t th s = Some s' \<Longrightarrow> lock_ok s'"
    and "refresh_step i t th s = Some s' \<Longrightarrow> lock_ok s'"
    and "sign_in_step i t th s = Some s' \<Longrightarrow> lock_ok s'"
    and "logout_step i t th s = Some s' \<Longrightarrow> lock_ok s'"
proof -
  have w: "\<not> holding (th_pc th) \<Longrightarrow> \<not> waiting (th_pc th) \<Longrightarrow> lock_without t s"
    using without_idle [OF assms(2,1)] by blast
  have g: "th_gen th \<le> generation s" using assms by (auto simp: lock_ok_def lock_inv_def)
  show "hydrate_step i t th s = Some s' \<Longrightarrow> lock_ok s'"
    using w g by (auto simp: hydrate_step_def Let_def intro!: without_ok without_clear without_go without_start_accept
        without_fail split: session_pc.splits sum.splits option.splits list.splits prod.splits reply.splits if_splits)
  show "refresh_step i t th s = Some s' \<Longrightarrow> lock_ok s'"
    using w by (auto simp: refresh_step_def Let_def intro!: without_fail without_go without_start_accept
        without_invalidate split: session_pc.splits sum.splits option.splits list.splits reply.splits if_splits)
  show "sign_in_step i t th s = Some s' \<Longrightarrow> lock_ok s'"
    using w by (auto simp: sign_in_step_def intro!: without_fail without_start_accept
        split: session_pc.splits reply.splits)
  show "logout_step i t th s = Some s' \<Longrightarrow> lock_ok s'"
    using w by (auto simp: logout_step_def Let_def intro!: lock_ok_add_job without_clear intro: without_frame
        split: session_pc.splits option.splits list.splits)
qed

lemma lock_ok_thread_step: "thread_step i t s = Some s' \<Longrightarrow> lock_ok s \<Longrightarrow> lock_ok s'"
  by (auto simp: thread_step_def split: option.splits session_pc.splits
      dest: lock_ok_accept lock_ok_clear_step lock_ok_idle_steps)

lemma lock_ok_new: "lock_ok s \<Longrightarrow> \<not> holding (th_pc th) \<Longrightarrow> \<not> waiting (th_pc th) \<Longrightarrow> th_gen th \<le> generation s \<Longrightarrow>
    lock_ok (new_thread th s)"
  by (simp add: lock_ok_def new_thread_def lock_new)

lemma lock_ok_event: "handle_event e s = Some s' \<Longrightarrow> lock_ok s \<Longrightarrow> lock_ok s'"
proof (induction e s rule: handle_event.induct)
  case (1 s)
  then show ?case
    by (auto simp: hydrateSession_def Let_def intro!: lock_ok_new intro: lock_ok_frame)
next
  case (2 s)
  then show ?case by (auto simp: refreshSession_def intro!: lock_ok_new)
next
  case (3 s)
  then show ?case by (auto simp: resumeOfflineSession_def refreshSession_def intro!: lock_ok_new)
next
  case (4 r s)
  then show ?case
    by (auto simp: beginAuthentication_def Let_def lock_ok_def lock_next intro!: lock_new_enqueue)
next
  case (5 s)
  then show ?case
    by (auto simp: clearLocalSession_def Let_def lock_ok_def lock_next intro!: lock_new_enqueue)
next
  case (6 s)
  then show ?case by (auto simp: logoutSession_def intro!: lock_ok_new)
next
  case (7 s)
  then show ?case by (auto simp: flushPendingLogoutRevocations_def intro: lock_ok_add_job)
next
  case (8 t i s)
  then show ?case by (auto intro: lock_ok_thread_step)
next
  case (9 a b s)
  then show ?case using job_step_frame [of a b s s'] by (simp add: lock_ok_def)
qed (auto split: if_splits)

lemma lock_ok_reachable: "session_reachable P s0 s \<Longrightarrow> lock_ok s0 \<Longrightarrow> lock_ok s"
  by (induction rule: session_reachable.induct) (auto intro: lock_ok_event)

lemma lock_ok_start [simp]: "lock_ok (session_start ks a)"
  by (simp add: lock_ok_def lock_inv_def session_start_def)

section \<open>The keychain of a signed-out device\<close>

definition some_thread ::
  "(session_thread \<Rightarrow> bool) \<Rightarrow> (nat \<Rightarrow> session_thread option) \<Rightarrow> bool" where
  "some_thread Q ths \<longleftrightarrow> (\<exists>t th. ths t = Some th \<and> Q th)"

lemma some_upd [simp]: "some_thread Q (ths(t \<mapsto> x)) \<longleftrightarrow> Q x \<or> some_thread Q (ths(t := None))"
  by (auto simp: some_thread_def split: if_splits)

lemma some_split: "ths t = Some th \<Longrightarrow> some_thread Q ths \<longleftrightarrow> Q th \<or> some_thread Q (ths(t := None))"
  unfolding some_thread_def by (metis fun_upd_apply option.distinct(1) option.inject)

fun clearing :: "session_pc \<Rightarrow> bool" where
  "clearing (Clear_Waiting d a) = True"
| "clearing (Clear_Removing d a) = True"
| "clearing pc = False"

fun removing :: "session_pc \<Rightarrow> bool" where
  "removing (Clear_Removing d a) = True"
| "removing (Accept_Clearing f) = True"
| "removing (Accept_Rejecting j f) = True"
| "removing pc = False"

definition bare :: "secure_store \<Rightarrow> bool" where
  "bare k \<longleftrightarrow> ss_volatile k = None \<and> ss_refresh k = None \<and> ss_cached k = No_Cache"

definition cleaner :: "nat \<Rightarrow> session_thread \<Rightarrow> bool" where
  "cleaner g th \<longleftrightarrow> th_gen th = g \<and> (clearing (th_pc th) \<or> critical (th_pc th))"

definition touching :: "session_thread \<Rightarrow> bool" where
  "touching th \<longleftrightarrow> critical (th_pc th)"

text \<open>While nobody is signed in, either nothing is stored and nobody is about to store, or an
  operation of the current session is about to clear or to finish the store.\<close>

definition store_inv :: "auth_state \<Rightarrow> secure_store \<Rightarrow> (nat \<Rightarrow> session_thread option) \<Rightarrow> nat \<Rightarrow> bool" where
  "store_inv a k ths g \<longleftrightarrow>
     (au_status a = Anonymous \<longrightarrow> bare k \<and> \<not> some_thread touching ths \<or> some_thread (cleaner g) ths) \<and>
     (some_thread (\<lambda>th. removing (th_pc th)) ths \<longrightarrow> ss_volatile k = None)"

definition store_ok :: "session_state \<Rightarrow> bool" where
  "store_ok s \<longleftrightarrow> store_inv (auth s) (keys s) (threads s) (generation s) \<and> (\<forall>j. job_ok s j \<noteq> Some False)"

fun reliable :: "session_event \<Rightarrow> bool" where
  "reliable (Run t i) \<longleftrightarrow> in_remove_token_ok i \<and> in_remove_cache_ok i"
| "reliable (Run_Job answer ok) \<longleftrightarrow> ok"
| "reliable e \<longleftrightarrow> True"

lemma critical_holding: "critical pc \<or> removing pc \<Longrightarrow> holding pc"
  by (cases pc) auto

lemma head_alone:
  assumes "lock_ok s" and "threads s t = Some th" and "credential s \<noteq> [] \<and> hd (credential s) = t"
    and "\<And>th'. Q th' \<Longrightarrow> holding (th_pc th')"
  shows "\<not> some_thread Q ((threads s)(t := None))"
proof
  assume "some_thread Q ((threads s)(t := None))"
  then obtain t' th' where "t' \<noteq> t" "threads s t' = Some th'" "Q th'"
    by (auto simp: some_thread_def split: if_splits)
  with assms lock_ok_current [OF assms(1), of t' th'] show False by auto
qed

lemma lock_head_alone:
  assumes "lock_ok s" and "threads s t = Some th" and "holds_lock t s"
  shows "\<not> some_thread touching ((threads s)(t := None))"
    and "\<not> some_thread (\<lambda>th. removing (th_pc th)) ((threads s)(t := None))"
  by (rule head_alone [OF assms(1,2)]; use assms(3) in \<open>simp add: holds_lock_iff touching_def critical_holding\<close>)+

lemma holder_alone:
  assumes "lock_ok s" and "threads s t = Some th" and "holding (th_pc th)"
  shows "\<not> some_thread touching ((threads s)(t := None))"
    and "\<not> some_thread (\<lambda>th. removing (th_pc th)) ((threads s)(t := None))"
  using lock_head_alone [OF assms(1,2)] lock_ok_current [OF assms] by (simp_all add: holds_lock_iff)

lemmas store_simps = store_inv_def cleaner_def touching_def bare_def auth_simps

lemma store_inv_accept:
  assumes "accept_step i t th s = Some s'" and "threads s t = Some th" and "lock_ok s" and "store_ok s"
    and "in_remove_token_ok i" and "in_remove_cache_ok i"
  shows "store_inv (auth s') (keys s') (threads s') (generation s')"
proof (cases "holding (th_pc th)")
  case True
  note alone = holder_alone [OF assms(3,2) True]
  note split = some_split [of "threads s" t th, OF assms(2)]
  from assms alone show ?thesis
    by (cases "th_pc th")
      (auto simp: accept_step_def Let_def store_ok_def store_simps split fail_origin_def invalidateAndClear_def
        removeRefreshToken_call_def removeRefreshToken_done_def removeCachedSession_def writeRefreshToken_done_def
        writeCachedSession_def rejectSupersededSession_def accepted_def
        split: if_splits option.splits origin.splits prod.splits)
next
  case False
  note split = some_split [of "threads s" t th, OF assms(2)]
  note alone = lock_head_alone [OF assms(3,2)]
  from assms alone False show ?thesis
    by (cases "th_pc th")
      (auto simp: accept_step_def Let_def store_ok_def store_simps split writeRefreshToken_call_def
        split: if_splits)
qed

lemma store_inv_clear:
  assumes "clear_step i t th s = Some s'" and "threads s t = Some th" and "lock_ok s" and "store_ok s"
    and "in_remove_token_ok i" and "in_remove_cache_ok i"
  shows "store_inv (auth s') (keys s') (threads s') (generation s')"
proof (cases "holding (th_pc th)")
  case True
  note alone = holder_alone [OF assms(3,2) True]
  note split = some_split [of "threads s" t th, OF assms(2)]
  from assms alone show ?thesis
    by (cases "th_pc th")
      (auto simp: clear_step_def Let_def store_ok_def store_simps split after_clearing_def
        removeRefreshToken_call_def removeRefreshToken_done_def removeCachedSession_def
        split: if_splits after_clear.splits)
next
  case False
  note split = some_split [of "threads s" t th, OF assms(2)]
  note alone = lock_head_alone [OF assms(3,2)]
  from assms alone False show ?thesis
    by (cases "th_pc th")
      (auto simp: clear_step_def Let_def store_ok_def store_simps split after_clearing_def
        removeRefreshToken_call_def split: if_splits after_clear.splits)
qed

text \<open>The same with thread \<open>t\<close> counted as finished, for the threads that hold nothing.\<close>

definition store_without :: "nat \<Rightarrow> session_state \<Rightarrow> bool" where
  "store_without t s \<longleftrightarrow> (\<exists>th. threads s t = Some th \<and>
     store_inv (auth s) (keys s) ((threads s)(t \<mapsto> th\<lparr>th_pc := Finished\<rparr>)) (generation s))"

definition store_state :: "session_state \<Rightarrow> bool" where
  "store_state s \<longleftrightarrow> store_inv (auth s) (keys s) (threads s) (generation s)"

lemma store_without_idle:
  assumes "store_state s" and "threads s t = Some th"
    and "\<not> critical (th_pc th)" and "\<not> clearing (th_pc th)" and "\<not> removing (th_pc th)"
  shows "store_without t s"
  using assms some_split [of "threads s" t th, OF assms(2)]
  by (auto simp: store_without_def store_state_def store_simps)

lemma store_finish: "store_without t s \<Longrightarrow> store_state (finish t s)"
  by (auto simp: store_without_def store_state_def)

lemma store_go:
  "store_without t s \<Longrightarrow> \<not> critical pc \<Longrightarrow> \<not> removing pc \<Longrightarrow> store_state (go_to t pc s)"
  by (auto simp: store_without_def store_state_def store_simps)

lemma store_clear: "store_without t s \<Longrightarrow> g = generation s \<Longrightarrow> store_state (start_clear t g d a s)"
  by (auto simp: store_without_def store_state_def store_simps)

lemma store_auth:
  "store_without t s \<Longrightarrow> au_status a \<noteq> Anonymous \<Longrightarrow> store_without t (s\<lparr>auth := a\<rparr>)"
  by (auto simp: store_without_def store_inv_def)

lemma store_invalidate: "store_without t s \<Longrightarrow> store_state (invalidateAndClear t g s)"
  by (auto simp: invalidateAndClear_def Let_def store_finish)
    (auto simp: store_without_def store_state_def store_simps)

lemma store_fail: "store_without t s \<Longrightarrow> store_state (fail_origin t g from e s)"
  by (auto simp: fail_origin_def store_invalidate setOfflineSession_def failSessionRestore_def
      intro!: store_finish store_auth split: origin.splits option.splits prod.splits)

lemma store_start_accept: "store_without t s \<Longrightarrow> store_state (start_accept t r from s)"
  by (auto simp: start_accept_def store_fail split: option.splits)
    (auto simp: store_without_def store_state_def store_simps)

lemma store_inv_idle:
  assumes "threads s t = Some th" and "store_state s"
  shows "hydrate_step i t th s = Some s' \<Longrightarrow> store_state s'"
    and "refresh_step i t th s = Some s' \<Longrightarrow> store_state s'"
    and "sign_in_step i t th s = Some s' \<Longrightarrow> store_state s'"
    and "logout_step i t th s = Some s' \<Longrightarrow> store_state s'"
proof -
  have w: "\<not> critical (th_pc th) \<Longrightarrow> \<not> clearing (th_pc th) \<Longrightarrow> \<not> removing (th_pc th) \<Longrightarrow> store_without t s"
    using store_without_idle [OF assms(2,1)] by blast
  show "hydrate_step i t th s = Some s' \<Longrightarrow> store_state s'"
  proof (cases "th_pc th")
    case (Hydrate_Caching token)
    have "store_without t (s\<lparr>keys := snd (readCachedSession (in_read_ok i) (keys s))\<rparr>)"
      using w Hydrate_Caching
      by (auto simp: store_without_def store_simps readCachedSession_def split: cached_session.splits)
    then show "hydrate_step i t th s = Some s' \<Longrightarrow> store_state s'"
      using Hydrate_Caching by (auto simp: hydrate_step_def intro!: store_go split: prod.splits)
  qed (use w in \<open>auto simp: hydrate_step_def Let_def failSessionRestore_def intro!: store_finish store_clear store_go
        store_start_accept store_fail store_auth
        split: sum.splits option.splits list.splits reply.splits if_splits\<close>)
  show "refresh_step i t th s = Some s' \<Longrightarrow> store_state s'"
    using w by (cases "th_pc th") (auto simp: refresh_step_def Let_def intro!: store_fail store_go store_start_accept
        store_invalidate split: sum.splits option.splits list.splits reply.splits if_splits)
  show "sign_in_step i t th s = Some s' \<Longrightarrow> store_state s'"
    using w by (cases "th_pc th") (auto simp: sign_in_step_def intro!: store_fail store_start_accept
        split: reply.splits)
  show "logout_step i t th s = Some s' \<Longrightarrow> store_state s'"
    using w by (cases "th_pc th") (auto simp: logout_step_def Let_def store_without_def store_state_def store_simps
        split: option.splits list.splits)
qed

lemma job_ok_frames [simp]:
  "job_ok (invalidateAndClear t g s) = job_ok s" "job_ok (fail_origin t g from e s) = job_ok s"
  "job_ok (start_accept t r from s) = job_ok s" "job_ok (accepted t r' from s) = job_ok s"
  "job_ok (rejectSupersededSession t k from s) = job_ok s" "job_ok (after_clearing t a s) = job_ok s"
  by (auto simp: invalidateAndClear_def Let_def fail_origin_def start_accept_def accepted_def
      rejectSupersededSession_def after_clearing_def
      split: option.splits origin.splits prod.splits after_clear.splits)

lemma job_ok_thread_step: "thread_step i t s = Some s' \<Longrightarrow> job_ok s' = job_ok s"
  by (auto simp: step_defs Let_def split: option.splits session_pc.splits sum.splits list.splits prod.splits
      reply.splits if_splits)

lemma job_ok_job_step:
  "job_step answer True s = Some s' \<Longrightarrow> \<forall>j. job_ok s j \<noteq> Some False \<Longrightarrow> \<forall>j. job_ok s' j \<noteq> Some False"
  by (auto simp: job_step_def revokeOrQueue_step_def flush_step_def end_job_def
      split: list.splits prod.splits revocation_job.splits if_splits)

lemma store_ok_thread_step:
  assumes "thread_step i t s = Some s'" and "lock_ok s" and "store_ok s"
    and "in_remove_token_ok i" and "in_remove_cache_ok i"
  shows "store_ok s'"
proof -
  obtain th where th: "threads s t = Some th" using assms(1) by (auto simp: thread_step_def split: option.splits)
  have st: "store_state s" using assms(3) by (simp add: store_ok_def store_state_def)
  have "store_state s'"
    using assms(1) th store_inv_idle [OF th st]
      store_inv_accept [OF _ th assms(2,3,4,5)] store_inv_clear [OF _ th assms(2,3,4,5)]
    by (auto simp: thread_step_def store_state_def split: session_pc.splits)
  then show ?thesis
    using job_ok_thread_step [OF assms(1)] assms(3) by (simp add: store_ok_def store_state_def)
qed

lemma fresh_id: "lock_ok s \<Longrightarrow> threads s (next_id s) = None"
  unfolding lock_ok_def lock_inv_def by (metis less_irrefl not_None_eq)

lemma fresh_thread: "lock_ok s \<Longrightarrow> (threads s)(next_id s := None) = threads s"
  using fresh_id by (simp add: fun_upd_idem)

lemma store_new:
  assumes "store_ok s" and "lock_ok s" and "\<not> critical (th_pc th)" and "\<not> removing (th_pc th)"
  shows "store_ok (new_thread th s)"
  using assms fresh_thread [OF assms(2)]
  by (auto simp: store_ok_def new_thread_def store_simps)

lemma store_refresh: "store_ok s \<Longrightarrow> lock_ok s \<Longrightarrow> store_ok (refreshSession s)"
  using store_new [of s "\<lparr>th_gen = generation s, th_pc = Refresh_Reading (ss_volatile (keys s))\<rparr>"]
  by (simp add: refreshSession_def store_ok_def)

lemma store_ok_event:
  assumes "handle_event e s = Some s'" and "lock_ok s" and "store_ok s" and "reliable e"
  shows "store_ok s'"
proof (cases e)
  case Call_Hydrate
  with assms show ?thesis
    using fresh_thread [OF assms(2)]
    by (auto simp: hydrateSession_def Let_def store_ok_def new_thread_def store_simps)
next
  case Call_Refresh
  with assms store_refresh show ?thesis by auto
next
  case Call_Resume
  with assms store_refresh show ?thesis by (auto simp: resumeOfflineSession_def)
next
  case (Call_Sign_In r)
  with assms show ?thesis
    by (auto simp: beginAuthentication_def Let_def store_ok_def store_simps fresh_thread)
next
  case Call_Clear_Local
  with assms show ?thesis
    by (auto simp: clearLocalSession_def Let_def store_ok_def store_simps fresh_thread)
next
  case Call_Logout
  with assms store_new show ?thesis by (auto simp: logoutSession_def)
next
  case Call_Flush
  with assms show ?thesis by (auto simp: flushPendingLogoutRevocations_def store_ok_def)
next
  case (Run t i)
  with assms store_ok_thread_step show ?thesis by auto
next
  case (Run_Job answer ok)
  with assms job_step_frame [of answer True s s'] job_ok_job_step [of answer s s'] show ?thesis
    by (auto simp: store_ok_def store_inv_def bare_def)
next
  case (Set_User u)
  with assms show ?thesis by (auto simp: store_ok_def store_simps split: if_splits)
next
  case Lost_Connection
  with assms show ?thesis by (auto simp: store_ok_def store_simps split: if_splits)
qed

lemma store_ok_start: "store_ok (session_start ks a)"
  by (simp add: store_ok_def store_inv_def session_start_def auth_initial_def some_thread_def)

lemma invariants_reachable:
  "session_reachable reliable (session_start ks a) s \<Longrightarrow> lock_ok s \<and> store_ok s"
  by (induction rule: session_reachable.induct) (auto intro: lock_ok_event store_ok_event simp: store_ok_start)

text \<open>C9: A signed-out device keeps nothing. In every state that any interleaving of hydrations, refreshes,
  sign-ins, sign-outs and connection changes can reach, as long as the keychain honours
  deletions: when the status is anonymous and no operation of the current session is still
  clearing or storing, there is no refresh token in the keychain or in memory and no cached
  session.\<close>

theorem anonymous_leaves_nothing:
  assumes "session_reachable reliable (session_start ks a) s" and "au_status (auth s) = Anonymous"
    and "\<forall>t th. threads s t = Some th \<longrightarrow> th_gen th = generation s \<longrightarrow> th_pc th = Finished"
  shows "ss_volatile (keys s) = None \<and> ss_refresh (keys s) = None \<and> ss_cached (keys s) = No_Cache"
proof -
  have "\<not> some_thread (cleaner (generation s)) (threads s)"
    using assms(3) by (auto simp: some_thread_def cleaner_def)
  then show ?thesis
    using invariants_reachable [OF assms(1)] assms(2) by (auto simp: store_ok_def store_inv_def bare_def)
qed

definition all_ok :: session_input where
  "all_ok = \<lparr>in_read_ok = True, in_write_ok = True, in_remove_token_ok = True, in_remove_cache_ok = True,
     in_detach_ok = True, in_reply = Failure 0\<rparr>"

definition sample_keys_store :: secure_store where
  "sample_keys_store = \<lparr>ss_volatile = None, ss_refresh = Some ''token'', ss_cached = Cached ''token'' JNull,
     ss_revocations = None\<rparr>"

lemmas run_simps = session_start_def clearLocalSession_def beginSessionTransition_def start_clear_def
  clearSession_def auth_initial_def thread_step_def clear_step_def holds_lock_def go_to_def release_def
  after_clearing_def finish_def remove_stored_def removeRefreshToken_call_def removeRefreshToken_done_def
  removeCachedSession_def all_ok_def sample_keys_store_def Let_def

definition sample_signed_out :: session_state where
  "sample_signed_out =
     \<lparr>generation = 1, persistent = True, in_flight = None, credential = [],
      auth = \<lparr>au_status = Anonymous, au_token = None, au_user = None\<rparr>,
      keys = \<lparr>ss_volatile = None, ss_refresh = None, ss_cached = No_Cache, ss_revocations = None\<rparr>,
      threads = (\<lambda>_. None)(0 \<mapsto> \<lparr>th_gen = 1, th_pc = Finished\<rparr>), jobs = [], job_ok = (\<lambda>_. None),
      next_id = 1, push_attached = False\<rparr>"

lemma sample_signed_out_run:
  "session_run [Call_Clear_Local, Run 0 all_ok, Run 0 all_ok] (session_start sample_keys_store True) =
   Some sample_signed_out"
  by (simp add: run_simps sample_signed_out_def)

theorem anonymous_leaves_nothing_witness:
  "ss_volatile (keys sample_signed_out) = None \<and> ss_refresh (keys sample_signed_out) = None \<and>
   ss_cached (keys sample_signed_out) = No_Cache"
proof (rule anonymous_leaves_nothing)
  show "session_reachable reliable (session_start sample_keys_store True) sample_signed_out"
    by (rule session_run_reachable [OF sample_signed_out_run session_reachable.start]) (simp add: all_ok_def)
qed (auto simp: sample_signed_out_def split: if_splits)

section \<open>A sign-out is final\<close>

text \<open>What can happen until somebody signs in again or the app restores a session: everything but these two
  calls. A refresh can be called: lib/events.ts does it on a 401 without looking at the status.\<close>

fun until_sign_in :: "session_event \<Rightarrow> bool" where
  "until_sign_in Call_Hydrate \<longleftrightarrow> False"
| "until_sign_in (Call_Sign_In r) \<longleftrightarrow> False"
| "until_sign_in e \<longleftrightarrow> True"

fun quiet :: "session_pc \<Rightarrow> bool" where
  "quiet Finished = True"
| "quiet (Clear_Waiting d a) \<longleftrightarrow> a = After_Nothing"
| "quiet (Clear_Removing d a) \<longleftrightarrow> a = After_Nothing"
| "quiet (Logout_Reading c) = True"
| "quiet pc = False"

definition loud :: "nat \<Rightarrow> session_thread \<Rightarrow> bool" where
  "loud g th \<longleftrightarrow> th_gen th = g \<and> \<not> quiet (th_pc th)"

definition signed_out :: "session_state \<Rightarrow> bool" where
  "signed_out s \<longleftrightarrow> auth s = clearSession (auth s) \<and> \<not> some_thread (loud (generation s)) (threads s)"

lemma clearSession_idem [simp]: "clearSession (clearSession a) = clearSession a"
  by (simp add: clearSession_def)

lemma superseded_threads:
  assumes "thread_step i t s = Some s'" and "threads s t = Some th" and "th_gen th \<noteq> generation s"
    and "\<forall>c. th_pc th \<noteq> Logout_Reading c"
  shows "\<exists>pc. threads s' = (threads s)(t \<mapsto> th\<lparr>th_pc := pc\<rparr>)"
  using assms
  by (cases "th_pc th")
    (auto simp: step_defs Let_def start_accept_def fail_origin_superseded rejectSupersededSession_def
      after_clearing_def split: if_splits option.splits sum.splits prod.splits list.splits reply.splits
      after_clear.splits)

lemma thread_gen_le: "lock_ok s \<Longrightarrow> threads s t = Some th \<Longrightarrow> th_gen th \<le> generation s"
  by (auto simp: lock_ok_def lock_inv_def)

lemma cleared_auth: "a = clearSession a \<Longrightarrow> au_status a = Anonymous \<and> au_token a = None \<and> au_user a = None"
  by (cases a) (simp add: clearSession_def)

lemma loud_after_transition:
  assumes "lock_ok s" and "\<not> loud (Suc (generation s)) th"
  shows "\<not> some_thread (loud (Suc (generation s))) ((threads s)(t \<mapsto> th))"
proof -
  have "th_gen th' \<noteq> Suc (generation s)" if "threads s t' = Some th'" for t' th'
    using thread_gen_le [OF assms(1) that] by simp
  with assms(2) show ?thesis by (auto simp: some_thread_def loud_def split: if_splits)
qed

lemma signed_out_clear_local: "lock_ok s \<Longrightarrow> signed_out (clearLocalSession s)"
  using loud_after_transition [of s "\<lparr>th_gen = Suc (generation s), th_pc = Clear_Waiting True After_Nothing\<rparr>"]
  by (simp add: signed_out_def clearLocalSession_def Let_def loud_def)

lemma signed_out_logout:
  "lock_ok s \<Longrightarrow> threads s t = Some th \<Longrightarrow> th_pc th = Logout_Reading c \<Longrightarrow> thread_step i t s = Some s' \<Longrightarrow> signed_out s'"
  using loud_after_transition [of s "\<lparr>th_gen = Suc (generation s), th_pc = Clear_Waiting True After_Nothing\<rparr>" t]
  by (auto simp: signed_out_def thread_step_def logout_step_def Let_def loud_def
      split: option.splits list.splits)

lemma signed_out_current:
  assumes "thread_step i t s = Some s'" and "threads s t = Some th" and "th_gen th = generation s"
    and "signed_out s" and "lock_ok s"
  shows "signed_out s'"
proof (cases "\<exists>c. th_pc th = Logout_Reading c")
  case True
  with signed_out_logout assms show ?thesis by blast
next
  case False
  have "quiet (th_pc th)"
    using assms(2,3,4) by (auto simp: signed_out_def loud_def some_thread_def)
  with assms False show ?thesis
    using some_split [of "threads s" t th "loud (generation s)", OF assms(2)]
    by (cases "th_pc th")
      (auto simp: thread_step_def clear_step_def Let_def after_clearing_def signed_out_def loud_def
        split: if_splits)
qed

lemma signed_out_event:
  assumes "handle_event e s = Some s'" and "until_sign_in e" and "e \<noteq> Call_Refresh" and "signed_out s" and "lock_ok s"
  shows "signed_out s'"
proof (cases e)
  case (Run t i)
  then obtain th where th: "threads s t = Some th" and st: "thread_step i t s = Some s'"
    using assms(1) by (auto simp: thread_step_def split: option.splits)
  show ?thesis
  proof (cases "th_gen th = generation s \<or> (\<exists>c. th_pc th = Logout_Reading c)")
    case True
    with signed_out_current signed_out_logout th st assms show ?thesis by blast
  next
    case False
    then have f: "generation s' = generation s \<and> (auth s' = auth s \<or> auth s' = clearSession (auth s))"
      using superseded_frame [OF st th] by blast
    obtain pc where "threads s' = (threads s)(t \<mapsto> th\<lparr>th_pc := pc\<rparr>)"
      using superseded_threads [OF st th] False by blast
    with f False assms(4) show ?thesis
      using some_split [of "threads s" t th "loud (generation s)", OF th]
      by (auto simp: signed_out_def loud_def)
  qed
next
  case Call_Clear_Local
  with assms signed_out_clear_local show ?thesis by auto
next
  case Call_Logout
  with assms show ?thesis
    using fresh_thread [OF assms(5)] by (auto simp: logoutSession_def new_thread_def signed_out_def loud_def)
next
  case Call_Resume
  have "au_status (auth s) = Anonymous" using assms(4) cleared_auth by (auto simp: signed_out_def)
  with Call_Resume assms show ?thesis by (auto simp: resumeOfflineSession_def)
next
  case (Run_Job answer ok)
  with assms job_step_frame [of answer ok s s'] show ?thesis by (auto simp: signed_out_def)
next
  case (Set_User u)
  with assms cleared_auth [of "auth s"] show ?thesis
    by (auto simp: signed_out_def hasLocalSession_def split: if_splits)
next
  case Lost_Connection
  with assms cleared_auth [of "auth s"] show ?thesis by (auto simp: signed_out_def split: if_splits)
qed (use assms in \<open>auto simp: flushPendingLogoutRevocations_def signed_out_def\<close>)

text \<open>Once a refresh has been called, its thread may be about to read the stored token.\<close>

definition calm :: "session_state \<Rightarrow> bool" where
  "calm s \<longleftrightarrow> auth s = clearSession (auth s) \<and>
     \<not> some_thread (\<lambda>th. loud (generation s) th \<and> (\<nexists>c. th_pc th = Refresh_Reading c)) (threads s)"

definition refresh_finds_token :: "session_input \<Rightarrow> nat \<Rightarrow> session_state \<Rightarrow> bool" where
  "refresh_finds_token i t s \<longleftrightarrow>
     (\<exists>th captured c cs. threads s t = Some th \<and> th_gen th = generation s \<and> th_pc th = Refresh_Reading captured \<and>
        readRefreshToken (in_read_ok i) captured (keys s) = Inr (Some (c # cs)))"

lemma signed_out_calm: "signed_out s \<Longrightarrow> calm s"
  by (auto simp: signed_out_def calm_def some_thread_def)

lemma calm_current:
  assumes "thread_step i t s = Some s'" and "threads s t = Some th" and "th_gen th = generation s"
    and "calm s" and "lock_ok s" and "\<not> refresh_finds_token i t s" and "\<nexists>c. th_pc th = Logout_Reading c"
  shows "calm s'"
proof (cases "\<exists>c. th_pc th = Refresh_Reading c")
  case True
  then obtain c where c: "th_pc th = Refresh_Reading c" by blast
  have token: "readRefreshToken (in_read_ok i) c (keys s) = Inr token \<Longrightarrow> token = None \<or> token = Some []" for token
    using assms(2,3,6) c by (cases token; cases "the token") (auto simp: refresh_finds_token_def)
  have "calm (finish t s)"
    using assms(4) some_split [of "threads s" t th "\<lambda>th. loud (generation s) th \<and> (\<nexists>c. th_pc th = Refresh_Reading c)",
      OF assms(2)] by (auto simp: calm_def loud_def assms(2))
  moreover have "signed_out (start_clear t (Suc (generation s)) True After_Nothing
      (beginSessionTransition s\<lparr>auth := clearSession (auth s)\<rparr>))"
    using loud_after_transition [OF assms(5), of "\<lparr>th_gen = Suc (generation s), th_pc = Clear_Waiting True After_Nothing\<rparr>" t]
    by (simp add: signed_out_def loud_def)
  ultimately show ?thesis
    using assms(1-3) c token signed_out_calm
    by (auto simp: thread_step_def refresh_step_def fail_origin_def invalidateAndClear_def Let_def
        split: sum.splits option.splits list.splits)
next
  case False
  have "quiet (th_pc th)" using assms(2-4) False by (auto simp: calm_def loud_def some_thread_def)
  with assms show ?thesis
    using some_split [of "threads s" t th "\<lambda>th. loud (generation s) th \<and> (\<nexists>c. th_pc th = Refresh_Reading c)",
      OF assms(2)]
    by (cases "th_pc th")
      (auto simp: thread_step_def clear_step_def Let_def after_clearing_def calm_def loud_def split: if_splits)
qed

lemma calm_event:
  assumes "handle_event e s = Some s'" and "until_sign_in e" and "calm s" and "lock_ok s"
    and "\<And>t i. e = Run t i \<Longrightarrow> \<not> refresh_finds_token i t s"
  shows "calm s'"
proof (cases e)
  case (Run t i)
  then obtain th where th: "threads s t = Some th" and st: "thread_step i t s = Some s'"
    using assms(1) by (auto simp: thread_step_def split: option.splits)
  consider (logout) c where "th_pc th = Logout_Reading c"
    | (current) "th_gen th = generation s" "\<nexists>c. th_pc th = Logout_Reading c"
    | (superseded) "th_gen th \<noteq> generation s" "\<forall>c. th_pc th \<noteq> Logout_Reading c" by blast
  then show ?thesis
  proof cases
    case logout
    with signed_out_logout th st assms(4) signed_out_calm show ?thesis by blast
  next
    case current
    with calm_current [OF st th _ assms(3,4)] assms(5) Run show ?thesis by blast
  next
    case superseded
    obtain pc where "threads s' = (threads s)(t \<mapsto> th\<lparr>th_pc := pc\<rparr>)"
      using superseded_threads [OF st th] superseded by blast
    with superseded_frame [OF st th] superseded assms(3) show ?thesis
      using some_split [of "threads s" t th "\<lambda>th. loud (generation s) th \<and> (\<nexists>c. th_pc th = Refresh_Reading c)", OF th]
      by (auto simp: calm_def loud_def)
  qed
next
  case Call_Clear_Local
  with assms signed_out_clear_local signed_out_calm show ?thesis by auto
next
  case Call_Logout
  with assms show ?thesis
    using fresh_thread [OF assms(4)] by (auto simp: logoutSession_def new_thread_def calm_def loud_def)
next
  case Call_Refresh
  with assms show ?thesis
    using fresh_thread [OF assms(4)]
    by (auto simp: refreshSession_def new_thread_def calm_def loud_def split: option.splits prod.splits if_splits)
next
  case Call_Resume
  have "au_status (auth s) = Anonymous" using assms(3) cleared_auth by (auto simp: calm_def)
  with Call_Resume assms show ?thesis by (auto simp: resumeOfflineSession_def)
next
  case (Run_Job answer ok)
  with assms job_step_frame [of answer ok s s'] show ?thesis by (auto simp: calm_def)
next
  case (Set_User u)
  with assms cleared_auth [of "auth s"] show ?thesis
    by (auto simp: calm_def hasLocalSession_def split: if_splits)
next
  case Lost_Connection
  with assms cleared_auth [of "auth s"] show ?thesis by (auto simp: calm_def split: if_splits)
qed (use assms in \<open>auto simp: flushPendingLogoutRevocations_def calm_def\<close>)

lemma session_run_snoc:
  "session_run (es @ [e]) s = (case session_run es s of None \<Rightarrow> None | Some s' \<Rightarrow> handle_event e s')"
  by (induction es arbitrary: s) (auto split: option.split)

lemma lock_ok_run: "session_run es s = Some s' \<Longrightarrow> lock_ok s \<Longrightarrow> lock_ok s'"
  by (induction es arbitrary: s) (auto split: option.splits dest: lock_ok_event)

text \<open>The step of a run at which a refresh that was called in the run finds a token.\<close>

definition escapes :: "session_state \<Rightarrow> session_event list \<Rightarrow> bool" where
  "escapes s1 es \<longleftrightarrow>
     (\<exists>before t i later s. es = before @ Run t i # later \<and> Call_Refresh \<in> set before \<and>
        session_run before s1 = Some s \<and> au_status (auth s) = Anonymous \<and> refresh_finds_token i t s)"

lemma calm_run:
  assumes "signed_out s1" and "lock_ok s1"
  shows "session_run es s1 = Some s2 \<Longrightarrow> \<forall>e \<in> set es. until_sign_in e \<Longrightarrow>
    signed_out s2 \<or> Call_Refresh \<in> set es \<and> calm s2 \<or> escapes s1 es"
proof (induction es arbitrary: s2 rule: rev_induct)
  case Nil
  then show ?case using assms(1) by simp
next
  case (snoc e es)
  then obtain s where s: "session_run es s1 = Some s" "handle_event e s = Some s2"
    by (auto simp: session_run_snoc split: option.splits)
  have ok: "lock_ok s" using lock_ok_run [OF s(1) assms(2)] .
  from snoc s(1) consider (out) "signed_out s" | (calm) "Call_Refresh \<in> set es" "calm s" | (escaped) "escapes s1 es"
    by auto
  then show ?case
  proof cases
    case out
    show ?thesis
    proof (cases "e = Call_Refresh")
      case True
      with out s(2) ok snoc.prems(2) signed_out_calm calm_event [of e s s2] show ?thesis by auto
    next
      case False
      with out s(2) ok snoc.prems(2) signed_out_event [of e s s2] show ?thesis by auto
    qed
  next
    case calm
    show ?thesis
    proof (cases "\<exists>t i. e = Run t i \<and> refresh_finds_token i t s")
      case True
      moreover have "au_status (auth s) = Anonymous" using calm(2) cleared_auth by (auto simp: calm_def)
      ultimately have "escapes s1 (es @ [e])" using calm(1) s(1) unfolding escapes_def by blast
      then show ?thesis by blast
    next
      case False
      with calm s(2) ok snoc.prems(2) calm_event [of e s s2] show ?thesis by auto
    qed
  next
    case escaped
    then obtain before t i later s where "es = before @ Run t i # later" "Call_Refresh \<in> set before"
      "session_run before s1 = Some s" "au_status (auth s) = Anonymous" "refresh_finds_token i t s"
      unfolding escapes_def by blast
    then have "escapes s1 (es @ [e])" unfolding escapes_def by (intro exI [of _ before]) auto
    then show ?thesis by blast
  qed
qed

text \<open>C8: A sign-out is final but for one way out. After \<open>clearLocalSession\<close>, or after the step of
  \<open>logoutSession\<close> that follows reading the token, at any moment of any interleaving, and whatever happens
  then, calls of a refresh included, until somebody signs in or a restore is started: the status stays
  anonymous with no token and no user, whatever the server and the keychain answer, unless a refresh that
  was itself called after the sign-out still finds a refresh token. No operation that was already running
  shows a session again.\<close>

theorem sign_out_is_final:
  assumes "session_reachable (\<lambda>_. True) (session_start ks a) s"
    and "s1 = clearLocalSession s \<or>
      (\<exists>t th c. threads s t = Some th \<and> th_pc th = Logout_Reading c \<and> thread_step i t s = Some s1)"
    and "session_run es s1 = Some s2" and "\<forall>e \<in> set es. until_sign_in e"
  shows "au_status (auth s2) = Anonymous \<and> au_token (auth s2) = None \<and> au_user (auth s2) = None \<or>
    (\<exists>before t i later s th captured c cs. es = before @ Run t i # later \<and> Call_Refresh \<in> set before \<and>
       session_run before s1 = Some s \<and> au_status (auth s) = Anonymous \<and>
       threads s t = Some th \<and> th_gen th = generation s \<and> th_pc th = Refresh_Reading captured \<and>
       readRefreshToken (in_read_ok i) captured (keys s) = Inr (Some (c # cs)))"
proof -
  have ok: "lock_ok s" using lock_ok_reachable [OF assms(1)] by simp
  have "lock_ok s1"
    using assms(2) lock_ok_event [of Call_Clear_Local s s1] lock_ok_thread_step ok by auto
  moreover have "signed_out s1"
    using assms(2) signed_out_clear_local [OF ok] signed_out_logout [OF ok] by auto
  ultimately consider "calm s2" | "escapes s1 es"
    using calm_run [OF _ _ assms(3,4)] signed_out_calm by blast
  then show ?thesis
  proof cases
    case 1
    then show ?thesis using cleared_auth by (auto simp: calm_def)
  next
    case 2
    then show ?thesis unfolding escapes_def refresh_finds_token_def by blast
  qed
qed

text \<open>A sign-out, then a refresh that is called at once and reads after the keychain has been emptied.\<close>

definition late_refresh :: "session_event list" where
  "late_refresh = [Run 0 all_ok, Run 0 all_ok, Call_Refresh, Run 1 all_ok]"

theorem sign_out_is_final_witness:
  "\<exists>s2. session_run late_refresh (clearLocalSession (session_start sample_keys_store True)) = Some s2 \<and>
     au_status (auth s2) = Anonymous \<and> au_token (auth s2) = None \<and> au_user (auth s2) = None"
proof -
  let ?s = "session_start sample_keys_store True"
  let ?s1 = "clearLocalSession ?s"
  have cleared: "session_run [Run 0 all_ok, Run 0 all_ok] ?s1 = Some sample_signed_out"
    using sample_signed_out_run by simp
  have called: "session_run [Run 0 all_ok, Run 0 all_ok, Call_Refresh] ?s1 = Some (refreshSession sample_signed_out)"
    using session_run_snoc [of "[Run 0 all_ok, Run 0 all_ok]" Call_Refresh ?s1]
    by (simp only: cleared append.simps option.case handle_event.simps)
  have "\<exists>s2. thread_step all_ok 1 (refreshSession sample_signed_out) = Some s2"
    by (simp add: refreshSession_def new_thread_def sample_signed_out_def thread_step_def refresh_step_def
        readRefreshToken_def all_ok_def)
  then obtain s2 where s2: "session_run late_refresh ?s1 = Some s2"
    using session_run_snoc [of "[Run 0 all_ok, Run 0 all_ok, Call_Refresh]" "Run 1 all_ok" ?s1]
    by (auto simp only: called append.simps option.case handle_event.simps late_refresh_def)
  have "\<forall>e \<in> set late_refresh. until_sign_in e" by (simp add: late_refresh_def)
  from sign_out_is_final [OF session_reachable.start disjI1 [OF refl] s2 this]
  have "au_status (auth s2) = Anonymous \<and> au_token (auth s2) = None \<and> au_user (auth s2) = None"
  proof
    assume "\<exists>before t i later s th captured c cs. late_refresh = before @ Run t i # later \<and> Call_Refresh \<in> set before \<and>
       session_run before ?s1 = Some s \<and> au_status (auth s) = Anonymous \<and>
       threads s t = Some th \<and> th_gen th = generation s \<and> th_pc th = Refresh_Reading captured \<and>
       readRefreshToken (in_read_ok i) captured (keys s) = Inr (Some (c # cs))"
    then obtain before t i later s th captured c cs where e: "late_refresh = before @ Run t i # later"
      "Call_Refresh \<in> set before" "session_run before ?s1 = Some s" "threads s t = Some th"
      "th_pc th = Refresh_Reading captured" "readRefreshToken (in_read_ok i) captured (keys s) = Inr (Some (c # cs))"
      by blast
    then have before: "before = [Run 0 all_ok, Run 0 all_ok, Call_Refresh]" "t = 1"
      by (auto simp: late_refresh_def Cons_eq_append_conv)
    have "s = refreshSession sample_signed_out" using e(3) by (simp only: before(1) called option.inject)
    with e(4,5) before(2) have "captured = None" "ss_refresh (keys s) = None"
      by (auto simp: refreshSession_def new_thread_def sample_signed_out_def)
    with e(6) have False by (simp add: readRefreshToken_def split: if_splits)
    then show ?thesis ..
  qed
  with s2 show ?thesis by blast
qed

text \<open>An operation of an older session changes nothing that is shown. A step of a thread whose
  generation is not the current one neither starts a transition nor shows a session: the
  generation stays, and the auth state stays as it is or is cleared.\<close>

theorem superseded_is_silent:
  assumes "thread_step i t s = Some s'" and "threads s t = Some th" and "th_gen th \<noteq> generation s"
    and "\<forall>c. th_pc th \<noteq> Logout_Reading c"
  shows "generation s' = generation s \<and> (auth s' = auth s \<or> auth s' = clearSession (auth s))"
  by (rule superseded_frame [OF assms])

theorem superseded_is_silent_witness:
  "\<exists>s'. thread_step all_ok 5 (sample_signed_out\<lparr>threads := (threads sample_signed_out)
       (5 \<mapsto> \<lparr>th_gen = 0, th_pc = Refresh_Asking ''token''\<rparr>)\<rparr>) = Some s' \<and> generation s' = 1 \<and>
     (auth s' = auth sample_signed_out \<or> auth s' = clearSession (auth sample_signed_out))"
proof -
  let ?s = "sample_signed_out\<lparr>threads := (threads sample_signed_out)
       (5 \<mapsto> \<lparr>th_gen = 0, th_pc = Refresh_Asking ''token''\<rparr>)\<rparr>"
  obtain s' where s': "thread_step all_ok 5 ?s = Some s'"
    by (simp add: thread_step_def refresh_step_def all_ok_def)
  then show ?thesis
    using superseded_is_silent [OF s'] by (auto simp: sample_signed_out_def)
qed

section \<open>One refresh at a time\<close>

fun refreshing :: "session_pc \<Rightarrow> bool" where
  "refreshing (Refresh_Reading c) = True"
| "refreshing (Refresh_Asking k) = True"
| "refreshing (Accept_Waiting r f) \<longleftrightarrow> f = From_Refresh"
| "refreshing (Accept_Superseded j f) \<longleftrightarrow> f = From_Refresh"
| "refreshing (Accept_Writing r p f) \<longleftrightarrow> f = From_Refresh"
| "refreshing (Accept_Write_Failed j f) \<longleftrightarrow> f = From_Refresh"
| "refreshing (Accept_Clearing f) \<longleftrightarrow> f = From_Refresh"
| "refreshing (Accept_Caching r p f) \<longleftrightarrow> f = From_Refresh"
| "refreshing (Accept_Uncaching r f) \<longleftrightarrow> f = From_Refresh"
| "refreshing (Accept_Rejecting j f) \<longleftrightarrow> f = From_Refresh"
| "refreshing (Accept_Rejected j f) \<longleftrightarrow> f = From_Refresh"
| "refreshing pc = False"

definition single :: "session_state \<Rightarrow> bool" where
  "single s \<longleftrightarrow> (\<forall>t th. threads s t = Some th \<longrightarrow> refreshing (th_pc th) \<longrightarrow> th_gen th = generation s \<longrightarrow>
     in_flight s = Some (generation s, t))"

definition single_without :: "nat \<Rightarrow> session_state \<Rightarrow> bool" where
  "single_without t s \<longleftrightarrow> (\<exists>th. threads s t = Some th) \<and> (\<forall>t' th. threads s t' = Some th \<longrightarrow> th_gen th \<noteq> Suc (generation s)) \<and>
     (\<forall>t' th. t' \<noteq> t \<longrightarrow> threads s t' = Some th \<longrightarrow> refreshing (th_pc th) \<longrightarrow> th_gen th = generation s \<longrightarrow>
     in_flight s = Some (generation s, t'))"

lemma single_without_intro: "single s \<Longrightarrow> lock_ok s \<Longrightarrow> threads s t = Some th \<Longrightarrow> single_without t s"
  using thread_gen_le [of s] by (force simp: single_def single_without_def)

lemma single_without_frame [simp]:
  "single_without t (s\<lparr>auth := a\<rparr>) = single_without t s" "single_without t (s\<lparr>keys := k\<rparr>) = single_without t s"
  "single_without t (release t' s) = single_without t s" "single_without t (s\<lparr>persistent := p\<rparr>) = single_without t s"
  "single_without t (remove_stored i d s) = single_without t s" "single_without t (add_job j s) = single_without t s"
  "single_without t (s\<lparr>credential := c\<rparr>) = single_without t s"
  by (simp_all add: single_without_def)

lemma single_frame [simp]: "single (add_job j s) = single s" by (simp add: single_def)

lemma single_finish: "single_without t s \<Longrightarrow> single (finish t s)"
  by (auto simp: single_without_def single_def split: if_splits option.splits)

lemma single_go: "single_without t s \<Longrightarrow> \<not> refreshing pc \<Longrightarrow> single (go_to t pc s)"
  by (auto simp: single_without_def single_def split: if_splits)

lemma single_keep:
  "single_without t s \<Longrightarrow> threads s t = Some th \<Longrightarrow>
   (th_gen th = generation s \<longrightarrow> in_flight s = Some (generation s, t)) \<or> \<not> refreshing pc \<Longrightarrow> single (go_to t pc s)"
  by (auto simp: single_without_def single_def split: if_splits)

lemma single_clear: "single_without t s \<Longrightarrow> single (start_clear t g d a s)"
  by (auto simp: single_without_def single_def split: if_splits)

lemma single_invalidate: "single_without t s \<Longrightarrow> single (invalidateAndClear t g s)"
  by (auto simp: invalidateAndClear_def Let_def single_finish)
    (auto simp: single_without_def single_def split: if_splits)

lemma single_fail: "single_without t s \<Longrightarrow> single (fail_origin t g from e s)"
  by (auto simp: fail_origin_def single_invalidate intro!: single_finish
      split: origin.splits option.splits prod.splits)

lemma single_start_accept:
  "single_without t s \<Longrightarrow> threads s t = Some th \<Longrightarrow>
   (th_gen th = generation s \<longrightarrow> in_flight s = Some (generation s, t)) \<or> from \<noteq> From_Refresh \<Longrightarrow>
   single (start_accept t r from s)"
  by (cases r) (auto simp: start_accept_def single_fail intro!: single_keep [where th = th])

lemma single_after: "single_without t s \<Longrightarrow> single (after_clearing t a s)"
  by (auto simp: after_clearing_def single_finish intro!: single_go split: after_clear.splits)

lemma single_thread_step:
  assumes "thread_step i t s = Some s'" and "lock_ok s" and "single s"
  shows "single s'"
proof -
  obtain th where th: "threads s t = Some th" using assms(1) by (auto simp: thread_step_def split: option.splits)
  note w = single_without_intro [OF assms(3,2) th]
  have r: "refreshing (th_pc th) \<Longrightarrow> th_gen th = generation s \<Longrightarrow> in_flight s = Some (generation s, t)"
    using assms(3) th by (auto simp: single_def)
  have tr: "single (start_clear t g d a (beginSessionTransition s\<lparr>auth := x\<rparr>))" for g d a x
    using w by (auto simp: single_without_def single_def split: if_splits)
  show ?thesis
    using assms(1) th w r tr
    by (cases "th_pc th")
      (auto simp: step_defs Let_def accepted_def rejectSupersededSession_def
        intro!: single_finish single_fail single_invalidate single_after single_start_accept [OF _ th]
          single_keep [where th = th] intro: single_clear
        split: if_splits option.splits sum.splits prod.splits list.splits reply.splits origin.splits)
qed

lemma single_new:
  "single s \<Longrightarrow> lock_ok s \<Longrightarrow> \<not> refreshing (th_pc th) \<Longrightarrow> single (new_thread th s)"
  using fresh_id [of s] by (auto simp: single_def new_thread_def split: if_splits)

lemma single_transition:
  assumes "lock_ok s" and "threads s' = (threads s)(t \<mapsto> th)" and "\<not> refreshing (th_pc th)"
    and "generation s' = Suc (generation s)"
  shows "single s'"
proof -
  have "th_gen th' \<noteq> Suc (generation s)" if "threads s t' = Some th'" for t' th'
    using thread_gen_le [OF assms(1) that] by simp
  with assms show ?thesis by (auto simp: single_def split: if_splits)
qed

lemma single_refresh:
  assumes "single s" and "lock_ok s"
  shows "single (refreshSession s)"
proof (cases "case in_flight s of Some (g, _) \<Rightarrow> g = generation s | None \<Rightarrow> False")
  case True
  with assms show ?thesis by (simp add: refreshSession_def)
next
  case False
  with assms(1) have "\<And>t th. threads s t = Some th \<Longrightarrow> refreshing (th_pc th) \<Longrightarrow> th_gen th \<noteq> generation s"
    unfolding single_def by fastforce
  with False show ?thesis by (auto simp: refreshSession_def single_def new_thread_def split: if_splits)
qed

lemma single_event:
  assumes "handle_event e s = Some s'" and "lock_ok s" and "single s"
  shows "single s'"
proof (cases e)
  case Call_Hydrate
  with assms show ?thesis
    by (auto simp: hydrateSession_def Let_def new_thread_def intro!: single_transition [OF assms(2)])
next
  case (Call_Sign_In r)
  with assms show ?thesis
    by (auto simp: beginAuthentication_def Let_def intro!: single_transition [OF assms(2)])
next
  case Call_Clear_Local
  with assms show ?thesis
    by (auto simp: clearLocalSession_def Let_def intro!: single_transition [OF assms(2)])
next
  case Call_Resume
  with assms single_refresh show ?thesis by (auto simp: resumeOfflineSession_def)
next
  case (Run_Job answer ok)
  with assms job_step_frame [of answer ok s s'] show ?thesis by (auto simp: single_def)
next
  case (Set_User u)
  with assms show ?thesis by (auto simp: single_def split: if_splits)
next
  case Lost_Connection
  with assms show ?thesis by (auto simp: single_def split: if_splits)
qed (use assms in \<open>auto simp: flushPendingLogoutRevocations_def logoutSession_def
      intro: single_refresh single_new single_thread_step\<close>)

text \<open>C10: A session refreshes its token once at a time. In every reachable state at most one call is
  anywhere between reading the refresh token and accepting the answer for the current
  generation, so no rotated token is ever presented twice by concurrent refreshes; and a call of
  \<open>refreshSession\<close> while one is under way joins it and starts nothing.\<close>

theorem one_refresh_at_a_time:
  assumes "session_reachable (\<lambda>_. True) (session_start ks a) s"
    and "threads s t = Some th" and "refreshing (th_pc th)" and "th_gen th = generation s"
  shows "refreshSession s = s \<and>
    (\<forall>t' th'. threads s t' = Some th' \<longrightarrow> refreshing (th_pc th') \<longrightarrow> th_gen th' = generation s \<longrightarrow> t' = t)"
proof -
  have "lock_ok s \<and> single s"
    using assms(1)
  proof (induction rule: session_reachable.induct)
    case start
    then show ?case by (simp add: single_def session_start_def)
      (simp add: lock_ok_def lock_inv_def)
  next
    case (step s e s')
    then show ?case using lock_ok_event single_event by blast
  qed
  then have fl: "\<And>t th. threads s t = Some th \<Longrightarrow> refreshing (th_pc th) \<Longrightarrow> th_gen th = generation s \<Longrightarrow>
      in_flight s = Some (generation s, t)"
    by (simp add: single_def)
  show ?thesis
    using fl [OF assms(2-4)] fl by (simp add: refreshSession_def)
qed

theorem one_refresh_at_a_time_witness:
  "refreshSession (refreshSession (session_start sample_keys_store True)) =
   refreshSession (session_start sample_keys_store True)"
proof (rule one_refresh_at_a_time [THEN conjunct1])
  show "session_reachable (\<lambda>_. True) (session_start sample_keys_store True)
      (refreshSession (session_start sample_keys_store True))"
    by (rule session_reachable.step [OF session_reachable.start, where e = Call_Refresh]) auto
qed (auto simp: refreshSession_def new_thread_def session_start_def)

section \<open>Why the callers of a refresh look at the status\<close>

definition sample_answer :: session_input where
  "sample_answer = all_ok\<lparr>in_reply := Answer (Some \<lparr>ar_access_token = ''access'', ar_refresh_token = ''next'',
     ar_user = JNull\<rparr>)\<rparr>"

lemmas refresh_run_simps = run_simps sample_answer_def refreshSession_def new_thread_def refresh_step_def
  readRefreshToken_def start_accept_def accept_step_def writeRefreshToken_call_def writeRefreshToken_done_def
  writeCachedSession_def accepted_def setSession_def

text \<open>The way out is real: \<open>refreshSession\<close> does not look at the status, so a call made after a sign-out, while
  the stored token has not been removed yet, signs the device in again: there is a run in which
  \<open>clearLocalSession\<close> is followed by nothing but a refresh, and which ends authenticated. Whether it
  happens rests on the callers, and lib/events.ts calls it on a 401 without looking at the status.\<close>

theorem unguarded_refresh_reopens:
  "\<exists>s. session_run [Call_Clear_Local, Call_Refresh, Run 1 all_ok, Run 1 sample_answer, Run 0 all_ok,
      Run 0 all_ok, Run 1 all_ok, Run 1 all_ok, Run 1 all_ok] (session_start sample_keys_store True) = Some s \<and>
    au_status (auth s) = Authenticated \<and> ss_refresh (keys s) = Some ''next''"
  by (simp add: refresh_run_simps)

section \<open>Revocations\<close>

text \<open>A refresh token waiting to be revoked is not lost to an unreachable server. Queueing a token of
  the right form makes it pending; a flush removes exactly the pending tokens the server accepted
  or refused for good before the first answer that says to retry; and at most five wait at once.\<close>

theorem logout_revocations_kept:
  "set (pending_logouts (flush_loop removePendingLogoutRevocation (\<lambda>t. t) answer (pending_logouts s) s)) =
     set (pending_logouts s) - set (settled answer (pending_logouts s)) \<and>
   length (pending_logouts s) \<le> MAX_LOGOUT_REVOCATIONS \<and>
   set (pending_logouts (queueLogoutRevocation t s)) \<subseteq> insert t (set (pending_logouts s)) \<and>
   is_refresh_token t = (t \<in> set (pending_logouts (queueLogoutRevocation t s)))"
proof (intro conjI)
  show "set (pending_logouts (queueLogoutRevocation t s)) \<subseteq> insert t (set (pending_logouts s))"
    using logouts.enqueue_old by blast
  show "is_refresh_token t = (t \<in> set (pending_logouts (queueLogoutRevocation t s)))"
    using logouts.enqueue_in logouts.pending_valid by blast
qed (auto simp: logouts.flush_pending logouts.pending_bound)

end
