(* ===== verification/Release_Store.thy ===== *)
theory Release_Store
  imports Revocations
begin

text \<open>
  \<open>lib/secure-release-notifications.ts\<close>: the preference of the device for release alerts and the push
  registrations still to be revoked on the server.

  \<open>uuid\<close> is the identifier check of the schema library, a parameter. A stored value is what the
  schema makes of it: absent, unreadable, or parsed. Every exported function runs alone under
  \<open>storageTail\<close>, so each is one function on the store.
\<close>

definition token_char :: "char \<Rightarrow> bool" where
  "token_char c \<longleftrightarrow> (let n = char_code c in
     48 \<le> n \<and> n \<le> 57 \<or> 65 \<le> n \<and> n \<le> 90 \<or> 97 \<le> n \<and> n \<le> 122 \<or> n = 95 \<or> n = 45)"

text \<open>\<open>/^Expo(?:nent)?PushToken\\[[A-Za-z0-9_-]{10,200}\\]$/\<close>: the inner part between one of the two
  openings and the closing bracket.\<close>

definition inner_token :: "string \<Rightarrow> string \<Rightarrow> string option" where
  "inner_token opening s =
     (if take (length opening) s = opening \<and> s \<noteq> [] \<and> last s = CHR '']'' \<and> length s > length opening
      then Some (butlast (drop (length opening) s)) else None)"

definition is_push_token :: "string \<Rightarrow> bool" where
  "is_push_token s \<longleftrightarrow>
     (\<exists>opening \<in> {''ExpoPushToken['', ''ExponentPushToken[''}.
        case inner_token opening s of None \<Rightarrow> False
        | Some t \<Rightarrow> 10 \<le> length t \<and> length t \<le> 200 \<and> list_all token_char t)"

definition is_unregister_secret :: "string \<Rightarrow> bool" where
  "is_unregister_secret s \<longleftrightarrow> length s = 64 \<and> list_all (\<lambda>c. is_hex c \<and> lower_char c = c) s"

record release_preference =
  rp_owner_id :: string
  rp_unregister_secret :: string
  rp_expo_push_token :: "string option"
  rp_server_registered :: bool

record push_revocation =
  pr_expo_push_token :: string
  pr_unregister_secret :: string

definition preference_ok :: "(string \<Rightarrow> bool) \<Rightarrow> release_preference \<Rightarrow> bool" where
  "preference_ok uuid p \<longleftrightarrow> uuid (rp_owner_id p) \<and> is_unregister_secret (rp_unregister_secret p) \<and>
     (case rp_expo_push_token p of None \<Rightarrow> True | Some t \<Rightarrow> is_push_token t)"

definition revocation_ok :: "push_revocation \<Rightarrow> bool" where
  "revocation_ok r \<longleftrightarrow> is_push_token (pr_expo_push_token r) \<and> is_unregister_secret (pr_unregister_secret r)"

definition MAX_PENDING_REVOCATIONS :: nat where "MAX_PENDING_REVOCATIONS = 5"

text \<open>An element of the stored array the schema rejects is \<open>None\<close>.\<close>

datatype stored_preference = No_Preference | Bad_Preference | Preference release_preference
datatype stored_revocations = No_Revocations | Bad_Revocations | Revocations "push_revocation option list"

record release_store =
  rs_preference :: stored_preference
  rs_revocations :: stored_revocations

definition readPreferenceUnlocked ::
  "(string \<Rightarrow> bool) \<Rightarrow> release_store \<Rightarrow> release_preference option \<times> release_store" where
  "readPreferenceUnlocked uuid s =
     (case rs_preference s of
        No_Preference \<Rightarrow> (None, s)
      | Bad_Preference \<Rightarrow> (None, s\<lparr>rs_preference := No_Preference\<rparr>)
      | Preference p \<Rightarrow> if preference_ok uuid p then (Some p, s) else (None, s\<lparr>rs_preference := No_Preference\<rparr>))"

definition writePreferenceUnlocked ::
  "(string \<Rightarrow> bool) \<Rightarrow> release_preference option \<Rightarrow> release_store \<Rightarrow> unit + release_store" where
  "writePreferenceUnlocked uuid preference s =
     (case preference of
        None \<Rightarrow> Inr (s\<lparr>rs_preference := No_Preference\<rparr>)
      | Some p \<Rightarrow> if preference_ok uuid p then Inr (s\<lparr>rs_preference := Preference p\<rparr>) else Inl ())"

definition parsed_revocations :: "push_revocation option list \<Rightarrow> push_revocation list" where
  "parsed_revocations vs =
     concat (map (\<lambda>v. case v of None \<Rightarrow> [] | Some r \<Rightarrow> if revocation_ok r then [r] else []) vs)"

definition readRevocationsUnlocked :: "release_store \<Rightarrow> push_revocation list \<times> release_store" where
  "readRevocationsUnlocked s =
     (case rs_revocations s of
        No_Revocations \<Rightarrow> ([], s)
      | Bad_Revocations \<Rightarrow> ([], s\<lparr>rs_revocations := No_Revocations\<rparr>)
      | Revocations vs \<Rightarrow> (take_last MAX_PENDING_REVOCATIONS (parsed_revocations vs), s))"

definition writeRevocationsUnlocked :: "push_revocation list \<Rightarrow> release_store \<Rightarrow> unit + release_store" where
  "writeRevocationsUnlocked revocations s =
     (if revocations = [] then Inr (s\<lparr>rs_revocations := No_Revocations\<rparr>)
      else if list_all revocation_ok revocations
      then Inr (s\<lparr>rs_revocations := Revocations (map Some (take_last MAX_PENDING_REVOCATIONS revocations))\<rparr>)
      else Inl ())"

definition queueRevocationUnlocked :: "push_revocation \<Rightarrow> release_store \<Rightarrow> unit + release_store" where
  "queueRevocationUnlocked r s =
     (if \<not> revocation_ok r then Inl ()
      else case readRevocationsUnlocked s of (existing, s') \<Rightarrow>
        writeRevocationsUnlocked
          (filter (\<lambda>e. pr_expo_push_token e \<noteq> pr_expo_push_token r) existing @ [r]) s')"

definition removePendingPushRevocation :: "string \<Rightarrow> release_store \<Rightarrow> unit + release_store" where
  "removePendingPushRevocation token s =
     (case readRevocationsUnlocked s of (existing, s') \<Rightarrow>
        writeRevocationsUnlocked (filter (\<lambda>e. pr_expo_push_token e \<noteq> token) existing) s')"

definition detachStoredReleaseNotifications ::
  "(string \<Rightarrow> bool) \<Rightarrow> string option \<Rightarrow> release_store \<Rightarrow> unit + bool \<times> release_store" where
  "detachStoredReleaseNotifications uuid ownerId s =
     (case readPreferenceUnlocked uuid s of
        (None, s') \<Rightarrow> Inr (False, s')
      | (Some p, s') \<Rightarrow>
          if (case ownerId of Some (c # cs) \<Rightarrow> rp_owner_id p \<noteq> c # cs | _ \<Rightarrow> False) then Inr (False, s')
          else bindE (case rp_expo_push_token p of
                        None \<Rightarrow> Inr s'
                      | Some t \<Rightarrow> queueRevocationUnlocked
                          \<lparr>pr_expo_push_token = t, pr_unregister_secret = rp_unregister_secret p\<rparr> s')
                 (\<lambda>s2. bindE (writePreferenceUnlocked uuid None s2) (\<lambda>s3. Inr (True, s3))))"

section \<open>It is a revocation queue\<close>

definition pending_pushes :: "release_store \<Rightarrow> push_revocation list" where
  "pending_pushes s = fst (readRevocationsUnlocked s)"

text \<open>The store after a call, unchanged when the call throws.\<close>

definition after_call :: "release_store \<Rightarrow> unit + release_store \<Rightarrow> release_store" where
  "after_call s r = (case r of Inl _ \<Rightarrow> s | Inr s' \<Rightarrow> s')"

definition queue_push :: "push_revocation \<Rightarrow> release_store \<Rightarrow> release_store" where
  "queue_push r s = after_call s (queueRevocationUnlocked r s)"

definition remove_push :: "string \<Rightarrow> release_store \<Rightarrow> release_store" where
  "remove_push t s = after_call s (removePendingPushRevocation t s)"

lemma parsed_Some: "list_all revocation_ok rs \<Longrightarrow> parsed_revocations (map Some rs) = rs"
  by (induction rs) (auto simp: parsed_revocations_def)

lemma pending_pushes_ok: "r \<in> set (pending_pushes s) \<Longrightarrow> revocation_ok r"
  by (auto simp: pending_pushes_def readRevocationsUnlocked_def parsed_revocations_def
      dest!: in_set_take_lastD split: stored_revocations.splits option.splits if_splits)

lemma pending_pushes_bound: "length (pending_pushes s) \<le> MAX_PENDING_REVOCATIONS"
  by (auto simp: pending_pushes_def readRevocationsUnlocked_def split: stored_revocations.splits)

lemma list_all_take_last: "list_all P xs \<Longrightarrow> list_all P (take_last n xs)"
  by (auto simp: list_all_iff dest: in_set_take_lastD)

lemma write_pushes:
  "list_all revocation_ok rs \<Longrightarrow>
   \<exists>s'. writeRevocationsUnlocked rs s = Inr s' \<and> pending_pushes s' = take_last MAX_PENDING_REVOCATIONS rs \<and>
     rs_preference s' = rs_preference s"
  by (auto simp: writeRevocationsUnlocked_def pending_pushes_def readRevocationsUnlocked_def parsed_Some
      list_all_take_last take_last_short)

lemma read_pushes: "pending_pushes (snd (readRevocationsUnlocked s)) = pending_pushes s \<and>
    rs_preference (snd (readRevocationsUnlocked s)) = rs_preference s"
  by (auto simp: pending_pushes_def readRevocationsUnlocked_def split: stored_revocations.splits)

lemma remove_push_spec:
  "pending_pushes (remove_push t s) = filter (\<lambda>e. pr_expo_push_token e \<noteq> t) (pending_pushes s)"
proof -
  let ?rs = "filter (\<lambda>e. pr_expo_push_token e \<noteq> t) (pending_pushes s)"
  have "list_all revocation_ok ?rs" using pending_pushes_ok by (auto simp: list_all_iff)
  then obtain s' where "writeRevocationsUnlocked ?rs (snd (readRevocationsUnlocked s)) = Inr s'"
    "pending_pushes s' = take_last MAX_PENDING_REVOCATIONS ?rs"
    using write_pushes by blast
  moreover have "take_last MAX_PENDING_REVOCATIONS ?rs = ?rs"
    using pending_pushes_bound [of s] length_filter_le [of _ "pending_pushes s"]
    by (intro take_last_short) (meson order_trans)
  ultimately show ?thesis
    by (simp add: remove_push_def removePendingPushRevocation_def case_prod_beta after_call_def
        flip: pending_pushes_def)
qed

lemma queue_push_spec:
  assumes "revocation_ok r"
  shows "pending_pushes (queue_push r s) = take_last MAX_PENDING_REVOCATIONS
      (filter (\<lambda>e. pr_expo_push_token e \<noteq> pr_expo_push_token r) (pending_pushes s) @ [r])"
    and "rs_preference (queue_push r s) = rs_preference s"
    and "\<exists>s'. queueRevocationUnlocked r s = Inr s'"
proof -
  let ?rs = "filter (\<lambda>e. pr_expo_push_token e \<noteq> pr_expo_push_token r) (pending_pushes s) @ [r]"
  have "list_all revocation_ok ?rs" using pending_pushes_ok assms by (auto simp: list_all_iff)
  then obtain s' where s': "writeRevocationsUnlocked ?rs (snd (readRevocationsUnlocked s)) = Inr s'"
    "pending_pushes s' = take_last MAX_PENDING_REVOCATIONS ?rs" "rs_preference s' = rs_preference s"
    using write_pushes read_pushes [of s] by metis
  then have q: "queueRevocationUnlocked r s = Inr s'"
    using assms by (simp add: queueRevocationUnlocked_def case_prod_beta flip: pending_pushes_def)
  show "pending_pushes (queue_push r s) = take_last MAX_PENDING_REVOCATIONS ?rs"
    and "rs_preference (queue_push r s) = rs_preference s" and "\<exists>s'. queueRevocationUnlocked r s = Inr s'"
    using s' by (simp_all add: queue_push_def q after_call_def)
qed

lemma queue_push_invalid: "\<not> revocation_ok r \<Longrightarrow> queue_push r s = s"
  by (simp add: queue_push_def queueRevocationUnlocked_def after_call_def)

interpretation pushes: revocation_queue pending_pushes queue_push remove_push pr_expo_push_token
  revocation_ok MAX_PENDING_REVOCATIONS
proof unfold_locales
  fix e x s
  show "revocation_ok e \<Longrightarrow> e \<in> set (pending_pushes (queue_push e s))"
    by (simp add: queue_push_spec last_in_take_last MAX_PENDING_REVOCATIONS_def)
  show "x = e \<or> x \<in> set (pending_pushes s)" if "x \<in> set (pending_pushes (queue_push e s))"
    using that by (cases "revocation_ok e")
      (auto simp: queue_push_spec queue_push_invalid dest!: in_set_take_lastD)
qed (auto simp: remove_push_spec pending_pushes_ok pending_pushes_bound)

end
