(* ===== verification/Release_Sync.thy ===== *)
theory Release_Sync
  imports Release_Store
begin

text \<open>
  \<open>lib/release-notifications.ts\<close>: opening a notification, and the protocol that keeps the push
  registration of the device in step with the signed-in account.

  \<open>operationTail\<close> runs one operation at a time, but a sign-out may detach the stored preference at
  any \<open>await\<close>. An operation is therefore a program counter and a step per \<open>await\<close>, with the detach
  of a sign-out as an event between steps. The platform, the push service and the server are
  inputs. A flush between two awaits is part of the step before it.
\<close>

section \<open>Opening a notification\<close>

definition MAX_TMDB_ID :: rat where "MAX_TMDB_ID = 2147483647"

text \<open>The route is the identifier and the media type.\<close>

definition releaseNotificationRoute :: "json option \<Rightarrow> (rat \<times> string) option" where
  "releaseNotificationRoute data =
     (case data of
        None \<Rightarrow> None
      | Some d \<Rightarrow>
          if json_prop d ''kind'' \<noteq> Some (JStr ''release'') then None
          else if json_prop d ''media_type'' \<noteq> Some (JStr ''movie'') \<and>
                  json_prop d ''media_type'' \<noteq> Some (JStr ''tv'') then None
          else if \<not> is_number (json_prop d ''tmdb_id'') then None
          else let q = the_number (json_prop d ''tmdb_id'') in
               if \<not> is_safe_integer q \<or> q \<le> 0 \<or> q > MAX_TMDB_ID then None
               else Some (q, the_string (json_prop d ''media_type'')))"

section \<open>The operations\<close>

datatype permission = Granted | Denied | Undetermined | No_Permission_Api



definition flushRevocations :: "(push_revocation \<Rightarrow> net_outcome) \<Rightarrow> release_store \<Rightarrow> release_store" where
  "flushRevocations answer s =
     flush_loop remove_push pr_expo_push_token answer (pending_pushes s) s"









section \<open>No registration is forgotten\<close>

text \<open>The tokens the device still knows how to unregister: the one of the preference and those of the
  queue.\<close>

definition valid_preference :: "(string \<Rightarrow> bool) \<Rightarrow> release_store \<Rightarrow> release_preference option" where
  "valid_preference uuid s =
     (case rs_preference s of Preference p \<Rightarrow> if preference_ok uuid p then Some p else None | _ \<Rightarrow> None)"


lemma pending_preference [simp]: "pending_pushes (s\<lparr>rs_preference := p\<rparr>) = pending_pushes s"
  by (simp add: pending_pushes_def readRevocationsUnlocked_def split: stored_revocations.splits)

lemma preference_remove_push [simp]: "rs_preference (remove_push t s) = rs_preference s"
proof -
  have "list_all revocation_ok (filter (\<lambda>e. pr_expo_push_token e \<noteq> t) (pending_pushes s))"
    using pending_pushes_ok by (auto simp: list_all_iff)
  then show ?thesis
    using write_pushes [of "filter (\<lambda>e. pr_expo_push_token e \<noteq> t) (pending_pushes s)" "snd (readRevocationsUnlocked s)"]
      read_pushes [of s]
    by (auto simp: remove_push_def removePendingPushRevocation_def case_prod_beta after_call_def
        simp flip: pending_pushes_def)
qed

lemma preference_flush_loop:
  "rs_preference (flush_loop remove_push key answer es s) = rs_preference s"
  by (induction es arbitrary: s) auto

lemma preference_flush [simp]: "rs_preference (flushRevocations answer s) = rs_preference s"
  by (simp add: flushRevocations_def preference_flush_loop)











section \<open>The claims\<close>









lemma valid_flush [simp]: "valid_preference uuid (flushRevocations answer s) = valid_preference uuid s"
  by (simp add: valid_preference_def)









text \<open>Opening a notification never leads to a media page that cannot exist: a route is made exactly
  for a release of a film or a series with a positive whole identifier that fits the 32-bit
  column of the server.\<close>

theorem notification_route_valid:
  "releaseNotificationRoute (Some d) = Some (q, media) \<longleftrightarrow>
   json_prop d ''kind'' = Some (JStr ''release'') \<and> json_prop d ''media_type'' = Some (JStr media) \<and>
   media \<in> {''movie'', ''tv''} \<and> json_prop d ''tmdb_id'' = Some (JNum q) \<and> is_integer q \<and> 0 < q \<and> q < 2 ^ 31"
proof -
  have "is_integer q \<Longrightarrow> q < 2 ^ 31 \<Longrightarrow> q \<le> MAX_TMDB_ID"
  proof -
    assume "is_integer q" and q: "q < 2 ^ 31"
    then obtain n d where nd: "quotient_of q = (n, d)" "d = 1" by (cases "quotient_of q") (auto simp: is_integer_def)
    then have "q = of_int n" using quotient_of_div [OF nd(1)] by simp
    with q have "n < 2 ^ 31" by (metis of_int_less_iff of_int_numeral of_int_power)
    then show "q \<le> MAX_TMDB_ID" using \<open>q = of_int n\<close> by (simp add: MAX_TMDB_ID_def)
  qed
  then show ?thesis
    by (auto simp: releaseNotificationRoute_def Let_def is_number_iff is_safe_integer_def MAX_TMDB_ID_def
        split: if_splits)
qed

end
