(* ===== verification/Feed_Paging.thy ===== *)
theory Feed_Paging
  imports Feeds
begin

text \<open>
  Following the page cursors to the end. \<open>load_pages\<close> asks for pages the way the infinite queries
  of \<open>hooks/use-notifications.ts\<close> and \<open>hooks/use-messages.ts\<close> do, until the cursor function of the
  list answers \<open>undefined\<close>. The server side is the query of the backend's handlers: rows strictly
  below the cursor in the order (time, id), newest first, at most the page limit.
\<close>

section \<open>Positions\<close>

datatype feed_position = Feed_Position (fp_time: int) (fp_id: string)

instantiation feed_position :: linorder
begin

definition less_feed_position :: "feed_position \<Rightarrow> feed_position \<Rightarrow> bool" where
  "less_feed_position a b \<longleftrightarrow> fp_time a < fp_time b \<or> (fp_time a = fp_time b \<and> fp_id a < fp_id b)"

definition less_eq_feed_position :: "feed_position \<Rightarrow> feed_position \<Rightarrow> bool" where
  "less_eq_feed_position a b \<longleftrightarrow> fp_time a < fp_time b \<or> (fp_time a = fp_time b \<and> fp_id a \<le> fp_id b)"

instance
  by intro_classes
     (auto simp: less_feed_position_def less_eq_feed_position_def intro: feed_position.expand)

end

section \<open>Loading every page\<close>

text \<open>The \<open>k\<close>-th request with cursor \<open>c\<close> gives \<open>fetch k c\<close>: the stored rows may change between
  requests.\<close>

fun load_pages :: "nat \<Rightarrow> (nat \<Rightarrow> 'c option \<Rightarrow> 'p) \<Rightarrow> ('p \<Rightarrow> 'c option) \<Rightarrow> nat \<Rightarrow> 'c option \<Rightarrow> 'p list option"
where
  "load_pages 0 fetch getNext k c = None"
| "load_pages (Suc fuel) fetch getNext k c =
     (let page = fetch k c
      in case getNext page of
           None \<Rightarrow> Some [page]
         | Some c' \<Rightarrow> map_option ((#) page) (load_pages fuel fetch getNext (Suc k) (Some c')))"

definition below :: "('c \<Rightarrow> 'o::linorder) \<Rightarrow> 'c option \<Rightarrow> 'o list \<Rightarrow> 'o list" where
  "below place c P = (case c of None \<Rightarrow> P | Some cu \<Rightarrow> filter (\<lambda>p. p < place cu) P)"

lemma filter_below_sorted:
  fixes x :: "'o::linorder"
  assumes "sorted_wrt (\<lambda>a b. b < a) (A @ x # B)"
  shows "filter (\<lambda>p. p < x) (A @ x # B) = B"
proof -
  from assms have "\<forall>p \<in> set A. x < p" and "\<forall>p \<in> set B. p < x"
    by (simp_all add: sorted_wrt_append)
  then have "filter (\<lambda>p. p < x) A = []" and "filter (\<lambda>p. p < x) B = B"
    by (auto simp: filter_empty_conv dest: order.asym)
  then show ?thesis by simp
qed

lemma below_last_taken:
  fixes R Q :: "'o::linorder list"
  assumes "sorted_wrt (\<lambda>a b. b < a) (R @ Q)" and "take n Q \<noteq> []"
  shows "filter (\<lambda>p. p < last (take n Q)) (R @ Q) = drop n Q"
proof -
  obtain T x where t: "take n Q = T @ [x]"
    using assms(2) by (metis append_butlast_last_id)
  then have q: "R @ Q = (R @ T) @ x # drop n Q"
    by (metis append.assoc append_Cons append_Nil append_take_drop_id)
  show ?thesis
    using filter_below_sorted [OF assms(1) [unfolded q]] by (simp only: t last_snoc q)
qed

text \<open>The requests the loop makes: the first one without a cursor, the others with one that is the
  place of a row of the first answer's list.\<close>

definition asked :: "('c \<Rightarrow> 'o) \<Rightarrow> 'o list \<Rightarrow> nat \<Rightarrow> 'c option \<Rightarrow> bool" where
  "asked place P k c \<longleftrightarrow> (case c of None \<Rightarrow> k = 0 | Some cu \<Rightarrow> place cu \<in> set P)"

lemma load_pages_suffix:
  fixes P :: "'o::linorder list"
  assumes sorted: "sorted_wrt (\<lambda>a b. b < a) P" and n: "0 < n"
    and served: "\<And>k c. asked place P k c \<Longrightarrow> posns (fetch k c) = take n (below place c P)"
    and more: "\<And>k c cu. getNext (fetch k c) = Some cu \<Longrightarrow>
                 posns (fetch k c) \<noteq> [] \<and> place cu = last (posns (fetch k c))"
    and finished: "\<And>k c. asked place P k c \<Longrightarrow> getNext (fetch k c) = None \<Longrightarrow> length (below place c P) \<le> n"
  shows "asked place P k c \<Longrightarrow> P = R @ Q \<Longrightarrow> below place c P = Q \<Longrightarrow> length Q < fuel \<Longrightarrow>
    \<exists>pages. load_pages fuel fetch getNext k c = Some pages \<and> concat (map posns pages) = Q"
proof (induction fuel arbitrary: k c R Q)
  case 0
  then show ?case by simp
next
  case (Suc fuel)
  from served [OF Suc.prems(1)] Suc.prems(3) have page: "posns (fetch k c) = take n Q" by simp
  show ?case
  proof (cases "getNext (fetch k c)")
    case None
    with finished [OF Suc.prems(1)] Suc.prems(3) have "length Q \<le> n" by simp
    with None page show ?thesis by simp
  next
    case (Some cu)
    with more [OF Some] page have ne: "take n Q \<noteq> []" and lastpos: "place cu = last (take n Q)" by simp_all
    from sorted Suc.prems(2) lastpos have "below place (Some cu) P = drop n Q"
      using below_last_taken [of R Q n] ne by (simp add: below_def)
    moreover have "P = (R @ take n Q) @ drop n Q" by (simp add: Suc.prems(2))
    moreover have "length (drop n Q) < fuel" using Suc.prems(4) n ne by (cases Q) auto
    moreover have "asked place P (Suc k) (Some cu)"
      using last_in_set [OF ne] lastpos Suc.prems(2) by (auto simp: asked_def dest: in_set_takeD)
    ultimately obtain pages where "load_pages fuel fetch getNext (Suc k) (Some cu) = Some pages"
        and "concat (map posns pages) = drop n Q"
      using Suc.IH [of "Suc k" "Some cu" "R @ take n Q" "drop n Q"] by auto
    with Some page show ?thesis by simp
  qed
qed

lemma load_pages_complete:
  fixes P :: "'o::linorder list"
  assumes "sorted_wrt (\<lambda>a b. b < a) P" and "0 < n"
    and "\<And>k c. asked place P k c \<Longrightarrow> posns (fetch k c) = take n (below place c P)"
    and "\<And>k c cu. getNext (fetch k c) = Some cu \<Longrightarrow>
           posns (fetch k c) \<noteq> [] \<and> place cu = last (posns (fetch k c))"
    and "\<And>k c. asked place P k c \<Longrightarrow> getNext (fetch k c) = None \<Longrightarrow> length (below place c P) \<le> n"
  shows "\<exists>pages. load_pages (Suc (length P)) fetch getNext 0 None = Some pages \<and> concat (map posns pages) = P"
proof -
  have "asked place P 0 None" and "below place None P = P" by (simp_all add: asked_def below_def)
  then show ?thesis
    using load_pages_suffix [where P = P and n = n and place = place and posns = posns and fetch = fetch
        and getNext = getNext and k = 0 and c = None and R = "[]" and Q = P and fuel = "Suc (length P)"] assms
    by simp
qed

text \<open>Rows that arrive after the first request are all above the rows it saw, so a later request
  with a cursor does not see them.\<close>

lemma below_newer:
  fixes P :: "'o::linorder list"
  assumes "\<forall>p \<in> set newer. \<forall>q \<in> set P. q < p" and "x \<in> set P"
  shows "filter (\<lambda>p. p < x) (newer @ P) = filter (\<lambda>p. p < x) P"
  using assms by (auto simp: filter_empty_conv dest: order.asym)

section \<open>The notification list\<close>

definition SUMMARY_LIMIT :: nat where "SUMMARY_LIMIT = 5"
definition PAGE_LIMIT :: nat where "PAGE_LIMIT = 20"

text \<open>\<open>instant\<close> reads a time stamp.\<close>

definition notification_position :: "(string \<Rightarrow> int) \<Rightarrow> social_notification \<Rightarrow> feed_position" where
  "notification_position instant n = Feed_Position (instant (sn_created_at n)) (sn_id n)"

definition cursor_position :: "(string \<Rightarrow> int) \<Rightarrow> cursor \<Rightarrow> feed_position" where
  "cursor_position instant c = Feed_Position (instant (cu_before c)) (cu_beforeId c)"

text \<open>\<open>list_notifications\<close> of the backend, over the visible rows in the order of the query: one row
  more than the limit is read to know whether there are more.\<close>

definition serve_notifications ::
  "(string \<Rightarrow> int) \<Rightarrow> nat \<Rightarrow> social_notification list \<Rightarrow> int \<Rightarrow> cursor option \<Rightarrow> notification_list" where
  "serve_notifications instant limit rows unread c =
     (let matching = (case c of
                        None \<Rightarrow> rows
                      | Some cu \<Rightarrow> filter (\<lambda>r. notification_position instant r < cursor_position instant cu) rows);
          read = take (limit + 1) matching
      in \<lparr>nl_items = take limit read, nl_unread_count = unread, nl_has_more = limit < length read\<rparr>)"

section \<open>A message thread\<close>

definition message_position :: "(string \<Rightarrow> int) \<Rightarrow> thread_message \<Rightarrow> feed_position" where
  "message_position instant m = Feed_Position (instant (tm_created_at m)) (dm_id m)"

text \<open>\<open>get_thread\<close> of the backend: the newest rows below the cursor, returned oldest first.\<close>

definition serve_thread ::
  "(string \<Rightarrow> int) \<Rightarrow> message_peer \<Rightarrow> bool \<Rightarrow> thread_message list \<Rightarrow> cursor option \<Rightarrow> message_thread" where
  "serve_thread instant peer allowed rows c =
     (let matching = (case c of
                        None \<Rightarrow> rows
                      | Some cu \<Rightarrow> filter (\<lambda>r. message_position instant r < cursor_position instant cu) rows)
      in \<lparr>mt_user = peer, mt_can_message = allowed,
          mt_messages = rev (take MESSAGE_THREAD_PAGE_SIZE matching)\<rparr>)"

end
