(* ===== verification/Feed_Claims.thy ===== *)
theory Feed_Claims
  imports Feed_Paging
begin

text \<open>
  What the screens that list notifications, messages, conversations, activity and history rely
  on: every fetched element is shown once, following the cursors to the end shows everything that
  was there at the start, and a tracking lookup asks for every valid title once.
\<close>

text \<open>However the pages of a list overlap, each identifier that was fetched is shown by exactly
  one element, and nothing is shown that was not fetched. This holds of the notification list, of a
  message thread, of the conversation list, of the activity feed and of the watch history.\<close>

theorem feeds_show_each_once:
  "(\<forall>i. (\<exists>p \<in> set ns. \<exists>x \<in> set (nl_items p). sn_id x = i) \<longleftrightarrow>
       (\<exists>!x. x \<in> set (uniqueNotifications ns) \<and> sn_id x = i)) \<and>
   (\<forall>i. (\<exists>p \<in> set ts. \<exists>x \<in> set (mt_messages p). dm_id x = i) \<longleftrightarrow>
       (\<exists>!x. x \<in> set (uniqueThreadMessages ts) \<and> dm_id x = i)) \<and>
   (\<forall>i. (\<exists>p \<in> set cs. \<exists>x \<in> set p. cr_user_id x = i) \<longleftrightarrow>
       (\<exists>!x. x \<in> set (uniqueConversations cs) \<and> cr_user_id x = i)) \<and>
   (\<forall>i. (\<exists>p \<in> set as. \<exists>x \<in> set p. ai_id x = i) \<longleftrightarrow>
       (\<exists>!x. x \<in> set (uniqueActivities as) \<and> ai_id x = i)) \<and>
   (\<forall>i. (\<exists>p \<in> set hs. \<exists>x \<in> set p. hi_id x = i) \<longleftrightarrow>
       (\<exists>!x. x \<in> set (uniqueHistory hs) \<and> hi_id x = i))"
  unfolding notifications.shown_once [symmetric] threads.shown_once [symmetric]
    conversations.shown_once [symmetric] activities.shown_once [symmetric] history.shown_once [symmetric]
  by auto

section \<open>Following the cursors\<close>

lemma map_filter_position:
  "map f (filter (\<lambda>x. P (f x)) xs) = filter P (map f xs)"
  by (induction xs) auto

lemma positions_of_page:
  "map (notification_position instant) (nl_items (serve_notifications instant limit rows unread c)) =
   take limit (below (cursor_position instant) c (map (notification_position instant) rows))"
  by (cases c) (simp_all add: serve_notifications_def Let_def below_def take_map [symmetric] min_def
        flip: map_filter_position)

lemma positions_of_thread_page:
  "map (message_position instant) (rev (mt_messages (serve_thread instant peer allowed rows c))) =
   take MESSAGE_THREAD_PAGE_SIZE (below (cursor_position instant) c (map (message_position instant) rows))"
  by (cases c) (simp_all add: serve_thread_def Let_def below_def take_map [symmetric] flip: map_filter_position)

text \<open>The rows of a later request: those of the first one below newer ones. Their other fields may
  have changed.\<close>

definition grown :: "'o::linorder list \<Rightarrow> 'o list \<Rightarrow> bool" where
  "grown P P' \<longleftrightarrow> (\<exists>newer. P' = newer @ P \<and> (\<forall>p \<in> set newer. \<forall>q \<in> set P. q < p))"

lemma below_grown:
  assumes "grown P P'" and "place cu \<in> set P"
  shows "below place (Some cu) P' = below place (Some cu) P"
  using assms below_newer by (fastforce simp: grown_def below_def)

lemma below_snapshot:
  "asked place P k c \<Longrightarrow> P' 0 = P \<Longrightarrow> \<forall>k. grown P (P' k) \<Longrightarrow> below place c (P' k) = below place c P"
  by (cases c) (auto simp: asked_def below_def [of _ None] below_grown)

lemma next_notification_place:
  assumes "nextNotificationCursor page = Some cu"
  shows "map (notification_position instant) (nl_items page) \<noteq> [] \<and>
    cursor_position instant cu = last (map (notification_position instant) (nl_items page))"
  using assms
  by (auto simp: nextNotificationCursor_def last_map cursor_position_def notification_position_def
        Let_def split: if_splits)

lemma no_next_notification:
  assumes "nextNotificationCursor (serve_notifications instant limit rows unread c) = None" and "0 < limit"
  shows "length (below (cursor_position instant) c (map (notification_position instant) rows)) \<le> limit"
  using assms
  by (cases c) (auto simp: nextNotificationCursor_def serve_notifications_def Let_def below_def
        simp flip: map_filter_position split: if_splits)

text \<open>C14: Following the notification cursors until there is none ends, after at most one request
  more than there are rows, and the merged list then holds every notification that existed at the
  first request, once, newest first: none is skipped between pages, even when new notifications
  arrive and others change (are read) between the requests. Rows are served strictly below the
  cursor in the order (time, id), \<open>limit\<close> at a time.\<close>

theorem notification_feed_complete:
  assumes "0 < limit" and "snapshot 0 = rows"
    and "sorted_wrt (\<lambda>a b. b < a) (map (notification_position instant) rows)"
    and "distinct (map sn_id rows)"
    and "\<forall>k. grown (map (notification_position instant) rows)
               (map (notification_position instant) (snapshot k))"
  shows "\<exists>pages. load_pages (Suc (length rows))
      (\<lambda>k. serve_notifications instant limit (snapshot k) (unread k)) nextNotificationCursor 0 None = Some pages \<and>
    map sn_id (uniqueNotifications pages) = map sn_id rows"
proof -
  let ?pos = "notification_position instant" and ?place = "cursor_position instant"
  let ?fetch = "\<lambda>k. serve_notifications instant limit (snapshot k) (unread k)"
  have below: "below ?place c (map ?pos (snapshot k)) = below ?place c (map ?pos rows)"
    if "asked ?place (map ?pos rows) k c" for k c
    using below_snapshot [where P' = "\<lambda>k. map ?pos (snapshot k)", OF that] assms(2,5) by simp
  have "\<exists>pages. load_pages (Suc (length (map ?pos rows))) ?fetch nextNotificationCursor 0 None = Some pages \<and>
      concat (map (\<lambda>page. map ?pos (nl_items page)) pages) = map ?pos rows"
  proof (rule load_pages_complete [where place = ?place and n = limit, OF assms(3,1)])
    fix k c
    assume asked: "asked ?place (map ?pos rows) k c"
    then show "map ?pos (nl_items (?fetch k c)) = take limit (below ?place c (map ?pos rows))"
      by (simp only: positions_of_page below)
    show "length (below ?place c (map ?pos rows)) \<le> limit" if "nextNotificationCursor (?fetch k c) = None"
      using no_next_notification [OF that assms(1)] by (simp only: below [OF asked])
  next
    fix k c cu
    assume "nextNotificationCursor (?fetch k c) = Some cu"
    then show "map ?pos (nl_items (?fetch k c)) \<noteq> [] \<and> ?place cu = last (map ?pos (nl_items (?fetch k c)))"
      by (rule next_notification_place)
  qed
  then obtain pages where load: "load_pages (Suc (length rows)) ?fetch nextNotificationCursor 0 None = Some pages"
    and all: "concat (map (\<lambda>page. map ?pos (nl_items page)) pages) = map ?pos rows" by auto
  have ids: "sn_id = fp_id \<circ> ?pos" by (auto simp: notification_position_def)
  from all have "map ?pos (concat (map nl_items pages)) = map ?pos rows"
    by (simp add: map_concat comp_def)
  then have "map sn_id (concat (map nl_items pages)) = map sn_id rows"
    by (metis ids map_map)
  with assms(4) have "uniqueNotifications pages = concat (map nl_items pages)"
    using notifications.merge_complete by metis
  with load \<open>map sn_id _ = _\<close> show ?thesis by simp
qed

definition sample_notification :: "nat \<Rightarrow> social_notification" where
  "sample_notification i =
     \<lparr>sn_id = decimal i, sn_kind = New_Follower, sn_actor_id = ''u'', sn_actor_username = ''ana'',
      sn_actor_avatar_url = None, sn_read_at = None, sn_created_at = decimal i\<rparr>"

definition sample_instant :: "string \<Rightarrow> int" where
  "sample_instant s = int (parse_digits s)"

definition sample_snapshot :: "nat \<Rightarrow> social_notification list" where
  "sample_snapshot k =
     (if k = 0 then map sample_notification [4, 3, 2] else map sample_notification [5, 4, 3, 2])"

lemma sample_position:
  "notification_position sample_instant (sample_notification i) = Feed_Position (int i) (decimal i)"
  by (simp add: notification_position_def sample_notification_def sample_instant_def)

lemma sample_grown:
  "grown (map (notification_position sample_instant) (map sample_notification [4, 3, 2]))
     (map (notification_position sample_instant) (sample_snapshot k))"
  unfolding grown_def
  by (intro exI [of _ "if k = 0 then [] else [Feed_Position 5 (decimal 5)]"])
     (auto simp: sample_snapshot_def sample_position less_feed_position_def)

lemma notification_feed_complete_witness:
  "\<exists>pages. load_pages (Suc (length (map sample_notification [4, 3, 2])))
       (\<lambda>k. serve_notifications sample_instant 2 (sample_snapshot k) 0) nextNotificationCursor 0 None = Some pages \<and>
     map sn_id (uniqueNotifications pages) = map sn_id (map sample_notification [4, 3, 2])"
proof (rule notification_feed_complete)
  show "sorted_wrt (\<lambda>a b. b < a) (map (notification_position sample_instant) (map sample_notification [4, 3, 2]))"
    by (simp add: sample_position less_feed_position_def)
  show "\<forall>k. grown (map (notification_position sample_instant) (map sample_notification [4, 3, 2]))
      (map (notification_position sample_instant) (sample_snapshot k))"
    by (rule allI, rule sample_grown)
  show "distinct (map sn_id (map sample_notification [4, 3, 2]))"
    by (simp add: sample_notification_def)
qed (simp_all add: sample_snapshot_def)

section \<open>A thread to its beginning\<close>

lemma next_message_place:
  assumes "nextMessageCursor page = Some cu"
  shows "map (message_position instant) (rev (mt_messages page)) \<noteq> [] \<and>
    cursor_position instant cu = last (map (message_position instant) (rev (mt_messages page)))"
  using assms
  by (auto simp: nextMessageCursor_def cursor_position_def message_position_def split: if_splits list.splits)

lemma no_next_message:
  assumes "nextMessageCursor (serve_thread instant peer allowed rows c) = None"
  shows "length (below (cursor_position instant) c (map (message_position instant) rows)) \<le> MESSAGE_THREAD_PAGE_SIZE"
proof -
  have "length (mt_messages (serve_thread instant peer allowed rows c)) < MESSAGE_THREAD_PAGE_SIZE"
    using assms by (auto simp: nextMessageCursor_def MESSAGE_THREAD_PAGE_SIZE_def split: if_splits list.splits)
  then have "length (take MESSAGE_THREAD_PAGE_SIZE
      (below (cursor_position instant) c (map (message_position instant) rows))) < MESSAGE_THREAD_PAGE_SIZE"
    by (metis length_map length_rev positions_of_thread_page)
  then show ?thesis by (simp add: min_def split: if_splits)
qed

lemma concat_rev_pages: "concat (rev (map items pages)) = rev (concat (map (\<lambda>p. rev (items p)) pages))"
  by (induction pages) simp_all

text \<open>C15: Reading a conversation back page by page ends, after at most one request more than there
  are messages, and the merged thread is then the whole conversation as it was at the first
  request, oldest first, no message skipped or repeated, even when new messages arrive and old ones
  are read between the requests.\<close>

theorem message_thread_complete:
  assumes "snapshot 0 = rows"
    and "sorted_wrt (\<lambda>a b. b < a) (map (message_position instant) rows)"
    and "distinct (map dm_id rows)"
    and "\<forall>k. grown (map (message_position instant) rows) (map (message_position instant) (snapshot k))"
  shows "\<exists>pages. load_pages (Suc (length rows))
      (\<lambda>k. serve_thread instant peer allowed (snapshot k)) nextMessageCursor 0 None = Some pages \<and>
    map dm_id (uniqueThreadMessages pages) = rev (map dm_id rows)"
proof -
  let ?pos = "message_position instant" and ?place = "cursor_position instant"
  let ?fetch = "\<lambda>k. serve_thread instant peer allowed (snapshot k)"
  have below: "below ?place c (map ?pos (snapshot k)) = below ?place c (map ?pos rows)"
    if "asked ?place (map ?pos rows) k c" for k c
    using below_snapshot [where P' = "\<lambda>k. map ?pos (snapshot k)", OF that] assms(1,4) by simp
  have "\<exists>pages. load_pages (Suc (length (map ?pos rows))) ?fetch nextMessageCursor 0 None = Some pages \<and>
      concat (map (\<lambda>page. map ?pos (rev (mt_messages page))) pages) = map ?pos rows"
  proof (rule load_pages_complete [where place = ?place and n = MESSAGE_THREAD_PAGE_SIZE, OF assms(2)])
    fix k c
    assume asked: "asked ?place (map ?pos rows) k c"
    then show "map ?pos (rev (mt_messages (?fetch k c))) =
        take MESSAGE_THREAD_PAGE_SIZE (below ?place c (map ?pos rows))"
      by (simp only: positions_of_thread_page below)
    show "length (below ?place c (map ?pos rows)) \<le> MESSAGE_THREAD_PAGE_SIZE"
      if "nextMessageCursor (?fetch k c) = None"
      using no_next_message [OF that] by (simp only: below [OF asked])
  next
    fix k c cu
    assume "nextMessageCursor (?fetch k c) = Some cu"
    then show "map ?pos (rev (mt_messages (?fetch k c))) \<noteq> [] \<and>
        ?place cu = last (map ?pos (rev (mt_messages (?fetch k c))))"
      by (rule next_message_place)
  qed (simp add: MESSAGE_THREAD_PAGE_SIZE_def)
  then obtain pages where load: "load_pages (Suc (length rows)) ?fetch nextMessageCursor 0 None = Some pages"
    and all: "concat (map (\<lambda>page. map ?pos (rev (mt_messages page))) pages) = map ?pos rows" by auto
  have ids: "dm_id = fp_id \<circ> ?pos" by (auto simp: message_position_def)
  from all have "map ?pos (concat (map (\<lambda>p. rev (mt_messages p)) pages)) = map ?pos rows"
    by (simp add: map_concat comp_def)
  then have "map dm_id (concat (map (\<lambda>p. rev (mt_messages p)) pages)) = map dm_id rows"
    by (metis ids map_map)
  then have r: "map dm_id (concat (rev (map mt_messages pages))) = rev (map dm_id rows)"
    by (simp only: concat_rev_pages rev_map [symmetric])
  with assms(3) have "distinct (map dm_id (concat (rev (map mt_messages pages))))"
    by simp
  then have "uniqueThreadMessages pages = concat (rev (map mt_messages pages))"
    using threads.merge_plain by blast
  with load r show ?thesis by simp
qed

definition sample_thread_message :: "nat \<Rightarrow> thread_message" where
  "sample_thread_message i =
     \<lparr>dm_id = decimal i, dm_body = None,
      dm_envelope = \<lparr>e_ciphertext = None, e_nonce = None, e_sender_ephemeral_key = None, e_sender_copy = None,
        e_franking_commitment = None, e_franking_signature = None, e_client_nonce = None,
        e_sender_signing_key = None\<rparr>,
      tm_sender_id = ''u'', tm_recipient_id = ''v'', tm_read_at = None, tm_created_at = decimal i\<rparr>"

lemma message_thread_complete_witness:
  "\<exists>pages. load_pages (Suc (length (map sample_thread_message [4, 3, 2])))
       (\<lambda>k. serve_thread sample_instant \<lparr>mp_id = ''v'', mp_username = ''ion'', mp_avatar_url = None\<rparr> True
          (map sample_thread_message (if k = 0 then [4, 3, 2] else [5, 4, 3, 2]))) nextMessageCursor 0 None = Some pages \<and>
     map dm_id (uniqueThreadMessages pages) = rev (map dm_id (map sample_thread_message [4, 3, 2]))"
proof (rule message_thread_complete)
  have p: "message_position sample_instant (sample_thread_message i) = Feed_Position (int i) (decimal i)" for i
    by (simp add: message_position_def sample_thread_message_def sample_instant_def)
  show "sorted_wrt (\<lambda>a b. b < a) (map (message_position sample_instant) (map sample_thread_message [4, 3, 2]))"
    by (simp add: p less_feed_position_def)
  show "\<forall>k. grown (map (message_position sample_instant) (map sample_thread_message [4, 3, 2]))
      (map (message_position sample_instant) (map sample_thread_message (if k = (0 :: nat) then [4, 3, 2] else [5, 4, 3, 2])))"
  proof
    fix k :: nat
    show "grown (map (message_position sample_instant) (map sample_thread_message [4, 3, 2]))
      (map (message_position sample_instant) (map sample_thread_message (if k = 0 then [4, 3, 2] else [5, 4, 3, 2])))"
      unfolding grown_def
      by (intro exI [of _ "if k = 0 then [] else [Feed_Position 5 (decimal 5)]"])
         (auto simp: p less_feed_position_def)
  qed
qed (simp_all add: sample_thread_message_def)

section \<open>Lookups and message text\<close>

text \<open>However many titles are on screen, the tracking lookup asks for them in requests of at
  least one and at most a hundred, in as few requests as that allows; over all requests it asks
  for every title with a positive whole identifier exactly once, and for nothing else.\<close>

theorem lookup_batches_bounded:
  "set (map length (buildTrackingLookupBatches targets)) \<subseteq> {1..100} \<and>
   distinct (map lookup_key (concat (buildTrackingLookupBatches targets))) \<and>
   lookup_key ` set (concat (buildTrackingLookupBatches targets)) = lookup_key ` {t \<in> set targets. valid_target t} \<and>
   set (concat (buildTrackingLookupBatches targets)) \<subseteq> {t \<in> set targets. valid_target t} \<and>
   length (buildTrackingLookupBatches targets) =
     (card (lookup_key ` {t \<in> set targets. valid_target t}) + 99) div 100"
proof -
  let ?items = "keep_last lookup_key (filter valid_target targets)"
  have l: "LOOKUP_BATCH_SIZE = 100" "0 < LOOKUP_BATCH_SIZE" by (simp_all add: LOOKUP_BATCH_SIZE_def)
  have c: "concat (buildTrackingLookupBatches targets) = ?items"
    by (simp only: buildTrackingLookupBatches_def concat_chunks [OF l(2)])
  have k: "lookup_key ` set ?items = lookup_key ` {t \<in> set targets. valid_target t}"
    by (simp only: keep_last_keys set_filter)
  have "card (lookup_key ` set ?items) = length ?items"
    using keep_last_distinct [of lookup_key "filter valid_target targets"]
    by (metis distinct_card length_map list.set_map)
  then have "length (buildTrackingLookupBatches targets) =
      (card (lookup_key ` {t \<in> set targets. valid_target t}) + 99) div 100"
    using k by (simp add: buildTrackingLookupBatches_def length_chunks l)
  moreover have "set (map length (buildTrackingLookupBatches targets)) \<subseteq> {1..100}"
    using chunks_sizes [where n = LOOKUP_BATCH_SIZE and xs = ?items]
    by (fastforce simp: buildTrackingLookupBatches_def l(1) Suc_le_eq)
  moreover have "set ?items \<subseteq> {t \<in> set targets. valid_target t}"
    using keep_last_subset [of lookup_key "filter valid_target targets"] by simp
  ultimately show ?thesis by (simp only: c k keep_last_distinct simp_thms)
qed

lemma from_cps_head: "0 < n \<Longrightarrow> \<exists>us'. from_cps (take n (code_points (v # us))) = v # us'"
proof -
  assume n: "0 < n"
  show ?thesis
  proof (cases us)
    case Nil
    with n show ?thesis by (cases n) simp_all
  next
    case (Cons w ws)
    with n show ?thesis by (cases n) (auto simp: units_of_cp_pair simp del: of_nat_add of_nat_mult)
  qed
qed

lemma code_points_take: "code_points (from_cps (take n (code_points s))) = take n (code_points s)"
proof (induction s arbitrary: n rule: code_points.induct)
  case 1
  then show ?case by simp
next
  case (2 u)
  then show ?case by (cases n) simp_all
next
  case (3 u v us)
  show ?case
  proof (cases n)
    case 0
    then show ?thesis by simp
  next
    case (Suc m)
    show ?thesis
    proof (cases "is_high u \<and> is_low v")
      case True
      with 3(1) [OF True, of m] Suc show ?thesis
        by (simp add: units_of_cp_pair del: of_nat_add of_nat_mult)
    next
      case False
      show ?thesis
      proof (cases m)
        case 0
        with Suc False show ?thesis by auto
      next
        case (Suc k)
        obtain us' where h: "from_cps (take m (code_points (v # us))) = v # us'"
          using from_cps_head [of m v us] Suc by auto
        from 3(2) [OF False, of m] False \<open>n = Suc m\<close> show ?thesis by (auto simp: h)
      qed
    qed
  qed
qed

lemma unify_newlines_no_cr: "13 \<notin> set (unify_newlines s)"
  by (induction s rule: unify_newlines.induct) auto

lemma unify_newlines_id: "13 \<notin> set s \<Longrightarrow> unify_newlines s = s"
  by (induction s rule: unify_newlines.induct) auto

lemma set_trim_by: "set (trim_by ws s) \<subseteq> set s"
proof
  fix x assume "x \<in> set (trim_by ws s)"
  then have "x \<in> set (dropWhile ws (rev (dropWhile ws s)))" by (simp add: trim_by_def)
  from set_dropWhileD [OF this] have "x \<in> set (dropWhile ws s)" by simp
  from set_dropWhileD [OF this] show "x \<in> set s" by simp
qed

text \<open>C17: The composer never holds more than 2000 characters, counted as code points: what is typed
  beyond is cut off without splitting a surrogate pair, text within the limit is kept as it is, and
  clamping twice changes nothing. The text that is sent has no carriage return, no blank at either
  end, and preparing it again changes nothing.\<close>

theorem message_body_bounds:
  "messageCharacterCount (clampMessageBody v) = min 2000 (messageCharacterCount v) \<and>
   code_points (clampMessageBody v) = take 2000 (code_points v) \<and>
   (clampMessageBody v = v \<longleftrightarrow> messageCharacterCount v \<le> 2000) \<and>
   clampMessageBody (clampMessageBody v) = clampMessageBody v \<and>
   13 \<notin> set (normalizeMessageBody v) \<and>
   (normalizeMessageBody v = [] \<or>
     \<not> js_space (hd (normalizeMessageBody v)) \<and> \<not> js_space (last (normalizeMessageBody v))) \<and>
   normalizeMessageBody (normalizeMessageBody v) = normalizeMessageBody v"
proof -
  have c: "code_points (clampMessageBody v) = take 2000 (code_points v)"
    by (simp add: clampMessageBody_def code_points_take MESSAGE_BODY_LIMIT_def)
  have n: "messageCharacterCount (clampMessageBody v) = min 2000 (messageCharacterCount v)"
    by (simp add: messageCharacterCount_def c min.commute)
  have iff: "clampMessageBody v = v \<longleftrightarrow> messageCharacterCount v \<le> 2000"
  proof
    assume "clampMessageBody v = v"
    with n show "messageCharacterCount v \<le> 2000" by simp
  qed (rule clampMessageBody_short)
  have twice: "clampMessageBody (clampMessageBody v) = clampMessageBody v"
    by (rule clampMessageBody_short) (simp add: n)
  have cr: "13 \<notin> set (normalizeMessageBody v)"
    using set_trim_by [of js_space "unify_newlines v"] unify_newlines_no_cr [of v]
    by (auto simp: normalizeMessageBody_def js_trim_def)
  have ends: "normalizeMessageBody v = [] \<or>
     \<not> js_space (hd (normalizeMessageBody v)) \<and> \<not> js_space (last (normalizeMessageBody v))"
    using hd_trim_by last_trim_by by (auto simp: normalizeMessageBody_def js_trim_def)
  have "normalizeMessageBody (normalizeMessageBody v) = js_trim (normalizeMessageBody v)"
    by (simp only: normalizeMessageBody_def [of "normalizeMessageBody v"] unify_newlines_id [OF cr])
  also have "\<dots> = normalizeMessageBody v"
    by (simp add: normalizeMessageBody_def js_trim_def)
  finally show ?thesis using n c iff twice cr ends by (intro conjI)
qed

end
