(* ===== verification/Notification_Cache.thy ===== *)
theory Notification_Cache
  imports Feeds
begin

text \<open>
  The cached answers of \<open>hooks/use-notifications.ts\<close>: the summary of the bell and the pages of the
  list, and the optimistic changes the two mutations make to both before the server has answered.
\<close>

record notification_cache =
  nc_summary :: "notification_list option"
  nc_list :: "notification_list list option"

definition updateCachedResponses ::
  "(notification_list \<Rightarrow> notification_list) \<Rightarrow> notification_cache \<Rightarrow> notification_cache" where
  "updateCachedResponses update cache =
     \<lparr>nc_summary = map_option update (nc_summary cache),
      nc_list = map_option (map update) (nc_list cache)\<rparr>"

definition unread_in :: "string \<Rightarrow> notification_list \<Rightarrow> bool" where
  "unread_in i page \<longleftrightarrow> list_ex (\<lambda>item. sn_id item = i \<and> sn_read_at item = None) (nl_items page)"

definition isUnreadInCache :: "notification_cache \<Rightarrow> string \<Rightarrow> bool" where
  "isUnreadInCache cache i \<longleftrightarrow>
     (case nc_summary cache of None \<Rightarrow> False | Some page \<Rightarrow> unread_in i page) \<or>
     (case nc_list cache of None \<Rightarrow> False | Some pages \<Rightarrow> list_ex (unread_in i) pages)"

text \<open>\<open>onMutate\<close> gives the changed cache and the context that \<open>onError\<close> puts back.\<close>

definition mark_read_onMutate ::
  "notification_cache \<Rightarrow> string \<Rightarrow> string \<Rightarrow> notification_cache \<times> notification_cache" where
  "mark_read_onMutate cache i readAt =
     (let decrementUnread = isUnreadInCache cache i
      in (updateCachedResponses
            (\<lambda>response. markNotificationReadInResponse response i readAt decrementUnread) cache,
          cache))"

definition mark_all_onMutate ::
  "notification_cache \<Rightarrow> string \<Rightarrow> notification_cache \<times> notification_cache" where
  "mark_all_onMutate cache readAt =
     (updateCachedResponses (\<lambda>response. markAllNotificationsReadInResponse response readAt) cache, cache)"

text \<open>\<open>setQueryData\<close> with \<open>undefined\<close> leaves the entry as it is.\<close>

definition mark_onError :: "notification_cache \<Rightarrow> notification_cache option \<Rightarrow> notification_cache" where
  "mark_onError cache saved =
     (case saved of
        None \<Rightarrow> cache
      | Some old \<Rightarrow>
          \<lparr>nc_summary = (case nc_summary old of None \<Rightarrow> nc_summary cache | Some s \<Rightarrow> Some s),
           nc_list = (case nc_list old of None \<Rightarrow> nc_list cache | Some l \<Rightarrow> Some l)\<rparr>)"

section \<open>Marks in flight\<close>

text \<open>The two mutations over the cache: \<open>onMutate\<close> after its \<open>cancelQueries\<close>, the answer of the request, and
  whatever else writes the two entries (a refetch, a sign-out). A mutation is told apart by a number and keeps
  its context until it is answered; several can be in flight.\<close>

datatype mark = Mark_One string | Mark_All

fun mark_onMutate :: "mark \<Rightarrow> notification_cache \<Rightarrow> string \<Rightarrow> notification_cache \<times> notification_cache" where
  "mark_onMutate (Mark_One i) cache readAt = mark_read_onMutate cache i readAt"
| "mark_onMutate Mark_All cache readAt = mark_all_onMutate cache readAt"

record mark_machine =
  mm_cache :: notification_cache
  mm_pending :: "(nat \<times> notification_cache) list"
  mm_next :: nat

datatype mark_event = Marks mark string | Answered nat bool | Written notification_cache

definition mark_step :: "mark_machine \<Rightarrow> mark_event \<Rightarrow> mark_machine" where
  "mark_step s ev =
     (case ev of
        Marks m readAt \<Rightarrow>
          (let (cache, context) = mark_onMutate m (mm_cache s) readAt
           in \<lparr>mm_cache = cache, mm_pending = (mm_next s, context) # mm_pending s, mm_next = mm_next s + 1\<rparr>)
      | Answered n ok \<Rightarrow>
          (case map_of (mm_pending s) n of
             None \<Rightarrow> s
           | Some context \<Rightarrow>
               s\<lparr>mm_cache := (if ok then mm_cache s else mark_onError (mm_cache s) (Some context)),
                 mm_pending := filter (\<lambda>(k, _). k \<noteq> n) (mm_pending s)\<rparr>)
      | Written cache \<Rightarrow> s\<lparr>mm_cache := cache\<rparr>)"

definition mark_run :: "mark_machine \<Rightarrow> mark_event list \<Rightarrow> mark_machine" where
  "mark_run s evs = foldl mark_step s evs"

definition mark_start :: "notification_cache \<Rightarrow> mark_machine" where
  "mark_start cache = \<lparr>mm_cache = cache, mm_pending = [], mm_next = 0\<rparr>"

section \<open>What the changes do\<close>

definition responses :: "notification_cache \<Rightarrow> notification_list list" where
  "responses cache = (case nc_summary cache of None \<Rightarrow> [] | Some s \<Rightarrow> [s]) @
                     (case nc_list cache of None \<Rightarrow> [] | Some l \<Rightarrow> l)"

lemma responses_update: "responses (updateCachedResponses f cache) = map f (responses cache)"
  by (simp add: responses_def updateCachedResponses_def split: option.splits)

lemma isUnreadInCache_iff: "isUnreadInCache cache i \<longleftrightarrow> (\<exists>page \<in> set (responses cache). unread_in i page)"
  by (auto simp: responses_def isUnreadInCache_def list_ex_iff split: option.splits)

lemma unread_in_marked:
  "unread_in j (markNotificationReadInResponse page i now d) \<longleftrightarrow> j \<noteq> i \<and> unread_in j page"
  by (auto simp: unread_in_def markNotificationReadInResponse_def list_ex_iff)

lemma unread_in_marked_all: "\<not> unread_in j (markAllNotificationsReadInResponse page now)"
  by (auto simp: unread_in_def markAllNotificationsReadInResponse_def list_ex_iff)

lemma marked_read_unchanged:
  "\<not> unread_in i page \<Longrightarrow> markNotificationReadInResponse page i now False = page"
  by (cases page)
     (auto simp: unread_in_def markNotificationReadInResponse_def list_ex_iff intro!: map_idI)

lemma updateCachedResponses_id:
  assumes "\<forall>page \<in> set (responses cache). f page = page"
  shows "updateCachedResponses f cache = cache"
proof -
  have "map_option f (nc_summary cache) = nc_summary cache"
    using assms by (cases "nc_summary cache") (auto simp: responses_def)
  moreover have "map_option (map f) (nc_list cache) = nc_list cache"
    using assms by (cases "nc_list cache") (auto simp: responses_def intro!: map_idI)
  ultimately show ?thesis by (simp add: updateCachedResponses_def)
qed

lemma unread_after_mark:
  "isUnreadInCache (fst (mark_read_onMutate cache i now)) j \<longleftrightarrow> j \<noteq> i \<and> isUnreadInCache cache j"
  by (auto simp: isUnreadInCache_iff mark_read_onMutate_def responses_update unread_in_marked)

lemma marking_a_read_one:
  assumes "\<not> isUnreadInCache cache i"
  shows "fst (mark_read_onMutate cache i now) = cache"
proof -
  from assms have "\<forall>page \<in> set (responses cache). markNotificationReadInResponse page i now False = page"
    by (auto simp: isUnreadInCache_iff intro: marked_read_unchanged)
  then have "updateCachedResponses (\<lambda>r. markNotificationReadInResponse r i now False) cache = cache"
    by (rule updateCachedResponses_id)
  then show ?thesis using assms by (simp add: mark_read_onMutate_def)
qed

lemma marking_twice:
  "fst (mark_read_onMutate (fst (mark_read_onMutate cache i now)) i later) =
   fst (mark_read_onMutate cache i now)"
  by (rule marking_a_read_one) (simp add: unread_after_mark)

lemma mark_all_unread: "\<not> isUnreadInCache (fst (mark_all_onMutate cache now)) j"
  by (auto simp: isUnreadInCache_iff mark_all_onMutate_def responses_update unread_in_marked_all)

lemma rollback_update: "mark_onError (updateCachedResponses f cache) (Some cache) = cache"
  by (cases "nc_summary cache"; cases "nc_list cache") (simp_all add: mark_onError_def updateCachedResponses_def)

lemma rollback_mark:
  "mark_onError (fst (mark_read_onMutate cache i now)) (Some (snd (mark_read_onMutate cache i now))) = cache"
  "mark_onError (fst (mark_all_onMutate cache now)) (Some (snd (mark_all_onMutate cache now))) = cache"
  by (simp_all add: mark_read_onMutate_def mark_all_onMutate_def Let_def rollback_update)

lemma mark_run_simps [simp]:
  "mark_run s [] = s" "mark_run s (ev # evs) = mark_run (mark_step s ev) evs"
  "mark_run s (evs @ evs') = mark_run (mark_run s evs) evs'"
  by (simp_all add: mark_run_def)

definition numbered :: "mark_machine \<Rightarrow> bool" where
  "numbered s \<longleftrightarrow> (\<forall>k \<in> fst ` set (mm_pending s). k < mm_next s)"

lemma numbered_step: "numbered s \<Longrightarrow> numbered (mark_step s ev)"
  by (cases ev) (auto simp: numbered_def mark_step_def less_Suc_eq split: prod.splits option.splits)

lemma numbered_run: "numbered s \<Longrightarrow> numbered (mark_run s evs)"
  by (induction evs arbitrary: s) (simp_all add: numbered_step)

lemma numbered_start: "numbered (mark_start cache)"
  by (simp add: numbered_def mark_start_def)

lemma context_kept:
  "map_of (mm_pending s) n = Some context \<Longrightarrow> n < mm_next s \<Longrightarrow> \<forall>ok. Answered n ok \<notin> set evs \<Longrightarrow>
   map_of (mm_pending (mark_run s evs)) n = Some context"
proof (induction evs arbitrary: s)
  case (Cons ev evs)
  have "map_of (filter (\<lambda>(k, _). k \<noteq> m) ps) n = map_of ps n" if "m \<noteq> n" for m and ps :: "(nat \<times> notification_cache) list"
    using that by (induction ps) auto
  then have "map_of (mm_pending (mark_step s ev)) n = Some context \<and> n < mm_next (mark_step s ev)"
    using Cons.prems by (cases ev) (auto simp: mark_step_def split: prod.splits option.splits)
  then show ?case using Cons.IH Cons.prems(3) by simp
qed simp

lemma saved_context: "snd (mark_onMutate m cache readAt) = cache"
  by (cases m) (simp_all add: mark_read_onMutate_def mark_all_onMutate_def Let_def)

lemma marks_step:
  "mm_cache (mark_step s (Marks m readAt)) = fst (mark_onMutate m (mm_cache s) readAt)"
  "mm_pending (mark_step s (Marks m readAt)) = (mm_next s, mm_cache s) # mm_pending s"
  "mm_next (mark_step s (Marks m readAt)) = mm_next s + 1"
  using saved_context [of m "mm_cache s" readAt]
  by (cases "mark_onMutate m (mm_cache s) readAt"; simp add: mark_step_def)+

lemma answered_later:
  assumes "numbered s" and "\<forall>ok. Answered (mm_next s) ok \<notin> set evs"
  shows "mm_cache (mark_run s (Marks m readAt # evs @ [Answered (mm_next s) ok])) =
    (if ok then mm_cache (mark_run s (Marks m readAt # evs))
     else mark_onError (mm_cache (mark_run s (Marks m readAt # evs))) (Some (mm_cache s)))"
proof -
  have "map_of (mm_pending (mark_run (mark_step s (Marks m readAt)) evs)) (mm_next s) = Some (mm_cache s)"
    using assms(2) by (intro context_kept) (simp_all add: marks_step)
  then show ?thesis by (simp add: mark_step_def)
qed

text \<open>Marks that are answered one after the other.\<close>

fun in_turn :: "nat \<Rightarrow> (mark \<times> string \<times> bool) list \<Rightarrow> mark_event list" where
  "in_turn n [] = []"
| "in_turn n ((m, readAt, ok) # ms) = Marks m readAt # Answered n ok # in_turn (n + 1) ms"

lemma rollback_onMutate: "mark_onError (fst (mark_onMutate m cache readAt)) (Some cache) = cache"
  using rollback_mark by (cases m) (simp_all add: mark_read_onMutate_def mark_all_onMutate_def Let_def)

lemma marked_in_turn:
  "numbered s \<Longrightarrow> mm_cache (mark_run s (in_turn (mm_next s) ms)) =
   foldl (\<lambda>cache (m, readAt, ok). if ok then fst (mark_onMutate m cache readAt) else cache) (mm_cache s) ms"
proof (induction ms arbitrary: s)
  case (Cons x ms)
  obtain m readAt ok where x: "x = (m, readAt, ok)" by (cases x)
  let ?s = "mark_run s [Marks m readAt, Answered (mm_next s) ok]"
  have cache: "mm_cache ?s = (if ok then fst (mark_onMutate m (mm_cache s) readAt) else mm_cache s)"
    using answered_later [OF Cons.prems, of "[]" m readAt ok]
    by (simp add: marks_step rollback_onMutate)
  have number: "mm_next ?s = mm_next s + 1"
    by (simp add: marks_step(3) mark_step_def [of _ "Answered (mm_next s) ok"] split: option.split)
  show ?case
    using Cons.IH [OF numbered_run [OF Cons.prems], of "[Marks m readAt, Answered (mm_next s) ok]"]
    by (simp add: x cache [simplified] number [simplified])
qed simp

text \<open>What one page looks like after notification \<open>i\<close> was marked; \<open>known\<close>: it was unread in some cached page.\<close>

definition page_marked :: "bool \<Rightarrow> string \<Rightarrow> string \<Rightarrow> notification_list \<Rightarrow> notification_list \<Rightarrow> bool" where
  "page_marked known i readAt page page' \<longleftrightarrow>
     list_all2 (\<lambda>item item'. if sn_id item = i \<and> sn_read_at item = None then item' = item\<lparr>sn_read_at := Some readAt\<rparr>
         else item' = item) (nl_items page) (nl_items page') \<and>
     nl_has_more page' = nl_has_more page \<and>
     nl_unread_count page' = (if known then max 0 (nl_unread_count page - 1) else nl_unread_count page)"

lemma page_marked_read: "page_marked known i readAt page (markNotificationReadInResponse page i readAt known)"
  by (simp add: page_marked_def markNotificationReadInResponse_def list_all2_conv_all_nth)

text \<open>C16: The optimistic read marks, over any run of marks, answers and other writes of the two cached answers.
  A mark changes at once exactly the one notification, in the summary and in every page, to read at that
  time: no other item, no order, nothing else of a page but the count, which goes down by one and never
  below zero exactly when the notification was unread somewhere in the cache; marking it again changes
  nothing. Whatever happens in between, a success leaves the cache as it is and a failure puts back the
  answers that were cached when the mark was made. So marks that are answered one after the other are
  undone exactly when their request fails; but the failure of a mark also undoes every later one, whether
  the server took that or not.\<close>

theorem mark_read_optimistic:
  assumes "mark_run (mark_start cache) evs = s" and "mark_run s (Marks m readAt # later) = s'"
    and "\<forall>ok. Answered (mm_next s) ok \<notin> set later"
  shows "(\<forall>i. m = Mark_One i \<longrightarrow>
      rel_option (page_marked (isUnreadInCache (mm_cache s) i) i readAt)
        (nc_summary (mm_cache s)) (nc_summary (mm_cache (mark_step s (Marks m readAt)))) \<and>
      rel_option (list_all2 (page_marked (isUnreadInCache (mm_cache s) i) i readAt))
        (nc_list (mm_cache s)) (nc_list (mm_cache (mark_step s (Marks m readAt)))) \<and>
      mm_cache (mark_run s [Marks m readAt, Marks m again]) = mm_cache (mark_step s (Marks m readAt))) \<and>
    mm_cache (mark_step s' (Answered (mm_next s) True)) = mm_cache s' \<and>
    nc_summary (mm_cache (mark_step s' (Answered (mm_next s) False))) =
      (if nc_summary (mm_cache s) = None then nc_summary (mm_cache s') else nc_summary (mm_cache s)) \<and>
    nc_list (mm_cache (mark_step s' (Answered (mm_next s) False))) =
      (if nc_list (mm_cache s) = None then nc_list (mm_cache s') else nc_list (mm_cache s)) \<and>
    mm_cache (mark_run s (in_turn (mm_next s) ms)) =
      foldl (\<lambda>c (m, readAt, ok). if ok then fst (mark_onMutate m c readAt) else c) (mm_cache s) ms"
proof -
  have n: "numbered s" using numbered_run [OF numbered_start] assms(1) by blast
  have answer: "mm_cache (mark_step s' (Answered (mm_next s) ok)) =
      (if ok then mm_cache s' else mark_onError (mm_cache s') (Some (mm_cache s)))" for ok
    using answered_later [OF n assms(3), of m readAt ok] assms(2) by simp
  have one: "rel_option (page_marked (isUnreadInCache (mm_cache s) i) i readAt)
        (nc_summary (mm_cache s)) (nc_summary (mm_cache (mark_step s (Marks (Mark_One i) readAt)))) \<and>
      rel_option (list_all2 (page_marked (isUnreadInCache (mm_cache s) i) i readAt))
        (nc_list (mm_cache s)) (nc_list (mm_cache (mark_step s (Marks (Mark_One i) readAt))))" for i
    by (cases "nc_summary (mm_cache s)"; cases "nc_list (mm_cache s)")
      (simp_all add: marks_step mark_read_onMutate_def updateCachedResponses_def Let_def page_marked_read
        list_all2_conv_all_nth)
  have "mm_cache (mark_run s [Marks (Mark_One i) readAt, Marks (Mark_One i) again]) =
      mm_cache (mark_step s (Marks (Mark_One i) readAt))" for i
    by (simp add: marks_step marking_twice)
  with one answer show ?thesis
    using marked_in_turn [OF n] by (simp add: mark_onError_def split: option.split)
qed

text \<open>Two notifications are marked, the second mark succeeds and then the first one fails: the second is unread
  again in the cache.\<close>

definition sample_notification :: "string \<Rightarrow> social_notification" where
  "sample_notification i = 
     \<lparr>sn_id = i, sn_kind = New_Follower, sn_actor_id = ''u'', sn_actor_username = ''u'', sn_actor_avatar_url = None,
      sn_read_at = None, sn_created_at = ''t''\<rparr>"

definition sample_bell :: notification_cache where
  "sample_bell =
     \<lparr>nc_summary = Some \<lparr>nl_items = [sample_notification ''a'', sample_notification ''b''], nl_unread_count = 2,
        nl_has_more = False\<rparr>, nc_list = None\<rparr>"

lemma mark_read_optimistic_witness:
  "nc_summary (mm_cache (mark_run (mark_start sample_bell) [Marks (Mark_One ''a'') ''1'', Marks (Mark_One ''b'') ''2'',
     Answered 1 True, Answered 0 False])) = nc_summary sample_bell \<and>
   unread_in ''b'' (the (nc_summary sample_bell))"
proof
  from mark_read_optimistic [of sample_bell "[]" "mark_start sample_bell" "Mark_One ''a''" "''1''"
      "[Marks (Mark_One ''b'') ''2'', Answered 1 True]"]
  show "nc_summary (mm_cache (mark_run (mark_start sample_bell) [Marks (Mark_One ''a'') ''1'',
     Marks (Mark_One ''b'') ''2'', Answered 1 True, Answered 0 False])) = nc_summary sample_bell"
    by (simp add: mark_start_def sample_bell_def)
qed (simp add: unread_in_def sample_bell_def sample_notification_def)

end
