(* ===== verification/Event_Stream.thy ===== *)
theory Event_Stream
  imports Js_Text
begin

text \<open>
  The server-sent event stream: \<open>lib/events.ts\<close> (frames, the reader loop, reconnection with
  backoff) and \<open>hooks/use-event-stream.ts\<close> (when a stream exists). The web copy of the first file
  differs in the address it calls and in the order of its functions.

  \<open>stream_step\<close> runs the asynchronous function \<open>run\<close> from one \<open>await\<close> to the next; \<open>stream_event\<close>
  names what the platform answers there. The bytes of the response are decoded by the platform's
  streaming decoder, so a chunk is text.
\<close>

section \<open>Frames\<close>

definition newline :: char where "newline = char_of (10 :: nat)"

datatype server_event = Messages_Changed | Notifications_Changed

definition parseFrame :: "string \<Rightarrow> server_event option" where
  "parseFrame frame =
     (let name = foldl (\<lambda>name line. if starts_with ''event:'' line then Some (str_trim (drop 6 line)) else name)
                   None (split_on newline frame)
      in if name = Some ''messages'' then Some Messages_Changed
         else if name = Some ''notifications'' then Some Notifications_Changed
         else None)"

text \<open>\<open>buffer.split('\n\n')\<close>.\<close>

fun split_frames :: "string \<Rightarrow> string list" where
  "split_frames [] = [[]]"
| "split_frames [a] = [[a]]"
| "split_frames (a # b # s) =
     (if a = newline \<and> b = newline then [] # split_frames s
      else (case split_frames (b # s) of [] \<Rightarrow> [[a]] | p # ps \<Rightarrow> (a # p) # ps))"

datatype stream_output = Resync | Changed server_event

definition on_frame :: "string \<Rightarrow> stream_output list" where
  "on_frame frame =
     (if starts_with '': lagged'' frame then [Resync]
      else case parseFrame frame of None \<Rightarrow> [] | Some kind \<Rightarrow> [Changed kind])"

text \<open>One turn of the reader loop: the new buffer and the handler calls.\<close>

definition on_chunk :: "string \<Rightarrow> string \<Rightarrow> string \<times> stream_output list" where
  "on_chunk buffer chunk =
     (let frames = split_frames (buffer @ chunk)
      in (last frames, concat (map on_frame (butlast frames))))"

lemma split_frames_nonempty [simp]: "split_frames s \<noteq> []"
  by (induction s rule: split_frames.induct) (auto split: list.splits)

lemma split_frames_other:
  "\<not> (a = newline \<and> b = newline) \<Longrightarrow> split_frames (b # s) = q # qs \<Longrightarrow> split_frames (a # b # s) = (a # q) # qs"
  by simp

lemma split_frames_one: "split_frames s = [p] \<Longrightarrow> p = s"
proof (induction s arbitrary: p rule: split_frames.induct)
  case (3 a b s)
  show ?case
  proof (cases "a = newline \<and> b = newline")
    case True
    with 3 show ?thesis by simp
  next
    case False
    obtain q qs where q: "split_frames (b # s) = q # qs" by (cases "split_frames (b # s)") auto
    with 3(3) split_frames_other [OF False q] have "qs = []" "p = a # q" by (simp_all del: split_frames.simps)
    with q 3(2) [OF False, of q] show ?thesis by simp
  qed
qed simp_all

lemma split_frames_append:
  "split_frames (x @ y) = butlast (split_frames x) @ split_frames (last (split_frames x) @ y)"
proof (induction x rule: split_frames.induct)
  case (3 a b s)
  show ?case
  proof (cases "a = newline \<and> b = newline")
    case True
    with 3(1) [OF True] show ?thesis by simp
  next
    case False
    obtain q qs where q: "split_frames (b # s) = q # qs" by (cases "split_frames (b # s)") auto
    note own = split_frames_other [OF False q]
    show ?thesis
    proof (cases "qs = []")
      case True
      with q have "q = b # s" by (auto dest: split_frames_one)
      with own True show ?thesis by (simp del: split_frames.simps)
    next
      case ne: False
      with 3(2) [OF False] q have "split_frames (b # s @ y) = q # (butlast qs @ split_frames (last qs @ y))"
        by simp
      from split_frames_other [OF False this] own ne show ?thesis by (simp del: split_frames.simps)
    qed
  qed
qed simp_all

lemma split_frames_rest: "split_frames (last (split_frames s)) = [last (split_frames s)]"
proof (induction s rule: split_frames.induct)
  case (3 a b s)
  show ?case
  proof (cases "a = newline \<and> b = newline")
    case True
    with 3(1) [OF True] show ?thesis by simp
  next
    case False
    obtain q qs where q: "split_frames (b # s) = q # qs" by (cases "split_frames (b # s)") auto
    note own = split_frames_other [OF False q]
    show ?thesis
    proof (cases "qs = []")
      case True
      with q have "q = b # s" by (auto dest: split_frames_one)
      with own True show ?thesis by (simp del: split_frames.simps)
    next
      case ne: False
      with 3(2) [OF False] q own show ?thesis by (simp del: split_frames.simps)
    qed
  qed
qed simp_all

section \<open>Reading in pieces\<close>

text \<open>A reader that keeps what it could not use yet: feeding two pieces is feeding their
  concatenation, and an empty piece changes nothing. Then only the text matters, not how the
  network cut it.\<close>

locale chunk_reader =
  fixes rest_ok :: "'b \<Rightarrow> bool"
    and feed :: "'b \<Rightarrow> 'c list \<Rightarrow> 'b \<times> 'o list"
  assumes feed_append: "feed b (c @ d) = (let (b', os) = feed b c; (b'', os') = feed b' d in (b'', os @ os'))"
    and feed_Nil: "rest_ok b \<Longrightarrow> feed b [] = (b, [])"
    and feed_ok: "rest_ok (fst (feed b c))"
begin

fun read_all :: "'b \<Rightarrow> 'c list list \<Rightarrow> 'b \<times> 'o list" where
  "read_all b [] = (b, [])"
| "read_all b (c # cs) = (let (b', os) = feed b c; (b'', os') = read_all b' cs in (b'', os @ os'))"

lemma read_all_concat: "rest_ok b \<Longrightarrow> read_all b cs = feed b (concat cs)"
proof (induction cs arbitrary: b)
  case Nil
  then show ?case by (simp add: feed_Nil)
next
  case (Cons c cs)
  obtain b' os where f: "feed b c = (b', os)" by (cases "feed b c")
  with feed_ok [of b c] have "rest_ok b'" by simp
  with Cons.IH f show ?case by (simp add: feed_append)
qed

lemma same_text: "rest_ok b \<Longrightarrow> concat cs = concat ds \<Longrightarrow> read_all b cs = read_all b ds"
  by (simp add: read_all_concat)

end

definition partial_frame :: "string \<Rightarrow> bool" where
  "partial_frame b \<longleftrightarrow> split_frames b = [b]"

interpretation frames: chunk_reader partial_frame on_chunk
proof
  fix b c d :: string
  have e: "b @ c @ d = (b @ c) @ d" by simp
  show "on_chunk b (c @ d) = (let (b', os) = on_chunk b c; (b'', os') = on_chunk b' d in (b'', os @ os'))"
    unfolding on_chunk_def Let_def e by (subst (1 2) split_frames_append) (simp add: butlast_append)
  show "on_chunk b [] = (b, [])" if "partial_frame b"
    using that by (simp add: on_chunk_def partial_frame_def)
  show "partial_frame (fst (on_chunk b c))"
    by (simp add: on_chunk_def Let_def partial_frame_def split_frames_rest)
qed

text \<open>The handler calls of a whole response body.\<close>

definition body_outputs :: "string \<Rightarrow> stream_output list" where
  "body_outputs text = concat (map on_frame (butlast (split_frames text)))"

fun read_chunks :: "string \<Rightarrow> string list \<Rightarrow> string \<times> stream_output list" where
  "read_chunks buffer [] = (buffer, [])"
| "read_chunks buffer (c # cs) =
     (let (buffer', out) = on_chunk buffer c; (buffer'', out') = read_chunks buffer' cs
      in (buffer'', out @ out'))"

lemma read_chunks_read_all: "read_chunks b cs = frames.read_all b cs"
  by (induction b cs rule: read_chunks.induct) (auto split: prod.splits)

section \<open>The connection\<close>

definition RECONNECT_BASE_MS :: nat where "RECONNECT_BASE_MS = 1000"
definition RECONNECT_MAX_MS :: nat where "RECONNECT_MAX_MS = 30000"

datatype stream_phase =
    Waiting
  | Connecting
  | Refreshing
  | Reading string

text \<open>\<open>st_timer\<close> is the delay of the pending timer.\<close>

record stream =
  st_stopped :: bool
  st_attempt :: nat
  st_timer :: "nat option"
  st_phase :: stream_phase

datatype stream_event =
    Timer_Fires "string option"
  | Response nat bool
  | Request_Fails
  | Token_Refreshed
  | Refresh_Fails
  | Chunk string
  | Body_Ends
  | Stop

definition schedule :: "stream \<Rightarrow> stream" where
  "schedule s =
     (if st_stopped s then s\<lparr>st_phase := Waiting\<rparr>
      else s\<lparr>st_timer := Some (min (RECONNECT_BASE_MS * 2 ^ st_attempt s) RECONNECT_MAX_MS),
             st_attempt := st_attempt s + 1, st_phase := Waiting\<rparr>)"

text \<open>The start of \<open>run\<close>, with what \<open>getToken()\<close> gives; an empty token is falsy.\<close>

definition run_stream :: "stream \<Rightarrow> string option \<Rightarrow> stream" where
  "run_stream s token =
     (if st_stopped s then s
      else if token = None \<or> token = Some [] then schedule s
      else s\<lparr>st_phase := Connecting\<rparr>)"

definition connectEventStream :: "string option \<Rightarrow> stream" where
  "connectEventStream token =
     run_stream \<lparr>st_stopped = False, st_attempt = 0, st_timer = None, st_phase = Waiting\<rparr> token"

definition response_ok :: "nat \<Rightarrow> bool" where
  "response_ok status \<longleftrightarrow> 200 \<le> status \<and> status < 300"

text \<open>An event the current phase does not wait for has no effect.\<close>

definition stream_step :: "stream \<Rightarrow> stream_event \<Rightarrow> stream \<times> stream_output list" where
  "stream_step s ev =
     (case (ev, st_phase s) of
        (Stop, _) \<Rightarrow> (s\<lparr>st_stopped := True, st_timer := None\<rparr>, [])
      | (Timer_Fires token, Waiting) \<Rightarrow>
          (if st_timer s = None then (s, []) else (run_stream (s\<lparr>st_timer := None\<rparr>) token, []))
      | (Response status has_body, Connecting) \<Rightarrow>
          (if status = 401 then (s\<lparr>st_phase := Refreshing\<rparr>, [])
           else if \<not> response_ok status \<or> \<not> has_body then (schedule s, [])
           else (s\<lparr>st_attempt := 0, st_phase := Reading []\<rparr>, [Resync]))
      | (Request_Fails, Connecting) \<Rightarrow> (schedule s, [])
      | (Token_Refreshed, Refreshing) \<Rightarrow> (schedule (s\<lparr>st_attempt := 0\<rparr>), [])
      | (Refresh_Fails, Refreshing) \<Rightarrow> (schedule s, [])
      | (Chunk text, Reading buffer) \<Rightarrow>
          (if st_stopped s then (schedule s, [])
           else let (buffer', out) = on_chunk buffer text in (s\<lparr>st_phase := Reading buffer'\<rparr>, out))
      | (Body_Ends, Reading _) \<Rightarrow> (schedule s, [])
      | (Request_Fails, Reading _) \<Rightarrow> (schedule s, [])
      | _ \<Rightarrow> (s, []))"

inductive stream_reachable :: "stream \<Rightarrow> bool" where
  connect: "stream_reachable (connectEventStream token)"
| step: "stream_reachable s \<Longrightarrow> stream_reachable (fst (stream_step s ev))"

fun stream_run :: "stream \<Rightarrow> stream_event list \<Rightarrow> stream \<times> stream_output list" where
  "stream_run s [] = (s, [])"
| "stream_run s (ev # evs) =
     (let (s', out) = stream_step s ev; (s'', out') = stream_run s' evs in (s'', out @ out'))"

lemma stream_run_reachable: "stream_reachable s \<Longrightarrow> stream_reachable (fst (stream_run s evs))"
proof (induction evs arbitrary: s)
  case (Cons ev evs)
  obtain s' out where s': "stream_step s ev = (s', out)" by (cases "stream_step s ev")
  with stream_reachable.step [OF Cons.prems, of ev] have "stream_reachable s'" by simp
  then have "stream_reachable (fst (stream_run s' evs))" by (rule Cons.IH)
  with s' show ?case by (cases "stream_run s' evs") simp
qed simp

definition delay_ok :: "nat \<Rightarrow> bool" where
  "delay_ok d \<longleftrightarrow> RECONNECT_BASE_MS \<le> d \<and> d \<le> RECONNECT_MAX_MS"

text \<open>An open stream has exactly one thing under way: a timer, or a call.\<close>

definition stream_ok :: "stream \<Rightarrow> bool" where
  "stream_ok s \<longleftrightarrow>
     (if st_stopped s then st_timer s = None
      else case st_timer s of
             None \<Rightarrow> st_phase s \<noteq> Waiting
           | Some d \<Rightarrow> st_phase s = Waiting \<and> delay_ok d)"

lemma backoff_bounds: "delay_ok (min (RECONNECT_BASE_MS * 2 ^ n) RECONNECT_MAX_MS)"
  by (simp add: delay_ok_def RECONNECT_BASE_MS_def RECONNECT_MAX_MS_def)

lemma stream_ok_schedule: "st_stopped s \<longrightarrow> st_timer s = None \<Longrightarrow> stream_ok (schedule s)"
  by (simp add: stream_ok_def schedule_def backoff_bounds)

lemma stream_ok_run: "st_timer s = None \<Longrightarrow> stream_ok (run_stream s token)"
  by (simp add: run_stream_def stream_ok_schedule) (simp add: stream_ok_def)

lemma stream_ok_phase: "stream_ok s \<Longrightarrow> st_phase s \<noteq> Waiting \<Longrightarrow> st_timer s = None"
  by (auto simp: stream_ok_def split: option.splits if_splits)

lemma stream_ok_keep: "st_timer s = None \<Longrightarrow> p \<noteq> Waiting \<Longrightarrow> stream_ok (s\<lparr>st_phase := p\<rparr>)"
  "st_timer s = None \<Longrightarrow> p \<noteq> Waiting \<Longrightarrow> stream_ok (s\<lparr>st_attempt := n, st_phase := p\<rparr>)"
  by (simp_all add: stream_ok_def)

lemma stream_ok_step:
  assumes ok: "stream_ok s"
  shows "stream_ok (fst (stream_step s ev))"
proof (cases "ev = Stop \<or> st_phase s = Waiting")
  case True
  with ok show ?thesis
    by (cases ev) (auto simp: stream_step_def stream_ok_run stream_ok_def [of "s\<lparr>st_stopped := True, st_timer := None\<rparr>"])
next
  case False
  with stream_ok_phase [OF ok] have t: "st_timer s = None" and "ev \<noteq> Stop" "st_phase s \<noteq> Waiting" by auto
  then show ?thesis
    using ok
    by (cases ev; cases "st_phase s")
      (auto simp: stream_step_def Let_def stream_ok_schedule stream_ok_keep split: prod.splits)
qed

lemma stream_reachable_ok: "stream_reachable s \<Longrightarrow> stream_ok s"
  by (induction rule: stream_reachable.induct) (simp_all add: connectEventStream_def stream_ok_run stream_ok_step)

text \<open>C18: What the client hears of a stream depends on the text alone, not on how the network cuts it
  into chunks: the handler calls of the reader loop are those of the complete frames of the whole
  text, in their order, each handled once, and what is left is the unfinished frame.\<close>

theorem events_independent_of_chunks:
  "read_chunks [] pieces = (last (split_frames (concat pieces)), body_outputs (concat pieces))"
proof -
  have "partial_frame []" by (simp add: partial_frame_def)
  then have "read_chunks [] pieces = on_chunk [] (concat pieces)"
    by (simp only: read_chunks_read_all frames.read_all_concat)
  then show ?thesis by (simp add: on_chunk_def body_outputs_def Let_def)
qed

text \<open>C19: A stream that was not stopped never gives up and never hammers: in every state it can reach,
  either one request, refresh or read is under way and no timer is set, or nothing is and exactly
  one timer is, of at least one second and at most thirty; after \<open>n\<close> failures in a row the delay is
  the smaller of 1000 * 2^n milliseconds and thirty seconds. A stopped stream has no timer, whatever was under way when it
  was stopped.\<close>

theorem stream_keeps_trying:
  assumes "stream_reachable s"
  shows "(if st_stopped s then st_timer s = None
     else case st_timer s of
            None \<Rightarrow> st_phase s \<noteq> Waiting
          | Some d \<Rightarrow> st_phase s = Waiting \<and> 1000 \<le> d \<and> d \<le> 30000) \<and>
    (st_phase s = Connecting \<longrightarrow> \<not> st_stopped s \<longrightarrow>
      st_timer (fst (stream_step s Request_Fails)) = Some (min (1000 * 2 ^ st_attempt s) 30000) \<and>
      st_attempt (fst (stream_step s Request_Fails)) = st_attempt s + 1)"
  using stream_reachable_ok [OF assms]
  by (auto simp: stream_ok_def delay_ok_def RECONNECT_BASE_MS_def RECONNECT_MAX_MS_def stream_step_def schedule_def
      split: option.splits)

lemma stream_keeps_trying_witness:
  "let s = fst (stream_run (connectEventStream (Some ''t'')) [Request_Fails, Timer_Fires (Some ''t''), Response 503 False])
   in st_timer s = Some 2000 \<and> st_phase s = Waiting \<and> 1000 \<le> the (st_timer s)"
proof -
  let ?s = "fst (stream_run (connectEventStream (Some ''t''))
    [Request_Fails, Timer_Fires (Some ''t''), Response 503 False])"
  have t: "st_timer ?s = Some 2000" "\<not> st_stopped ?s"
    by (simp_all add: connectEventStream_def run_stream_def stream_step_def schedule_def response_ok_def
        RECONNECT_BASE_MS_def RECONNECT_MAX_MS_def)
  have "stream_reachable ?s" by (intro stream_run_reachable stream_reachable.connect)
  from stream_keeps_trying [OF this] t show ?thesis by (simp add: Let_def)
qed

text \<open>Reading starts with a resync, and nothing is heard outside reading.\<close>

definition is_reading :: "stream \<Rightarrow> bool" where
  "is_reading s = (case st_phase s of Reading _ \<Rightarrow> True | _ \<Rightarrow> False)"

lemma not_reading_schedule [simp]: "\<not> is_reading (schedule s)"
  by (simp add: is_reading_def schedule_def)

lemma not_reading_run: "\<not> is_reading s \<Longrightarrow> \<not> is_reading (run_stream s token)"
  by (simp add: run_stream_def) (simp add: is_reading_def)

lemma reading_after_resync:
  assumes "stream_step s ev = (s', out)" and "\<not> is_reading s"
  shows "if is_reading s' then out = [Resync] else out = []"
proof (cases "ev = Stop")
  case True
  with assms show ?thesis by (auto simp: stream_step_def is_reading_def)
next
  case False
  then show ?thesis
  proof (cases "st_phase s")
    case Waiting
    then have "\<not> is_reading (s\<lparr>st_timer := None\<rparr>)" by (simp add: is_reading_def)
    with Waiting False assms show ?thesis
      by (cases ev) (auto simp: stream_step_def not_reading_run split: if_splits)
  next
    case Connecting
    with False assms show ?thesis
      by (cases ev) (auto simp: stream_step_def is_reading_def [of "s\<lparr>st_phase := p\<rparr>" for p]
        is_reading_def [of "s\<lparr>st_attempt := n, st_phase := p\<rparr>" for n p] split: if_splits)
  next
    case Refreshing
    with False assms show ?thesis by (cases ev) (auto simp: stream_step_def split: if_splits)
  next
    case (Reading buffer)
    with assms(2) show ?thesis by (simp add: is_reading_def)
  qed
qed

section \<open>When a stream exists (\<open>hooks/use-event-stream.ts\<close>)\<close>

text \<open>The effect of one mount with an authenticated session: \<open>connections\<close> counts the streams that
  were opened and not disconnected.\<close>

record stream_effect =
  ef_disconnect :: bool
  ef_connections :: nat
  ef_subscribed :: bool

definition open_stream :: "stream_effect \<Rightarrow> stream_effect" where
  "open_stream e =
     (if ef_disconnect e then e
      else e\<lparr>ef_disconnect := True, ef_connections := ef_connections e + 1\<rparr>)"

definition close_stream :: "stream_effect \<Rightarrow> stream_effect" where
  "close_stream e =
     (if ef_disconnect e then e\<lparr>ef_disconnect := False, ef_connections := ef_connections e - 1\<rparr> else e)"

definition start_stream_effect :: "bool \<Rightarrow> bool \<Rightarrow> stream_effect" where
  "start_stream_effect authenticated active =
     (let e = \<lparr>ef_disconnect = False, ef_connections = 0, ef_subscribed = False\<rparr>
      in if \<not> authenticated then e
         else (if active then open_stream e else e)\<lparr>ef_subscribed := True\<rparr>)"

definition app_state_change :: "bool \<Rightarrow> stream_effect \<Rightarrow> stream_effect" where
  "app_state_change active e =
     (if \<not> ef_subscribed e then e else if active then open_stream e else close_stream e)"

definition stop_stream_effect :: "stream_effect \<Rightarrow> stream_effect" where
  "stop_stream_effect e = (if ef_subscribed e then (close_stream e)\<lparr>ef_subscribed := False\<rparr> else e)"

text \<open>The query families each handler call refetches.\<close>

datatype query_family = Message_Queries | Notification_Queries

definition refetched :: "stream_output \<Rightarrow> query_family list" where
  "refetched out =
     (case out of
        Changed Messages_Changed \<Rightarrow> [Message_Queries]
      | Changed Notifications_Changed \<Rightarrow> [Notification_Queries]
      | Resync \<Rightarrow> [Message_Queries, Notification_Queries])"

lemma one_stream_while_active:
  "ef_connections (foldl (\<lambda>e active. app_state_change active e) (start_stream_effect authenticated active0) actives) =
     (if authenticated \<and> last (active0 # actives) then 1 else 0) \<and>
   ef_connections (stop_stream_effect
     (foldl (\<lambda>e active. app_state_change active e) (start_stream_effect authenticated active0) actives)) = 0"
proof -
  define ok where "ok = (\<lambda>a (e :: stream_effect). ef_subscribed e = authenticated \<and> ef_disconnect e = (authenticated \<and> a) \<and>
    ef_connections e = (if authenticated \<and> a then 1 else 0))"
  have "ok (last (a # actives)) (foldl (\<lambda>e active. app_state_change active e) e actives)" if "ok a e" for a e
    using that
    by (induction actives arbitrary: a e)
      (auto simp: ok_def app_state_change_def open_stream_def close_stream_def)
  moreover have "ok active0 (start_stream_effect authenticated active0)"
    by (simp add: ok_def start_stream_effect_def open_stream_def Let_def)
  ultimately show ?thesis
    by (fastforce simp: ok_def stop_stream_effect_def close_stream_def)
qed

end
