(* ===== verification/Http_Client.thy ===== *)
theory Http_Client
  imports Js_Text
begin

text \<open>
  \<open>lib/http.ts\<close> of the mobile client: query strings, the request with its timeout and its errors,
  the native upload, and the readers of an error.

  The network is an argument: what \<open>fetch\<close> (or the native upload) gives, and whether a signal had
  been aborted when it threw. \<open>JSON.parse\<close> belongs to the runtime, so a body is missing, \<open>Garbage\<close>
  or \<open>Parsed\<close>. Messages are kept by kind; only their wording is left out.
\<close>

section \<open>Errors\<close>

datatype api_message =
    Server_Says json
  | Failed_With_Status nat
  | Cancelled
  | Timed_Out
  | No_Connection
  | Upload_Failed string
  | Go_Online
  | Go_Online_To_Upload
  | Sign_In_To_Upload
  | Session_Changed
  | Session_Changed_In_Upload

record api_error =
  ae_message :: api_message
  ae_status :: nat
  ae_payload :: "json option"

text \<open>Any exception: an \<open>ApiError\<close> or something else (with its message, when it is an \<open>Error\<close>).\<close>

datatype thrown = Api_Error api_error | Other_Error "string option"

definition isTwoFactorRequired :: "thrown \<Rightarrow> bool" where
  "isTwoFactorRequired e =
     (case e of
        Api_Error a \<Rightarrow>
          (case ae_payload a of
             Some v \<Rightarrow> is_object v \<and> json_prop v ''two_factor_required'' = Some (JBool True)
           | None \<Rightarrow> False)
      | Other_Error _ \<Rightarrow> False)"

definition getErrorMessage :: "thrown \<Rightarrow> api_message \<Rightarrow> api_message" where
  "getErrorMessage e fallback = (case e of Api_Error a \<Rightarrow> ae_message a | Other_Error _ \<Rightarrow> fallback)"

section \<open>Query strings\<close>

datatype query_value = Q_Text jstr | Q_Number int | Q_Bool bool | Q_Null | Q_Undefined

definition query_text :: "query_value \<Rightarrow> jstr option" where
  "query_text v =
     (case v of
        Q_Text s \<Rightarrow> if s = [] then None else Some s
      | Q_Number i \<Rightarrow> Some (units_of (decimal_int i))
      | Q_Bool b \<Rightarrow> Some (units_of (if b then ''true'' else ''false''))
      | Q_Null \<Rightarrow> None
      | Q_Undefined \<Rightarrow> None)"

text \<open>\<open>URLSearchParams.toString()\<close>: \<open>application/x-www-form-urlencoded\<close> text of the UTF-8 bytes.\<close>

definition hex_upper :: "nat \<Rightarrow> char" where
  "hex_upper d = (if d < 10 then digit d else char_of (55 + d))"

definition form_plain :: "nat \<Rightarrow> bool" where
  "form_plain b \<longleftrightarrow> (48 \<le> b \<and> b \<le> 57) \<or> (65 \<le> b \<and> b \<le> 90) \<or> (97 \<le> b \<and> b \<le> 122) \<or>
     b = 42 \<or> b = 45 \<or> b = 46 \<or> b = 95"

definition form_byte :: "byte \<Rightarrow> string" where
  "form_byte w =
     (let b = unat w
      in if b = 32 then ''+''
         else if form_plain b then [char_of b]
         else [CHR ''%'', hex_upper (b div 16), hex_upper (b mod 16)])"

definition form_encode :: "jstr \<Rightarrow> string" where
  "form_encode s = concat (map form_byte (text_encode s))"

text \<open>Percent encoding of the bytes of a set, and \<open>encodeURIComponent\<close> of text given by its UTF-8 bytes.\<close>

definition percent_encode :: "(char \<Rightarrow> bool) \<Rightarrow> string \<Rightarrow> string" where
  "percent_encode P s =
     concat (map (\<lambda>c. if P c then [CHR ''%'', hex_upper (of_char c div 16), hex_upper (of_char c mod 16)] else [c]) s)"

definition uri_plain :: "char \<Rightarrow> bool" where
  "uri_plain c \<longleftrightarrow> is_letter c \<or> is_digit c \<or> c \<in> set ''-_.!~*'' \<or> of_char c \<in> {0x27, 0x28, 0x29 :: nat}"

definition encodeURIComponent :: "string \<Rightarrow> string" where
  "encodeURIComponent s = percent_encode (\<lambda>c. \<not> uri_plain c) s"

text \<open>The entries of the query in order: \<open>set\<close> replaces an earlier value of the same key in place.\<close>

definition query_entries :: "(string \<times> query_value) list \<Rightarrow> (string \<times> jstr) list" where
  "query_entries params =
     foldl (\<lambda>q (k, v). case query_text v of None \<Rightarrow> q | Some s \<Rightarrow> jm_set k s q) [] params"

definition query_string :: "(string \<times> jstr) list \<Rightarrow> string" where
  "query_string q = join_with ''&'' (map (\<lambda>(k, s). form_encode (units_of k) @ ''='' @ form_encode s) q)"

definition withQuery :: "string \<Rightarrow> (string \<times> query_value) list \<Rightarrow> string" where
  "withQuery path params =
     (let suffix = query_string (query_entries params)
      in if suffix \<noteq> [] then path @ ''?'' @ suffix else path)"

section \<open>Requests\<close>

definition REQUEST_TIMEOUT_MS :: int where "REQUEST_TIMEOUT_MS = 15000"
definition UPLOAD_TIMEOUT_MS :: int where "UPLOAD_TIMEOUT_MS = 60000"
definition MAX_REQUEST_TIMEOUT_MS :: int where "MAX_REQUEST_TIMEOUT_MS = 120000"

datatype http_method = GET | POST | PUT | PATCH | DELETE

record request_options =
  ro_method :: "http_method option"
  ro_body :: "json option"
  ro_headers :: "(string \<times> string) list"
  ro_timeoutMs :: "int option"

text \<open>What the platform sees: the method, the headers (a later one of the same name wins), the body
  and the time after which the request is aborted.\<close>

record platform_request =
  pr_path :: string
  pr_method :: http_method
  pr_headers :: "(string \<times> string) list"
  pr_body :: "json option"
  pr_timeout :: int

definition merge_headers :: "(string \<times> string) list \<Rightarrow> (string \<times> string) list \<Rightarrow> (string \<times> string) list" where
  "merge_headers base extra = foldl (\<lambda>h (k, v). jm_set k v h) base extra"

definition rawRequest_init :: "string \<Rightarrow> request_options \<Rightarrow> platform_request" where
  "rawRequest_init path options =
     \<lparr>pr_path = path,
      pr_method = (case ro_method options of None \<Rightarrow> GET | Some m \<Rightarrow> m),
      pr_headers = merge_headers
        ((''Accept'', ''application/json'') #
         (if ro_body options = None then [] else [(''Content-Type'', ''application/json'')]))
        (ro_headers options),
      pr_body = ro_body options,
      pr_timeout = min MAX_REQUEST_TIMEOUT_MS
        (max 1000 (case ro_timeoutMs options of None \<Rightarrow> REQUEST_TIMEOUT_MS | Some t \<Rightarrow> t))\<rparr>"

definition rawFormDataRequest_init :: "string \<Rightarrow> json \<Rightarrow> (string \<times> string) list \<Rightarrow> platform_request" where
  "rawFormDataRequest_init path form headers =
     \<lparr>pr_path = path, pr_method = POST,
      pr_headers = merge_headers [(''Accept'', ''application/json'')] headers,
      pr_body = Some form, pr_timeout = UPLOAD_TIMEOUT_MS\<rparr>"

text \<open>An answer with its status and body, or an exception with the aborted flags at that moment:
  of the controller, and of the caller's signal.\<close>

datatype network =
    Answer nat "stored option"
  | Throws "string option" bool bool

definition body_payload :: "stored option \<Rightarrow> json option" where
  "body_payload text = (case text of Some (Parsed v) \<Rightarrow> Some v | _ \<Rightarrow> None)"

text \<open>JavaScript truth of a parsed value.\<close>

definition json_truthy :: "json \<Rightarrow> bool" where
  "json_truthy v =
     (case v of
        JNull \<Rightarrow> False
      | JBool b \<Rightarrow> b
      | JNum q \<Rightarrow> q \<noteq> 0
      | JStr s \<Rightarrow> s \<noteq> []
      | JArr _ \<Rightarrow> True
      | JObj _ \<Rightarrow> True)"

definition failed_answer :: "nat \<Rightarrow> json option \<Rightarrow> api_error" where
  "failed_answer status payload =
     (let message = (case payload of Some v \<Rightarrow> json_prop v ''message'' | None \<Rightarrow> None)
      in \<lparr>ae_message = (case message of
             Some m \<Rightarrow> if json_truthy m then Server_Says m else Failed_With_Status status
           | None \<Rightarrow> Failed_With_Status status),
          ae_status = status, ae_payload = payload\<rparr>)"

definition no_answer :: "api_message \<Rightarrow> api_error" where
  "no_answer m = \<lparr>ae_message = m, ae_status = 0, ae_payload = None\<rparr>"

definition request_outcome :: "network \<Rightarrow> api_error + json option" where
  "request_outcome n =
     (case n of
        Answer status text \<Rightarrow>
          (if 200 \<le> status \<and> status < 300 then Inr (body_payload text)
           else Inl (failed_answer status (body_payload text)))
      | Throws _ aborted callerAborted \<Rightarrow>
          Inl (no_answer (if aborted then (if callerAborted then Cancelled else Timed_Out) else No_Connection)))"

text \<open>Only white space is trimmed off the reason.\<close>

definition uploadFailureMessage :: "string option \<Rightarrow> api_message" where
  "uploadFailureMessage e =
     (let reason = (case e of Some m \<Rightarrow> str_trim m | None \<Rightarrow> [])
      in if reason \<noteq> [] then Upload_Failed reason else No_Connection)"

definition rawMultipartRequest_outcome :: "network \<Rightarrow> api_error + json option" where
  "rawMultipartRequest_outcome n =
     (case n of
        Answer status text \<Rightarrow>
          (if status < 200 \<or> 300 \<le> status then Inl (failed_answer status (body_payload text))
           else Inr (body_payload text))
      | Throws reason aborted callerAborted \<Rightarrow>
          Inl (no_answer (if aborted then (if callerAborted then Cancelled else Timed_Out)
                          else uploadFailureMessage reason)))"

section \<open>What a request reports\<close>

lemma request_timeout_bounds:
  "1000 \<le> pr_timeout (rawRequest_init path options) \<and> pr_timeout (rawRequest_init path options) \<le> 120000"
  by (simp add: rawRequest_init_def MAX_REQUEST_TIMEOUT_MS_def)

lemma request_outcome_ok_iff:
  "request_outcome n = Inr v \<longleftrightarrow> (\<exists>status text. n = Answer status text \<and> 200 \<le> status \<and> status < 300 \<and> v = body_payload text)"
  by (auto simp: request_outcome_def split: network.splits if_splits)

lemma upload_agrees: "n = Answer status text \<Longrightarrow> rawMultipartRequest_outcome n = request_outcome n"
  by (auto simp: request_outcome_def rawMultipartRequest_outcome_def)

lemma status_zero_iff_no_answer:
  "request_outcome n = Inl e \<Longrightarrow> ae_status e = 0 \<longleftrightarrow> (\<exists>r a c. n = Throws r a c) \<or> (\<exists>text. n = Answer 0 text)"
  by (auto simp: request_outcome_def failed_answer_def no_answer_def Let_def split: network.splits if_splits)

section \<open>Reading a query string back\<close>

text \<open>The decoder of the server side: a form-urlencoded value is bytes.\<close>

definition hex_value :: "char \<Rightarrow> nat" where
  "hex_value c = (if of_char c < (58 :: nat) then of_char c - 48 else of_char c - 55)"

fun form_decode :: "string \<Rightarrow> bytes" where
  "form_decode [] = []"
| "form_decode (c # cs) =
     (if c = CHR ''+'' then 32 # form_decode cs
      else if c = CHR ''%'' then
        (case cs of
           a # b # rest \<Rightarrow> of_nat (16 * hex_value a + hex_value b) # form_decode rest
         | _ \<Rightarrow> of_nat (of_char c) # form_decode cs)
      else of_nat (of_char c) # form_decode cs)"

definition query_decode :: "string \<Rightarrow> (bytes \<times> bytes) list" where
  "query_decode s =
     map (\<lambda>entry. case split_on (CHR ''='') entry of
            k # vs \<Rightarrow> (form_decode k, form_decode (join_with ''='' vs))
          | [] \<Rightarrow> ([], []))
       (split_on (CHR ''&'') s)"

lemma hex_upper_values:
  assumes "d < 16"
  shows "hex_value (hex_upper d) = d" and "hex_upper d \<notin> {CHR ''&'', CHR ''='', CHR ''+'', CHR ''%''}"
proof -
  from assms have "(of_char (hex_upper d) :: nat) = (if d < 10 then 48 + d else 55 + d)"
    by (simp add: hex_upper_def)
  then show "hex_value (hex_upper d) = d" and "hex_upper d \<notin> {CHR ''&'', CHR ''='', CHR ''+'', CHR ''%''}"
    using assms by (auto simp: hex_value_def split: if_splits)
qed

lemma form_plain_char:
  assumes "form_plain b"
  shows "(of_char (char_of b :: char) :: nat) = b" and "(char_of b :: char) \<notin> {CHR ''&'', CHR ''='', CHR ''+'', CHR ''%''}"
proof -
  from assms have "b < 256" by (auto simp: form_plain_def)
  then show e: "(of_char (char_of b :: char) :: nat) = b" by simp
  have "(of_char (char_of b :: char) :: nat) \<notin> of_char ` {CHR ''&'', CHR ''='', CHR ''+'', CHR ''%''}"
    unfolding e using assms by (auto simp: form_plain_def)
  then show "(char_of b :: char) \<notin> {CHR ''&'', CHR ''='', CHR ''+'', CHR ''%''}" by blast
qed

lemma byte_groups: "16 * of_nat (unat w div 16) + of_nat (unat w mod 16) = (w :: byte)"
proof -
  have "(of_nat (16 * (unat w div 16) + unat w mod 16) :: byte) = w" unfolding mult_div_mod_eq by simp
  then show ?thesis by (simp only: of_nat_add of_nat_mult of_nat_numeral)
qed

lemma form_decode_byte: "form_decode (form_byte w @ rest) = w # form_decode rest"
proof -
  have b: "unat w < 256" using unsigned_less [of w] by simp
  then have d: "unat w div 16 < 16" by simp
  show ?thesis
  proof (cases "unat w = 32")
    case True
    then have "w = 32" by (simp add: unsigned_word_eqI word_unat_eq_iff)
    then show ?thesis by (simp add: form_byte_def)
  next
    case False
    then show ?thesis
      using hex_upper_values(1) [OF d] hex_upper_values(1) [of "unat w mod 16"]
        form_plain_char [of "unat w"] byte_groups [of w]
      by (auto simp: form_byte_def Let_def)
  qed
qed

lemma form_byte_safe: "set (form_byte w) \<inter> {CHR ''&'', CHR ''=''} = {}"
proof -
  have "unat w < 256" using unsigned_less [of w] by simp
  then have d: "unat w div 16 < 16" by simp
  show ?thesis
    using hex_upper_values(2) [OF d] hex_upper_values(2) [of "unat w mod 16"] form_plain_char(2) [of "unat w"]
    by (auto simp: form_byte_def Let_def)
qed

lemma form_decode_encode: "form_decode (form_encode s) = text_encode s"
proof -
  have "form_decode (concat (map form_byte bs)) = bs" for bs
    by (induction bs) (simp_all add: form_decode_byte)
  then show ?thesis by (simp add: form_encode_def)
qed

lemma form_encode_safe: "CHR ''&'' \<notin> set (form_encode s)" "CHR ''='' \<notin> set (form_encode s)"
  using form_byte_safe by (auto simp: form_encode_def)

lemma split_on_none: "c \<notin> set xs \<Longrightarrow> split_on c xs = [xs]"
  by (induction xs) auto

lemma split_on_append: "c \<notin> set xs \<Longrightarrow> split_on c (xs @ c # ys) = xs # split_on c ys"
  by (induction xs) auto

lemma split_join: "\<forall>p \<in> set (p # ps). c \<notin> set p \<Longrightarrow> split_on c (join_with [c] (p # ps)) = p # ps"
proof (induction ps arbitrary: p)
  case Nil
  then show ?case by (simp add: split_on_none)
next
  case (Cons q ps)
  then show ?case by (simp add: split_on_append)
qed

lemma query_decode_string:
  assumes "q \<noteq> []"
  shows "query_decode (query_string q) = map (\<lambda>(k, s). (text_encode (units_of k), text_encode s)) q"
proof -
  let ?f = "\<lambda>(k, s). form_encode (units_of k) @ ''='' @ form_encode s"
  obtain e es where q: "q = e # es" using assms by (cases q) auto
  have safe: "\<forall>p \<in> set (?f e # map ?f es). CHR ''&'' \<notin> set p"
    using form_encode_safe(1) by (auto split: prod.splits)
  have "split_on (CHR ''='') (form_encode k @ CHR ''='' # form_encode s) = [form_encode k, form_encode s]" for k s
    by (simp add: split_on_append split_on_none form_encode_safe)
  with split_join [OF safe] show ?thesis
    by (auto simp: query_decode_def query_string_def q form_decode_encode split: prod.splits)
qed

lemma query_string_empty: "query_string q = [] \<longleftrightarrow> q = []"
  by (cases q rule: remdups_adj.cases) (auto simp: query_string_def)

text \<open>A query string says exactly what was asked. Parameters that are missing, null or the empty
  string are left out; when none is left the path is unchanged; otherwise the text after the
  question mark, decoded as a server decodes a form, gives the remaining keys and values, byte for
  byte in UTF-8 and in their order, whatever characters they hold: no value can add or change
  another parameter.\<close>

theorem query_round_trip:
  "withQuery path params =
     (if query_entries params = [] then path else path @ ''?'' @ query_string (query_entries params)) \<and>
   (query_entries params = [] \<or>
    query_decode (query_string (query_entries params)) =
      map (\<lambda>(k, s). (text_encode (units_of k), text_encode s)) (query_entries params))"
  using query_decode_string by (auto simp: withQuery_def Let_def query_string_empty)

end
