(* ===== verification/Api_Request.thy ===== *)
theory Api_Request
  imports Http_Client
begin

text \<open>
  \<open>lib/api.ts\<close> of the mobile client: a request on behalf of the session, with one refresh of the
  access token when the server answers 401, and the same for uploads.

  Between two \<open>await\<close>s anything may have happened to the session, so every reading of the store and
  of the session generation is an argument: \<open>v0\<close> when the call starts, \<open>v1\<close> when the first answer
  is there, \<open>v2\<close> after the refresh, \<open>v3\<close> after the second answer. The result carries the calls made, in order.
\<close>

datatype view_status = V_Loading | V_Authenticated | V_Anonymous | V_Offline | V_Restore_Error

record session_view =
  sv_generation :: nat
  sv_status :: view_status
  sv_token :: "string option"
  sv_user :: "string option"

datatype api_call = Raw "string option" | Refresh

text \<open>\<open>headers.Authorization\<close> is set for a truthy token.\<close>

definition sent_token :: "bool \<Rightarrow> session_view \<Rightarrow> string option" where
  "sent_token authenticated v =
     (if authenticated then (case sv_token v of Some (c # cs) \<Rightarrow> Some (c # cs) | _ \<Rightarrow> None) else None)"

definition session_changed :: thrown where
  "session_changed = Api_Error \<lparr>ae_message = Session_Changed, ae_status = 401, ae_payload = None\<rparr>"

definition upload_session_changed :: thrown where
  "upload_session_changed = Api_Error \<lparr>ae_message = Session_Changed_In_Upload, ae_status = 401, ae_payload = None\<rparr>"

definition is_401 :: "thrown \<Rightarrow> bool" where
  "is_401 e = (case e of Api_Error a \<Rightarrow> ae_status a = 401 | Other_Error _ \<Rightarrow> False)"

text \<open>The first \<open>try\<close>: a response that came back into another session is the exception 401 that
  the \<open>catch\<close> below then sees.\<close>

definition first_attempt ::
  "bool \<Rightarrow> session_view \<Rightarrow> session_view \<Rightarrow> thrown + 'a \<Rightarrow> thrown + 'a" where
  "first_attempt authenticated v0 v1 r1 =
     (case r1 of
        Inl e \<Rightarrow> Inl e
      | Inr response \<Rightarrow>
          if authenticated \<and> sv_generation v0 \<noteq> sv_generation v1 then Inl session_changed
          else Inr response)"

definition apiRequest ::
  "bool \<Rightarrow> bool \<Rightarrow> session_view \<Rightarrow> thrown + 'a \<Rightarrow> session_view \<Rightarrow> thrown + string \<Rightarrow> session_view \<Rightarrow>
   thrown + 'a \<Rightarrow> session_view \<Rightarrow> (thrown + 'a) \<times> api_call list" where
  "apiRequest authenticated retryAfterRefresh v0 r1 v1 refreshed v2 r2 v3 =
     (if authenticated \<and> sv_status v0 = V_Offline then (Inl (Api_Error (no_answer Go_Online)), [])
      else
        let first = Raw (sent_token authenticated v0)
        in case first_attempt authenticated v0 v1 r1 of
             Inr response \<Rightarrow> (Inr response, [first])
           | Inl e \<Rightarrow>
               if \<not> (authenticated \<and> sv_generation v0 = sv_generation v1 \<and> retryAfterRefresh \<and>
                      is_401 e \<and> sv_status v1 = V_Authenticated)
               then (Inl e, [first])
               else
                 (case refreshed of
                    Inl e' \<Rightarrow> (Inl e', [first, Refresh])
                  | Inr accessToken \<Rightarrow>
                      if sv_generation v0 \<noteq> sv_generation v2 then (Inl session_changed, [first, Refresh])
                      else
                        (case r2 of
                           Inl e' \<Rightarrow> (Inl e', [first, Refresh, Raw (Some accessToken)])
                         | Inr response \<Rightarrow>
                             (if sv_generation v0 \<noteq> sv_generation v3 then Inl session_changed
                              else Inr response, [first, Refresh, Raw (Some accessToken)]))))"

text \<open>\<open>authenticatedUpload\<close>: the upload carries a signal that is aborted as soon as the store shows
  another user or status, so \<open>r1\<close> and \<open>r2\<close> are what the aborted or finished upload gives.\<close>

definition sign_in_to_upload :: thrown where
  "sign_in_to_upload = Api_Error \<lparr>ae_message = Sign_In_To_Upload, ae_status = 401, ae_payload = None\<rparr>"

definition upload_refresh_allowed :: "session_view \<Rightarrow> session_view \<Rightarrow> string \<Rightarrow> thrown \<Rightarrow> bool" where
  "upload_refresh_allowed v0 v1 ownerId e \<longleftrightarrow>
     sv_generation v0 = sv_generation v1 \<and> is_401 e \<and> sv_status v1 = V_Authenticated \<and> sv_user v1 = Some ownerId"

definition authenticatedUpload ::
  "session_view \<Rightarrow> thrown + 'a \<Rightarrow> session_view \<Rightarrow> thrown + string \<Rightarrow> session_view \<Rightarrow>
   thrown + 'a \<Rightarrow> session_view \<Rightarrow> (thrown + 'a) \<times> api_call list" where
  "authenticatedUpload v0 r1 v1 refreshed v2 r2 v3 =
     (if sv_status v0 = V_Offline then (Inl (Api_Error (no_answer Go_Online_To_Upload)), [])
      else
        (case (sv_status v0, sent_token True v0, sv_user v0) of
           (V_Authenticated, Some token, Some (u # us)) \<Rightarrow>
             (let ownerId = u # us;
                  first = Raw (Some token);
                  attempt = (case r1 of
                               Inl e \<Rightarrow> Inl e
                             | Inr response \<Rightarrow>
                                 if sv_generation v0 \<noteq> sv_generation v1 then Inl upload_session_changed
                                 else Inr response)
              in case attempt of
                   Inr response \<Rightarrow> (Inr response, [first])
                 | Inl e \<Rightarrow>
                     if \<not> upload_refresh_allowed v0 v1 ownerId e then (Inl e, [first])
                     else
                       (case refreshed of
                          Inl e' \<Rightarrow> (Inl e', [first, Refresh])
                        | Inr accessToken \<Rightarrow>
                            if sv_generation v0 \<noteq> sv_generation v2 \<or> sv_user v2 \<noteq> Some ownerId
                            then (Inl upload_session_changed, [first, Refresh])
                            else
                              (case r2 of
                                 Inl e' \<Rightarrow> (Inl e', [first, Refresh, Raw (Some accessToken)])
                               | Inr response \<Rightarrow>
                                   (if sv_generation v0 \<noteq> sv_generation v3 then Inl upload_session_changed
                                    else Inr response, [first, Refresh, Raw (Some accessToken)]))))
         | _ \<Rightarrow> (Inl sign_in_to_upload, [])))"

text \<open>The subscription of an upload: whether this state of the store aborts it.\<close>

definition upload_aborts :: "string \<Rightarrow> session_view \<Rightarrow> bool" where
  "upload_aborts ownerId v \<longleftrightarrow> sv_status v \<noteq> V_Authenticated \<or> sv_user v \<noteq> Some ownerId"

section \<open>Which session an answer belongs to\<close>

lemma apiRequest_calls:
  "apiRequest auth retry v0 r1 v1 refreshed v2 r2 v3 = (result, calls) \<Longrightarrow>
   calls \<in> {[], [Raw (sent_token auth v0)], [Raw (sent_token auth v0), Refresh]} \<union>
     {[Raw (sent_token auth v0), Refresh, Raw (Some t)] | t. refreshed = Inr t}"
  by (auto simp: apiRequest_def Let_def split: if_splits sum.splits)

text \<open>C20: No answer crosses an account. For an authenticated call, whatever happens to the session
  while it waits: an answer is returned only when the session generation at the end is the one at
  the start (of the answer that is returned); the token sent is the one the store held at the start,
  and after a 401 the refreshed one; there are at most two requests and one refresh, and the refresh
  only when the first answer was a 401 in an unchanged, authenticated session; nothing at all is sent
  while offline.\<close>

theorem answer_belongs_to_session:
  assumes "apiRequest True retry v0 r1 v1 refreshed v2 r2 v3 = (result, calls)"
  shows "(\<forall>response. result = Inr response \<longrightarrow>
      (length calls = 1 \<and> sv_generation v1 = sv_generation v0 \<and> r1 = Inr response) \<or>
      (length calls = 3 \<and> sv_generation v3 = sv_generation v0 \<and> r2 = Inr response)) \<and>
    (calls = [] \<longleftrightarrow> sv_status v0 = V_Offline) \<and>
    (calls \<noteq> [] \<longrightarrow> hd calls = Raw (sent_token True v0)) \<and>
    (Refresh \<in> set calls \<longrightarrow>
      retry \<and> sv_generation v1 = sv_generation v0 \<and> sv_status v1 = V_Authenticated \<and> (\<exists>e. r1 = Inl e \<and> is_401 e)) \<and>
    (\<forall>t. calls = [Raw (sent_token True v0), Refresh, Raw (Some t)] \<longrightarrow> refreshed = Inr t) \<and>
    length calls \<le> 3"
  using assms
  by (auto simp: apiRequest_def first_attempt_def Let_def split: if_splits sum.splits)

definition sample_view :: "nat \<Rightarrow> session_view" where
  "sample_view g = \<lparr>sv_generation = g, sv_status = V_Authenticated, sv_token = Some ''t'', sv_user = Some ''u''\<rparr>"

lemma answer_belongs_to_session_witness:
  "\<exists>calls. apiRequest True True (sample_view 1) (Inl session_changed) (sample_view 1) (Inr ''t2'') (sample_view 1)
      (Inr (5 :: nat)) (sample_view 1) = (Inr 5, calls) \<and> length calls = 3 \<and> Refresh \<in> set calls"
proof -
  have e: "apiRequest True True (sample_view 1) (Inl session_changed) (sample_view 1) (Inr ''t2'') (sample_view 1)
      (Inr (5 :: nat)) (sample_view 1) = (Inr 5, [Raw (Some ''t''), Refresh, Raw (Some ''t2'')])"
    by (simp add: apiRequest_def first_attempt_def sent_token_def sample_view_def is_401_def session_changed_def)
  from answer_belongs_to_session [OF e] e show ?thesis by (auto simp: session_changed_def)
qed

text \<open>An upload is returned only into the session and for the user that started it.\<close>

lemma upload_belongs_to_owner:
  assumes "authenticatedUpload v0 r1 v1 refreshed v2 r2 v3 = (Inr response, calls)"
  shows "\<exists>owner. sv_user v0 = Some owner \<and> sv_status v0 = V_Authenticated \<and>
    ((calls = [Raw (sv_token v0)] \<and> sv_generation v1 = sv_generation v0 \<and> r1 = Inr response) \<or>
     (\<exists>t. calls = [Raw (sv_token v0), Refresh, Raw (Some t)] \<and> sv_user v1 = Some owner \<and> sv_user v2 = Some owner \<and>
        sv_generation v3 = sv_generation v0 \<and> r2 = Inr response))"
  using assms
  by (auto simp: authenticatedUpload_def upload_refresh_allowed_def sent_token_def Let_def
      split: if_splits sum.splits view_status.splits option.splits list.splits)

end
