(* ===== verification/Web_Session.thy ===== *)
theory Web_Session
  imports Http_Client
begin

text \<open>
  The session of the web client: \<open>store/auth.ts\<close> and \<open>lib/api.ts\<close> of the frontend.

  The access token lives in memory and the refresh credential in a cookie the code cannot read. The
  refresh is one shared promise with its waiters; \<open>web_step\<close> runs the code from one answer of the
  network or the browser to the next. What a settled promise resumes (the \<open>catch\<close> of the refresh,
  then each waiter in turn) runs in the same step, as it does in the microtask queue.
\<close>

section \<open>The store\<close>

datatype web_status = W_Loading | W_Authenticated | W_Anonymous

text \<open>The store has a \<open>User\<close> or null by its type; at run time it has what the server sent, which only an
  authentication result is checked for. \<open>JNull\<close> is nobody.\<close>

definition is_user :: "json \<Rightarrow> bool" where
  "is_user user \<longleftrightarrow> is_object user \<and> is_string (json_prop user ''id'') \<and> is_string (json_prop user ''username'')"

record web_auth =
  wa_token :: "string option"
  wa_user :: json
  wa_status :: web_status
  wa_generation :: nat
  wa_refreshRejected :: bool

definition initial_auth :: web_auth where
  "initial_auth = \<lparr>wa_token = None, wa_user = JNull, wa_status = W_Loading, wa_generation = 0,
                   wa_refreshRejected = False\<rparr>"

definition switching :: "web_auth \<Rightarrow> json \<Rightarrow> bool" where
  "switching a user \<longleftrightarrow> json_truthy (wa_user a) \<and> json_prop (wa_user a) ''id'' \<noteq> json_prop user ''id''"

definition setAuth :: "string \<Rightarrow> json \<Rightarrow> web_auth \<Rightarrow> web_auth" where
  "setAuth token user a =
     \<lparr>wa_token = Some token, wa_user = user, wa_status = W_Authenticated,
      wa_generation = (if wa_status a = W_Authenticated \<and> \<not> switching a user then wa_generation a
                       else wa_generation a + 1),
      wa_refreshRejected = False\<rparr>"

definition rejectSession :: "web_auth \<Rightarrow> web_auth" where
  "rejectSession a = a\<lparr>wa_refreshRejected := True\<rparr>"

definition web_setUser :: "json \<Rightarrow> web_auth \<Rightarrow> web_auth" where
  "web_setUser user a = a\<lparr>wa_user := user\<rparr>"

definition store_logout :: "web_auth \<Rightarrow> web_auth" where
  "store_logout a =
     a\<lparr>wa_token := None, wa_user := JNull, wa_status := W_Anonymous, wa_generation := wa_generation a + 1\<rparr>"

definition isAuthenticated :: "web_auth \<Rightarrow> bool" where
  "isAuthenticated a \<longleftrightarrow> wa_status a = W_Authenticated \<and> wa_token a \<noteq> None \<and> wa_token a \<noteq> Some []"

section \<open>Answers and errors\<close>

text \<open>An exception of \<open>axios\<close> has the status and body of the response, when there was one.\<close>

datatype web_error =
    Axios_Error "(nat \<times> json option) option"
  | Session_Superseded
  | Malformed_Auth_Response
  | Refresh_Unavailable

definition isCredentialRejection :: "web_error \<Rightarrow> bool" where
  "isCredentialRejection e =
     (case e of Axios_Error (Some (status, _)) \<Rightarrow> status = 401 \<or> status = 403 | _ \<Rightarrow> False)"

definition isAuthPayload :: "json \<Rightarrow> bool" where
  "isAuthPayload value \<longleftrightarrow>
     is_object value \<and> is_string (json_prop value ''access_token'') \<and>
     the_string (json_prop value ''access_token'') \<noteq> [] \<and>
     (case json_prop value ''user'' of Some user \<Rightarrow> is_user user | None \<Rightarrow> False)"

definition payload_token :: "json \<Rightarrow> string" where
  "payload_token value = the_string (json_prop value ''access_token'')"

definition payload_user :: "json \<Rightarrow> json" where
  "payload_user value = (case json_prop value ''user'' of Some user \<Rightarrow> user | None \<Rightarrow> JNull)"

definition getApiErrorMessage :: "web_error \<Rightarrow> string \<Rightarrow> string" where
  "getApiErrorMessage e fallback =
     (case e of
        Axios_Error (Some (_, Some v)) \<Rightarrow>
          (let message = json_prop v ''message''
           in if is_string message \<and> str_trim (the_string message) \<noteq> [] then the_string message else fallback)
      | _ \<Rightarrow> fallback)"

section \<open>The logout marker\<close>

definition LOGOUT_INTENT_KEY :: string where "LOGOUT_INTENT_KEY = ''cinetrack-logout-pending''"

type_synonym web_storage = "string \<Rightarrow> string option"

text \<open>\<open>available\<close>: whether the browser lets the page use its storage.\<close>

definition markLogoutPending :: "bool \<Rightarrow> web_storage \<Rightarrow> web_storage" where
  "markLogoutPending available store = (if available then store(LOGOUT_INTENT_KEY \<mapsto> ''1'') else store)"

definition clearLogoutPending :: "bool \<Rightarrow> web_storage \<Rightarrow> web_storage" where
  "clearLogoutPending available store = (if available then store(LOGOUT_INTENT_KEY := None) else store)"

definition isLogoutPending :: "bool \<Rightarrow> web_storage \<Rightarrow> bool" where
  "isLogoutPending available store \<longleftrightarrow> available \<and> store LOGOUT_INTENT_KEY = Some ''1''"

text \<open>What both logout requests do with their answer.\<close>

definition settle_logout :: "bool \<Rightarrow> web_error + unit \<Rightarrow> web_storage \<Rightarrow> web_storage" where
  "settle_logout available answer store =
     (case answer of
        Inr _ \<Rightarrow> clearLogoutPending available store
      | Inl e \<Rightarrow> if isCredentialRejection e then clearLogoutPending available store else store)"

section \<open>The machine\<close>

datatype waiter = Waiter_Bootstrap | Waiter_Request | Waiter_Stream

record web_refresh =
  wr_generation :: nat
  wr_tokenAtCall :: "string option"
  wr_posting :: bool
  wr_waiters :: "waiter list"

datatype boot_phase = Boot_Idle | Boot_Logging_Out

datatype logout_phase = Logout_Idle | Logout_Posting | Logout_Told

record web =
  w_auth :: web_auth
  w_storage :: web_storage
  w_available :: bool
  w_refresh :: "web_refresh option"
  w_boot :: boot_phase
  w_logout :: logout_phase

datatype web_event =
    Bootstrap
  | Boot_Logout_Answer "web_error + unit"
  | Request_401 string bool
  | Stream_401
  | Lock_Granted
  | Refresh_Answer "web_error + json"
  | Sign_In_Answer json
  | User_Refreshed json
  | End_Session
  | End_Answer "web_error + unit"
  | End_Finished
  | Drop_Session

text \<open>What a waiter does with the outcome of the shared refresh: the interceptor, the bootstrap, the
  event stream (which only retries later).\<close>

definition resume_waiter :: "web_error + string \<Rightarrow> waiter \<Rightarrow> web_auth \<Rightarrow> web_auth" where
  "resume_waiter outcome w a =
     (case outcome of
        Inr _ \<Rightarrow> a
      | Inl e \<Rightarrow>
          (case w of
             Waiter_Request \<Rightarrow> if isCredentialRejection e then store_logout a else a
           | Waiter_Bootstrap \<Rightarrow>
               if e = Session_Superseded then a
               else if isCredentialRejection e then store_logout a
               else a\<lparr>wa_status := W_Anonymous\<rparr>
           | Waiter_Stream \<Rightarrow> a))"

definition settle_refresh :: "web_refresh \<Rightarrow> web_error + string \<Rightarrow> web \<Rightarrow> web" where
  "settle_refresh r outcome s =
     (let a = (case outcome of
                 Inl e \<Rightarrow> if isCredentialRejection e then rejectSession (w_auth s) else w_auth s
               | Inr _ \<Rightarrow> w_auth s)
      in s\<lparr>w_auth := foldl (\<lambda>a w. resume_waiter outcome w a) a (wr_waiters r), w_refresh := None\<rparr>)"

text \<open>\<open>refreshAccessToken()\<close> awaited by \<open>w\<close>.\<close>

definition refreshAccessToken :: "waiter \<Rightarrow> web \<Rightarrow> web" where
  "refreshAccessToken w s =
     (if wa_refreshRejected (w_auth s)
      then s\<lparr>w_auth := resume_waiter (Inl Refresh_Unavailable) w (w_auth s)\<rparr>
      else case w_refresh s of
        Some r \<Rightarrow> s\<lparr>w_refresh := Some (r\<lparr>wr_waiters := wr_waiters r @ [w]\<rparr>)\<rparr>
      | None \<Rightarrow>
          s\<lparr>w_refresh := Some \<lparr>wr_generation = wa_generation (w_auth s), wr_tokenAtCall = wa_token (w_auth s),
                              wr_posting = False, wr_waiters = [w]\<rparr>\<rparr>)"

text \<open>The callback once the lock is held, up to the POST.\<close>

definition rotate :: "web_refresh \<Rightarrow> web \<Rightarrow> web" where
  "rotate r s =
     (let current = w_auth s
      in if wa_generation current \<noteq> wr_generation r then settle_refresh r (Inl Session_Superseded) s
         else case wa_token current of
           Some (c # cs) \<Rightarrow>
             (if wa_token current \<noteq> wr_tokenAtCall r then settle_refresh r (Inr (c # cs)) s
              else s\<lparr>w_refresh := Some (r\<lparr>wr_posting := True\<rparr>)\<rparr>)
         | _ \<Rightarrow> s\<lparr>w_refresh := Some (r\<lparr>wr_posting := True\<rparr>)\<rparr>)"

definition refresh_answered :: "web_refresh \<Rightarrow> web_error + json \<Rightarrow> web \<Rightarrow> web" where
  "refresh_answered r answer s =
     (case answer of
        Inl e \<Rightarrow> settle_refresh r (Inl e) s
      | Inr data \<Rightarrow>
          if \<not> isAuthPayload data then settle_refresh r (Inl Malformed_Auth_Response) s
          else if wa_generation (w_auth s) \<noteq> wr_generation r then settle_refresh r (Inl Session_Superseded) s
          else settle_refresh r (Inr (payload_token data))
                 (s\<lparr>w_auth := setAuth (payload_token data) (payload_user data) (w_auth s)\<rparr>))"

text \<open>The response interceptor on a 401 for \<open>url\<close>; \<open>retried\<close> is its \<open>_retry\<close> mark.\<close>

definition on_unauthorized :: "string \<Rightarrow> bool \<Rightarrow> web \<Rightarrow> web" where
  "on_unauthorized url retried s =
     (if retried then s
      else if contains_text ''/auth/refresh'' url then s\<lparr>w_auth := store_logout (w_auth s)\<rparr>
      else if contains_text ''/auth/login'' url \<or> contains_text ''/auth/register'' url \<or> contains_text ''/auth/password'' url then s
      else if wa_refreshRejected (w_auth s) \<or> wa_status (w_auth s) = W_Anonymous then s
      else refreshAccessToken Waiter_Request s)"

definition bootstrapSession :: "web \<Rightarrow> web" where
  "bootstrapSession s =
     (if isLogoutPending (w_available s) (w_storage s) then s\<lparr>w_boot := Boot_Logging_Out\<rparr>
      else refreshAccessToken Waiter_Bootstrap s)"

definition web_step :: "web \<Rightarrow> web_event \<Rightarrow> web" where
  "web_step s ev =
     (case ev of
        Bootstrap \<Rightarrow> bootstrapSession s
      | Boot_Logout_Answer answer \<Rightarrow>
          (if w_boot s = Boot_Logging_Out
           then s\<lparr>w_storage := settle_logout (w_available s) answer (w_storage s),
                  w_auth := store_logout (w_auth s), w_boot := Boot_Idle\<rparr>
           else s)
      | Request_401 url retried \<Rightarrow> on_unauthorized url retried s
      | Stream_401 \<Rightarrow> refreshAccessToken Waiter_Stream s
      | Lock_Granted \<Rightarrow>
          (case w_refresh s of Some r \<Rightarrow> if wr_posting r then s else rotate r s | None \<Rightarrow> s)
      | Refresh_Answer answer \<Rightarrow>
          (case w_refresh s of Some r \<Rightarrow> if wr_posting r then refresh_answered r answer s else s | None \<Rightarrow> s)
      | Sign_In_Answer data \<Rightarrow>
          (let s' = s\<lparr>w_storage := clearLogoutPending (w_available s) (w_storage s)\<rparr>
           in if isAuthPayload data
              then s'\<lparr>w_auth := setAuth (payload_token data) (payload_user data) (w_auth s)\<rparr>
              else s')
      | User_Refreshed user \<Rightarrow> s\<lparr>w_auth := web_setUser user (w_auth s)\<rparr>
      | End_Session \<Rightarrow>
          s\<lparr>w_storage := markLogoutPending (w_available s) (w_storage s), w_logout := Logout_Posting\<rparr>
      | End_Answer answer \<Rightarrow>
          (if w_logout s = Logout_Posting
           then s\<lparr>w_storage := settle_logout (w_available s) answer (w_storage s), w_logout := Logout_Told\<rparr>
           else s)
      | End_Finished \<Rightarrow>
          (if w_logout s = Logout_Told
           then s\<lparr>w_auth := store_logout (w_auth s), w_logout := Logout_Idle\<rparr>
           else s)
      | Drop_Session \<Rightarrow> s\<lparr>w_auth := store_logout (w_auth s)\<rparr>)"

definition initial_web :: "bool \<Rightarrow> web_storage \<Rightarrow> web" where
  "initial_web available store =
     \<lparr>w_auth = initial_auth, w_storage = store, w_available = available, w_refresh = None,
      w_boot = Boot_Idle, w_logout = Logout_Idle\<rparr>"

inductive web_reachable :: "web \<Rightarrow> bool" where
  start: "web_reachable (initial_web available store)"
| step: "web_reachable s \<Longrightarrow> web_reachable (web_step s ev)"

inductive_cases web_reachable_stepE: "web_reachable s"

definition web_run :: "web \<Rightarrow> web_event list \<Rightarrow> web" where
  "web_run s evs = foldl web_step s evs"

lemma web_run_reachable: "web_reachable s \<Longrightarrow> web_reachable (web_run s evs)"
  unfolding web_run_def by (induction evs arbitrary: s) (simp_all add: web_reachable.step)

end
