(* ===== verification/Web_Claims.thy ===== *)
theory Web_Claims
  imports Web_Session
begin

text \<open>
  What the web session promises, and two things it does not: a signed-in store has a token, a rotation
  never outlives the session that asked for it as a sign-in, the wish to sign out survives until the
  server has heard it; but the user of a signed-in store may be any answer, and the refusal of a
  rotation that was superseded ends the session that came after it.
\<close>

section \<open>Store operations\<close>

lemma store_simps [simp]:
  "wa_status (store_logout a) = W_Anonymous" "wa_token (store_logout a) = None"
  "wa_user (store_logout a) = JNull" "wa_generation (store_logout a) = Suc (wa_generation a)"
  "wa_refreshRejected (store_logout a) = wa_refreshRejected a"
  "wa_status (rejectSession a) = wa_status a" "wa_token (rejectSession a) = wa_token a"
  "wa_user (rejectSession a) = wa_user a" "wa_generation (rejectSession a) = wa_generation a"
  by (simp_all add: store_logout_def rejectSession_def)

text \<open>\<open>V\<close>: the profile answers the store may have been given.\<close>

definition auth_ok :: "json set \<Rightarrow> web_auth \<Rightarrow> bool" where
  "auth_ok V a \<longleftrightarrow> (wa_status a = W_Authenticated \<longrightarrow>
     (case wa_token a of Some (_ # _) \<Rightarrow> True | _ \<Rightarrow> False) \<and> (is_user (wa_user a) \<or> wa_user a \<in> V))"

lemma auth_ok_ops:
  "auth_ok V (store_logout a)"
  "auth_ok V a \<Longrightarrow> auth_ok V (rejectSession a)"
  "auth_ok V a \<Longrightarrow> u \<in> V \<Longrightarrow> auth_ok V (web_setUser u a)"
  "t \<noteq> [] \<Longrightarrow> is_user u \<Longrightarrow> auth_ok V (setAuth t u a)"
  by (simp_all add: auth_ok_def web_setUser_def setAuth_def split: list.split)

lemma auth_ok_waiter: "auth_ok V a \<Longrightarrow> auth_ok V (resume_waiter out w a)"
  by (cases out; cases w) (auto simp: resume_waiter_def auth_ok_ops, auto simp: auth_ok_def)

lemma auth_ok_waiters: "auth_ok V a \<Longrightarrow> auth_ok V (foldl (\<lambda>a w. resume_waiter out w a) a ws)"
  by (induction ws arbitrary: a) (simp_all add: auth_ok_waiter)

lemma auth_ok_settle: "auth_ok V (w_auth s) \<Longrightarrow> auth_ok V (w_auth (settle_refresh r out s))"
  by (auto simp: settle_refresh_def Let_def split: sum.split intro!: auth_ok_waiters auth_ok_ops)

lemma auth_ok_refresh: "auth_ok V (w_auth s) \<Longrightarrow> auth_ok V (w_auth (refreshAccessToken w s))"
  by (auto simp: refreshAccessToken_def auth_ok_waiter split: option.split)

lemma payload_ok: "isAuthPayload data \<Longrightarrow> payload_token data \<noteq> [] \<and> is_user (payload_user data)"
  by (simp add: isAuthPayload_def payload_token_def payload_user_def split: option.splits)

lemma auth_ok_answered: "auth_ok V (w_auth s) \<Longrightarrow> auth_ok V (w_auth (refresh_answered r answer s))"
  by (auto simp: refresh_answered_def payload_ok split: sum.split intro!: auth_ok_settle auth_ok_ops)

lemma auth_ok_rotate: "auth_ok V (w_auth s) \<Longrightarrow> auth_ok V (w_auth (rotate r s))"
  by (auto simp: rotate_def Let_def auth_ok_settle split: option.split list.split)

lemma auth_ok_step:
  "auth_ok V (w_auth s) \<Longrightarrow> (\<And>v. ev = User_Refreshed v \<Longrightarrow> v \<in> V) \<Longrightarrow> auth_ok V (w_auth (web_step s ev))"
  by (cases ev)
     (simp_all add: web_step_def bootstrapSession_def on_unauthorized_def Let_def auth_ok_ops auth_ok_refresh
        auth_ok_rotate auth_ok_answered payload_ok split: option.split)

lemma web_run_simps [simp]:
  "web_run s [] = s" "web_run s (evs @ [ev]) = web_step (web_run s evs) ev"
  "web_run s (ev # evs) = web_run (web_step s ev) evs"
  by (simp_all add: web_run_def)

lemma auth_ok_run: "auth_ok {v. User_Refreshed v \<in> set evs} (w_auth (web_run (initial_web available store) evs))"
proof (induction evs rule: rev_induct)
  case Nil
  show ?case by (simp add: initial_web_def initial_auth_def auth_ok_def)
next
  case (snoc ev evs)
  then have "auth_ok {v. User_Refreshed v \<in> set (evs @ [ev])} (w_auth (web_run (initial_web available store) evs))"
    by (auto simp: auth_ok_def)
  then show ?case unfolding web_run_simps by (rule auth_ok_step) auto
qed

text \<open>C21: What a store that says it is signed in holds, after any interleaving of sign-ins, sign-outs,
  requests, rotations and answers of any shape. The status \<open>authenticated\<close> always comes with a non-empty
  access token, since the answers of a sign-in and of a rotation are checked, and an answer that is not an
  authentication result leaves the store as it was. The user is an object with an id and a name, unless it
  is exactly what a later profile request was answered with, which the store takes unchecked (null too).\<close>

theorem signed_in_is_usable:
  assumes "web_run (initial_web available store) evs = s" and "wa_status (w_auth s) = W_Authenticated"
  shows "isAuthenticated (w_auth s) \<and>
    (is_user (wa_user (w_auth s)) \<or> User_Refreshed (wa_user (w_auth s)) \<in> set evs) \<and>
    (\<not> isAuthPayload data \<longrightarrow> w_auth (web_step s (Sign_In_Answer data)) = w_auth s)"
  using auth_ok_run [of evs available store] assms
  by (auto simp: auth_ok_def isAuthenticated_def web_step_def Let_def split: option.splits list.splits)

definition sample_account :: "string \<Rightarrow> json" where
  "sample_account i = JObj [(''id'', JStr i), (''username'', JStr i)]"

definition sample_answer :: "string \<Rightarrow> string \<Rightarrow> json" where
  "sample_answer token i = JObj [(''access_token'', JStr token), (''user'', sample_account i)]"

lemma sample_answer_payload [simp]:
  "token \<noteq> [] \<Longrightarrow> isAuthPayload (sample_answer token i)"
  "payload_token (sample_answer token i) = token"
  "payload_user (sample_answer token i) = sample_account i"
  by (simp_all add: sample_answer_def sample_account_def isAuthPayload_def is_user_def payload_token_def
      payload_user_def json_prop_def is_object_def jm_get_def)

text \<open>A sign-in that was answered with null, one that was accepted, and a profile request answered with null.\<close>

lemma signed_in_is_usable_witness:
  "isAuthenticated (w_auth (web_run (initial_web True (\<lambda>_. None))
     [Sign_In_Answer JNull, Sign_In_Answer (sample_answer ''t'' ''ana'')])) \<and>
   is_user (wa_user (w_auth (web_run (initial_web True (\<lambda>_. None))
     [Sign_In_Answer JNull, Sign_In_Answer (sample_answer ''t'' ''ana'')]))) \<and>
   isAuthenticated (w_auth (web_run (initial_web True (\<lambda>_. None))
     [Sign_In_Answer (sample_answer ''t'' ''ana''), User_Refreshed JNull])) \<and>
   wa_user (w_auth (web_run (initial_web True (\<lambda>_. None))
     [Sign_In_Answer (sample_answer ''t'' ''ana''), User_Refreshed JNull])) = JNull"
proof -
  let ?s = "web_run (initial_web True (\<lambda>_. None)) [Sign_In_Answer JNull, Sign_In_Answer (sample_answer ''t'' ''ana'')]"
  let ?u = "web_run (initial_web True (\<lambda>_. None)) [Sign_In_Answer (sample_answer ''t'' ''ana''), User_Refreshed JNull]"
  have "wa_status (w_auth ?s) = W_Authenticated" "wa_status (w_auth ?u) = W_Authenticated" "wa_user (w_auth ?u) = JNull"
    by (simp_all add: web_step_def setAuth_def web_setUser_def Let_def)
  with signed_in_is_usable [of True "\<lambda>_. None" _ ?s] signed_in_is_usable [of True "\<lambda>_. None" _ ?u]
  show ?thesis by (metis (no_types, lifting) empty_iff insert_iff list.set web_event.distinct web_event.inject)
qed

section \<open>Superseded rotations\<close>

lemma waiters_only_close:
  "wa_token (foldl (\<lambda>a w. resume_waiter out w a) a ws) \<in> {wa_token a, None} \<and>
   wa_user (foldl (\<lambda>a w. resume_waiter out w a) a ws) \<in> {wa_user a, JNull} \<and>
   wa_status (foldl (\<lambda>a w. resume_waiter out w a) a ws) \<in> {wa_status a, W_Anonymous}"
proof (induction ws arbitrary: a)
  case (Cons w ws)
  have "wa_token (resume_waiter out w a) \<in> {wa_token a, None} \<and>
    wa_user (resume_waiter out w a) \<in> {wa_user a, JNull} \<and>
    wa_status (resume_waiter out w a) \<in> {wa_status a, W_Anonymous}"
    by (simp add: resume_waiter_def split: sum.split waiter.split)
  with Cons.IH [of "resume_waiter out w a"] show ?case by auto
qed simp

lemma settle_only_closes:
  "wa_token (w_auth (settle_refresh r out s)) \<in> {wa_token (w_auth s), None} \<and>
   wa_user (w_auth (settle_refresh r out s)) \<in> {wa_user (w_auth s), JNull} \<and>
   wa_status (w_auth (settle_refresh r out s)) \<in> {wa_status (w_auth s), W_Anonymous} \<and>
   w_refresh (settle_refresh r out s) = None"
proof -
  obtain a where a: "w_auth (settle_refresh r out s) = foldl (\<lambda>a w. resume_waiter out w a) a (wr_waiters r)"
    and "a \<in> {w_auth s, rejectSession (w_auth s)}"
    by (cases out) (auto simp: settle_refresh_def Let_def split: if_splits)
  then have "wa_token a = wa_token (w_auth s)" "wa_user a = wa_user (w_auth s)" "wa_status a = wa_status (w_auth s)"
    by auto
  with waiters_only_close [of out a "wr_waiters r"] show ?thesis
    unfolding a by (simp add: settle_refresh_def Let_def)
qed

text \<open>C22: A rotation belongs to the session that asked for it. When the session has changed since (a
  sign-out, a sign-in, another user), neither the lock nor any answer of the server makes that
  rotation sign anyone in: the token and the user stay as they are or are dropped, the status stays
  or becomes anonymous, no request is sent if none was, and the rotation is over.\<close>

theorem superseded_rotation_never_signs_in:
  assumes "w_refresh s = Some r" and "wr_generation r \<noteq> wa_generation (w_auth s)"
    and "ev = Lock_Granted \<and> \<not> wr_posting r \<or> (\<exists>answer. ev = Refresh_Answer answer) \<and> wr_posting r"
  shows "wa_token (w_auth (web_step s ev)) \<in> {wa_token (w_auth s), None} \<and>
    wa_user (w_auth (web_step s ev)) \<in> {wa_user (w_auth s), JNull} \<and>
    wa_status (w_auth (web_step s ev)) \<in> {wa_status (w_auth s), W_Anonymous} \<and>
    w_refresh (web_step s ev) = None"
proof -
  have "\<exists>out. web_step s ev = settle_refresh r out s"
    using assms by (auto simp: web_step_def rotate_def refresh_answered_def split: sum.split)
  then show ?thesis using settle_only_closes by metis
qed

text \<open>One tab, two accounts: ana's page has a rotation under way when she signs out and ion signs in.\<close>

definition two_accounts :: "web_event list" where
  "two_accounts =
     [Sign_In_Answer (sample_answer ''t1'' ''ana''), Request_401 ''/users/me'' False, Lock_Granted,
      End_Session, End_Answer (Inr ()), End_Finished, Sign_In_Answer (sample_answer ''t2'' ''ion'')]"

lemma two_accounts_state:
  "w_auth (web_run (initial_web True (\<lambda>_. None)) two_accounts) =
     \<lparr>wa_token = Some ''t2'', wa_user = sample_account ''ion'',
      wa_status = W_Authenticated, wa_generation = 3, wa_refreshRejected = False\<rparr> \<and>
   w_refresh (web_run (initial_web True (\<lambda>_. None)) two_accounts) =
     Some \<lparr>wr_generation = 1, wr_tokenAtCall = Some ''t1'', wr_posting = True, wr_waiters = [Waiter_Request]\<rparr>"
proof -
  have u: "contains_text ''/auth/refresh'' ''/users/me'' = False" "contains_text ''/auth/login'' ''/users/me'' = False"
    "contains_text ''/auth/register'' ''/users/me'' = False" "contains_text ''/auth/password'' ''/users/me'' = False"
    by code_simp+
  show ?thesis
    by (simp add: two_accounts_def web_run_def web_step_def on_unauthorized_def u refreshAccessToken_def rotate_def
        setAuth_def switching_def json_truthy_def store_logout_def initial_web_def initial_auth_def settle_logout_def Let_def)
qed

lemma superseded_rotation_never_signs_in_witness:
  "wa_user (w_auth (web_step (web_run (initial_web True (\<lambda>_. None)) two_accounts)
     (Refresh_Answer (Inr (sample_answer ''t3'' ''ana''))))) \<in> {sample_account ''ion'', JNull}"
  using superseded_rotation_never_signs_in [OF conjunct2 [OF two_accounts_state],
      of "Refresh_Answer (Inr (sample_answer ''t3'' ''ana''))"] two_accounts_state
  by simp

section \<open>The circuit\<close>

text \<open>Once the server has refused the credential, nothing but a sign-in starts a rotation again.\<close>

lemma closed_circuit:
  assumes "wa_refreshRejected (w_auth s)" and "w_refresh s = None" and "\<nexists>data. ev = Sign_In_Answer data"
  shows "w_refresh (web_step s ev) = None \<and> wa_refreshRejected (w_auth (web_step s ev))"
proof -
  have "wa_refreshRejected (resume_waiter (Inl Refresh_Unavailable) w (w_auth s))" for w
    using assms(1) by (cases w) (simp_all add: resume_waiter_def isCredentialRejection_def)
  with assms show ?thesis
    by (cases ev) (auto simp: web_step_def bootstrapSession_def on_unauthorized_def refreshAccessToken_def
        web_setUser_def)
qed

lemma closed_circuit_run:
  "wa_refreshRejected (w_auth s) \<Longrightarrow> w_refresh s = None \<Longrightarrow> \<forall>ev \<in> set evs. \<nexists>data. ev = Sign_In_Answer data \<Longrightarrow>
   w_refresh (web_run s evs) = None \<and> wa_refreshRejected (w_auth (web_run s evs))"
proof (induction evs arbitrary: s)
  case (Cons ev evs)
  then show ?case using closed_circuit [of s ev] by simp
qed simp

text \<open>Those who sign the store out when the refresh they waited for is refused.\<close>

definition closes :: "waiter \<Rightarrow> bool" where "closes w \<longleftrightarrow> w = Waiter_Request \<or> w = Waiter_Bootstrap"

lemma refused_waiters:
  assumes "isCredentialRejection e"
  shows "wa_refreshRejected (foldl (\<lambda>a w. resume_waiter (Inl e) w a) a ws) = wa_refreshRejected a \<and>
    (if list_ex closes ws
     then wa_status (foldl (\<lambda>a w. resume_waiter (Inl e) w a) a ws) = W_Anonymous \<and>
       wa_token (foldl (\<lambda>a w. resume_waiter (Inl e) w a) a ws) = None \<and>
       wa_user (foldl (\<lambda>a w. resume_waiter (Inl e) w a) a ws) = JNull
     else foldl (\<lambda>a w. resume_waiter (Inl e) w a) a ws = a)"
proof (induction ws arbitrary: a)
  case (Cons w ws)
  have "e \<noteq> Session_Superseded" using assms by (auto simp: isCredentialRejection_def)
  with assms have "resume_waiter (Inl e) w a = (if closes w then store_logout a else a)"
    by (cases w) (simp_all add: resume_waiter_def closes_def)
  moreover from Cons.IH [of "store_logout a"] have
    "wa_status (foldl (\<lambda>a w. resume_waiter (Inl e) w a) (store_logout a) ws) = W_Anonymous \<and>
     wa_token (foldl (\<lambda>a w. resume_waiter (Inl e) w a) (store_logout a) ws) = None \<and>
     wa_user (foldl (\<lambda>a w. resume_waiter (Inl e) w a) (store_logout a) ws) = JNull"
    by (cases "list_ex closes ws") simp_all
  ultimately show ?case using Cons.IH [of "store_logout a"] Cons.IH [of a] by simp
qed simp

text \<open>C23: The refusal of a rotation is not fenced as its success is. Whatever the session of the store is by
  then, also that of somebody who signed in after the rotation was sent, a 401 or 403 that answers it signs
  the store out if a request or the start of the page waited for it; and even if only the event stream
  did, and token and user are left, no event but a new sign-in lets the tab rotate a token again.\<close>

theorem refusal_ends_any_session:
  assumes "w_refresh s = Some r" and "wr_posting r" and "isCredentialRejection e"
    and "w_auth (web_step s (Refresh_Answer (Inl e))) = a"
  shows "(if list_ex closes (wr_waiters r)
      then wa_status a = W_Anonymous \<and> wa_token a = None \<and> wa_user a = JNull
      else wa_status a = wa_status (w_auth s) \<and> wa_token a = wa_token (w_auth s) \<and> wa_user a = wa_user (w_auth s) \<and>
        wa_generation a = wa_generation (w_auth s)) \<and>
    ((\<forall>ev \<in> set evs. \<nexists>data. ev = Sign_In_Answer data) \<longrightarrow>
      w_refresh (web_run (web_step s (Refresh_Answer (Inl e))) evs) = None \<and>
      wa_refreshRejected (w_auth (web_run (web_step s (Refresh_Answer (Inl e))) evs)))"
proof -
  let ?s = "web_step s (Refresh_Answer (Inl e))"
  have "?s = settle_refresh r (Inl e) s" using assms(1,2) by (simp add: web_step_def refresh_answered_def)
  then have a: "w_auth ?s = foldl (\<lambda>a w. resume_waiter (Inl e) w a) (rejectSession (w_auth s)) (wr_waiters r)"
    and over: "w_refresh ?s = None"
    using assms(3) by (simp_all add: settle_refresh_def)
  note waiters = refused_waiters [OF assms(3), of "rejectSession (w_auth s)" "wr_waiters r"]
  have "wa_refreshRejected (w_auth ?s)"
    unfolding a by (subst conjunct1 [OF waiters]) (simp add: rejectSession_def)
  then have circuit: "(\<forall>ev \<in> set evs. \<nexists>data. ev = Sign_In_Answer data) \<longrightarrow>
      w_refresh (web_run ?s evs) = None \<and> wa_refreshRejected (w_auth (web_run ?s evs))"
    using closed_circuit_run over by blast
  show ?thesis
    using waiters circuit assms(4) unfolding a by (cases "list_ex closes (wr_waiters r)") auto
qed

text \<open>Ana's page has a rotation under way when she signs out and ion signs in: its 401 signs ion out.\<close>

lemma refusal_ends_any_session_witness:
  "wa_user (w_auth (web_run (initial_web True (\<lambda>_. None)) two_accounts)) = sample_account ''ion'' \<and>
   wa_user (w_auth (web_step (web_run (initial_web True (\<lambda>_. None)) two_accounts)
     (Refresh_Answer (Inl (Axios_Error (Some (401, None))))))) = JNull"
proof -
  let ?s = "web_run (initial_web True (\<lambda>_. None)) two_accounts"
  let ?r = "\<lparr>wr_generation = 1, wr_tokenAtCall = Some ''t1'', wr_posting = True, wr_waiters = [Waiter_Request]\<rparr>"
  have "w_refresh ?s = Some ?r" "wr_posting ?r" "isCredentialRejection (Axios_Error (Some (401, None)))"
    using two_accounts_state by (simp_all add: isCredentialRejection_def)
  from refusal_ends_any_session [OF this refl, of "[]"] two_accounts_state show ?thesis by (simp add: closes_def)
qed

section \<open>The wish to sign out\<close>

lemma settle_storage: "w_storage (settle_refresh r out s) = w_storage s"
  by (simp add: settle_refresh_def Let_def)

lemma refresh_storage: "w_storage (refreshAccessToken w s) = w_storage s"
  by (simp add: refreshAccessToken_def split: option.split)

lemma other_storage:
  "w_storage (rotate r s) = w_storage s"
  "w_storage (refresh_answered r answer s) = w_storage s"
  "w_storage (on_unauthorized url retried s) = w_storage s"
  "w_storage (bootstrapSession s) = w_storage s"
  by (simp_all add: rotate_def refresh_answered_def on_unauthorized_def bootstrapSession_def settle_storage
      refresh_storage Let_def split: option.split list.split sum.split)

text \<open>C24: The wish to sign out is kept until it has happened. While the marker is stored, only three
  things remove it: an answer of the server to a logout request that confirms it or refuses the
  credential (401 or 403), and a new sign-in; and a page that is loaded in that state asks the
  server to end the session, starts no rotation, and is anonymous when the answer, any answer, is
  there.\<close>

theorem logout_wish_kept:
  assumes "isLogoutPending (w_available s) (w_storage s)"
  shows "(isLogoutPending (w_available s) (w_storage (web_step s ev)) \<or>
      (\<exists>data. ev = Sign_In_Answer data) \<or>
      (\<exists>answer. (ev = End_Answer answer \<or> ev = Boot_Logout_Answer answer) \<and>
         (answer = Inr () \<or> (\<exists>e. answer = Inl e \<and> isCredentialRejection e)))) \<and>
    w_refresh (web_step s Bootstrap) = w_refresh s \<and>
    wa_status (w_auth (web_step (web_step s Bootstrap) (Boot_Logout_Answer answer'))) = W_Anonymous \<and>
    wa_token (w_auth (web_step (web_step s Bootstrap) (Boot_Logout_Answer answer'))) = None"
proof (intro conjI)
  have set: "isLogoutPending a (markLogoutPending a st)" if "isLogoutPending a st" for a st
    using that by (simp add: isLogoutPending_def markLogoutPending_def)
  show "isLogoutPending (w_available s) (w_storage (web_step s ev)) \<or>
      (\<exists>data. ev = Sign_In_Answer data) \<or>
      (\<exists>answer. (ev = End_Answer answer \<or> ev = Boot_Logout_Answer answer) \<and>
         (answer = Inr () \<or> (\<exists>e. answer = Inl e \<and> isCredentialRejection e)))"
    using assms set
    by (cases ev) (auto simp: web_step_def other_storage refresh_storage settle_logout_def split: option.split sum.split)
qed (use assms in \<open>simp_all add: web_step_def bootstrapSession_def\<close>)

lemma logout_wish_kept_witness:
  "let s = web_run (initial_web True (\<lambda>_. None)) [Sign_In_Answer (sample_answer ''t'' ''ana''), End_Session,
             End_Answer (Inl (Axios_Error None)), End_Finished]
   in isLogoutPending True (w_storage s) \<and> isLogoutPending True (w_storage (web_step s Stream_401)) \<and>
      w_refresh (web_step s Bootstrap) = None"
proof -
  let ?s = "web_run (initial_web True (\<lambda>_. None)) [Sign_In_Answer (sample_answer ''t'' ''ana''), End_Session,
             End_Answer (Inl (Axios_Error None)), End_Finished]"
  have p: "isLogoutPending (w_available ?s) (w_storage ?s)" "w_available ?s" "w_refresh ?s = None"
    by (simp_all add: web_run_def web_step_def initial_web_def isLogoutPending_def markLogoutPending_def
        settle_logout_def isCredentialRejection_def Let_def)
  from logout_wish_kept [OF p(1), of Stream_401] p show ?thesis by (simp add: Let_def)
qed

end
