(* ===== verification/Client_Errors.thy ===== *)
theory Client_Errors
  imports Http_Client Mobile_Session Peer_Trust
begin

text \<open>
  \<open>lib/client-errors.ts\<close>: what is reported of an error, and the queue of reports that could not be
  sent.

  The queue stays the parsed JSON it is on disk. One function is one holding of the storage lock,
  so its reads and writes are not interleaved with another's; the auth state each reads is an
  argument. \<open>sanitizeDiagnosticText\<close> (a series of regular expressions), the clock, \<open>Date.parse\<close>,
  the random suffix of an identifier and the platform are arguments too.
\<close>

definition error_STORAGE_KEY :: string where "error_STORAGE_KEY = ''vazute.client-errors.v1''"
definition MAX_QUEUED_REPORTS :: nat where "MAX_QUEUED_REPORTS = 10"
definition MAX_REPORT_AGE_MS :: int where "MAX_REPORT_AGE_MS = 7 * 24 * 60 * 60 * 1000"
definition DEDUPE_WINDOW_MS :: int where "DEDUPE_WINDOW_MS = 10 * 60 * 1000"

section \<open>Reports\<close>

text \<open>What was thrown: an \<open>Error\<close> with name, message and stack, a string, or something else.\<close>

datatype js_thrown = Js_Error string string "string option" | Js_String string | Js_Other

record capture_options =
  co_componentStack :: "string option"
  co_isFatal :: "bool option"

datatype client_platform = Android | Ios

definition platform_text :: "client_platform \<Rightarrow> string" where
  "platform_text p = (case p of Android \<Rightarrow> ''android'' | Ios \<Rightarrow> ''ios'')"

definition supportedPlatform :: "string \<Rightarrow> client_platform option" where
  "supportedPlatform os = (if os = ''android'' then Some Android else if os = ''ios'' then Some Ios else None)"

definition version_char :: "char \<Rightarrow> bool" where
  "version_char c \<longleftrightarrow> is_letter c \<or> is_digit c \<or> c \<in> set ''._+-''"

definition appVersion :: "string option \<Rightarrow> string" where
  "appVersion version =
     (let configured = (case version of None \<Rightarrow> [] | Some v \<Rightarrow> str_trim v)
      in if configured \<noteq> [] \<and> length configured \<le> 32 \<and> list_all version_char configured
         then configured else ''unknown'')"

definition or_else :: "string \<Rightarrow> string \<Rightarrow> string" where
  "or_else s fallback = (if s = [] then fallback else s)"

definition buildReport ::
  "(string \<Rightarrow> nat \<Rightarrow> string) \<Rightarrow> string \<Rightarrow> string option \<Rightarrow> string \<Rightarrow> js_thrown \<Rightarrow> capture_options \<Rightarrow> json option" where
  "buildReport sanitize os version now e options =
     (case supportedPlatform os of
        None \<Rightarrow> None
      | Some platform \<Rightarrow>
          (let (name, message, stack) =
                 (case e of
                    Js_Error n m s \<Rightarrow> (n, m, s)
                  | Js_String s \<Rightarrow> (''NonError'', s, None)
                  | Js_Other \<Rightarrow> (''NonError'', ''An unexpected error occurred'', None));
               errorName = or_else (sanitize (or_else name ''Error'') 120) ''Error'';
               text = or_else (sanitize message 1000) ''An unexpected error occurred'';
               stackText = (case stack of Some (c # cs) \<Rightarrow> sanitize (c # cs) 16000 | _ \<Rightarrow> []);
               componentText = (case co_componentStack options of Some (c # cs) \<Rightarrow> sanitize (c # cs) 8000 | _ \<Rightarrow> [])
           in Some (JObj
                ([(''error_name'', JStr errorName), (''message'', JStr text)] @
                 (if stackText \<noteq> [] then [(''stack'', JStr stackText)] else []) @
                 (if componentText \<noteq> [] then [(''component_stack'', JStr componentText)] else []) @
                 [(''platform'', JStr (platform_text platform)), (''app_version'', JStr (appVersion version)),
                  (''is_fatal'', JBool (co_isFatal options = Some True)), (''occurred_at'', JStr now)]))))"

definition line_feed :: char where "line_feed = char_of (10 :: nat)"

definition first_line :: "json option \<Rightarrow> string" where
  "first_line v = (if is_string v then hd (split_on line_feed (the_string v)) else [])"

definition reportSignature :: "json \<Rightarrow> string" where
  "reportSignature report =
     join_with [char_of (0 :: nat)]
       [the_string (json_prop report ''error_name''), the_string (json_prop report ''message''),
        first_line (json_prop report ''stack''), first_line (json_prop report ''component_stack''),
        if json_prop report ''is_fatal'' = Some (JBool True) then ''true'' else ''false'']"

definition isReport :: "json \<Rightarrow> bool" where
  "isReport v \<longleftrightarrow>
     is_object v \<and> is_string (json_prop v ''error_name'') \<and> is_string (json_prop v ''message'') \<and>
     (json_prop v ''platform'' = Some (JStr ''android'') \<or> json_prop v ''platform'' = Some (JStr ''ios'')) \<and>
     is_string (json_prop v ''app_version'') \<and> is_bool (json_prop v ''is_fatal'') \<and>
     is_string (json_prop v ''occurred_at'')"

definition isQueuedReport :: "json \<Rightarrow> bool" where
  "isQueuedReport v \<longleftrightarrow>
     is_object v \<and> is_string (json_prop v ''id'') \<and> is_string (json_prop v ''owner_id'') \<and>
     is_string (json_prop v ''signature'') \<and>
     (case json_prop v ''report'' of None \<Rightarrow> False | Some r \<Rightarrow> isReport r)"

abbreviation qr_id :: "json \<Rightarrow> string" where "qr_id q \<equiv> the_string (json_prop q ''id'')"
abbreviation qr_owner_id :: "json \<Rightarrow> string" where "qr_owner_id q \<equiv> the_string (json_prop q ''owner_id'')"
abbreviation qr_signature :: "json \<Rightarrow> string" where "qr_signature q \<equiv> the_string (json_prop q ''signature'')"

definition qr_report :: "json \<Rightarrow> json" where
  "qr_report q = (case json_prop q ''report'' of None \<Rightarrow> JNull | Some r \<Rightarrow> r)"

definition qr_occurred_at :: "json \<Rightarrow> string" where
  "qr_occurred_at q = the_string (json_prop (qr_report q) ''occurred_at'')"

section \<open>The stored queue\<close>

text \<open>\<open>readQueueUnlocked\<close>: the queue and the storage it leaves. Whatever cannot be read as a list is
  removed.\<close>

definition readQueueUnlocked :: "io \<Rightarrow> kv_store \<Rightarrow> json list \<times> kv_store" where
  "readQueueUnlocked i disk =
     (let removed = (if can_write i then disk(error_STORAGE_KEY := None) else disk)
      in if \<not> can_read i then ([], removed)
         else case disk error_STORAGE_KEY of
           None \<Rightarrow> ([], disk)
         | Some (Parsed (JArr xs)) \<Rightarrow> (take_last MAX_QUEUED_REPORTS (filter isQueuedReport xs), disk)
         | Some _ \<Rightarrow> ([], removed))"

definition writeQueueUnlocked :: "io \<Rightarrow> json list \<Rightarrow> kv_store \<Rightarrow> kv_store" where
  "writeQueueUnlocked i queue disk =
     (if \<not> can_write i then disk
      else if queue = [] then disk(error_STORAGE_KEY := None)
      else disk(error_STORAGE_KEY \<mapsto> Parsed (JArr (take_last MAX_QUEUED_REPORTS queue))))"

definition report_expired :: "(string \<Rightarrow> int option) \<Rightarrow> int \<Rightarrow> json \<Rightarrow> bool" where
  "report_expired parse_date now q =
     (case parse_date (qr_occurred_at q) of None \<Rightarrow> True | Some t \<Rightarrow> MAX_REPORT_AGE_MS < now - t)"

definition su_id :: "session_user \<Rightarrow> string" where
  "su_id user = the_string (json_prop user ''id'')"

definition auth_is :: "auth_state \<Rightarrow> string \<Rightarrow> bool" where
  "auth_is view ownerId \<longleftrightarrow> (case au_user view of None \<Rightarrow> False | Some u \<Rightarrow> su_id u = ownerId)"

definition queued_report :: "string \<Rightarrow> string \<Rightarrow> string \<Rightarrow> json \<Rightarrow> json" where
  "queued_report i ownerId signature report =
     JObj [(''id'', JStr i), (''owner_id'', JStr ownerId), (''signature'', JStr signature), (''report'', report)]"

definition enqueueReport ::
  "io \<Rightarrow> (string \<Rightarrow> int option) \<Rightarrow> int \<Rightarrow> string \<Rightarrow> auth_state \<Rightarrow> json \<Rightarrow> string \<Rightarrow> string \<Rightarrow> kv_store \<Rightarrow> kv_store" where
  "enqueueReport i parse_date now suffix view report ownerId signature disk =
     (if \<not> auth_is view ownerId \<or> \<not> hasLocalSession (au_status view) then disk
      else
        let (stored, disk') = readQueueUnlocked i disk;
            queue = filter (\<lambda>q. \<not> report_expired parse_date now q) stored
        in if list_ex (\<lambda>q. qr_owner_id q = ownerId \<and> qr_signature q = signature) queue then disk'
           else writeQueueUnlocked i
                  (queue @ [queued_report (the_string (json_prop report ''occurred_at'') @ '':'' @ suffix)
                              ownerId signature report]) disk')"

definition removeQueuedReport :: "io \<Rightarrow> string \<Rightarrow> kv_store \<Rightarrow> kv_store" where
  "removeQueuedReport i reportId disk =
     (let (queue, disk') = readQueueUnlocked i disk
      in writeQueueUnlocked i (filter (\<lambda>q. qr_id q \<noteq> reportId) queue) disk')"

definition clearClientErrorReports :: "io \<Rightarrow> kv_store \<Rightarrow> kv_store" where
  "clearClientErrorReports i disk = (if can_write i then disk(error_STORAGE_KEY := None) else disk)"

section \<open>Capturing and flushing\<close>

definition shouldRetry :: "thrown \<Rightarrow> bool" where
  "shouldRetry e =
     (case e of
        Other_Error _ \<Rightarrow> True
      | Api_Error a \<Rightarrow> ae_status a = 0 \<or> ae_status a = 429 \<or> 500 \<le> ae_status a)"

definition isRecentDuplicate :: "int \<Rightarrow> string \<Rightarrow> (string, int) jsmap \<Rightarrow> bool \<times> (string, int) jsmap" where
  "isRecentDuplicate now signature recent =
     (let kept = filter (\<lambda>(_, t). \<not> DEDUPE_WINDOW_MS < now - t) recent
      in if jm_get kept signature \<noteq> None then (True, kept) else (False, jm_set signature now kept))"

datatype capture_next =
    Capture_Done
  | Capture_Send json string string
  | Capture_Enqueue json string string

text \<open>\<open>captureClientError\<close> up to its first \<open>await\<close>, with the state of the duplicate filter it leaves:
  send the report (and queue it when \<open>shouldRetry\<close>), or queue it at once.\<close>

definition captureClientError ::
  "int \<Rightarrow> auth_state \<Rightarrow> json option \<Rightarrow> (string, int) jsmap \<Rightarrow> capture_next \<times> (string, int) jsmap" where
  "captureClientError now view built recent =
     (case (au_user view, built) of
        (Some user, Some report) \<Rightarrow>
          (if \<not> hasLocalSession (au_status view) then (Capture_Done, recent)
           else
             let signature = reportSignature report;
                 (duplicate, recent') = isRecentDuplicate now signature recent
             in if duplicate then (Capture_Done, recent')
                else if au_status view = Authenticated
                then (Capture_Send report (su_id user) signature, recent')
                else (Capture_Enqueue report (su_id user) signature, recent'))
      | _ \<Rightarrow> (Capture_Done, recent))"

definition capture_after_send :: "json \<Rightarrow> string \<Rightarrow> string \<Rightarrow> thrown + unit \<Rightarrow> capture_next" where
  "capture_after_send report ownerId signature answer =
     (case answer of
        Inr _ \<Rightarrow> Capture_Done
      | Inl e \<Rightarrow> if shouldRetry e then Capture_Enqueue report ownerId signature else Capture_Done)"

text \<open>What one turn of the flush loop meets: the auth state and the clock when it starts, the answer
  to its request, the storage when it removes the report.\<close>

record flush_turn =
  ft_auth :: auth_state
  ft_now :: int
  ft_answer :: "thrown + unit"
  ft_io :: io

text \<open>The loop over the reports read at the start: what is sent, with the user who was signed in at
  that moment, and the storage.\<close>

fun flush_reports ::
  "(string \<Rightarrow> int option) \<Rightarrow> string \<Rightarrow> json list \<Rightarrow> flush_turn list \<Rightarrow> kv_store \<Rightarrow>
   (string option \<times> json) list \<times> kv_store" where
  "flush_reports parse_date ownerId [] turns disk = ([], disk)"
| "flush_reports parse_date ownerId (q # qs) turns disk =
     (if qr_owner_id q \<noteq> ownerId then flush_reports parse_date ownerId qs turns disk
      else case turns of
        [] \<Rightarrow> ([], disk)
      | turn # later \<Rightarrow>
          (if au_status (ft_auth turn) \<noteq> Authenticated \<or> \<not> auth_is (ft_auth turn) ownerId then ([], disk)
           else if report_expired parse_date (ft_now turn) q
           then flush_reports parse_date ownerId qs later (removeQueuedReport (ft_io turn) (qr_id q) disk)
           else
             let sent = (map_option su_id (au_user (ft_auth turn)), qr_report q)
             in case ft_answer turn of
                  Inl e \<Rightarrow>
                    (if shouldRetry e then ([sent], disk)
                     else let (sends, disk') = flush_reports parse_date ownerId qs later
                                (removeQueuedReport (ft_io turn) (qr_id q) disk)
                          in (sent # sends, disk'))
                | Inr _ \<Rightarrow>
                    (let (sends, disk') = flush_reports parse_date ownerId qs later
                           (removeQueuedReport (ft_io turn) (qr_id q) disk)
                     in (sent # sends, disk'))))"

definition flushQueuedReports ::
  "(string \<Rightarrow> int option) \<Rightarrow> auth_state \<Rightarrow> io \<Rightarrow> flush_turn list \<Rightarrow> kv_store \<Rightarrow>
   (string option \<times> json) list \<times> kv_store" where
  "flushQueuedReports parse_date initialAuth i turns disk =
     (case au_user initialAuth of
        Some user \<Rightarrow>
          (if au_status initialAuth \<noteq> Authenticated then ([], disk)
           else let (queue, disk') = readQueueUnlocked i disk
                in flush_reports parse_date (su_id user) queue turns disk')
      | None \<Rightarrow> ([], disk))"

text \<open>\<open>flushClientErrorReports\<close> joins a flush that is under way.\<close>

definition flushClientErrorReports :: "bool \<Rightarrow> bool" where
  "flushClientErrorReports flushing = (if flushing then flushing else True)"

section \<open>The global handler\<close>

datatype handler = Previous nat | Ours

text \<open>Installing wraps the handler of the moment; the returned function restores it only while ours is
  still the one installed.\<close>

definition installGlobalErrorHandler :: "handler option \<Rightarrow> (handler \<times> handler) option" where
  "installGlobalErrorHandler current = (case current of None \<Rightarrow> None | Some previous \<Rightarrow> Some (Ours, previous))"

definition uninstall_handler :: "handler \<Rightarrow> handler \<Rightarrow> handler" where
  "uninstall_handler current previous = (if current = Ours then previous else current)"

section \<open>What the queue keeps and sends\<close>

definition stored_queue :: "kv_store \<Rightarrow> json list" where
  "stored_queue disk =
     (case disk error_STORAGE_KEY of Some (Parsed (JArr xs)) \<Rightarrow> filter isQueuedReport xs | _ \<Rightarrow> [])"

definition queue_bounded :: "kv_store \<Rightarrow> bool" where
  "queue_bounded disk \<longleftrightarrow> length (stored_queue disk) \<le> MAX_QUEUED_REPORTS"

lemma stored_queue_write:
  "can_write i \<Longrightarrow> stored_queue (writeQueueUnlocked i queue disk) = filter isQueuedReport (take_last MAX_QUEUED_REPORTS queue)"
  by (simp add: stored_queue_def writeQueueUnlocked_def take_last_def)

lemma read_queue:
  "can_read i \<Longrightarrow> queue_bounded disk \<Longrightarrow> fst (readQueueUnlocked i disk) = stored_queue disk"
  by (auto simp: readQueueUnlocked_def stored_queue_def queue_bounded_def take_last_short Let_def
      split: option.splits stored.splits json.splits)

lemma read_keeps_queue:
  "can_read i \<Longrightarrow> stored_queue (snd (readQueueUnlocked i disk)) = stored_queue disk"
  by (simp add: readQueueUnlocked_def stored_queue_def Let_def split: option.split stored.split json.split)

lemma filter_queue_id: "filter isQueuedReport (stored_queue disk) = stored_queue disk"
  by (simp add: stored_queue_def split: option.split stored.split json.split)

lemma stored_queue_remove:
  assumes "can_read i" and "can_write i" and "queue_bounded disk"
  shows "stored_queue (removeQueuedReport i r disk) = filter (\<lambda>q. qr_id q \<noteq> r) (stored_queue disk)"
proof -
  have "length (filter (\<lambda>q. qr_id q \<noteq> r) (stored_queue disk)) \<le> MAX_QUEUED_REPORTS"
    using assms(3) le_trans [OF length_filter_le] by (simp add: queue_bounded_def)
  moreover have "filter isQueuedReport (filter (\<lambda>q. qr_id q \<noteq> r) (stored_queue disk)) =
      filter (\<lambda>q. qr_id q \<noteq> r) (stored_queue disk)"
    by (metis (no_types, lifting) filter_queue_id filter_filter filter_cong conj_commute)
  ultimately show ?thesis
    using read_queue [OF assms(1,3)]
    by (cases "readQueueUnlocked i disk")
      (simp add: removeQueuedReport_def stored_queue_write [OF assms(2)] take_last_short)
qed

lemma bounded_write: "can_write i \<Longrightarrow> queue_bounded (writeQueueUnlocked i queue disk)"
  unfolding queue_bounded_def
  by (simp add: stored_queue_write) (metis le_trans length_filter_le length_take_last min.cobounded1)

lemma bounded_remove:
  "can_read i \<Longrightarrow> can_write i \<Longrightarrow> queue_bounded disk \<Longrightarrow> queue_bounded (removeQueuedReport i r disk)"
  unfolding queue_bounded_def
  by (simp add: stored_queue_remove queue_bounded_def) (metis le_trans length_filter_le)

definition turn_ok :: "flush_turn \<Rightarrow> bool" where
  "turn_ok turn \<longleftrightarrow> can_read (ft_io turn) \<and> can_write (ft_io turn)"

text \<open>The reports of one account meet the turns in order: the first report the first turn, and so on. A turn
  settles its own report when the request succeeds or is refused for good, or when the report is too old;
  the flush ends at the first turn that does not, or that finds its account no longer signed in.\<close>

definition still_signed_in :: "string \<Rightarrow> flush_turn \<Rightarrow> bool" where
  "still_signed_in ownerId turn \<longleftrightarrow> au_status (ft_auth turn) = Authenticated \<and> auth_is (ft_auth turn) ownerId"

definition settles :: "(string \<Rightarrow> int option) \<Rightarrow> json \<Rightarrow> flush_turn \<Rightarrow> bool" where
  "settles parse_date q turn \<longleftrightarrow>
     report_expired parse_date (ft_now turn) q \<or> ft_answer turn = Inr () \<or>
     (\<exists>e. ft_answer turn = Inl e \<and> \<not> shouldRetry e)"

definition own_turns :: "string \<Rightarrow> json list \<Rightarrow> flush_turn list \<Rightarrow> (json \<times> flush_turn) list" where
  "own_turns ownerId queue turns = zip (filter (\<lambda>q. qr_owner_id q = ownerId) queue) turns"

definition settled_turns ::
  "(string \<Rightarrow> int option) \<Rightarrow> string \<Rightarrow> json list \<Rightarrow> flush_turn list \<Rightarrow> (json \<times> flush_turn) list" where
  "settled_turns parse_date ownerId queue turns =
     takeWhile (\<lambda>(q, turn). still_signed_in ownerId turn \<and> settles parse_date q turn) (own_turns ownerId queue turns)"

text \<open>The turn the flush ends with, if it finds its account signed in, has sent its report too.\<close>

definition attempted_turns ::
  "(string \<Rightarrow> int option) \<Rightarrow> string \<Rightarrow> json list \<Rightarrow> flush_turn list \<Rightarrow> (json \<times> flush_turn) list" where
  "attempted_turns parse_date ownerId queue turns =
     (let settled = settled_turns parse_date ownerId queue turns
      in filter (\<lambda>(q, turn). \<not> report_expired parse_date (ft_now turn) q)
           (settled @ (case drop (length settled) (own_turns ownerId queue turns) of
              [] \<Rightarrow> []
            | (q, turn) # _ \<Rightarrow> if still_signed_in ownerId turn then [(q, turn)] else [])))"

definition flush_ok ::
  "(string \<Rightarrow> int option) \<Rightarrow> string \<Rightarrow> json list \<Rightarrow> flush_turn list \<Rightarrow> kv_store \<Rightarrow>
   (string option \<times> json) list \<times> kv_store \<Rightarrow> bool" where
  "flush_ok parse_date ownerId queue turns disk result \<longleftrightarrow>
     fst result = map (\<lambda>(q, _). (Some ownerId, qr_report q)) (attempted_turns parse_date ownerId queue turns) \<and>
     stored_queue (snd result) =
       filter (\<lambda>p. qr_id p \<notin> (\<lambda>(q, _). qr_id q) ` set (settled_turns parse_date ownerId queue turns)) (stored_queue disk)"

lemma own_turns_simps [simp]:
  "own_turns ownerId [] turns = []" "own_turns ownerId queue [] = []"
  "qr_owner_id q \<noteq> ownerId \<Longrightarrow> own_turns ownerId (q # qs) turns = own_turns ownerId qs turns"
  "qr_owner_id q = ownerId \<Longrightarrow> own_turns ownerId (q # qs) (turn # later) = (q, turn) # own_turns ownerId qs later"
  by (simp_all add: own_turns_def)

lemma flush_ok_skip:
  "qr_owner_id q \<noteq> ownerId \<Longrightarrow> flush_ok parse_date ownerId qs turns disk result \<Longrightarrow>
   flush_ok parse_date ownerId (q # qs) turns disk result"
  by (simp add: flush_ok_def attempted_turns_def settled_turns_def)

lemma flush_ok_empty:
  "queue = [] \<or> turns = [] \<Longrightarrow> flush_ok parse_date ownerId queue turns disk ([], disk)"
  by (auto simp: flush_ok_def attempted_turns_def settled_turns_def)

lemma flush_ok_stop:
  assumes "qr_owner_id q = ownerId" and "\<not> (still_signed_in ownerId turn \<and> settles parse_date q turn)"
  shows "flush_ok parse_date ownerId (q # qs) (turn # later) disk
    (if still_signed_in ownerId turn then [(Some ownerId, qr_report q)] else [], disk)"
proof -
  have none: "settled_turns parse_date ownerId (q # qs) (turn # later) = []"
    using assms by (simp add: settled_turns_def)
  have "still_signed_in ownerId turn \<Longrightarrow> \<not> report_expired parse_date (ft_now turn) q"
    using assms(2) by (simp add: settles_def)
  with assms(1) none show ?thesis by (simp add: flush_ok_def attempted_turns_def Let_def)
qed

lemma flush_ok_settled:
  assumes "qr_owner_id q = ownerId" and "still_signed_in ownerId turn" and "settles parse_date q turn"
    and "turn_ok turn" and "queue_bounded disk"
    and "flush_ok parse_date ownerId qs later (removeQueuedReport (ft_io turn) (qr_id q) disk) result"
  shows "flush_ok parse_date ownerId (q # qs) (turn # later) disk
    (if report_expired parse_date (ft_now turn) q then result
     else ((Some ownerId, qr_report q) # fst result, snd result))"
proof -
  have "stored_queue (removeQueuedReport (ft_io turn) (qr_id q) disk) =
      filter (\<lambda>p. qr_id p \<noteq> qr_id q) (stored_queue disk)"
    using assms(4,5) stored_queue_remove by (simp add: turn_ok_def)
  moreover have "settled_turns parse_date ownerId (q # qs) (turn # later) =
      (q, turn) # settled_turns parse_date ownerId qs later"
    using assms(1-3) by (simp add: settled_turns_def)
  moreover have "attempted_turns parse_date ownerId (q # qs) (turn # later) =
      (if report_expired parse_date (ft_now turn) q then [] else [(q, turn)]) @
      attempted_turns parse_date ownerId qs later"
    using assms(1) calculation(2) by (simp add: attempted_turns_def Let_def)
  ultimately show ?thesis
    using assms(6) by (auto simp: flush_ok_def intro!: filter_cong)
qed

lemma auth_is_owner: "auth_is a ownerId \<Longrightarrow> map_option su_id (au_user a) = Some ownerId"
  by (simp add: auth_is_def split: option.splits)

lemma flush_reports_ok:
  "\<forall>turn \<in> set turns. turn_ok turn \<Longrightarrow> queue_bounded disk \<Longrightarrow>
   flush_ok parse_date ownerId queue turns disk (flush_reports parse_date ownerId queue turns disk)"
proof (induction queue arbitrary: turns disk)
  case Nil
  then show ?case by (simp add: flush_ok_empty)
next
  case (Cons q qs)
  show ?case
  proof (cases "qr_owner_id q = ownerId \<and> turns \<noteq> []")
    case False
    with Cons show ?thesis by (cases turns) (auto simp: flush_ok_empty intro: flush_ok_skip)
  next
    case True
    then obtain turn later where t: "turns = turn # later" by (cases turns) auto
    have own: "qr_owner_id q = ownerId" using True by simp
    let ?gone = "removeQueuedReport (ft_io turn) (qr_id q) disk"
    let ?rest = "flush_reports parse_date ownerId qs later ?gone"
    have turn: "turn_ok turn" and "queue_bounded ?gone"
      using Cons.prems t by (auto simp: turn_ok_def intro: bounded_remove)
    then have rest: "flush_ok parse_date ownerId qs later ?gone ?rest"
      using Cons.IH Cons.prems(1) t by simp
    have run: "flush_reports parse_date ownerId (q # qs) (turn # later) disk =
        (if \<not> (still_signed_in ownerId turn \<and> settles parse_date q turn)
         then (if still_signed_in ownerId turn then [(Some ownerId, qr_report q)] else [], disk)
         else if report_expired parse_date (ft_now turn) q then ?rest
         else ((Some ownerId, qr_report q) # fst ?rest, snd ?rest))"
      using own auth_is_owner [of "ft_auth turn" ownerId]
      by (cases "ft_answer turn") (auto simp: still_signed_in_def settles_def Let_def split: prod.splits)
    show ?thesis
    proof (cases "still_signed_in ownerId turn \<and> settles parse_date q turn")
      case True
      then show ?thesis
        using flush_ok_settled [OF own _ _ turn Cons.prems(2) rest] unfolding t run by simp
    next
      case False
      then show ?thesis using flush_ok_stop [OF own] unfolding t run by simp
    qed
  qed
qed

text \<open>C25: A report of an error leaves the device only under the account it happened to, and only what is
  settled leaves the queue. Whatever the session does while the queue is flushed: the owner's reports are
  attempted in order, each in a turn of its own and while its owner is the signed-in user; what is sent
  are exactly the reports of the turns that were reached and whose report was not older than a week; and
  what is gone from the storage are exactly the reports whose own turn succeeded, was refused for good or
  found them too old, up to the first turn that did not settle its report. (Storage works during the
  flush; the queue is within its bound, as every write leaves it.)\<close>

theorem reports_sent_by_owner:
  assumes "\<forall>turn \<in> set turns. turn_ok turn" and "can_read i" and "queue_bounded disk"
    and "au_user initialAuth = Some user" and "au_status initialAuth = Authenticated"
    and "flushQueuedReports parse_date initialAuth i turns disk = (sends, disk')"
  shows "sends = map (\<lambda>(q, _). (Some (su_id user), qr_report q))
      (attempted_turns parse_date (su_id user) (stored_queue disk) turns) \<and>
    stored_queue disk' = filter (\<lambda>p. qr_id p \<notin> (\<lambda>(q, _). qr_id q) `
        set (settled_turns parse_date (su_id user) (stored_queue disk) turns)) (stored_queue disk)"
proof -
  let ?disk = "snd (readQueueUnlocked i disk)"
  have s: "stored_queue ?disk = stored_queue disk" using read_keeps_queue [OF assms(2)] .
  then have "queue_bounded ?disk" using assms(3) by (simp add: queue_bounded_def)
  from flush_reports_ok [OF assms(1) this]
  have "flush_ok parse_date (su_id user) (stored_queue disk) turns ?disk (sends, disk')"
    using assms(4-6) read_queue [OF assms(2,3)]
    by (simp add: flushQueuedReports_def split: prod.splits) (metis fst_conv snd_conv)
  then show ?thesis by (simp add: flush_ok_def s)
qed

definition sample_report :: json where
  "sample_report =
     JObj [(''error_name'', JStr ''E''), (''message'', JStr ''m''), (''platform'', JStr ''ios''),
           (''app_version'', JStr ''1''), (''is_fatal'', JBool False), (''occurred_at'', JStr ''5'')]"

definition sample_user :: session_user where
  "sample_user = JObj [(''id'', JStr ''u'')]"

definition sample_auth :: auth_state where
  "sample_auth = \<lparr>au_status = Authenticated, au_token = Some ''t'', au_user = Some sample_user\<rparr>"

definition sample_disk :: kv_store where
  "sample_disk = (\<lambda>_. None)(error_STORAGE_KEY \<mapsto> Parsed (JArr [queued_report ''r'' ''u'' ''s'' sample_report]))"

lemma reports_sent_by_owner_witness:
  "\<exists>disk'. flushQueuedReports (\<lambda>_. Some 0) sample_auth \<lparr>can_read = True, can_write = True\<rparr>
       [\<lparr>ft_auth = sample_auth, ft_now = 1, ft_answer = Inr (), ft_io = \<lparr>can_read = True, can_write = True\<rparr>\<rparr>]
       sample_disk = ([(Some ''u'', sample_report)], disk') \<and>
     stored_queue disk' = []"
proof -
  let ?io = "\<lparr>can_read = True, can_write = True\<rparr>"
  let ?turn = "\<lparr>ft_auth = sample_auth, ft_now = 1, ft_answer = Inr (), ft_io = ?io\<rparr>"
  have q: "isQueuedReport (queued_report ''r'' ''u'' ''s'' sample_report)"
    by (simp add: isQueuedReport_def isReport_def queued_report_def sample_report_def json_prop_def is_object_def
        jm_get_def)
  have fields: "qr_owner_id (queued_report ''r'' ''u'' ''s'' sample_report) = ''u''"
      "qr_report (queued_report ''r'' ''u'' ''s'' sample_report) = sample_report"
    by (simp_all add: queued_report_def qr_report_def json_prop_def jm_get_def)
  have u: "su_id sample_user = ''u''" by (simp add: su_id_def sample_user_def json_prop_def jm_get_def)
  have e: "\<exists>disk'. flushQueuedReports (\<lambda>_. Some 0) sample_auth ?io [?turn] sample_disk =
      ([(Some ''u'', sample_report)], disk')"
    by (simp add: flushQueuedReports_def sample_auth_def u sample_disk_def readQueueUnlocked_def q take_last_def
        MAX_QUEUED_REPORTS_def fields auth_is_def report_expired_def MAX_REPORT_AGE_MS_def Let_def)
  have b: "queue_bounded sample_disk"
    by (simp add: queue_bounded_def stored_queue_def sample_disk_def q MAX_QUEUED_REPORTS_def)
  from e obtain disk' where d: "flushQueuedReports (\<lambda>_. Some 0) sample_auth ?io [?turn] sample_disk =
      ([(Some ''u'', sample_report)], disk')" by blast
  have "stored_queue sample_disk = [queued_report ''r'' ''u'' ''s'' sample_report]"
    by (simp add: stored_queue_def sample_disk_def q)
  then have "stored_queue disk' = []"
    using reports_sent_by_owner [OF _ _ b _ _ d]
    by (simp add: turn_ok_def sample_auth_def u fields settled_turns_def still_signed_in_def settles_def auth_is_def)
  with d show ?thesis by blast
qed

end
