(* ===== verification/Js_Date.thy ===== *)
theory Js_Date
  imports Js_Text
begin

text \<open>
  The calendar behind \<open>Date\<close>, as the language standard defines it: days and milliseconds from
  1 January 1970, the proleptic Gregorian year of a day, \<open>Date.UTC\<close> with its month overflow, its
  two-digit years and its limit of a hundred million days, and the UTC getters.

  The standard defines the year of a day as the largest year that starts no later; here it is
  computed from an estimate and shown to be that year.
\<close>

section \<open>Years\<close>

definition leap_year :: "int \<Rightarrow> bool" where
  "leap_year y \<longleftrightarrow> 4 dvd y \<and> (\<not> 100 dvd y \<or> 400 dvd y)"

definition days_in_year :: "int \<Rightarrow> int" where
  "days_in_year y = (if leap_year y then 366 else 365)"

definition day_from_year :: "int \<Rightarrow> int" where
  "day_from_year y = 365 * (y - 1970) + (y - 1969) div 4 - (y - 1901) div 100 + (y - 1601) div 400"

definition year_from_day :: "int \<Rightarrow> int" where
  "year_from_day d =
     (let y = 1970 + (400 * d) div 146097
      in if day_from_year (y + 1) \<le> d then y + 1 else if d < day_from_year y then y - 1 else y)"

lemma div_next:
  assumes "0 < (n :: int)"
  shows "(k + 1) div n = k div n + (if n dvd (k + 1) then 1 else 0)"
proof -
  define q r where "q = k div n" and "r = k mod n"
  have k: "k = n * q + r" by (simp add: q_def r_def)
  have r: "0 \<le> r" "r < n" using assms by (simp_all add: r_def)
  show ?thesis
  proof (cases "r + 1 = n")
    case True
    then have "k + 1 = n * (q + 1)" by (simp add: k algebra_simps)
    then show ?thesis using assms by (simp add: q_def [symmetric])
  next
    case False
    with r have "(k + 1) div n = q \<and> (k + 1) mod n = r + 1"
      by (simp add: k int_div_pos_eq [of _ n q "r + 1"] int_mod_pos_eq [of _ n q "r + 1"])
    moreover from this r have "\<not> n dvd (k + 1)" by (simp add: dvd_eq_mod_eq_0)
    ultimately show ?thesis by (simp add: q_def)
  qed
qed

lemma dvd_shift: "n dvd c \<Longrightarrow> n dvd (y - c) \<longleftrightarrow> n dvd (y :: int)"
  by (metis diff_add_cancel dvd_add dvd_diff)

lemma day_from_year_next: "day_from_year (y + 1) = day_from_year y + days_in_year y"
proof -
  have a: "(y + 1 - 1969) div 4 = (y - 1969) div 4 + (if 4 dvd y then 1 else 0)"
    using div_next [of 4 "y - 1969"] dvd_shift [of 4 1968 y] by simp
  have b: "(y + 1 - 1901) div 100 = (y - 1901) div 100 + (if 100 dvd y then 1 else 0)"
    using div_next [of 100 "y - 1901"] dvd_shift [of 100 1900 y] by simp
  have c: "(y + 1 - 1601) div 400 = (y - 1601) div 400 + (if 400 dvd y then 1 else 0)"
    using div_next [of 400 "y - 1601"] dvd_shift [of 400 1600 y] by simp
  have d: "400 dvd y \<Longrightarrow> 100 dvd y" "100 dvd y \<Longrightarrow> 4 dvd y"
    using dvd_trans [of 100 400 y] dvd_trans [of 4 100 y] by simp_all
  define p q r :: int where "p = (if 4 dvd y then 1 else 0)" and "q = (if 100 dvd y then 1 else 0)"
    and "r = (if 400 dvd y then 1 else 0)"
  have sum: "365 * (y + 1 - 1970) + (u + p) - (v + q) + (w + r) = 365 * (y - 1970) + u - v + w + 365 + p - q + r"
    for u v w :: int by simp
  have "day_from_year (y + 1) = day_from_year y + 365 + p - q + r"
    unfolding day_from_year_def a b c p_def [symmetric] q_def [symmetric] r_def [symmetric] by (rule sum)
  also have "\<dots> = day_from_year y + days_in_year y"
    unfolding days_in_year_def leap_year_def p_def q_def r_def
    using d by (cases "4 dvd y"; cases "100 dvd y"; cases "400 dvd y"; simp only: if_True if_False simp_thms)
  finally show ?thesis .
qed

lemma days_in_year_pos: "365 \<le> days_in_year y" "days_in_year y \<le> 366"
  by (simp_all add: days_in_year_def)

lemma day_from_year_less: "y < z \<Longrightarrow> day_from_year y < day_from_year z"
proof (induction rule: int_less_induct [where k = z])
  case base
  then show ?case using day_from_year_next [of "z - 1"] days_in_year_pos [of "z - 1"] by simp
next
  case (step i)
  then show ?case using day_from_year_next [of "i - 1"] days_in_year_pos [of "i - 1"] by simp
qed

lemma day_from_year_mono: "y \<le> z \<Longrightarrow> day_from_year y \<le> day_from_year z"
  using day_from_year_less [of y z] by (cases "y = z") auto

lemma year_unique:
  assumes "day_from_year y \<le> d" "d < day_from_year (y + 1)"
    and "day_from_year z \<le> d" "d < day_from_year (z + 1)"
  shows "y = z"
proof (rule linorder_cases [of y z])
  assume "y < z"
  then have "day_from_year (y + 1) \<le> day_from_year z"
    using day_from_year_less [of "y + 1" z] by (cases "y + 1 = z") auto
  with assms show ?thesis by simp
next
  assume "z < y"
  then have "day_from_year (z + 1) \<le> day_from_year y"
    using day_from_year_less [of "z + 1" y] by (cases "z + 1 = y") auto
  with assms show ?thesis by simp
qed simp

lemma div_bounds:
  assumes "0 < (n :: int)"
  shows "n * (a div n) \<le> a" and "a < n * (a div n) + n"
  using pos_mod_sign [OF assms, of a] pos_mod_bound [OF assms, of a] mult_div_mod_eq [of n a]
  by linarith+

text \<open>A year starts within two days of 365.2425 days per year.\<close>

lemma day_from_year_estimate:
  "400 * day_from_year (1970 + e) \<le> 146097 * e + 589" "146097 * e - 506 \<le> 400 * day_from_year (1970 + e)"
proof -
  obtain u v w where u: "u = (e + 1) div 4" and v: "v = (e + 69) div 100" and w: "w = (e + 369) div 400"
    by blast
  have d: "day_from_year (1970 + e) = 365 * e + u - v + w"
    unfolding day_from_year_def u v w by (simp add: add.commute)
  note bounds = div_bounds [of 4 "e + 1", folded u] div_bounds [of 100 "e + 69", folded v]
    div_bounds [of 400 "e + 369", folded w]
  show "400 * day_from_year (1970 + e) \<le> 146097 * e + 589"
    "146097 * e - 506 \<le> 400 * day_from_year (1970 + e)"
    unfolding d using bounds by simp_all
qed

lemma year_from_day:
  "day_from_year (year_from_day d) \<le> d" "d < day_from_year (year_from_day d + 1)"
proof -
  obtain e where e: "e = (400 * d) div 146097" by blast
  note bounds = div_bounds [of 146097 "400 * d", folded e]
  have "400 * day_from_year (1970 + (e - 1)) \<le> 400 * d"
    using day_from_year_estimate(1) [of "e - 1"] bounds by simp
  moreover have "400 * d < 400 * day_from_year (1970 + (e + 2))"
    using day_from_year_estimate(2) [of "e + 2"] bounds by simp
  ultimately show "day_from_year (year_from_day d) \<le> d" "d < day_from_year (year_from_day d + 1)"
    unfolding year_from_day_def Let_def e [symmetric] by (simp_all add: add.commute)
qed

lemma year_from_day_eq: "day_from_year y \<le> d \<Longrightarrow> d < day_from_year (y + 1) \<Longrightarrow> year_from_day d = y"
  using year_unique year_from_day by blast

section \<open>Months and days\<close>

text \<open>Months are numbered from 0, days of the month from 1.\<close>

definition month_start :: "bool \<Rightarrow> nat \<Rightarrow> int" where
  "month_start leap m =
     [0, 31, 59, 90, 120, 151, 181, 212, 243, 273, 304, 334] ! m + (if leap \<and> 2 \<le> m then 1 else 0)"

definition days_in_month :: "bool \<Rightarrow> nat \<Rightarrow> nat" where
  "days_in_month leap m =
     (if m = 1 then (if leap then 29 else 28) else if m = 3 \<or> m = 5 \<or> m = 8 \<or> m = 10 then 30 else 31)"

definition month_of_day :: "bool \<Rightarrow> int \<Rightarrow> nat" where
  "month_of_day leap k = length (filter (\<lambda>m. month_start leap m \<le> k) [1 ..< 12])"

definition day_of_month :: "bool \<Rightarrow> int \<Rightarrow> int" where
  "day_of_month leap k = k - month_start leap (month_of_day leap k) + 1"

text \<open>The fields of a day.\<close>

definition day_year :: "int \<Rightarrow> int" where "day_year = year_from_day"

definition day_month :: "int \<Rightarrow> nat" where
  "day_month d = (let y = year_from_day d in month_of_day (leap_year y) (d - day_from_year y))"

definition day_date :: "int \<Rightarrow> int" where
  "day_date d = (let y = year_from_day d in day_of_month (leap_year y) (d - day_from_year y))"

definition week_day :: "int \<Rightarrow> int" where
  "week_day d = (d + 4) mod 7"

text \<open>\<open>MakeDay\<close>: months outside 0 to 11 carry into the year, any day number is taken.\<close>

definition make_day :: "int \<Rightarrow> int \<Rightarrow> int \<Rightarrow> int" where
  "make_day y m d =
     (let y' = y + m div 12
      in day_from_year y' + month_start (leap_year y') (nat (m mod 12)) + d - 1)"

lemma fields_of_year_day:
  assumes "0 \<le> k" and "k < days_in_year y"
  shows "day_year (day_from_year y + k) = y"
    and "day_month (day_from_year y + k) = month_of_day (leap_year y) k"
    and "day_date (day_from_year y + k) = day_of_month (leap_year y) k"
proof -
  have "year_from_day (day_from_year y + k) = y"
    using assms by (intro year_from_day_eq) (simp_all add: day_from_year_next)
  then show "day_year (day_from_year y + k) = y"
    "day_month (day_from_year y + k) = month_of_day (leap_year y) k"
    "day_date (day_from_year y + k) = day_of_month (leap_year y) k"
    by (simp_all add: day_year_def day_month_def day_date_def)
qed

definition month_days :: "bool \<Rightarrow> (nat \<times> int) list" where
  "month_days leap = concat (map (\<lambda>m. map (\<lambda>d. (m, int d)) [1 ..< Suc (days_in_month leap m)]) [0 ..< 12])"

lemma concat_upt:
  assumes "\<And>m. m < n \<Longrightarrow> s m \<le> s (Suc m)"
  shows "concat (map (\<lambda>m. [s m ..< s (Suc m)]) [0 ..< n]) = [s 0 ..< s n] \<and> s 0 \<le> s n"
  using assms
proof (induction n)
  case (Suc n)
  then have "concat (map (\<lambda>m. [s m ..< s (Suc m)]) [0 ..< n]) = [s 0 ..< s n]" "s 0 \<le> s n" "s n \<le> s (Suc n)"
    by simp_all
  then show ?case using upt_add_eq_append [of "s 0" "s n" "s (Suc n) - s n"] by simp
qed simp

lemma less_12_cases:
  "(m :: nat) < 12 \<Longrightarrow>
   m = 0 \<or> m = 1 \<or> m = 2 \<or> m = 3 \<or> m = 4 \<or> m = 5 \<or> m = 6 \<or> m = 7 \<or> m = 8 \<or> m = 9 \<or> m = 10 \<or> m = 11"
  by arith

text \<open>The first day of a month, of the year after it for month 12.\<close>

definition month_begin :: "bool \<Rightarrow> nat \<Rightarrow> nat" where
  "month_begin leap m = (if m = 12 then (if leap then 366 else 365) else nat (month_start leap m))"

lemma month_begin_Suc: "m < 12 \<Longrightarrow> month_begin leap (Suc m) = month_begin leap m + days_in_month leap m"
  by (drule less_12_cases) (auto simp: month_begin_def month_start_def days_in_month_def)

lemma months_of_year: "[1 ..< 12] = [1, 2, 3, 4, 5, 6, 7, 8, 9, 10, 11 :: nat]"
  by (simp add: upt_rec)

lemma month_start_int: "m < 12 \<Longrightarrow> int (month_begin leap m) = month_start leap m"
  by (drule less_12_cases) (auto simp: month_begin_def month_start_def)

lemma month_begin_mono: "i \<le> j \<Longrightarrow> j \<le> 12 \<Longrightarrow> month_begin leap i \<le> month_begin leap j"
proof (induction j rule: nat_induct_at_least [of i])
  case (Suc n)
  then show ?case using month_begin_Suc [of n leap] by simp
qed simp_all

lemma months_up_to: "m < 12 \<Longrightarrow> length (filter (\<lambda>i. i \<le> m) [1 ..< 12]) = m"
  unfolding months_of_year by (drule less_12_cases) auto

lemma month_of_day_in:
  assumes "m < 12" and "j < days_in_month leap m"
  shows "month_of_day leap (int (month_begin leap m + j)) = m"
    and "day_of_month leap (int (month_begin leap m + j)) = int j + 1"
proof -
  have "month_start leap i \<le> int (month_begin leap m + j) \<longleftrightarrow> i \<le> m" if "i < 12" for i
    unfolding month_start_int [OF that, symmetric]
    using month_begin_mono [of i m leap] month_begin_mono [of "Suc m" i leap] that assms
      month_begin_Suc [OF assms(1), of leap]
    by (cases "i \<le> m") auto
  then have "filter (\<lambda>i. month_start leap i \<le> int (month_begin leap m + j)) [1 ..< 12] =
      filter (\<lambda>i. i \<le> m) [1 ..< 12]"
    by (intro filter_cong refl) simp
  then show "month_of_day leap (int (month_begin leap m + j)) = m"
    by (simp only: month_of_day_def months_up_to [OF assms(1)])
  then show "day_of_month leap (int (month_begin leap m + j)) = int j + 1"
    by (simp add: day_of_month_def month_start_int [OF assms(1), symmetric])
qed

lemma month_days_eq:
  "map (\<lambda>k. (month_of_day leap (int k), day_of_month leap (int k))) [0 ..< (if leap then 366 else 365)] =
   month_days leap"
proof -
  let ?f = "\<lambda>k. (month_of_day leap (int k), day_of_month leap (int k))"
  let ?s = "month_begin leap"
  let ?g = "\<lambda>m. map (\<lambda>d. (m, int d)) [1 ..< Suc (days_in_month leap m)]"
  have "map ?f [?s m ..< ?s (Suc m)] = ?g m" if "m < 12" for m
    by (rule nth_equalityI)
       (simp_all add: month_begin_Suc [OF that] month_of_day_in [OF that] del: upt_Suc of_nat_add)
  then have g: "map (\<lambda>m. map ?f [?s m ..< ?s (Suc m)]) [0 ..< 12] = map ?g [0 ..< 12]"
    by (intro map_cong [OF refl]) (simp only: set_upt atLeastLessThan_iff)
  have "[0 ..< (if leap then 366 else 365)] = concat (map (\<lambda>m. [?s m ..< ?s (Suc m)]) [0 ..< 12])"
    using concat_upt [of 12 ?s] by (simp add: month_begin_Suc) (simp add: month_begin_def month_start_def)
  then have "map ?f [0 ..< (if leap then 366 else 365)] =
      concat (map (\<lambda>m. map ?f [?s m ..< ?s (Suc m)]) [0 ..< 12])"
    by (simp only: map_concat map_map comp_def)
  then show ?thesis unfolding g month_days_def .
qed

lemma month_of_day_less: "month_of_day leap k < 12"
proof -
  have "month_of_day leap k \<le> length [1 ..< 12 :: nat]"
    unfolding month_of_day_def by (rule length_filter_le)
  then show ?thesis by simp
qed

section \<open>Time values\<close>

text \<open>\<open>TimeClip\<close>: an instant more than a hundred million days from the epoch is not a number.\<close>

definition ms_per_day :: int where "ms_per_day = 86400000"

definition time_clip :: "int \<Rightarrow> int option" where
  "time_clip t = (if \<bar>t\<bar> \<le> 8640000000000000 then Some t else None)"

text \<open>\<open>Date.UTC(y, m, d, h)\<close>; years 0 to 99 are of the twentieth century.\<close>

definition full_year :: "int \<Rightarrow> int" where
  "full_year y = (if 0 \<le> y \<and> y \<le> 99 then 1900 + y else y)"

definition Date_UTC :: "int \<Rightarrow> int \<Rightarrow> int \<Rightarrow> int \<Rightarrow> int option" where
  "Date_UTC y m d h = time_clip (make_day (full_year y) m d * ms_per_day + h * 3600000)"

definition getUTCFullYear :: "int \<Rightarrow> int" where "getUTCFullYear t = day_year (t div ms_per_day)"
definition getUTCMonth :: "int \<Rightarrow> nat" where "getUTCMonth t = day_month (t div ms_per_day)"
definition getUTCDate :: "int \<Rightarrow> int" where "getUTCDate t = day_date (t div ms_per_day)"
definition getUTCDay :: "int \<Rightarrow> int" where "getUTCDay t = week_day (t div ms_per_day)"

lemma ms_per_day_div [simp]: "0 \<le> r \<Longrightarrow> r < ms_per_day \<Longrightarrow> (d * ms_per_day + r) div ms_per_day = d"
  by (simp add: ms_per_day_def)

lemma utc_fields [simp]:
  assumes "0 \<le> r" and "r < ms_per_day"
  shows "getUTCFullYear (d * ms_per_day + r) = day_year d"
    and "getUTCMonth (d * ms_per_day + r) = day_month d"
    and "getUTCDate (d * ms_per_day + r) = day_date d"
    and "getUTCDay (d * ms_per_day + r) = week_day d"
  using assms by (simp_all add: getUTCFullYear_def getUTCMonth_def getUTCDate_def getUTCDay_def)

lemmas utc_midnight = utc_fields [of 0, simplified, unfolded ms_per_day_def, simplified, folded ms_per_day_def]

text \<open>A date of the calendar, and that \<open>Date.UTC\<close> gives its fields back for exactly those.\<close>

definition civil_date :: "int \<Rightarrow> int \<Rightarrow> int \<Rightarrow> bool" where
  "civil_date y m d \<longleftrightarrow> 1 \<le> m \<and> m \<le> 12 \<and> 1 \<le> d \<and> d \<le> int (days_in_month (leap_year y) (nat (m - 1)))"

lemma month_begin_le: "m < 12 \<Longrightarrow> month_begin leap m + days_in_month leap m \<le> (if leap then 366 else 365)"
  by (drule less_12_cases) (auto simp: month_begin_def month_start_def days_in_month_def)

lemma make_day_civil:
  assumes "civil_date y m d"
  shows "make_day y (m - 1) d = day_from_year y + int (month_begin (leap_year y) (nat (m - 1)) + nat (d - 1))"
proof -
  from assms have m: "0 \<le> m - 1" "m - 1 < 12" "nat (m - 1) < 12" and d: "1 \<le> d"
    by (auto simp: civil_date_def)
  have "(m - 1) div 12 = 0" "(m - 1) mod 12 = m - 1" using m by simp_all
  then show ?thesis using d by (simp add: make_day_def month_start_int [OF m(3)])
qed

lemma make_day_civil_fields:
  assumes "civil_date y m d"
  shows "day_year (make_day y (m - 1) d) = y \<and> day_month (make_day y (m - 1) d) = nat (m - 1) \<and>
         day_date (make_day y (m - 1) d) = d"
proof -
  let ?l = "leap_year y"
  let ?k = "month_begin ?l (nat (m - 1)) + nat (d - 1)"
  from assms have m: "nat (m - 1) < 12" and d: "nat (d - 1) < days_in_month ?l (nat (m - 1))" "1 \<le> d"
    by (auto simp: civil_date_def)
  have k: "0 \<le> int ?k" "int ?k < days_in_year y"
    using month_begin_le [OF m, of ?l] d by (auto simp: days_in_year_def split: if_splits)
  show ?thesis
    unfolding make_day_civil [OF assms] fields_of_year_day [OF k]
    using month_of_day_in [OF m d(1)] d(2) by simp
qed

lemma day_fields_civil: "civil_date (day_year D) (int (day_month D) + 1) (day_date D)"
proof -
  let ?y = "year_from_day D"
  let ?l = "leap_year ?y"
  obtain k where k: "D - day_from_year ?y = int k" "k < (if ?l then 366 else 365)"
    using year_from_day [of D] day_from_year_next [of ?y]
    by (cases "D - day_from_year ?y" rule: int_cases2)
       (auto simp: days_in_year_def split: if_splits)
  let ?p = "(month_of_day ?l (int k), day_of_month ?l (int k))"
  have "?p \<in> set (month_days ?l)"
    unfolding month_days_eq [symmetric] using k(2) by auto
  then show ?thesis
    by (auto simp: month_days_def civil_date_def day_year_def day_month_def day_date_def k(1) simp del: upt_Suc)
qed

text \<open>\<open>make_day\<close> gives back the fields it was made from exactly for dates of the calendar.\<close>

lemma make_day_valid_iff:
  "day_year (make_day y (m - 1) d) = y \<and> int (day_month (make_day y (m - 1) d)) = m - 1 \<and>
   day_date (make_day y (m - 1) d) = d \<longleftrightarrow> civil_date y m d"
proof
  assume "civil_date y m d"
  from make_day_civil_fields [OF this] this
  show "day_year (make_day y (m - 1) d) = y \<and> int (day_month (make_day y (m - 1) d)) = m - 1 \<and>
        day_date (make_day y (m - 1) d) = d"
    by (auto simp: civil_date_def)
next
  assume "day_year (make_day y (m - 1) d) = y \<and> int (day_month (make_day y (m - 1) d)) = m - 1 \<and>
        day_date (make_day y (m - 1) d) = d"
  then show "civil_date y m d"
    using day_fields_civil [of "make_day y (m - 1) d"] by auto
qed

end
