(* ===== verification/Heatmap.thy ===== *)
theory Heatmap
  imports Js_Date
begin

text \<open>
  The activity heatmap of the statistics screen (mobile/src/lib/statistics.ts): the cells of a year,
  cut into weeks that begin on Sunday.

  The counts are whole numbers. A \<open>Date\<close> that is not a number ends the loop before its first turn,
  as a comparison with it is false.
\<close>

record heatmap_day =
  hd_date :: string
  hd_count :: int

record heatmap_cell =
  hc_date :: "string option"
  hc_count :: int
  hc_level :: nat

definition utcDateKey :: "int \<Rightarrow> string" where
  "utcDateKey t =
     decimal_int (getUTCFullYear t) @ ''-'' @ pad_start 2 (decimal (getUTCMonth t + 1)) @ ''-'' @
     pad_start 2 (decimal_int (getUTCDate t))"

definition heatmapLevel :: "int \<Rightarrow> nat" where
  "heatmapLevel count =
     (if 8 \<le> count then 4 else if 5 \<le> count then 3 else if 3 \<le> count then 2 else if 1 \<le> count then 1 else 0)"

definition blank_cell :: heatmap_cell where
  "blank_cell = \<lparr>hc_date = None, hc_count = 0, hc_level = 0\<rparr>"

definition count_by_date :: "heatmap_day list \<Rightarrow> (string, int) jsmap" where
  "count_by_date activity = foldl (\<lambda>m day. jm_set (hd_date day) (max 0 (hd_count day)) m) [] activity"

definition date_cell :: "(string, int) jsmap \<Rightarrow> string \<Rightarrow> heatmap_cell" where
  "date_cell countByDate date =
     (let count = (case jm_get countByDate date of Some n \<Rightarrow> n | None \<Rightarrow> 0)
      in \<lparr>hc_date = Some date, hc_count = count, hc_level = heatmapLevel count\<rparr>)"

text \<open>The loop over the days.\<close>

function day_cells :: "(string, int) jsmap \<Rightarrow> int \<Rightarrow> int \<Rightarrow> heatmap_cell list" where
  "day_cells countByDate cursor lastDay =
     (if cursor \<le> lastDay
      then date_cell countByDate (utcDateKey cursor) # day_cells countByDate (cursor + 86400000) lastDay
      else [])"
  by auto
termination by (relation "measure (\<lambda>(_, cursor, lastDay). nat (lastDay + 1 - cursor))") auto

declare day_cells.simps [simp del]

text \<open>The loop that fills the last week.\<close>

function fill_week :: "heatmap_cell list \<Rightarrow> heatmap_cell list" where
  "fill_week cells = (if length cells mod 7 \<noteq> 0 then fill_week (cells @ [blank_cell]) else cells)"
  by auto
termination
  by (relation "measure (\<lambda>cells. (7 - length cells mod 7) mod 7)") (auto simp: mod_Suc)

declare fill_week.simps [simp del]

definition buildHeatmapWeeks :: "int \<Rightarrow> heatmap_day list \<Rightarrow> heatmap_cell list list" where
  "buildHeatmapWeeks year activity =
     (let countByDate = count_by_date activity;
          firstDay = Date_UTC year 0 1 0;
          lastDay = Date_UTC year 11 31 0;
          start = (case firstDay of Some t \<Rightarrow> replicate (nat (getUTCDay t)) blank_cell | None \<Rightarrow> []);
          days = (case (firstDay, lastDay) of (Some a, Some b) \<Rightarrow> day_cells countByDate a b | _ \<Rightarrow> []);
          cells = fill_week (start @ days)
      in map (\<lambda>i. take 7 (drop (i * 7) cells)) [0 ..< length cells div 7])"

section \<open>The cells are the days of the year\<close>

text \<open>The count shown for a date: of its last entry, never negative.\<close>

definition shown_count :: "heatmap_day list \<Rightarrow> string \<Rightarrow> int" where
  "shown_count activity date =
     (case filter (\<lambda>day. hd_date day = date) activity of [] \<Rightarrow> 0 | ds \<Rightarrow> max 0 (hd_count (last ds)))"

definition year_date :: "int \<Rightarrow> nat \<times> int \<Rightarrow> string" where
  "year_date y md =
     decimal_int y @ ''-'' @ pad_start 2 (decimal (fst md + 1)) @ ''-'' @ pad_start 2 (decimal_int (snd md))"

definition year_cell :: "heatmap_day list \<Rightarrow> int \<Rightarrow> nat \<times> int \<Rightarrow> heatmap_cell" where
  "year_cell activity y md =
     (let n = shown_count activity (year_date y md)
      in \<lparr>hc_date = Some (year_date y md), hc_count = n, hc_level = heatmapLevel n\<rparr>)"

lemma count_by_date_get:
  "jm_get (count_by_date activity) date =
     (case filter (\<lambda>day. hd_date day = date) activity of [] \<Rightarrow> None | ds \<Rightarrow> Some (max 0 (hd_count (last ds))))"
  unfolding count_by_date_def
  by (induction activity rule: rev_induct) (auto split: list.splits)

lemma date_cell_year: "date_cell (count_by_date activity) (year_date y md) = year_cell activity y md"
  by (auto simp: date_cell_def year_cell_def shown_count_def count_by_date_get Let_def split: list.splits)

lemma day_cells_days:
  "day_cells m (d * ms_per_day) ((d + int n - 1) * ms_per_day) =
     map (\<lambda>k. date_cell m (utcDateKey ((d + int k) * ms_per_day))) [0 ..< n]"
proof (induction n arbitrary: d)
  case 0
  then show ?case by (simp add: day_cells.simps ms_per_day_def)
next
  case (Suc n)
  have next_day: "d * ms_per_day + 86400000 = (d + 1) * ms_per_day" by (simp add: ms_per_day_def algebra_simps)
  have rest: "[0 ..< Suc n] = 0 # map Suc [0 ..< n]" by (simp add: map_Suc_upt upt_conv_Cons del: upt_Suc)
  have "d * ms_per_day \<le> (d + int (Suc n) - 1) * ms_per_day" by (simp add: ms_per_day_def)
  then show ?case
    unfolding day_cells.simps [of m "d * ms_per_day"] rest next_day
    using Suc.IH [of "d + 1"] by (simp add: comp_def algebra_simps)
qed

lemma fill_week_blanks:
  "\<exists>r < 7. fill_week cells = cells @ replicate r blank_cell \<and> 7 dvd length (fill_week cells)"
proof (induction cells rule: fill_week.induct)
  case (1 cells)
  show ?case
  proof (cases "length cells mod 7 = 0")
    case True
    then show ?thesis by (intro exI [of _ 0]) (simp add: fill_week.simps [of cells] mod_eq_0_iff_dvd)
  next
    case False
    with 1 obtain r where r: "r < 7" "fill_week (cells @ [blank_cell]) = (cells @ [blank_cell]) @ replicate r blank_cell"
      "7 dvd length (fill_week (cells @ [blank_cell]))" by blast
    have "r \<noteq> 6"
    proof
      assume "r = 6"
      with r have "7 dvd length cells + 7" by simp
      with False show False by (simp add: mod_eq_0_iff_dvd)
    qed
    with r False show ?thesis
      by (intro exI [of _ "Suc r"]) (simp add: fill_week.simps [of cells])
  qed
qed

lemma weeks_concat:
  "length cells = 7 * n \<Longrightarrow> concat (map (\<lambda>i. take 7 (drop (i * 7) cells)) [0 ..< n]) = cells"
proof (induction n arbitrary: cells)
  case (Suc n)
  have rest: "[0 ..< Suc n] = 0 # map Suc [0 ..< n]" by (simp add: map_Suc_upt upt_conv_Cons del: upt_Suc)
  have "concat (map (\<lambda>i. take 7 (drop (i * 7) (drop 7 cells))) [0 ..< n]) = drop 7 cells"
    using Suc.prems by (intro Suc.IH) simp
  then show ?case unfolding rest by (simp add: comp_def add.commute)
qed simp

lemma week_length: "w \<in> set (buildHeatmapWeeks year activity) \<Longrightarrow> length w = 7"
proof -
  assume w: "w \<in> set (buildHeatmapWeeks year activity)"
  define cells where "cells =
    fill_week ((case Date_UTC year 0 1 0 of Some t \<Rightarrow> replicate (nat (getUTCDay t)) blank_cell | None \<Rightarrow> []) @
      (case (Date_UTC year 0 1 0, Date_UTC year 11 31 0) of
         (Some a, Some b) \<Rightarrow> day_cells (count_by_date activity) a b | _ \<Rightarrow> []))"
  from w obtain i where i: "i < length cells div 7" "w = take 7 (drop (i * 7) cells)"
    by (auto simp: buildHeatmapWeeks_def Let_def cells_def)
  have "7 dvd length cells" unfolding cells_def using fill_week_blanks by blast
  then obtain n where "length cells = 7 * n" by (auto elim: dvdE)
  with i show "length w = 7" by simp
qed

lemma year_bounds:
  assumes "100 \<le> y" and "y \<le> 275759"
  shows "Date_UTC y 0 1 0 = Some (day_from_year y * ms_per_day)"
    and "Date_UTC y 11 31 0 = Some ((day_from_year y + days_in_year y - 1) * ms_per_day)"
proof -
  have "day_from_year 100 = - 683003" "day_from_year 275760 = 99999744" by (simp_all add: day_from_year_def)
  then have lo: "- 683003 \<le> day_from_year y" and hi: "day_from_year y + days_in_year y \<le> 99999744"
    using day_from_year_mono [of 100 y] day_from_year_mono [of "y + 1" 275760] day_from_year_next [of y] assms
    by simp_all
  have full: "full_year y = y" using assms by (simp add: full_year_def)
  have ends: "make_day y 0 1 = day_from_year y" "make_day y 11 31 = day_from_year y + days_in_year y - 1"
    by (simp_all add: make_day_def month_start_def days_in_year_def)
  show "Date_UTC y 0 1 0 = Some (day_from_year y * ms_per_day)"
    "Date_UTC y 11 31 0 = Some ((day_from_year y + days_in_year y - 1) * ms_per_day)"
    unfolding Date_UTC_def full ends time_clip_def ms_per_day_def
    using lo hi days_in_year_pos [of y] by auto
qed

lemma year_cells:
  assumes "100 \<le> y" and "y \<le> 275759"
  shows "day_cells (count_by_date activity) (day_from_year y * ms_per_day)
           ((day_from_year y + days_in_year y - 1) * ms_per_day) =
         map (year_cell activity y) (month_days (leap_year y))"
proof -
  let ?l = "leap_year y"
  define n :: nat where "n = (if ?l then 366 else 365)"
  have n: "days_in_year y = int n" by (simp add: n_def days_in_year_def)
  have key: "utcDateKey ((day_from_year y + int k) * ms_per_day) =
      year_date y (month_of_day ?l (int k), day_of_month ?l (int k))" if "k < n" for k
    using that utc_fields [of 0 "day_from_year y + int k"] fields_of_year_day [of "int k" y]
    by (simp add: utcDateKey_def year_date_def n ms_per_day_def)
  have "day_cells (count_by_date activity) (day_from_year y * ms_per_day)
      ((day_from_year y + days_in_year y - 1) * ms_per_day) =
      map (\<lambda>k. year_cell activity y (month_of_day ?l (int k), day_of_month ?l (int k))) [0 ..< n]"
    unfolding n day_cells_days by (rule map_cong [OF refl]) (simp add: key date_cell_year)
  also have "\<dots> = map (year_cell activity y) (month_days ?l)"
    unfolding month_days_eq [symmetric] n_def by (simp only: map_map comp_def)
  finally show ?thesis .
qed

text \<open>C26: The heatmap of a year shows every day of the year once, in order, in the column of its weekday
  and with the count of its last entry: the weeks are all seven cells long and read one after the other
  they are blanks up to the weekday of 1 January, the days of the twelve months, and less than a week of
  blanks.\<close>

theorem heatmap_covers_year:
  assumes "100 \<le> year" and "year \<le> 275759"
  shows "list_all (\<lambda>w. length w = 7) (buildHeatmapWeeks year activity) \<and>
    (\<exists>r < 7. concat (buildHeatmapWeeks year activity) =
       replicate (nat (week_day (day_from_year year))) blank_cell @
       map (year_cell activity year) (month_days (leap_year year)) @ replicate r blank_cell)"
proof -
  let ?start = "replicate (nat (week_day (day_from_year year))) blank_cell"
  let ?days = "map (year_cell activity year) (month_days (leap_year year))"
  note bounds = year_bounds [OF assms]
  obtain r where r: "r < 7" "fill_week (?start @ ?days) = (?start @ ?days) @ replicate r blank_cell"
    "7 dvd length (fill_week (?start @ ?days))"
    using fill_week_blanks by blast
  then obtain n where n: "length (fill_week (?start @ ?days)) = 7 * n" by (auto elim: dvdE)
  have "concat (buildHeatmapWeeks year activity) = fill_week (?start @ ?days)"
    using weeks_concat [OF n] n
    by (simp add: buildHeatmapWeeks_def bounds year_cells [OF assms] Let_def utc_midnight)
  with r show ?thesis by (auto simp: list_all_iff dest: week_length)
qed

theorem heatmap_covers_year_witness:
  "\<exists>r < 7. concat (buildHeatmapWeeks 2024 []) =
     replicate 1 blank_cell @ map (year_cell [] 2024) (month_days True) @ replicate r blank_cell"
  using heatmap_covers_year [of 2024 "[]"]
  by (simp add: day_from_year_def week_day_def leap_year_def)

end
