(* ===== verification/History_Dates.thy ===== *)
theory History_Dates
  imports Js_Date
begin

text \<open>
  The dates of the watch history (mobile/src/lib/history.ts): what the date field shows, what it
  accepts, and the instant that is recorded for a date.

  The time zone of the device is a parameter: \<open>z_local\<close> takes an instant to local time, \<open>z_utc\<close> local
  time to an instant, both in milliseconds. \<open>new Date()\<close> is an argument.
\<close>

record zone =
  z_local :: "int \<Rightarrow> int"
  z_utc :: "int \<Rightarrow> int"

definition getFullYear :: "zone \<Rightarrow> int \<Rightarrow> int" where "getFullYear z t = getUTCFullYear (z_local z t)"
definition getMonth :: "zone \<Rightarrow> int \<Rightarrow> nat" where "getMonth z t = getUTCMonth (z_local z t)"
definition getDate :: "zone \<Rightarrow> int \<Rightarrow> int" where "getDate z t = getUTCDate (z_local z t)"

definition localDateInput :: "zone \<Rightarrow> int \<Rightarrow> string" where
  "localDateInput z t =
     decimal_int (getFullYear z t) @ ''-'' @ pad_start 2 (decimal (getMonth z t + 1)) @ ''-'' @
     pad_start 2 (decimal_int (getDate z t))"

text \<open>\<open>date.setDate(d)\<close>, and \<open>new Date(y, m, d, 12)\<close>.\<close>

definition setDate :: "zone \<Rightarrow> int \<Rightarrow> int \<Rightarrow> int option" where
  "setDate z t d =
     time_clip (z_utc z (make_day (getFullYear z t) (int (getMonth z t)) d * ms_per_day + z_local z t mod ms_per_day))"

definition local_noon :: "zone \<Rightarrow> int \<Rightarrow> int \<Rightarrow> int \<Rightarrow> int option" where
  "local_noon z y m d = time_clip (z_utc z (make_day (full_year y) m d * ms_per_day + 12 * 3600000))"

definition previousLocalDate :: "zone \<Rightarrow> int \<Rightarrow> string" where
  "previousLocalDate z t =
     (case setDate z t (getDate z t - 1) of
        Some p \<Rightarrow> localDateInput z p
      | None \<Rightarrow> ''NaN-NaN-NaN'')"

text \<open>The pattern \<open>\d{4}-\d{2}-\d{2}\<close>, and \<open>split('-').map(Number)\<close> of a text that matches it.\<close>

definition date_pattern :: "string \<Rightarrow> bool" where
  "date_pattern s \<longleftrightarrow>
     length s = 10 \<and> list_all is_digit (take 4 s) \<and> s ! 4 = CHR ''-'' \<and>
     list_all is_digit (take 2 (drop 5 s)) \<and> s ! 7 = CHR ''-'' \<and> list_all is_digit (drop 8 s)"

definition date_numbers :: "string \<Rightarrow> int \<times> int \<times> int" where
  "date_numbers s =
     (int (parse_digits (take 4 s)), int (parse_digits (take 2 (drop 5 s))), int (parse_digits (drop 8 s)))"

definition dateFromLocalInput :: "zone \<Rightarrow> string \<Rightarrow> int option" where
  "dateFromLocalInput z value =
     (if \<not> date_pattern value then None
      else case date_numbers value of (year, month, day) \<Rightarrow>
        (case local_noon z year (month - 1) day of
           None \<Rightarrow> None
         | Some parsed \<Rightarrow>
             if getFullYear z parsed \<noteq> year \<or> int (getMonth z parsed) \<noteq> month - 1 \<or> getDate z parsed \<noteq> day
             then None else Some parsed))"

text \<open>\<open>a < b\<close> of two strings.\<close>

fun str_less :: "string \<Rightarrow> string \<Rightarrow> bool" where
  "str_less _ [] = False"
| "str_less [] (_ # _) = True"
| "str_less (a # s) (b # t) = (a < b \<or> a = b \<and> str_less s t)"

definition iso_year :: "int \<Rightarrow> string" where
  "iso_year y =
     (if 0 \<le> y \<and> y \<le> 9999 then pad_start 4 (decimal_int y)
      else (if y < 0 then CHR ''-'' else CHR ''+'') # pad_start 6 (decimal_int \<bar>y\<bar>))"

definition toISOString :: "int \<Rightarrow> string" where
  "toISOString t =
     (let ms = t mod ms_per_day; two = (\<lambda>n. pad_start 2 (decimal_int n)) in
      iso_year (getUTCFullYear t) @ ''-'' @ pad_start 2 (decimal (getUTCMonth t + 1)) @ ''-'' @ two (getUTCDate t) @
      ''T'' @ two (ms div 3600000) @ '':'' @ two (ms div 60000 mod 60) @ '':'' @ two (ms div 1000 mod 60) @
      ''.'' @ pad_start 3 (decimal_int (ms mod 1000)) @ ''Z'')"

definition watchedAtFromDateInput :: "zone \<Rightarrow> string \<Rightarrow> int \<Rightarrow> string option" where
  "watchedAtFromDateInput z value now =
     (if \<not> date_pattern value then None
      else case date_numbers value of (year, month, day) \<Rightarrow>
        (case Date_UTC year (month - 1) day 12 of
           None \<Rightarrow> None
         | Some parsed \<Rightarrow>
             if getUTCFullYear parsed \<noteq> year \<or> int (getUTCMonth parsed) \<noteq> month - 1 \<or>
                getUTCDate parsed \<noteq> day \<or> str_less (localDateInput z now) value
             then None else Some (toISOString parsed)))"

section \<open>The order of date texts is the order of days\<close>

lemma str_less_append:
  "length p = length q \<Longrightarrow> str_less (p @ s) (q @ t) \<longleftrightarrow> str_less p q \<or> p = q \<and> str_less s t"
  by (induction p q rule: list_induct2) auto

lemma parse_digits_Cons: "parse_digits (c # s) = digit_value c * 10 ^ length s + parse_digits s"
proof (induction s rule: rev_induct)
  case (snoc x s)
  have "parse_digits ((c # s) @ [x]) = 10 * parse_digits (c # s) + digit_value x"
    by (rule parse_digits_append)
  with snoc show ?case by (simp add: parse_digits_append)
qed (simp add: parse_digits_def)

lemma digit_order: "is_digit a \<Longrightarrow> is_digit b \<Longrightarrow> a < b \<longleftrightarrow> digit_value a < digit_value b"
  by (auto simp: is_digit_nat digit_value_def less_char_def)

lemma str_less_digits:
  "length s = length t \<Longrightarrow> list_all is_digit s \<Longrightarrow> list_all is_digit t \<Longrightarrow>
   str_less s t \<longleftrightarrow> parse_digits s < parse_digits t"
proof (induction s t rule: list_induct2)
  case (Cons a s b t)
  let ?p = "10 ^ length t :: nat"
  have d: "is_digit a" "is_digit b" using Cons.prems by auto
  have less: "parse_digits s < ?p" "parse_digits t < ?p"
    using parse_digits_less [of s] parse_digits_less [of t] Cons.prems Cons.hyps by auto
  have "digit_value a * ?p + parse_digits s < digit_value b * ?p + parse_digits t \<longleftrightarrow>
      digit_value a < digit_value b \<or> digit_value a = digit_value b \<and> parse_digits s < parse_digits t"
  proof (rule linorder_cases [of "digit_value a" "digit_value b"])
    assume "digit_value a < digit_value b"
    then have "digit_value a * ?p + ?p \<le> digit_value b * ?p"
      by (metis Suc_leI add.commute mult_Suc mult_le_mono1)
    with \<open>digit_value a < digit_value b\<close> less show ?thesis by linarith
  next
    assume "digit_value b < digit_value a"
    then have "digit_value b * ?p + ?p \<le> digit_value a * ?p"
      by (metis Suc_leI add.commute mult_Suc mult_le_mono1)
    with \<open>digit_value b < digit_value a\<close> less show ?thesis by linarith
  qed simp
  moreover have "a = b \<longleftrightarrow> digit_value a = digit_value b"
    using d digit_of_digit_value by metis
  ultimately show ?case
    using Cons digit_order [OF d] by (simp add: parse_digits_Cons)
qed simp

definition date_text :: "nat \<Rightarrow> nat \<Rightarrow> nat \<Rightarrow> string" where
  "date_text y m d = pad_start 4 (decimal y) @ ''-'' @ pad_start 2 (decimal m) @ ''-'' @ pad_start 2 (decimal d)"

lemma padded_digits [simp]: "list_all is_digit (pad_start n (decimal k))"
  using pad_start_digits [of "decimal k" n] decimal_digits [of _ k] by (auto simp: list_all_iff)

lemma str_less_padded:
  "m < 10 ^ n \<Longrightarrow> k < 10 ^ n \<Longrightarrow> 0 < n \<Longrightarrow>
   str_less (pad_start n (decimal m)) (pad_start n (decimal k)) \<longleftrightarrow> m < k"
  using str_less_digits [of "pad_start n (decimal m)" "pad_start n (decimal k)"]
    length_padded [of m n] length_padded [of k n] by simp

lemma pad_decimal_inj:
  "m < 10 ^ n \<Longrightarrow> k < 10 ^ n \<Longrightarrow> pad_start n (decimal m) = pad_start n (decimal k) \<longleftrightarrow> m = k"
  by (metis parse_pad_start parse_digits_decimal)

lemma str_less_date:
  assumes "y < 10000" "m < 100" "d < 100" and "y' < 10000" "m' < 100" "d' < 100"
  shows "str_less (date_text y m d) (date_text y' m' d') \<longleftrightarrow>
    y < y' \<or> y = y' \<and> (m < m' \<or> m = m' \<and> d < d')"
proof -
  note len = length_padded [of y 4] length_padded [of y' 4] length_padded [of m 2] length_padded [of m' 2]
  show ?thesis
    unfolding date_text_def
    using assms len str_less_padded [of y 4 y'] str_less_padded [of m 2 m'] str_less_padded [of d 2 d']
      pad_decimal_inj [of y 4 y'] pad_decimal_inj [of m 2 m']
    by (simp add: str_less_append)
qed

lemma date_pattern_parts:
  assumes "date_pattern s"
  shows "s = take 4 s @ ''-'' @ take 2 (drop 5 s) @ ''-'' @ drop 8 s"
proof -
  from assms have "length s = 10" "s ! 4 = CHR ''-''" "s ! 7 = CHR ''-''" by (simp_all add: date_pattern_def)
  then show ?thesis
    using id_take_nth_drop [of 4 s] id_take_nth_drop [of 2 "drop 5 s"] by simp
qed

lemma date_pattern_text:
  assumes "date_pattern s"
  shows "s = date_text (parse_digits (take 4 s)) (parse_digits (take 2 (drop 5 s))) (parse_digits (drop 8 s))"
proof -
  from assms have "length (take 4 s) = 4" "length (take 2 (drop 5 s)) = 2" "length (drop 8 s) = 2"
    and "list_all is_digit (take 4 s)" "list_all is_digit (take 2 (drop 5 s))" "list_all is_digit (drop 8 s)"
    by (simp_all add: date_pattern_def)
  then show ?thesis
    unfolding date_text_def
    using pad_parse [of "take 4 s"] pad_parse [of "take 2 (drop 5 s)"] pad_parse [of "drop 8 s"]
      date_pattern_parts [OF assms]
    by (simp add: list_all_iff)
qed

lemma date_pattern_bounds:
  assumes "date_pattern s"
  shows "parse_digits (take 4 s) < 10000" "parse_digits (take 2 (drop 5 s)) < 100" "parse_digits (drop 8 s) < 100"
  using assms parse_digits_less [of "take 4 s"] parse_digits_less [of "take 2 (drop 5 s)"]
    parse_digits_less [of "drop 8 s"] by (simp_all add: date_pattern_def)

lemma make_day_less:
  assumes "civil_date y m d" and "civil_date y' m' d'"
    and "y < y' \<or> y = y' \<and> (m < m' \<or> m = m' \<and> d < d')"
  shows "make_day y (m - 1) d < make_day y' (m' - 1) d'"
proof -
  let ?b = "\<lambda>y m. month_begin (leap_year y) (nat (m - 1))"
  have bound: "?b y m + nat (d - 1) < (if leap_year y then 366 else 365)" if "civil_date y m d" for y m d
  proof -
    from that have "nat (m - 1) < 12" "nat (d - 1) < days_in_month (leap_year y) (nat (m - 1))"
      by (auto simp: civil_date_def)
    with month_begin_le [of "nat (m - 1)" "leap_year y"] show ?thesis by linarith
  qed
  consider "y < y'" | "y = y'" "m < m'" | "y = y'" "m = m'" "d < d'" using assms(3) by auto
  then show ?thesis
  proof cases
    case 1
    have "day_from_year y + days_in_year y \<le> day_from_year y'"
      using 1 day_from_year_mono [of "y + 1" y'] day_from_year_next [of y] by simp
    then show ?thesis
      unfolding make_day_civil [OF assms(1)] make_day_civil [OF assms(2)]
      using bound [OF assms(1)] by (auto simp: days_in_year_def split: if_splits)
  next
    case 2
    from assms have m: "1 \<le> m" "m' \<le> 12" and d: "nat (d - 1) < days_in_month (leap_year y) (nat (m - 1))"
      by (auto simp: civil_date_def)
    from 2 m have "?b y m + days_in_month (leap_year y) (nat (m - 1)) \<le> ?b y m'"
      using month_begin_mono [of "Suc (nat (m - 1))" "nat (m' - 1)"] month_begin_Suc [of "nat (m - 1)"]
      by simp
    with d have "?b y m + nat (d - 1) < ?b y m' + nat (d' - 1)" by linarith
    then have "int (?b y m + nat (d - 1)) < int (?b y m' + nat (d' - 1))" by (simp only: of_nat_less_iff)
    with 2 show ?thesis
      unfolding make_day_civil [OF assms(1)] make_day_civil [OF assms(2)] by (simp only: add_less_cancel_left)
  next
    case 3
    then show ?thesis by (simp add: make_day_def Let_def)
  qed
qed

lemma make_day_less_iff:
  assumes "civil_date y m d" and "civil_date y' m' d'"
  shows "make_day y (m - 1) d < make_day y' (m' - 1) d' \<longleftrightarrow>
    y < y' \<or> y = y' \<and> (m < m' \<or> m = m' \<and> d < d')"
  using make_day_less [OF assms] make_day_less [OF assms(2,1)]
  by (metis linorder_less_linear order_less_asym)

text \<open>A day is the day made of its fields.\<close>

lemma make_day_fields: "make_day (day_year D) (int (day_month D)) (day_date D) = D"
proof -
  let ?y = "year_from_day D"
  have "day_month D < 12" by (simp add: day_month_def month_of_day_less Let_def)
  then show ?thesis
    by (simp add: make_day_def day_year_def day_date_def day_month_def day_of_month_def Let_def)
qed

lemma decimal_int_nat: "0 \<le> i \<Longrightarrow> decimal_int i = decimal (nat i)"
  by (simp add: decimal_int_def)

lemma pad_4_decimal:
  assumes "1000 \<le> n"
  shows "pad_start 4 (decimal n) = decimal n"
proof -
  have "list_all is_digit (decimal n)" using decimal_digits [of _ n] by (auto simp: list_all_iff)
  then have less: "n < 10 ^ length (decimal n)" using parse_digits_less [of "decimal n"] by simp
  have "4 \<le> length (decimal n)"
  proof (rule ccontr)
    assume "\<not> 4 \<le> length (decimal n)"
    then have "(10 :: nat) ^ length (decimal n) \<le> 10 ^ 3" by (intro power_increasing) auto
    with less assms show False by simp
  qed
  then show ?thesis by (simp add: pad_start_def)
qed

text \<open>The text of a local date, for years of four digits.\<close>

lemma localDateInput_text:
  assumes D: "D = z_local z t div ms_per_day" and "1000 \<le> day_year D" and "day_year D \<le> 9999"
  shows "localDateInput z t = date_text (nat (day_year D)) (day_month D + 1) (nat (day_date D))"
proof -
  have "1 \<le> day_date D" using day_fields_civil [of D] by (simp add: civil_date_def)
  with assms(2,3) show ?thesis
    using pad_4_decimal [of "nat (day_year D)"]
    by (simp add: localDateInput_def getFullYear_def getMonth_def getDate_def getUTCFullYear_def getUTCMonth_def
        getUTCDate_def D [symmetric] date_text_def decimal_int_nat)
qed

text \<open>A text comes after the text of a local date exactly when its day does.\<close>

lemma local_date_order:
  assumes "D = z_local z t div ms_per_day" and "1000 \<le> day_year D" and "day_year D \<le> 9999"
    and "civil_date (int y) (int m) (int d)" and "y < 10000" "m < 100" "d < 100"
  shows "str_less (localDateInput z t) (date_text y m d) \<longleftrightarrow> D < make_day (int y) (int m - 1) (int d)"
proof -
  have civil: "civil_date (day_year D) (int (day_month D) + 1) (day_date D)" by (rule day_fields_civil)
  then have T: "1 \<le> day_date D" "day_date D \<le> 31"
    by (auto simp: civil_date_def days_in_month_def split: if_splits)
  obtain a b where a: "day_year D = int a" and b: "day_date D = int b"
    using assms(2) T(1) by (metis nonneg_int_cases order_trans zero_le_numeral zero_le_one)
  have M: "day_month D < 12" by (simp add: day_month_def Let_def month_of_day_less)
  have "str_less (localDateInput z t) (date_text y m d) \<longleftrightarrow>
      a < y \<or> a = y \<and> (day_month D + 1 < m \<or> day_month D + 1 = m \<and> b < d)"
    using localDateInput_text [OF assms(1-3)] str_less_date [of a "day_month D + 1" b y m d] assms(3,5-7) T M
    by (simp add: a b)
  also have "\<dots> \<longleftrightarrow> D < make_day (int y) (int m - 1) (int d)"
    using make_day_less_iff [OF civil assms(4)] make_day_fields [of D] by (simp add: a b) linarith
  finally show ?thesis .
qed

section \<open>What is recorded for a date\<close>

lemma noon_fields [simp]:
  "getUTCFullYear (D * ms_per_day + 43200000) = day_year D"
  "getUTCMonth (D * ms_per_day + 43200000) = day_month D"
  "getUTCDate (D * ms_per_day + 43200000) = day_date D"
  using utc_fields [of 43200000 D] by (simp_all add: ms_per_day_def)

lemma toISOString_noon:
  assumes "0 \<le> day_year D" and "day_year D \<le> 9999"
  shows "toISOString (D * ms_per_day + 43200000) =
    date_text (nat (day_year D)) (day_month D + 1) (nat (day_date D)) @ ''T12:00:00.000Z''"
proof -
  have "1 \<le> day_date D" using day_fields_civil [of D] by (simp add: civil_date_def)
  moreover have "(D * ms_per_day + 43200000) mod ms_per_day = 43200000" by (simp add: ms_per_day_def)
  ultimately show ?thesis
    using assms
    by (simp add: toISOString_def Let_def iso_year_def date_text_def decimal_int_nat decimal.simps [of 12]
        decimal.simps [of "Suc 0"] decimal.simps [of 0] pad_start_def digit_eval(3) [unfolded numeral_2_eq_2] numeral_2_eq_2)
qed

text \<open>Two-digit years are of the twentieth century, so such a text never names its own fields.\<close>

lemma early_year:
  assumes "0 \<le> y" "y < 100" "-1 \<le> m" "0 \<le> d"
  shows "day_year (make_day (1900 + y) m d) \<noteq> y"
proof
  let ?D = "make_day (1900 + y) m d"
  assume "day_year ?D = y"
  then have "?D < day_from_year 100"
    using year_from_day(2) [of ?D] day_from_year_mono [of "y + 1" 100] assms by (simp add: day_year_def)
  moreover have "day_from_year 1899 \<le> day_from_year (1900 + y + m div 12)"
    using assms by (intro day_from_year_mono) (simp add: zdiv_mono1 [of "-1" m 12, simplified])
  moreover have "0 \<le> month_start l (nat (m mod 12))" for l
  proof -
    have "nat (m mod 12) < 12" using pos_mod_bound [of 12 m] by linarith
    from month_start_int [OF this, of l, symmetric] show ?thesis by simp
  qed
  ultimately show False
    using assms by (simp add: make_day_def Let_def day_from_year_def [of 100] day_from_year_def [of 1899])
      (smt (verit))
qed

lemma noon_of_civil:
  assumes "civil_date y m d" and "100 \<le> y" and "y \<le> 9999"
  shows "Date_UTC y (m - 1) d 12 = Some (make_day y (m - 1) d * ms_per_day + 43200000)"
proof -
  have "day_from_year 100 \<le> make_day y (m - 1) d" "make_day y (m - 1) d < day_from_year 10000"
    using year_from_day [of "make_day y (m - 1) d"] make_day_civil_fields [OF assms(1)]
      day_from_year_mono [of 100 y] day_from_year_mono [of "y + 1" 10000] assms
    by (simp_all add: day_year_def)
  then show ?thesis
    using assms by (simp add: Date_UTC_def time_clip_def full_year_def ms_per_day_def day_from_year_def)
qed

text \<open>C27: The date field records exactly the date that was typed: a text is accepted when it is the date of
  a day of the calendar, from the year 100 on, that is not after today in the time zone of the device,
  and the instant recorded is noon UTC of that date, which every reader sees on the same day.\<close>

theorem watched_on_the_date:
  assumes "1000 \<le> getFullYear z now" and "getFullYear z now \<le> 9999"
  shows "watchedAtFromDateInput z value now =
    (case date_numbers value of (y, m, d) \<Rightarrow>
       if date_pattern value \<and> 100 \<le> y \<and> civil_date y m d \<and>
          make_day y (m - 1) d \<le> z_local z now div ms_per_day
       then Some (value @ ''T12:00:00.000Z'') else None)"
proof (cases "date_pattern value")
  case True
  let ?today = "z_local z now div ms_per_day"
  obtain y m d :: nat where parts: "y = parse_digits (take 4 value)" "m = parse_digits (take 2 (drop 5 value))"
    "d = parse_digits (drop 8 value)" by blast
  have numbers: "date_numbers value = (int y, int m, int d)" by (simp add: date_numbers_def parts)
  have shape: "value = date_text y m d" using date_pattern_text [OF True] by (simp add: parts)
  have bounds: "y < 10000" "m < 100" "d < 100" using date_pattern_bounds [OF True] by (simp_all add: parts)
  let ?D = "make_day (int y) (int m - 1) (int d)"
  show ?thesis
  proof (cases "100 \<le> y \<and> civil_date (int y) (int m) (int d)")
    case civil: True
    have fields: "day_year ?D = int y" "int (day_month ?D) = int m - 1" "day_date ?D = int d"
      using civil make_day_valid_iff [of "int y" "int m" "int d"] by auto
    have suc: "Suc (day_month ?D) = m" using fields(2) by linarith
    have Y: "1000 \<le> day_year ?today" "day_year ?today \<le> 9999"
      using assms by (simp_all add: getFullYear_def getUTCFullYear_def)
    have late: "str_less (localDateInput z now) value \<longleftrightarrow> ?today < ?D"
      unfolding shape using civil bounds by (intro local_date_order Y refl) simp_all
    have "toISOString (?D * ms_per_day + 43200000) = value @ ''T12:00:00.000Z''"
      using toISOString_noon [of ?D] fields bounds suc by (simp add: shape)
    then show ?thesis
      using noon_of_civil [of "int y" "int m" "int d"] civil bounds late True
      by (auto simp: watchedAtFromDateInput_def numbers fields)
  next
    case False
    have "day_year (make_day (full_year (int y)) (int m - 1) (int d)) \<noteq> int y \<or>
        int (day_month (make_day (full_year (int y)) (int m - 1) (int d))) \<noteq> int m - 1 \<or>
        day_date (make_day (full_year (int y)) (int m - 1) (int d)) \<noteq> int d"
    proof (cases "100 \<le> y")
      case True
      with False show ?thesis
        using make_day_valid_iff [of "int y" "int m" "int d"] by (auto simp: full_year_def)
    next
      case early: False
      then show ?thesis
        using early_year [of "int y" "int m - 1" "int d"] by (simp add: full_year_def)
    qed
    with False True show ?thesis
      by (auto simp: watchedAtFromDateInput_def numbers Date_UTC_def time_clip_def)
  qed
next
  case False
  then show ?thesis by (simp add: watchedAtFromDateInput_def split: prod.splits)
qed

theorem watched_on_the_date_witness:
  "watchedAtFromDateInput \<lparr>z_local = \<lambda>t. t, z_utc = \<lambda>t. t\<rparr> ''2024-02-29'' 1719792000000 =
     Some ''2024-02-29T12:00:00.000Z''"
proof -
  let ?z = "\<lparr>z_local = \<lambda>t. t, z_utc = \<lambda>t. t\<rparr>"
  have "1719792000000 div ms_per_day = 19905" by (simp add: ms_per_day_def)
  moreover have "day_year 19905 = 2024"
    by (simp add: day_year_def year_from_day_def day_from_year_def)
  ultimately have year: "getFullYear ?z 1719792000000 = 2024" "z_local ?z 1719792000000 div ms_per_day = 19905"
    by (simp_all add: getFullYear_def getUTCFullYear_def)
  have "date_pattern ''2024-02-29''" "date_numbers ''2024-02-29'' = (2024, 2, 29)" by code_simp+
  moreover have "civil_date 2024 2 29" "make_day 2024 1 29 = 19782" by code_simp+
  ultimately show ?thesis
    using watched_on_the_date [of ?z 1719792000000 "''2024-02-29''"] year by simp
qed

text \<open>What the picker shows for a text is the date of the text: the local noon of a date is accepted only
  when the device reads the same date back.\<close>

lemma picker_shows_the_date:
  assumes "dateFromLocalInput z value = Some t" and "1000 \<le> fst (date_numbers value)"
  shows "localDateInput z t = value"
proof -
  obtain y m d :: nat where parts: "y = parse_digits (take 4 value)" "m = parse_digits (take 2 (drop 5 value))"
    "d = parse_digits (drop 8 value)" by blast
  have numbers: "date_numbers value = (int y, int m, int d)" by (simp add: date_numbers_def parts)
  from assms(1) have pattern: "date_pattern value"
    and fields: "getFullYear z t = int y" "int (getMonth z t) = int m - 1" "getDate z t = int d"
    by (auto simp: dateFromLocalInput_def numbers split: if_splits option.splits)
  have m: "Suc (getMonth z t) = m" using fields(2) by linarith
  have "1000 \<le> y" using assms(2) by (simp add: numbers)
  then have "localDateInput z t = date_text y m d"
    using pad_4_decimal [of y] by (simp add: localDateInput_def fields m date_text_def decimal_int_nat)
  then show ?thesis using date_pattern_text [OF pattern] by (simp add: parts)
qed

text \<open>The shortcut for yesterday, in a zone whose conversions agree with each other there.\<close>

lemma yesterday:
  assumes "z_local z (z_utc z ((D - 1) * ms_per_day + r)) = (D - 1) * ms_per_day + r"
    and "z_local z t = D * ms_per_day + r" "0 \<le> r" "r < ms_per_day"
    and "\<bar>z_utc z ((D - 1) * ms_per_day + r)\<bar> \<le> 8640000000000000"
  shows "previousLocalDate z t =
    decimal_int (day_year (D - 1)) @ ''-'' @ pad_start 2 (decimal (day_month (D - 1) + 1)) @ ''-'' @
    pad_start 2 (decimal_int (day_date (D - 1)))"
proof -
  have shift: "make_day y m (d - 1) = make_day y m d - 1" for y m d by (simp add: make_day_def Let_def)
  have "make_day (getFullYear z t) (int (getMonth z t)) (getDate z t - 1) = D - 1"
    using assms make_day_fields [of D] by (simp add: shift getFullYear_def getMonth_def getDate_def)
  moreover have "z_local z t mod ms_per_day = r" using assms by simp
  ultimately have "setDate z t (getDate z t - 1) = Some (z_utc z ((D - 1) * ms_per_day + r))"
    using assms(5) by (simp add: setDate_def time_clip_def)
  then show ?thesis
    using assms by (simp add: previousLocalDate_def localDateInput_def getFullYear_def getMonth_def getDate_def)
qed

end
