(* ===== verification/Web_Navigation.thy ===== *)
theory Web_Navigation
  imports Http_Client Bytes_Hex
begin

text \<open>
  The return path of the web sign-in page (frontend/src/lib/navigation.ts).

  \<open>new URL(value, base)\<close> is modelled as the URL standard defines it for references that begin with a
  slash, against a base with the scheme https: trimming, removal of tabs and line breaks, the split
  into path, query and fragment, dot segments, and the percent-encode sets. What an authority names
  (a reference that begins with two slashes once the tabs are gone) is a parameter, \<open>origin_of\<close>: the origin,
  or nothing when it does not parse. The parser works on UTF-8 from the start; every delimiter is
  ASCII, and every byte of another character is percent-encoded.
\<close>

section \<open>Parsing a reference\<close>

definition utf8_text :: "jstr \<Rightarrow> string" where
  "utf8_text s = map (\<lambda>b. char_of (unat b)) (text_encode s)"

definition c0_or_space :: "char \<Rightarrow> bool" where
  "c0_or_space c \<longleftrightarrow> of_char c \<le> (0x20 :: nat)"

definition tab_or_newline :: "char \<Rightarrow> bool" where
  "tab_or_newline c \<longleftrightarrow> of_char c \<in> {9, 10, 13 :: nat}"

definition c0_set :: "char \<Rightarrow> bool" where
  "c0_set c \<longleftrightarrow> of_char c \<le> (0x1F :: nat) \<or> (0x7E :: nat) < of_char c"

definition fragment_set :: "char \<Rightarrow> bool" where
  "fragment_set c \<longleftrightarrow> c0_set c \<or> of_char c \<in> {0x20, 0x22, 0x3C, 0x3E, 0x60 :: nat}"

definition special_query_set :: "char \<Rightarrow> bool" where
  "special_query_set c \<longleftrightarrow> c0_set c \<or> of_char c \<in> {0x20, 0x22, 0x23, 0x27, 0x3C, 0x3E :: nat}"

definition path_set :: "char \<Rightarrow> bool" where
  "path_set c \<longleftrightarrow> c0_set c \<or> of_char c \<in> {0x20, 0x22, 0x23, 0x3C, 0x3E, 0x3F, 0x5E, 0x60, 0x7B, 0x7D :: nat}"

definition single_dot :: "string \<Rightarrow> bool" where
  "single_dot s \<longleftrightarrow> to_lower s \<in> {''.'', ''%2e''}"

definition double_dot :: "string \<Rightarrow> bool" where
  "double_dot s \<longleftrightarrow> to_lower s \<in> {''..'', ''.%2e'', ''%2e.'', ''%2e%2e''}"

text \<open>The path state: \<open>path\<close> is what has been collected, the list holds the segments to come. Only the
  last segment leaves an empty one behind when it is a dot segment.\<close>

fun path_state :: "string list \<Rightarrow> string list \<Rightarrow> string list" where
  "path_state path [] = path"
| "path_state path [s] =
     (if double_dot s then butlast path @ [[]] else if single_dot s then path @ [[]] else path @ [s])"
| "path_state path (s # t # ss) =
     path_state (if double_dot s then butlast path else if single_dot s then path else path @ [s]) (t # ss)"

record url_parts =
  u_origin :: string
  u_pathname :: string
  u_search :: string
  u_hash :: string

definition non_empty_part :: "char \<Rightarrow> string \<Rightarrow> string" where
  "non_empty_part mark s = (if s = [] then [] else mark # s)"

text \<open>A backslash separates segments as a slash does.\<close>

definition url_path :: "string \<Rightarrow> string list" where
  "url_path path =
     path_state [] (map (percent_encode path_set)
       (split_on (CHR ''/'') (map (\<lambda>c. if c = CHR 0x5C then CHR ''/'' else c) path)))"

text \<open>The rest of a reference after the slash that begins its path.\<close>

definition url_tail :: "string \<Rightarrow> string \<Rightarrow> url_parts" where
  "url_tail origin rest =
     (let before = takeWhile (\<lambda>c. c \<noteq> CHR ''#'') rest;
          fragment = drop 1 (dropWhile (\<lambda>c. c \<noteq> CHR ''#'') rest);
          path = takeWhile (\<lambda>c. c \<noteq> CHR ''?'') before;
          query = drop 1 (dropWhile (\<lambda>c. c \<noteq> CHR ''?'') before)
      in \<lparr>u_origin = origin, u_pathname = concat (map (\<lambda>s. CHR ''/'' # s) (url_path path)),
          u_search = non_empty_part (CHR ''?'') (percent_encode special_query_set query),
          u_hash = non_empty_part (CHR ''#'') (percent_encode fragment_set fragment)\<rparr>)"

definition is_slash :: "char \<Rightarrow> bool" where
  "is_slash c \<longleftrightarrow> c = CHR ''/'' \<or> c = CHR 0x5C"

definition drop_slash :: "string \<Rightarrow> string" where
  "drop_slash s = (case s of c # cs \<Rightarrow> if is_slash c then cs else s | [] \<Rightarrow> [])"

definition new_url :: "(string \<Rightarrow> string option) \<Rightarrow> string \<Rightarrow> string \<Rightarrow> url_parts option" where
  "new_url origin_of base input =
     (let s = filter (\<lambda>c. \<not> tab_or_newline c) (trim_by c0_or_space input) in
      case s of
        c # d # rest \<Rightarrow>
          if c \<noteq> CHR ''/'' then None
          else if is_slash d
          then (let a = dropWhile is_slash rest;
                    ends = (\<lambda>c. is_slash c \<or> c = CHR ''?'' \<or> c = CHR ''#'')
                in map_option (\<lambda>origin. url_tail origin (drop_slash (dropWhile (\<lambda>c. \<not> ends c) a)))
                     (origin_of (takeWhile (\<lambda>c. \<not> ends c) a)))
          else Some (url_tail base (d # rest))
      | [c] \<Rightarrow> if c = CHR ''/'' then Some (url_tail base []) else None
      | [] \<Rightarrow> None)"

section \<open>The return path\<close>

definition FALLBACK_PATH :: string where "FALLBACK_PATH = ''/''"
definition RETURN_PATH_LIMIT :: nat where "RETURN_PATH_LIMIT = 2048"
definition BASE_ORIGIN :: string where "BASE_ORIGIN = ''https://vazute.invalid''"

definition safeReturnTo :: "(string \<Rightarrow> string option) \<Rightarrow> jstr option \<Rightarrow> string" where
  "safeReturnTo origin_of value =
     (case value of
        None \<Rightarrow> FALLBACK_PATH
      | Some v \<Rightarrow>
          if v = [] \<or> RETURN_PATH_LIMIT < length v \<or> take 1 v \<noteq> [0x2F] \<or> take 2 v = [0x2F, 0x2F] \<or>
             0x5C \<in> set v \<or> 0x0D \<in> set v \<or> 0x0A \<in> set v
          then FALLBACK_PATH
          else (case new_url origin_of BASE_ORIGIN (utf8_text v) of
                  None \<Rightarrow> FALLBACK_PATH
                | Some url \<Rightarrow>
                    if u_origin url \<noteq> BASE_ORIGIN \<or> u_pathname url = ''/login'' then FALLBACK_PATH
                    else u_pathname url @ u_search url @ u_hash url))"

definition loginPathFor :: "(string \<Rightarrow> string option) \<Rightarrow> jstr \<Rightarrow> string" where
  "loginPathFor origin_of returnTo =
     ''/login?returnTo='' @ encodeURIComponent (safeReturnTo origin_of (Some returnTo))"

datatype web_locale = RO | EN

definition title_id_pattern :: "string \<Rightarrow> bool" where
  "title_id_pattern s \<longleftrightarrow>
     (case s of c # cs \<Rightarrow> is_digit c \<and> c \<noteq> CHR ''0'' \<and> list_all is_digit cs \<and> length cs \<le> 8 | [] \<Rightarrow> False)"

definition publicTitlePath :: "web_locale \<Rightarrow> string option \<Rightarrow> string option \<Rightarrow> string option" where
  "publicTitlePath locale type title_id =
     (case title_id of
        None \<Rightarrow> None
      | Some i \<Rightarrow>
          if \<not> title_id_pattern i then None
          else let tv = (type = Some ''tv'');
                   segment = (case locale of RO \<Rightarrow> if tv then ''serial'' else ''film''
                                           | EN \<Rightarrow> if tv then ''tv'' else ''movie'')
               in Some (''/'' @ (case locale of RO \<Rightarrow> ''ro'' | EN \<Rightarrow> ''en'') @ ''/'' @ segment @ ''/'' @ i))"

section \<open>What a return path looks like\<close>

definition printable :: "char \<Rightarrow> bool" where
  "printable c \<longleftrightarrow> (0x21 :: nat) \<le> of_char c \<and> of_char c \<le> (0x7E :: nat)"

lemma hex_upper_code: "d < 16 \<Longrightarrow> of_char (hex_upper d) = (if d < 10 then 48 + d else 55 + d)"
  by (simp add: hex_upper_def)

lemma hex_upper_printable: "d < 16 \<Longrightarrow> printable (hex_upper d) \<and> hex_upper d \<noteq> CHR ''/'' \<and> hex_upper d \<noteq> CHR 0x5C"
proof -
  assume d: "d < 16"
  have "of_char (CHR ''/'') = (47 :: nat)" "of_char (CHR 0x5C) = (92 :: nat)" by simp_all
  then show ?thesis using hex_upper_code [OF d] d by (auto simp: printable_def split: if_splits)
qed

lemma set_percent_encode:
  assumes "x \<in> set (percent_encode P s)"
  shows "x \<in> set s \<and> \<not> P x \<or> (printable x \<and> x \<noteq> CHR ''/'' \<and> x \<noteq> CHR 0x5C)"
proof -
  from assms obtain c where c: "c \<in> set s"
    and x: "x \<in> set (if P c then [CHR ''%'', hex_upper (of_char c div 16), hex_upper (of_char c mod 16)] else [c])"
    by (auto simp only: percent_encode_def set_concat set_map)
  have "of_char c < (256 :: nat)" by (rule nat_of_char_less_256)
  then have d: "of_char c div 16 < (16 :: nat)" "of_char c mod 16 < (16 :: nat)"
    by (simp_all add: div_less_iff_less_mult)
  show ?thesis
    using c x hex_upper_printable [OF d(1)] hex_upper_printable [OF d(2)]
    by (auto simp: printable_def split: if_splits)
qed

lemma c0_set_printable: "\<not> c0_set c \<Longrightarrow> of_char c \<noteq> (0x20 :: nat) \<Longrightarrow> printable c"
  by (auto simp: c0_set_def printable_def)

lemma sets_printable:
  "\<not> path_set c \<Longrightarrow> printable c" "\<not> special_query_set c \<Longrightarrow> printable c" "\<not> fragment_set c \<Longrightarrow> printable c"
  by (auto simp: path_set_def special_query_set_def fragment_set_def intro: c0_set_printable)

lemma path_state_set: "s \<in> set (path_state path segs) \<Longrightarrow> s \<in> set path \<or> s \<in> set segs \<or> s = []"
  by (induction path segs rule: path_state.induct) (auto dest: in_set_butlastD split: if_splits)

lemma path_state_nonempty: "segs \<noteq> [] \<Longrightarrow> path_state path segs \<noteq> []"
  by (induction path segs rule: path_state.induct) auto

lemma not_in_butlast: "x \<notin> set xs \<Longrightarrow> x \<notin> set (butlast xs)"
  by (meson in_set_butlastD)

lemma path_state_empty_last:
  "[] \<notin> set path \<Longrightarrow> [] \<notin> set (butlast segs) \<Longrightarrow> [] \<notin> set (butlast (path_state path segs))"
  by (induction path segs rule: path_state.induct) (simp_all add: not_in_butlast split: if_splits)

lemma split_on_pieces: "s \<in> set (split_on c xs) \<Longrightarrow> set s \<subseteq> set xs - {c}"
proof (induction xs arbitrary: s)
  case (Cons y xs)
  obtain p ps where e: "split_on c xs = p # ps" by (cases "split_on c xs") auto
  show ?case
  proof (cases "y = c")
    case True
    with Cons show ?thesis by (auto simp: e)
  next
    case False
    with Cons.prems e have "s = y # p \<or> s \<in> set (split_on c xs)" "p \<in> set (split_on c xs)" by auto
    with Cons.IH False show ?thesis by fastforce
  qed
qed simp

lemma in_joined: "x \<in> set (concat (map (\<lambda>s. m # s) segs)) \<Longrightarrow> x = m \<or> (\<exists>s \<in> set segs. x \<in> set s)"
  by (induction segs) auto

definition plain_url_char :: "char \<Rightarrow> bool" where
  "plain_url_char c \<longleftrightarrow> printable c \<and> c \<noteq> CHR 0x5C"

lemma percent_encoded_chars:
  assumes "\<And>c. \<not> P c \<Longrightarrow> printable c" and "CHR 0x5C \<notin> set s"
  shows "list_all plain_url_char (percent_encode P s)"
  using assms set_percent_encode [of _ P s] by (auto simp: list_all_iff plain_url_char_def)

lemma url_path_chars: "s \<in> set (url_path path) \<Longrightarrow> list_all plain_url_char s"
proof -
  assume "s \<in> set (url_path path)"
  then consider "s = []" | t where "s = percent_encode path_set t"
    "t \<in> set (split_on (CHR ''/'') (map (\<lambda>c. if c = CHR 0x5C then CHR ''/'' else c) path))"
    unfolding url_path_def by (auto dest!: path_state_set)
  then show ?thesis
  proof cases
    case 2
    then have "CHR 0x5C \<notin> set t" using split_on_pieces [OF 2(2)] by auto
    then show ?thesis unfolding 2(1) by (intro percent_encoded_chars sets_printable(1))
  qed simp
qed

lemma url_tail_chars:
  assumes "CHR 0x5C \<notin> set rest"
  shows "list_all plain_url_char
    (u_pathname (url_tail origin rest) @ u_search (url_tail origin rest) @ u_hash (url_tail origin rest))"
proof -
  have marks: "plain_url_char (CHR ''/'')" "plain_url_char (CHR ''?'')" "plain_url_char (CHR ''#'')"
    by (simp_all add: plain_url_char_def printable_def)
  let ?before = "takeWhile (\<lambda>c. c \<noteq> CHR ''#'') rest"
  let ?query = "drop 1 (dropWhile (\<lambda>c. c \<noteq> CHR ''?'') ?before)"
  let ?fragment = "drop 1 (dropWhile (\<lambda>c. c \<noteq> CHR ''#'') rest)"
  have "list_all plain_url_char (concat (map (\<lambda>s. CHR ''/'' # s) (url_path path)))" for path
    using url_path_chars [of _ path] marks by (auto simp: list_all_iff)
  moreover have "CHR 0x5C \<notin> set ?query" "CHR 0x5C \<notin> set ?fragment"
    using assms by (auto dest!: in_set_dropD set_dropWhileD set_takeWhileD)
  then have "list_all plain_url_char (percent_encode special_query_set ?query)"
    "list_all plain_url_char (percent_encode fragment_set ?fragment)"
    using percent_encoded_chars [OF sets_printable(2)] percent_encoded_chars [OF sets_printable(3)] by blast+
  ultimately show ?thesis
    using marks by (simp add: url_tail_def Let_def non_empty_part_def)
qed

text \<open>Without an empty segment inside the path, the path does not begin with two slashes.\<close>

fun doubled_slash :: "string \<Rightarrow> bool" where
  "doubled_slash (c # d # s) = (is_slash c \<and> is_slash d \<or> doubled_slash (d # s))"
| "doubled_slash _ = False"

lemma inner_pieces:
  "\<not> doubled_slash p \<Longrightarrow>
   [] \<notin> set (butlast (tl (split_on (CHR ''/'') (map (\<lambda>c. if c = CHR 0x5C then CHR ''/'' else c) p))))"
proof (induction p)
  case (Cons c p)
  let ?f = "map (\<lambda>c. if c = CHR 0x5C then CHR ''/'' else c)"
  obtain q qs where e: "split_on (CHR ''/'') (?f p) = q # qs" by (cases "split_on (CHR ''/'') (?f p)") auto
  from Cons.prems have rest: "\<not> doubled_slash p" by (cases p) auto
  with Cons.IH e have qs: "[] \<notin> set (butlast qs)" by simp
  have "q \<noteq> [] \<or> p = []" if "is_slash c"
  proof (cases p)
    case (Cons d p')
    with Cons.prems that have "\<not> is_slash d" by simp
    then show ?thesis using e Cons by (auto simp: is_slash_def split: list.splits if_splits)
  qed simp
  with qs e show ?case by (auto simp: is_slash_def)
qed simp

lemma url_path_empty_last:
  assumes "\<not> doubled_slash (CHR ''/'' # path)"
  shows "[] \<notin> set (butlast (url_path path)) \<and> url_path path \<noteq> []"
proof -
  let ?pieces = "split_on (CHR ''/'') (map (\<lambda>c. if c = CHR 0x5C then CHR ''/'' else c) path)"
  have "[] \<notin> set (butlast ?pieces)" using inner_pieces [OF assms] by simp
  moreover have "percent_encode path_set s = [] \<longleftrightarrow> s = []" for s
    by (cases s) (simp_all add: percent_encode_def)
  ultimately have "[] \<notin> set (butlast (map (percent_encode path_set) ?pieces))"
    unfolding map_butlast [symmetric] set_map image_iff by metis
  then show ?thesis
    unfolding url_path_def using path_state_empty_last [of "[]"] path_state_nonempty by simp
qed

lemma url_path_no_slash: "s \<in> set (url_path path) \<Longrightarrow> CHR ''/'' \<notin> set s"
proof -
  assume "s \<in> set (url_path path)"
  then consider "s = []" | t where "s = percent_encode path_set t"
    "t \<in> set (split_on (CHR ''/'') (map (\<lambda>c. if c = CHR 0x5C then CHR ''/'' else c) path))"
    unfolding url_path_def by (auto dest!: path_state_set)
  then show ?thesis
  proof cases
    case 2
    then have "CHR ''/'' \<notin> set t" using split_on_pieces [OF 2(2)] by auto
    then show ?thesis using set_percent_encode [of "CHR ''/''" path_set t] 2(1) by auto
  qed simp
qed

definition on_site :: "string \<Rightarrow> bool" where
  "on_site s \<longleftrightarrow> (case s of c # cs \<Rightarrow> c = CHR ''/'' \<and> (case cs of d # _ \<Rightarrow> \<not> is_slash d | [] \<Rightarrow> True) | [] \<Rightarrow> False)"

text \<open>The path of a reference, and its segments as the parser sees them.\<close>

definition path_part :: "string \<Rightarrow> string" where
  "path_part s = takeWhile (\<lambda>c. c \<noteq> CHR ''?'') (takeWhile (\<lambda>c. c \<noteq> CHR ''#'') s)"

definition url_segments :: "string \<Rightarrow> string list" where
  "url_segments path =
     map (percent_encode path_set) (split_on (CHR ''/'') (map (\<lambda>c. if c = CHR 0x5C then CHR ''/'' else c) path))"

definition dot_segment :: "string \<Rightarrow> bool" where
  "dot_segment s \<longleftrightarrow> single_dot s \<or> double_dot s"

definition serialised :: "url_parts \<Rightarrow> string" where
  "serialised url = u_pathname url @ u_search url @ u_hash url"

lemma path_state_kept: "list_all (\<lambda>s. \<not> dot_segment s) segs \<Longrightarrow> path_state path segs = path @ segs"
  by (induction path segs rule: path_state.induct) (simp_all add: dot_segment_def)

lemma list_all_butlast: "list_all P xs \<Longrightarrow> list_all P (butlast xs)"
  by (auto simp: list_all_iff dest: in_set_butlastD)

lemma path_state_no_dots:
  "list_all (\<lambda>s. \<not> dot_segment s) path \<Longrightarrow> list_all (\<lambda>s. \<not> dot_segment s) (path_state path segs)"
proof (induction path segs rule: path_state.induct)
  case (2 path s)
  have "\<not> dot_segment []" by code_simp
  with 2 list_all_butlast [OF 2] show ?case
    by (cases "dot_segment s") (simp_all add: dot_segment_def)
next
  case (3 path s t ss)
  have "list_all (\<lambda>s. \<not> dot_segment s) (if double_dot s then butlast path else if single_dot s then path else path @ [s])"
    using 3(2) list_all_butlast [OF 3(2)] by (simp add: dot_segment_def)
  then show ?case unfolding path_state.simps by (rule 3(1))
qed simp

lemma tail_on_site:
  assumes "url_path (path_part rest) = s # ss" and "s = [] \<Longrightarrow> ss = []"
  shows "on_site (serialised (url_tail origin rest))"
proof -
  have s: "plain_url_char c \<and> c \<noteq> CHR ''/''" if "c \<in> set s" for c
    using url_path_chars [of s "path_part rest"] url_path_no_slash [of s "path_part rest"] assms(1) that
    by (auto simp: list_all_iff)
  have "\<not> is_slash (CHR ''?'')" "\<not> is_slash (CHR ''#'')" by (simp_all add: is_slash_def)
  then show ?thesis
    using assms s unfolding path_part_def serialised_def by (cases s)
      (auto simp: on_site_def url_tail_def Let_def non_empty_part_def is_slash_def plain_url_char_def)
qed

text \<open>A reference without a doubled slash in its path, or without a dot segment in it, keeps to one slash.\<close>

lemma no_double_on_site:
  assumes "\<not> doubled_slash (CHR ''/'' # path_part rest)"
  shows "on_site (serialised (url_tail origin rest))"
proof -
  obtain s ss where segs: "url_path (path_part rest) = s # ss" and inner: "[] \<notin> set (butlast (s # ss))"
    using url_path_empty_last [OF assms] by (metis neq_Nil_conv)
  then show ?thesis by (intro tail_on_site [OF segs]) (auto split: if_splits)
qed

lemma no_dots_on_site:
  assumes "list_all (\<lambda>s. \<not> dot_segment s) (url_segments (path_part rest))"
    and "rest = [] \<or> \<not> is_slash (hd rest)"
  shows "on_site (serialised (url_tail origin rest))"
proof -
  have path: "url_path (path_part rest) = url_segments (path_part rest)"
    using path_state_kept [OF assms(1), of "[]"] by (simp add: url_path_def url_segments_def)
  have nonempty: "percent_encode path_set s \<noteq> []" if "s \<noteq> []" for s
    using that by (cases s) (simp_all add: percent_encode_def)
  obtain s ss where "url_segments (path_part rest) = s # ss" "s = [] \<longrightarrow> ss = []"
  proof (cases "path_part rest")
    case Nil
    then show thesis using that by (simp add: url_segments_def percent_encode_def)
  next
    case (Cons c cs)
    then have "c = hd rest" by (cases rest) (auto simp: path_part_def split: if_splits)
    moreover have "rest \<noteq> []" using Cons by (auto simp: path_part_def)
    ultimately have "\<not> is_slash c" using assms(2) by simp
    moreover obtain p ps where "split_on (CHR ''/'') (map (\<lambda>c. if c = CHR 0x5C then CHR ''/'' else c) cs) = p # ps"
      by (cases "split_on (CHR ''/'') (map (\<lambda>c. if c = CHR 0x5C then CHR ''/'' else c) cs)") auto
    ultimately have "url_segments (path_part rest) = percent_encode path_set (c # p) # map (percent_encode path_set) ps"
      using Cons by (simp add: url_segments_def is_slash_def)
    then show thesis using that nonempty [of "c # p"] by simp
  qed
  with path show ?thesis using tail_on_site [of rest s ss origin] by simp
qed

section \<open>A path that is parsed again\<close>

lemma encoded_clean:
  assumes "c \<in> set (percent_encode P s)" and "\<not> P (CHR ''%'')" and "\<And>d. d < 16 \<Longrightarrow> \<not> P (hex_upper d)"
  shows "\<not> P c"
proof -
  from assms(1) obtain x where
    x: "c \<in> set (if P x then [CHR ''%'', hex_upper (of_char x div 16), hex_upper (of_char x mod 16)] else [x])"
    by (auto simp only: percent_encode_def set_concat set_map)
  have "of_char x < (256 :: nat)" by (rule nat_of_char_less_256)
  then have "of_char x div 16 < (16 :: nat)" "of_char x mod 16 < (16 :: nat)"
    by (simp_all add: div_less_iff_less_mult)
  with x assms(2,3) show ?thesis by (auto split: if_splits)
qed

lemma encode_clean: "(\<And>c. c \<in> set s \<Longrightarrow> \<not> P c) \<Longrightarrow> percent_encode P s = s"
  by (induction s) (auto simp: percent_encode_def)

lemma hex_upper_kept:
  assumes "d < 16"
  shows "\<not> path_set (hex_upper d)" "\<not> special_query_set (hex_upper d)" "\<not> fragment_set (hex_upper d)"
  using hex_upper_code [OF assms] assms
  by (auto simp: path_set_def special_query_set_def fragment_set_def c0_set_def split: if_splits)

lemma percent_kept: "\<not> path_set (CHR ''%'')" "\<not> special_query_set (CHR ''%'')" "\<not> fragment_set (CHR ''%'')"
  by (simp_all add: path_set_def special_query_set_def fragment_set_def c0_set_def)

lemma encoded_sets:
  "c \<in> set (percent_encode path_set s) \<Longrightarrow> \<not> path_set c"
  "c \<in> set (percent_encode special_query_set s) \<Longrightarrow> \<not> special_query_set c"
  "c \<in> set (percent_encode fragment_set s) \<Longrightarrow> \<not> fragment_set c"
  using encoded_clean [of c _ s] percent_kept hex_upper_kept by blast+

lemma encode_twice:
  "percent_encode path_set (percent_encode path_set s) = percent_encode path_set s"
  "percent_encode special_query_set (percent_encode special_query_set s) = percent_encode special_query_set s"
  "percent_encode fragment_set (percent_encode fragment_set s) = percent_encode fragment_set s"
  by (intro encode_clean encoded_sets; assumption)+

lemma url_path_clean: "s \<in> set (url_path path) \<Longrightarrow> c \<in> set s \<Longrightarrow> \<not> path_set c \<and> c \<noteq> CHR ''/'' \<and> c \<noteq> CHR 0x5C"
proof -
  assume s: "s \<in> set (url_path path)" and c: "c \<in> set s"
  then obtain t where "s = percent_encode path_set t" unfolding url_path_def by (auto dest!: path_state_set)
  then have "\<not> path_set c" using c encoded_sets(1) by blast
  moreover have "c \<noteq> CHR 0x5C" using url_path_chars [OF s] c by (auto simp: list_all_iff plain_url_char_def)
  ultimately show ?thesis using url_path_no_slash [OF s] c by auto
qed

lemma joined_segments:
  "segs \<noteq> [] \<Longrightarrow> concat (map (\<lambda>s. CHR ''/'' # s) segs) = CHR ''/'' # join_with ''/'' segs"
  by (induction segs rule: induct_list012) auto

lemma set_join: "c \<in> set (join_with ''/'' segs) \<Longrightarrow> c = CHR ''/'' \<or> (\<exists>s \<in> set segs. c \<in> set s)"
  by (induction segs rule: induct_list012) auto

lemma url_path_again: "url_path (join_with ''/'' (url_path path)) = url_path path"
proof -
  let ?segs = "url_path path"
  have "?segs \<noteq> []" unfolding url_path_def by (intro path_state_nonempty) simp
  then obtain s ss where segs: "?segs = s # ss" by (cases ?segs) auto
  have "c \<noteq> CHR 0x5C" if "c \<in> set (join_with ''/'' ?segs)" for c
    using set_join [OF that] url_path_clean [of _ path c] by auto
  then have "map (\<lambda>c. if c = CHR 0x5C then CHR ''/'' else c) (join_with ''/'' ?segs) = join_with ''/'' ?segs"
    by (auto intro!: map_idI)
  moreover have "split_on (CHR ''/'') (join_with ''/'' ?segs) = ?segs"
    unfolding segs by (rule split_join) (use url_path_clean [of _ path] segs in auto)
  moreover have "map (percent_encode path_set) ?segs = ?segs"
    by (intro map_idI encode_clean) (use url_path_clean in blast)
  moreover have "list_all (\<lambda>s. \<not> dot_segment s) ?segs"
    unfolding url_path_def by (intro path_state_no_dots) simp
  ultimately show ?thesis
    unfolding url_path_def [of "join_with ''/'' (url_path path)"] by (simp add: path_state_kept)
qed

lemma part_split:
  assumes "m \<notin> set xs" and "ys = non_empty_part m zs"
  shows "takeWhile (\<lambda>c. c \<noteq> m) (xs @ ys) = xs" and "drop 1 (dropWhile (\<lambda>c. c \<noteq> m) (xs @ ys)) = zs"
  using assms by (auto simp: non_empty_part_def takeWhile_append dropWhile_append)

lemma url_tail_again:
  "\<exists>r. serialised (url_tail origin rest) = CHR ''/'' # r \<and> url_tail site r = (url_tail origin rest)\<lparr>u_origin := site\<rparr>"
proof -
  let ?before = "takeWhile (\<lambda>c. c \<noteq> CHR ''#'') rest"
  let ?path = "takeWhile (\<lambda>c. c \<noteq> CHR ''?'') ?before"
  let ?q = "percent_encode special_query_set (drop 1 (dropWhile (\<lambda>c. c \<noteq> CHR ''?'') ?before))"
  let ?f = "percent_encode fragment_set (drop 1 (dropWhile (\<lambda>c. c \<noteq> CHR ''#'') rest))"
  let ?j = "join_with ''/'' (url_path ?path)"
  let ?r = "(?j @ non_empty_part (CHR ''?'') ?q) @ non_empty_part (CHR ''#'') ?f"
  have "url_path ?path \<noteq> []" unfolding url_path_def by (intro path_state_nonempty) simp
  note joined = joined_segments [OF this]
  have clean: "CHR ''?'' \<notin> set ?j" "CHR ''#'' \<notin> set ?j"
    using set_join [of _ "url_path ?path"] url_path_clean [of _ ?path] by (fastforce simp: path_set_def)+
  moreover have "CHR ''#'' \<notin> set ?q" using encoded_sets(2) by (fastforce simp: special_query_set_def)
  ultimately have "CHR ''#'' \<notin> set (?j @ non_empty_part (CHR ''?'') ?q)" by (simp add: non_empty_part_def)
  note h = part_split [OF this refl, of ?f] and q = part_split [OF clean(1) refl, of ?q]
  have "url_tail site ?r = (url_tail origin rest)\<lparr>u_origin := site\<rparr>"
    unfolding url_tail_def Let_def h q url_path_again encode_twice by simp
  moreover have "serialised (url_tail origin rest) = CHR ''/'' # ?r"
    by (simp add: serialised_def url_tail_def Let_def joined)
  ultimately show ?thesis by blast
qed

lemma new_url_again:
  assumes "on_site r" and "list_all plain_url_char r" and "r = serialised (url_tail origin rest)"
  shows "new_url origin_of site r = Some ((url_tail origin rest)\<lparr>u_origin := site\<rparr>)"
proof -
  obtain t where t: "r = CHR ''/'' # t" "url_tail site t = (url_tail origin rest)\<lparr>u_origin := site\<rparr>"
    using url_tail_again [of origin rest site] assms(3) by auto
  have plain: "\<not> c0_or_space c \<and> \<not> tab_or_newline c" if "c \<in> set r" for c
  proof -
    have "(0x21 :: nat) \<le> of_char c" using assms(2) that by (simp add: list_all_iff plain_url_char_def printable_def)
    then show ?thesis by (auto simp: c0_or_space_def tab_or_newline_def)
  qed
  have "trim_by c0_or_space r = r" by (intro trim_by_unchanged) (use plain t(1) in auto)
  moreover have "filter (\<lambda>c. \<not> tab_or_newline c) r = r" using plain by (auto simp: filter_id_conv)
  ultimately show ?thesis
    using assms(1) t by (cases t) (auto simp: new_url_def on_site_def)
qed

section \<open>From the value to its text\<close>

lemma code_points_ascii: "u < 0x80 \<Longrightarrow> code_points (u # us) = unat u # code_points us"
  by (cases us) (auto simp: is_high_def word_le_nat_alt word_less_nat_alt)

lemma utf8_text_ascii:
  assumes "u < 0x80"
  shows "utf8_text (u # us) = char_of (unat u) # utf8_text us"
proof -
  have "unat u < 0x80" using assms by (simp add: word_less_nat_alt)
  then have "(utf8_cp \<circ> to_scalar) (unat u) = [unat u]" "unat (of_nat (unat u) :: byte) = unat u"
    by (simp_all add: utf8_cp_def to_scalar_def unat_of_nat del: of_nat_unat)
  then show ?thesis
    by (simp add: utf8_text_def text_encode_def code_points_ascii [OF assms])
qed

lemma char_of_slash: "char_of (47 :: nat) = CHR ''/''"
  by code_simp

lemma utf8_text_Nil [simp]: "utf8_text [] = []"
  by (simp add: utf8_text_def text_encode_def)

lemma utf8_text_units:
  "list_all (\<lambda>c. of_char c < (0x80 :: nat)) s \<Longrightarrow> utf8_text (units_of s) = s"
proof (induction s)
  case (Cons c s)
  then have c: "of_char c < (0x80 :: nat)" by simp
  then have "(of_nat (of_char c) :: 16 word) < 0x80" "unat (of_nat (of_char c) :: 16 word) = of_char c"
    by (simp_all add: word_less_nat_alt unat_of_nat)
  with Cons show ?case by (simp add: units_of_def utf8_text_ascii)
qed (simp add: units_of_def)

lemma code_points_units: "c \<in> set (code_points v) \<Longrightarrow> c < 0x10000 \<Longrightarrow> c \<in> unat ` set v"
  by (induction v rule: code_points.induct) (auto split: if_splits)

lemma utf8_low_bytes:
  assumes "x \<in> set (utf8_text v)" and "of_char x < (0x80 :: nat)"
  shows "of_nat (of_char x) \<in> set v"
proof -
  from assms(1) obtain n where n: "n \<in> set (concat (map (utf8_cp \<circ> to_scalar) (code_points v)))"
    and x: "x = char_of (unat (of_nat n :: byte))"
    by (auto simp: utf8_text_def text_encode_def)
  then obtain c where c: "c \<in> set (code_points v)" and nc: "n \<in> set (utf8_cp (to_scalar c))" by auto
  have bound: "to_scalar c < 0x110000"
    using is_scalar_to_scalar [OF c] by (simp add: is_scalar_def)
  then have "n < 256" using utf8_cp_bytes [OF bound] nc by auto
  then have small: "n < 0x80" using assms(2) x by (simp add: unat_of_nat)
  then have "to_scalar c = n" "n < 0x80" using nc by (auto simp: utf8_cp_def split: if_splits)
  then have "c = n" by (auto simp: to_scalar_def split: if_splits)
  with c small code_points_units [of n v] obtain u where u: "u \<in> set v" "n = unat u" by auto
  have "of_char x = n" using x small by (simp add: unat_of_nat)
  then show ?thesis using u by simp
qed

lemma utf8_first_slash: "utf8_text us \<noteq> [] \<Longrightarrow> hd (utf8_text us) = CHR ''/'' \<Longrightarrow> take 1 us = [0x2F]"
proof -
  assume "utf8_text us \<noteq> []" and slash: "hd (utf8_text us) = CHR ''/''"
  then obtain u us' where us: "us = u # us'" by (cases us) auto
  obtain c cps where c: "code_points us = c # cps" "c = unat u \<or> 0x10000 \<le> c"
    unfolding us by (cases us'; cases "is_high u \<and> is_low (hd us')") auto
  have "to_scalar c < 0x110000" using is_scalar_to_scalar [of c us] c(1) by (simp add: is_scalar_def)
  note bytes = utf8_cp_bytes [OF this]
  have "utf8_cp (to_scalar c) \<noteq> []" by (simp add: utf8_cp_def)
  then obtain b bs where b: "utf8_cp (to_scalar c) = b # bs" by (cases "utf8_cp (to_scalar c)") auto
  have "b < 256" using bytes b by simp
  moreover have "char_of (unat (of_nat b :: byte)) = CHR ''/''"
    using slash by (simp add: utf8_text_def text_encode_def c(1) b)
  ultimately have "char_of b = CHR ''/''" by (simp add: unat_of_nat)
  then have "of_char (char_of b :: char) = (of_char (CHR ''/'') :: nat)" by simp
  then have "b = 47" using \<open>b < 256\<close> by simp
  with b have "to_scalar c = 47" by (auto simp: utf8_cp_def split: if_splits)
  then have "c = 47" by (auto simp: to_scalar_def split: if_splits)
  with c(2) have "unat u = 47" by simp
  then have "u = 0x2F" by (simp add: word_unat_eq_iff)
  then show ?thesis by (simp add: us)
qed

lemma url_path_first:
  "\<exists>rest. concat (map (\<lambda>s. CHR ''/'' # s) (url_path path)) = CHR ''/'' # rest"
proof -
  have "url_path path \<noteq> []" unfolding url_path_def by (rule path_state_nonempty) simp
  then show ?thesis by (cases "url_path path") auto
qed

lemma url_tail_first: "take 1 (u_pathname (url_tail origin rest)) = ''/''"
  using url_path_first by (simp add: url_tail_def Let_def) (metis take_Suc_Cons take0)

lemma in_trim_by: "x \<in> set (trim_by P s) \<Longrightarrow> x \<in> set s"
  by (auto simp: trim_by_def dest!: set_dropWhileD)

text \<open>Any URL the parser gives for a text without a backslash is a tail of that text.\<close>

lemma new_url_tail:
  assumes "new_url origin_of base input = Some url" and "CHR 0x5C \<notin> set input"
  shows "\<exists>origin rest. url = url_tail origin rest \<and> CHR 0x5C \<notin> set rest"
proof -
  define s where "s = filter (\<lambda>c. \<not> tab_or_newline c) (trim_by c0_or_space input)"
  have s: "CHR 0x5C \<notin> set s" using assms(2) by (auto simp: s_def dest: in_trim_by)
  have sub: "set (drop_slash (dropWhile P (dropWhile Q r))) \<subseteq> set r" for P Q r
  proof -
    have "set (drop_slash t) \<subseteq> set t" for t by (cases t) (auto simp: drop_slash_def)
    then show ?thesis by (meson set_dropWhileD subset_iff)
  qed
  then have drop: "CHR 0x5C \<notin> set (drop_slash (dropWhile P (dropWhile Q r)))" if "CHR 0x5C \<notin> set r" for P Q r
    using that by blast
  from assms(1) obtain c rest where c: "s = c # rest" "c = CHR ''/''"
    unfolding new_url_def Let_def s_def [symmetric] by (auto split: list.splits if_splits)
  show ?thesis
  proof (cases "rest \<noteq> [] \<and> is_slash (hd rest)")
    case True
    with assms(1) c have "\<exists>origin P Q. url = url_tail origin (drop_slash (dropWhile P (dropWhile Q (tl rest))))"
      unfolding new_url_def Let_def s_def [symmetric] by (cases rest) auto
    moreover have "CHR 0x5C \<notin> set (tl rest)" using s c by (cases rest) auto
    ultimately show ?thesis using drop by blast
  next
    case False
    with assms(1) c have "url = url_tail base rest"
      unfolding new_url_def Let_def s_def [symmetric] by (cases rest) auto
    with s c show ?thesis by auto
  qed
qed

lemma safeReturnTo_plain:
  "list_all plain_url_char (safeReturnTo origin_of value) \<and> take 1 (safeReturnTo origin_of value) = ''/''"
proof -
  have fallback: "list_all plain_url_char FALLBACK_PATH" "take 1 FALLBACK_PATH = ''/''"
    by (simp_all add: FALLBACK_PATH_def plain_url_char_def printable_def)
  then have "take (Suc 0) FALLBACK_PATH = ''/''" by simp
  note fallback = fallback this
  show ?thesis
  proof (cases "safeReturnTo origin_of value = FALLBACK_PATH")
    case False
    then obtain v url where v: "value = Some v" "0x5C \<notin> set v"
      and url: "new_url origin_of BASE_ORIGIN (utf8_text v) = Some url"
      and r: "safeReturnTo origin_of value = u_pathname url @ u_search url @ u_hash url"
      by (auto simp: safeReturnTo_def split: option.splits if_splits)
    have "CHR 0x5C \<notin> set (utf8_text v)"
      using utf8_low_bytes [of "CHR 0x5C" v] v(2) by auto
    with url obtain origin rest where "url = url_tail origin rest" "CHR 0x5C \<notin> set rest"
      using new_url_tail by blast
    then show ?thesis
      using url_tail_chars [of rest origin] url_tail_first [of origin rest] r
      by (cases "u_pathname url") auto
  qed (simp add: fallback)
qed

lemma trim_by_prefix:
  assumes "\<not> ws c"
  shows "\<exists>t. c # s = trim_by ws (c # s) @ t"
proof -
  have "c # s = rev (takeWhile ws (rev (c # s)) @ dropWhile ws (rev (c # s)))"
    by (simp only: takeWhile_dropWhile_id rev_rev_ident)
  then have "c # s = rev (dropWhile ws (rev (c # s))) @ rev (takeWhile ws (rev (c # s)))"
    by (simp only: rev_append)
  then show ?thesis using assms unfolding trim_by_def dropWhile.simps by auto
qed

lemma units_of_mem:
  assumes "(of_nat m :: 16 word) \<in> set (units_of s)" and "m < 256"
  shows "char_of m \<in> set s"
proof -
  from assms(1) obtain c where c: "c \<in> set s" "(of_nat (of_char c) :: 16 word) = of_nat m"
    by (auto simp: units_of_def)
  have "of_char c < (65536 :: nat)" using nat_of_char_less_256 [of c] by linarith
  then have "of_char c = unat (of_nat (of_char c) :: 16 word)" by (simp add: unat_of_nat)
  also have "\<dots> = unat (of_nat m :: 16 word)" by (simp only: c(2))
  also have "\<dots> = m" using assms(2) by (simp add: unat_of_nat)
  finally have "of_char c = m" .
  then show ?thesis using c(1) by (metis char_of_char)
qed

text \<open>What the parser works on: the value without its outer spaces and its tabs.\<close>

definition stripped :: "jstr \<Rightarrow> string" where
  "stripped v = filter (\<lambda>c. \<not> tab_or_newline c) (trim_by c0_or_space (utf8_text v))"

text \<open>A value that passes the checks and has no tab is read as one path.\<close>

lemma checked_value:
  assumes "take 1 v = [0x2F]" and "take 2 v \<noteq> [0x2F, 0x2F]" and "0x5C \<notin> set v" "0x0D \<notin> set v" "0x0A \<notin> set v"
    and "CHR 9 \<notin> set (utf8_text v)" and "new_url origin_of BASE_ORIGIN (utf8_text v) = Some url"
  obtains rest where "stripped v = CHR ''/'' # rest" "url = url_tail BASE_ORIGIN rest" "rest = [] \<or> \<not> is_slash (hd rest)"
proof -
  have absent: "CHR 0x5C \<notin> set (utf8_text v)" "CHR 0x0D \<notin> set (utf8_text v)" "CHR 0x0A \<notin> set (utf8_text v)"
    using utf8_low_bytes [of "CHR 0x5C" v] utf8_low_bytes [of "CHR 0x0D" v] utf8_low_bytes [of "CHR 0x0A" v] assms(3-5)
    by auto
  obtain us where us: "v = 0x2F # us" using assms(1) by (cases v) auto
  then have first: "utf8_text v = CHR ''/'' # utf8_text us" by (simp add: utf8_text_ascii char_of_slash)
  let ?s = "trim_by c0_or_space (utf8_text v)"
  obtain t where t: "utf8_text v = ?s @ t"
    using first trim_by_prefix [of c0_or_space "CHR ''/''"] by (auto simp: c0_or_space_def)
  have "\<not> tab_or_newline c" if "c \<in> set ?s" for c
  proof
    assume "tab_or_newline c"
    then have "of_char c \<in> {of_char (CHR 9), of_char (CHR 0x0A), of_char (CHR 0x0D) :: nat}"
      by (simp add: tab_or_newline_def)
    then have "c = CHR 9 \<or> c = CHR 0x0A \<or> c = CHR 0x0D"
      by (simp only: of_char_eq_iff insert_iff empty_iff simp_thms)
    with in_trim_by [OF that] assms(6) absent show False by auto
  qed
  then have s: "stripped v = ?s" unfolding stripped_def by (simp add: filter_id_conv)
  have "?s \<noteq> []" using assms(7) unfolding new_url_def Let_def stripped_def [symmetric] s by auto
  then obtain rest where rest: "?s = CHR ''/'' # rest" using t first by (cases ?s) auto
  have slash: "\<not> is_slash (hd rest)" if "rest \<noteq> []"
  proof -
    have later: "utf8_text us = rest @ t" using t first rest by simp
    then have "hd rest \<in> set (utf8_text v)" using that first by (cases rest) auto
    then have "hd rest \<noteq> CHR 0x5C" using absent(1) by auto
    moreover have "hd rest \<noteq> CHR ''/''"
    proof
      assume "hd rest = CHR ''/''"
      then have "utf8_text us \<noteq> [] \<and> hd (utf8_text us) = CHR ''/''" using later that by (cases rest) auto
      then have "take 1 us = [0x2F]" using utf8_first_slash by blast
      then show False using us assms(2) by (cases us) auto
    qed
    ultimately show ?thesis by (simp add: is_slash_def)
  qed
  have "stripped v = CHR ''/'' # rest" using s rest by simp
  then have "url = url_tail BASE_ORIGIN rest"
    using assms(7) slash unfolding new_url_def Let_def stripped_def [symmetric]
    by (cases rest) auto
  then show thesis using that [of rest] s rest slash by auto
qed

text \<open>C28: Where the sign-in page returns to. The path begins with a slash and holds only printable ASCII without
  backslashes, whatever was asked for. It is the start page, or the value names a page of this origin other
  than the sign-in page, and the path is the one of that page: unless it begins with two slashes, a browser
  that follows it on any site gets to exactly the page the value named, so never to another host. It begins
  with two slashes only if the value has a tab, or both a dot segment and a doubled slash in its path, which
  the check of its first two characters does not look for.\<close>

theorem return_path_on_site:
  "list_all plain_url_char (safeReturnTo origin_of value) \<and> take 1 (safeReturnTo origin_of value) = ''/'' \<and>
   (safeReturnTo origin_of value = ''/'' \<or>
    (\<exists>v url. value = Some v \<and> new_url origin_of BASE_ORIGIN (utf8_text v) = Some url \<and>
       u_origin url = BASE_ORIGIN \<and> u_pathname url \<noteq> ''/login'' \<and>
       safeReturnTo origin_of value = u_pathname url @ u_search url @ u_hash url \<and>
       (if take 2 (safeReturnTo origin_of value) \<noteq> ''//''
        then \<forall>site. new_url origin_of site (safeReturnTo origin_of value) = Some (url\<lparr>u_origin := site\<rparr>)
        else CHR 9 \<in> set (utf8_text v) \<or>
          list_ex dot_segment (url_segments (path_part (drop 1 (stripped v)))) \<and>
          doubled_slash (path_part (stripped v)))))"
proof -
  let ?r = "safeReturnTo origin_of value"
  have plain: "list_all plain_url_char ?r" "take 1 ?r = ''/''" using safeReturnTo_plain by blast+
  then have on_site: "take 2 ?r \<noteq> ''//'' \<longleftrightarrow> on_site ?r"
    by (cases ?r; cases "tl ?r") (auto simp: on_site_def is_slash_def plain_url_char_def numeral_2_eq_2)
  show ?thesis
  proof (cases "?r = ''/''")
    case False
    then obtain v url where v: "value = Some v" "take 1 v = [0x2F]" "take 2 v \<noteq> [0x2F, 0x2F]" "0x5C \<notin> set v"
        "0x0D \<notin> set v" "0x0A \<notin> set v"
      and url: "new_url origin_of BASE_ORIGIN (utf8_text v) = Some url" "u_origin url = BASE_ORIGIN"
        "u_pathname url \<noteq> ''/login''"
      and r: "?r = serialised url"
      by (auto simp: safeReturnTo_def FALLBACK_PATH_def serialised_def split: option.splits if_splits)
    have "CHR 0x5C \<notin> set (utf8_text v)" using utf8_low_bytes [of "CHR 0x5C" v] v(4) by auto
    with url(1) obtain origin tl where tail: "url = url_tail origin tl" using new_url_tail by blast
    have again: "new_url origin_of site ?r = Some (url\<lparr>u_origin := site\<rparr>)" if "on_site ?r" for site
      using new_url_again [OF that plain(1)] r tail by simp
    have leaves: "CHR 9 \<in> set (utf8_text v) \<or>
        list_ex dot_segment (url_segments (path_part (drop 1 (stripped v)))) \<and> doubled_slash (path_part (stripped v))"
      if "\<not> on_site ?r"
    proof (cases "CHR 9 \<in> set (utf8_text v)")
      case False
      then obtain rest where rest: "stripped v = CHR ''/'' # rest" "url = url_tail BASE_ORIGIN rest"
          "rest = [] \<or> \<not> is_slash (hd rest)"
        using checked_value [OF v(2-6) _ url(1)] by blast
      have "path_part (CHR ''/'' # rest) = CHR ''/'' # path_part rest" by (simp add: path_part_def)
      then show ?thesis
        using that no_double_on_site [of rest BASE_ORIGIN] no_dots_on_site [of rest BASE_ORIGIN] r rest
        by (auto simp: list_all_iff list_ex_iff)
    qed simp
    show ?thesis
      using plain v(1) url r again leaves on_site unfolding serialised_def by auto
  qed (use plain in simp)
qed

text \<open>The value \<open>/.//host\<close> passes the check of its first two characters; its dot segment is then removed, and
  what is left, \<open>//host\<close>, names another host to whoever resolves it as a reference.\<close>

definition host_char :: "char \<Rightarrow> bool" where
  "host_char c \<longleftrightarrow> is_letter c \<or> is_digit c \<or> c = CHR ''-'' \<or> c = CHR ''.''"

lemma host_char_codes:
  "host_char c \<longleftrightarrow>
    (let n = of_char c :: nat in 65 \<le> n \<and> n \<le> 90 \<or> 97 \<le> n \<and> n \<le> 122 \<or> 48 \<le> n \<and> n \<le> 57 \<or> n = 45 \<or> n = 46)"
proof -
  have "c = CHR ''-'' \<longleftrightarrow> of_char c = (of_char (CHR ''-'') :: nat)" "c = CHR ''.'' \<longleftrightarrow> of_char c = (of_char (CHR ''.'') :: nat)"
    by (simp_all only: of_char_eq_iff)
  then show ?thesis by (simp add: host_char_def is_letter_def is_digit_nat char_le_nat Let_def)
qed

theorem return_path_can_leave:
  assumes "list_all host_char host" and "host \<noteq> []" and "length host \<le> 2044"
    and "\<not> single_dot host" and "\<not> double_dot host"
  shows "safeReturnTo origin_of (Some (units_of (''/.//'' @ host))) = ''//'' @ host"
proof -
  let ?s = "''/.//'' @ host"
  have code: "of_char c < (0x80 :: nat) \<and> \<not> c0_or_space c \<and> \<not> tab_or_newline c \<and> \<not> path_set c \<and>
      c \<noteq> CHR ''/'' \<and> c \<noteq> CHR 0x5C \<and> c \<noteq> CHR ''?'' \<and> c \<noteq> CHR ''#'' \<and> of_char c \<notin> {10, 13, 92 :: nat}"
    if "c \<in> set host" for c
  proof -
    obtain n :: nat where n: "n = of_char c" by blast
    have "65 \<le> n \<and> n \<le> 90 \<or> 97 \<le> n \<and> n \<le> 122 \<or> 48 \<le> n \<and> n \<le> 57 \<or> n = 45 \<or> n = 46"
      using assms(1) that by (simp add: list_all_iff host_char_codes Let_def n)
    moreover have ch: "c = d \<longleftrightarrow> n = of_char d" for d unfolding n by (simp only: of_char_eq_iff)
    ultimately show ?thesis
      unfolding ch by (auto simp: c0_or_space_def tab_or_newline_def path_set_def c0_set_def n [symmetric])
  qed
  have t: "utf8_text (units_of ?s) = ?s"
    by (intro utf8_text_units) (auto simp: list_all_iff dest: code)
  have trim: "trim_by c0_or_space ?s = ?s"
    using code assms(2) by (intro trim_by_unchanged) (auto simp: c0_or_space_def)
  have tabs: "filter (\<lambda>c. \<not> tab_or_newline c) ?s = ?s"
    using code by (auto simp: tab_or_newline_def filter_id_conv)
  have mark: "takeWhile (\<lambda>c. c \<noteq> m) (''.//'' @ host) = ''.//'' @ host" "dropWhile (\<lambda>c. c \<noteq> m) (''.//'' @ host) = []"
    if "m = CHR ''?'' \<or> m = CHR ''#''" for m
    using that code by (auto simp: takeWhile_eq_all_conv dropWhile_eq_Nil_conv)
  have slashes: "map (\<lambda>c. if c = CHR 0x5C then CHR ''/'' else c) (''.//'' @ host) = ''.//'' @ host"
    using code by (auto intro!: map_idI)
  have whole: "split_on (CHR ''/'') h = [h]" if "CHR ''/'' \<notin> set h" for h
    using that by (induction h) auto
  have "split_on (CHR ''/'') (''.//'' @ host) = [''.'', [], host]"
    using whole [of host] code by auto
  moreover have enc: "percent_encode path_set h = h" if "\<And>c. c \<in> set h \<Longrightarrow> \<not> path_set c" for h
    using that by (induction h) (auto simp: percent_encode_def)
  have "\<not> path_set (CHR ''.'')" by (simp add: path_set_def c0_set_def)
  then have "percent_encode path_set ''.'' = ''.''" "percent_encode path_set [] = []"
    "percent_encode path_set host = host"
    using code by (intro enc; simp)+
  moreover have "single_dot ''.''" "\<not> double_dot ''.''" "\<not> single_dot []" "\<not> double_dot []" by code_simp+
  ultimately have path: "url_path (''.//'' @ host) = [[], host]"
    unfolding url_path_def slashes using code assms(4,5) by simp
  have "new_url origin_of BASE_ORIGIN ?s = Some (url_tail BASE_ORIGIN (''.//'' @ host))"
    unfolding new_url_def Let_def trim tabs by (simp add: is_slash_def)
  moreover have "url_tail BASE_ORIGIN (''.//'' @ host) =
      \<lparr>u_origin = BASE_ORIGIN, u_pathname = ''//'' @ host, u_search = [], u_hash = []\<rparr>"
    unfolding url_tail_def Let_def mark [OF disjI2 [OF refl]] mark [OF disjI1 [OF refl]] path
    by (simp add: non_empty_part_def percent_encode_def)
  moreover have "of_char c \<notin> {10, 13, 92 :: nat}" if "c \<in> set ?s" for c
    using that code by auto
  then have "char_of m \<notin> set ?s" if "m \<in> {10, 13, 92 :: nat}" for m
    using that by fastforce
  then have "0x5C \<notin> set (units_of ?s)" "0x0D \<notin> set (units_of ?s)" "0x0A \<notin> set (units_of ?s)"
    using units_of_mem [of 92 ?s] units_of_mem [of 13 ?s] units_of_mem [of 10 ?s] by auto
  moreover have "take 1 (units_of ?s) = [0x2F]" "take 2 (units_of ?s) \<noteq> [0x2F, 0x2F]" "units_of ?s \<noteq> []"
    "length (units_of ?s) \<le> RETURN_PATH_LIMIT"
    using assms(3) by (simp_all add: units_of_def RETURN_PATH_LIMIT_def numeral_2_eq_2)
  moreover have "''//'' @ host \<noteq> ''/login''" by simp
  ultimately show ?thesis
    unfolding safeReturnTo_def option.case t by (simp del: append_Cons)
qed

theorem return_path_can_leave_witness:
  "safeReturnTo (\<lambda>_. None) (Some (units_of ''/.//evil.example'')) = ''//evil.example''"
  using return_path_can_leave [of "''evil.example''" "\<lambda>_. None"]
  by (simp add: host_char_codes Let_def single_dot_def double_dot_def to_lower_def)

text \<open>A public title page exists for positive ids of up to nine digits, and its path is one of four.\<close>

lemma publicTitlePath_shape:
  "publicTitlePath locale type title_id = Some p \<longleftrightarrow>
   (\<exists>i prefix. title_id = Some i \<and> title_id_pattern i \<and> p = prefix @ i \<and>
      prefix = (case (locale, type = Some ''tv'') of
        (RO, True) \<Rightarrow> ''/ro/serial/'' | (RO, False) \<Rightarrow> ''/ro/film/''
      | (EN, True) \<Rightarrow> ''/en/tv/'' | (EN, False) \<Rightarrow> ''/en/movie/''))"
  by (cases "type = Some ''tv''") (auto simp: publicTitlePath_def Let_def split: option.splits web_locale.splits)

end
