(* ===== verification/Deep_Links.thy ===== *)
theory Deep_Links
  imports Bytes_Hex Js_Text
begin

text \<open>
  Destinations inside the mobile app (mobile/src/lib/deep-links.ts): the paths it builds, and which
  path it follows after a sign-in. With them the rules for a username of lib/account.ts, as a
  username is part of two of the paths.

  Texts are character lists; a code unit beyond U+00FF matches none of the patterns and is not
  represented. Each pattern is the predicate of the texts it matches.
\<close>

section \<open>Paths\<close>

definition PUBLIC_WEB_ORIGIN :: string where "PUBLIC_WEB_ORIGIN = ''https://vazute.micutu.com''"
definition MAX_REDIRECT_LENGTH :: nat where "MAX_REDIRECT_LENGTH = 256"
definition LINK_MAX_TMDB_ID :: nat where "LINK_MAX_TMDB_ID = 2147483647"

datatype link_media = Link_Movie | Link_TV

definition media_word :: "link_media \<Rightarrow> string" where
  "media_word t = (case t of Link_Movie \<Rightarrow> ''movie'' | Link_TV \<Rightarrow> ''tv'')"

definition mediaPath :: "nat \<Rightarrow> link_media \<Rightarrow> string" where
  "mediaPath tmdbId t = ''/media/'' @ decimal tmdbId @ ''?type='' @ media_word t"

definition episodePath :: "string \<Rightarrow> string" where "episodePath episodeId = ''/episodes/'' @ episodeId"
definition profilePath :: "string \<Rightarrow> string" where "profilePath username = ''/profile/'' @ username"
definition messagePath :: "string \<Rightarrow> string" where "messagePath username = ''/messages/'' @ username"
definition publicUrl :: "string \<Rightarrow> string" where "publicUrl path = PUBLIC_WEB_ORIGIN @ path"

section \<open>Patterns\<close>

definition after :: "string \<Rightarrow> string \<Rightarrow> string option" where
  "after prefix s = (if starts_with prefix s then Some (drop (length prefix) s) else None)"

definition matches_after :: "string \<Rightarrow> (string \<Rightarrow> bool) \<Rightarrow> string \<Rightarrow> bool" where
  "matches_after prefix P s \<longleftrightarrow> (case after prefix s of Some rest \<Rightarrow> P rest | None \<Rightarrow> False)"

text \<open>The digits of \<open>/media/([1-9]\d{0,9})?type=(movie|tv)\<close>.\<close>

definition media_digits :: "string \<Rightarrow> string option" where
  "media_digits s =
     (case after ''/media/'' s of
        None \<Rightarrow> None
      | Some rest \<Rightarrow>
          let digits = takeWhile is_digit rest; tail = dropWhile is_digit rest
          in if 1 \<le> length digits \<and> length digits \<le> 10 \<and> hd digits \<noteq> CHR ''0'' \<and>
                (tail = ''?type=movie'' \<or> tail = ''?type=tv'')
             then Some digits else None)"

definition uuid_pattern :: "string \<Rightarrow> bool" where
  "uuid_pattern s \<longleftrightarrow>
     (case split_on (CHR ''-'') s of
        [a, b, c, d, e] \<Rightarrow>
          length a = 8 \<and> length b = 4 \<and> length c = 4 \<and> length d = 4 \<and> length e = 12 \<and>
          list_all is_hex (a @ b @ c @ d @ e) \<and> hd c \<in> set ''12345678'' \<and> hd d \<in> set ''89abAB''
      | _ \<Rightarrow> False)"

text \<open>\<open>EPISODE_PATH\<close>, whose flag makes the whole pattern blind to case, the path before the id as well.\<close>

definition episode_path_pattern :: "string \<Rightarrow> bool" where
  "episode_path_pattern s \<longleftrightarrow> to_lower (take 10 s) = ''/episodes/'' \<and> uuid_pattern (drop 10 s)"

definition name_char :: "char \<Rightarrow> bool" where
  "name_char c \<longleftrightarrow> is_letter c \<or> is_digit c"

definition name_inner :: "char \<Rightarrow> bool" where
  "name_inner c \<longleftrightarrow> name_char c \<or> c = CHR ''_'' \<or> c = CHR ''-''"

text \<open>\<open>[A-Za-z0-9](?:[A-Za-z0-9_-]{1,48}[A-Za-z0-9])\<close>\<close>

definition link_name_pattern :: "string \<Rightarrow> bool" where
  "link_name_pattern s \<longleftrightarrow>
     (case s of
        c # cs \<Rightarrow> name_char c \<and> cs \<noteq> [] \<and> name_char (last cs) \<and> list_all name_inner (butlast cs) \<and>
          1 \<le> length (butlast cs) \<and> length (butlast cs) \<le> 48
      | [] \<Rightarrow> False)"

definition control_or_backslash :: "char \<Rightarrow> bool" where
  "control_or_backslash c \<longleftrightarrow> c = CHR 0x5C \<or> of_char c \<le> (0x1F :: nat) \<or> of_char c = (0x7F :: nat)"

section \<open>The redirect\<close>

datatype link_parameter = Undefined | One string | Many "string list"

definition safePostAuthRedirect :: "link_parameter \<Rightarrow> string option" where
  "safePostAuthRedirect value =
     (let candidate = (case value of Undefined \<Rightarrow> None | One s \<Rightarrow> Some s | Many [s] \<Rightarrow> Some s | Many _ \<Rightarrow> None) in
      case candidate of
        None \<Rightarrow> None
      | Some s \<Rightarrow>
          if s = [] \<or> MAX_REDIRECT_LENGTH < length s \<or> starts_with ''//'' s \<or> list_ex control_or_backslash s
          then None
          else if (case media_digits s of Some ds \<Rightarrow> parse_digits ds \<le> LINK_MAX_TMDB_ID | None \<Rightarrow> False) then Some s
          else if episode_path_pattern s \<or> matches_after ''/profile/'' link_name_pattern s \<or>
                  matches_after ''/messages/'' link_name_pattern s
          then Some s
          else None)"

section \<open>Usernames\<close>

datatype profile_error = Username_Length | Username_Format | Bio_Length

definition MAX_PROFILE_BIO_LENGTH :: nat where "MAX_PROFILE_BIO_LENGTH = 500"

text \<open>\<open>[A-Za-z0-9](?:[A-Za-z0-9_-]*[A-Za-z0-9])?\<close>\<close>

definition username_pattern :: "string \<Rightarrow> bool" where
  "username_pattern s \<longleftrightarrow>
     (case s of
        c # cs \<Rightarrow> name_char c \<and> (cs = [] \<or> name_char (last cs) \<and> list_all name_inner (butlast cs))
      | [] \<Rightarrow> False)"

definition validateProfileDraft :: "string \<Rightarrow> jstr \<Rightarrow> profile_error option" where
  "validateProfileDraft username bio =
     (let normalizedUsername = str_trim username in
      if length normalizedUsername < 3 \<or> 50 < length normalizedUsername then Some Username_Length
      else if \<not> username_pattern normalizedUsername then Some Username_Format
      else if MAX_PROFILE_BIO_LENGTH < length (code_points bio) then Some Bio_Length
      else None)"

section \<open>What is followed is what the app builds\<close>

lemma after_iff: "after p s = Some r \<longleftrightarrow> s = p @ r"
  by (auto simp: after_def starts_with_def) (metis append_take_drop_id)

lemma matches_after_iff: "matches_after p P s \<longleftrightarrow> (\<exists>r. s = p @ r \<and> P r)"
  by (auto simp: matches_after_def after_iff [symmetric] split: option.splits)

lemma decimal_first: "0 < n \<Longrightarrow> hd (decimal n) \<noteq> CHR ''0''"
proof (induction n rule: decimal.induct)
  case (1 n)
  show ?case
  proof (cases "n < 10")
    case True
    with 1 have "digit n \<noteq> digit 0" by (metis digit_value_digit less_numeral_extra(3) zero_less_numeral)
    with True show ?thesis by (simp add: decimal.simps)
  next
    case False
    with 1 show ?thesis by (simp add: decimal.simps [of n])
  qed
qed

text \<open>A digit string that does not begin with a zero is the decimal text of its number.\<close>

lemma decimal_parse:
  assumes "list_all is_digit s" and "s \<noteq> []" and "hd s \<noteq> CHR ''0''"
  shows "decimal (parse_digits s) = s"
proof -
  have pad: "pad_start (length s) (decimal (parse_digits s)) = s"
    using pad_parse [of s] assms by (simp add: list_all_iff)
  have "length s - length (decimal (parse_digits s)) = 0"
  proof (rule ccontr)
    assume "length s - length (decimal (parse_digits s)) \<noteq> 0"
    then have "hd (pad_start (length s) (decimal (parse_digits s))) = CHR ''0''"
      by (cases "length s - length (decimal (parse_digits s))") (simp_all add: pad_start_def)
    then show False unfolding pad using assms(3) by contradiction
  qed
  then have "pad_start (length s) (decimal (parse_digits s)) = decimal (parse_digits s)"
    unfolding pad_start_def by (simp only: replicate_0 append_Nil)
  then show ?thesis by (rule trans [OF sym pad])
qed

lemma length_decimal_iff: "n < 10 ^ k \<Longrightarrow> 0 < k \<Longrightarrow> 1 \<le> length (decimal n) \<and> length (decimal n) \<le> k"
  using length_decimal_le [of n k] by (cases "decimal n") auto

lemma media_digits_iff:
  "media_digits s = Some ds \<longleftrightarrow>
    (\<exists>n t. 0 < n \<and> n < 10 ^ 10 \<and> s = mediaPath n t \<and> ds = decimal n)"
proof
  assume "media_digits s = Some ds"
  then obtain rest where after: "after ''/media/'' s = Some rest"
    by (simp add: media_digits_def split: option.splits)
  have *: "ds = takeWhile is_digit rest \<and> 1 \<le> length ds \<and> length ds \<le> 10 \<and> hd ds \<noteq> CHR ''0'' \<and>
      (dropWhile is_digit rest = ''?type=movie'' \<or> dropWhile is_digit rest = ''?type=tv'')"
    using \<open>media_digits s = Some ds\<close> unfolding media_digits_def after option.case Let_def
    by (simp only: option.inject option.distinct simp_thms split: if_splits)
  from after have "s = ''/media/'' @ rest" by (simp only: after_iff)
  with * have rest: "s = ''/media/'' @ rest" "ds = takeWhile is_digit rest"
    and ds: "1 \<le> length ds" "length ds \<le> 10" "hd ds \<noteq> CHR ''0''"
    and tail: "dropWhile is_digit rest = ''?type=movie'' \<or> dropWhile is_digit rest = ''?type=tv''"
    by blast+
  define tail where "tail = dropWhile is_digit rest"
  have s: "s = ''/media/'' @ ds @ tail" by (simp add: rest tail_def)
  have all: "list_all is_digit ds" by (auto simp: rest list_all_iff dest: set_takeWhileD)
  note ds = all ds
  let ?n = "parse_digits ds"
  have n: "decimal ?n = ds" using ds by (intro decimal_parse) auto
  have "?n < 10 ^ length ds" using ds(1) by (rule parse_digits_less)
  also have "(10 :: nat) ^ length ds \<le> 10 ^ 10" using ds(3) by (intro power_increasing) auto
  finally have "?n < 10 ^ 10" .
  moreover have "0 < ?n"
  proof (rule ccontr)
    assume "\<not> 0 < ?n"
    then have "ds = ''0''" using n by (simp add: decimal.simps)
    with ds(4) show False by simp
  qed
  moreover obtain t where "tail = ''?type='' @ media_word t"
  proof (cases "tail = ''?type=movie''")
    case True
    then show ?thesis by (intro that [of Link_Movie]) (simp add: media_word_def)
  next
    case False
    with tail show ?thesis by (intro that [of Link_TV]) (simp add: media_word_def tail_def)
  qed
  ultimately show "\<exists>n t. 0 < n \<and> n < 10 ^ 10 \<and> s = mediaPath n t \<and> ds = decimal n"
    using s n by (intro exI [of _ ?n] exI [of _ t]) (simp add: mediaPath_def)
next
  assume "\<exists>n t. 0 < n \<and> n < 10 ^ 10 \<and> s = mediaPath n t \<and> ds = decimal n"
  then obtain n t where n: "0 < n" "n < 10 ^ 10" and s: "s = mediaPath n t" and ds: "ds = decimal n" by blast
  have digits: "\<forall>c \<in> set (decimal n). is_digit c" using decimal_digits by blast
  have "\<not> is_digit (CHR ''?'')" by (simp add: is_digit_nat)
  with digits have "takeWhile is_digit (decimal n @ ''?type='' @ media_word t) = decimal n"
    "dropWhile is_digit (decimal n @ ''?type='' @ media_word t) = ''?type='' @ media_word t"
    by (auto simp: takeWhile_append2 dropWhile_append2)
  moreover have "after ''/media/'' s = Some (decimal n @ ''?type='' @ media_word t)"
    by (simp add: after_iff s mediaPath_def)
  ultimately show "media_digits s = Some ds"
    using length_decimal_iff [of n 10] n decimal_first [OF n(1)]
    by (auto simp: media_digits_def Let_def ds media_word_def split: link_media.splits)
qed

lemma name_inner_codes:
  "name_inner c \<Longrightarrow> \<not> control_or_backslash c \<and> c \<noteq> CHR ''/''"
proof -
  assume c: "name_inner c"
  obtain n :: nat where n: "n = of_char c" by blast
  have ch: "c = d \<longleftrightarrow> n = of_char d" for d unfolding n by (simp only: of_char_eq_iff)
  show ?thesis
    using c unfolding name_inner_def name_char_def is_letter_def is_digit_nat char_le_nat control_or_backslash_def ch
      n [symmetric] by auto
qed

lemma name_char_inner: "name_char c \<Longrightarrow> name_inner c"
  by (simp add: name_inner_def)

lemma link_name_chars: "link_name_pattern s \<Longrightarrow> list_all name_inner s \<and> 3 \<le> length s \<and> length s \<le> 50"
proof -
  assume s: "link_name_pattern s"
  then obtain c cs where cs: "s = c # cs" "cs \<noteq> []" by (auto simp: link_name_pattern_def split: list.splits)
  then have "s = c # butlast cs @ [last cs]" by simp
  with s cs show ?thesis
    by (auto simp: link_name_pattern_def name_char_inner list_all_iff) (metis in_set_butlastD name_char_inner append_butlast_last_id in_set_conv_decomp_first rotate1.simps(2) set_ConsD set_rotate1)
qed

definition quiet :: "string \<Rightarrow> bool" where
  "quiet s \<longleftrightarrow> s \<noteq> [] \<and> length s \<le> 256 \<and> \<not> starts_with ''//'' s \<and> \<not> list_ex control_or_backslash s"

lemma quiet_append:
  assumes "starts_with ''/'' p" and "\<not> starts_with ''//'' p" and "2 \<le> length p" and "\<not> list_ex control_or_backslash p"
    and "\<not> list_ex control_or_backslash s" and "length p + length s \<le> 256"
  shows "quiet (p @ s)"
  using assms by (cases p; cases "tl p") (auto simp: quiet_def starts_with_def)

lemma prefixes_quiet:
  "p \<in> {''/media/'', ''/episodes/'', ''/profile/'', ''/messages/'', ''?type=movie'', ''?type=tv''} \<Longrightarrow>
   \<not> list_ex control_or_backslash p"
  by (auto simp: control_or_backslash_def)

lemma digits_quiet: "list_all is_digit s \<Longrightarrow> \<not> list_ex control_or_backslash s"
  using name_inner_codes by (auto simp: list_all_iff list_ex_iff name_inner_def name_char_def)

lemma names_quiet: "list_all name_inner s \<Longrightarrow> \<not> list_ex control_or_backslash s"
  using name_inner_codes by (auto simp: list_all_iff list_ex_iff)

lemma mediaPath_quiet:
  assumes "n < 10 ^ 10"
  shows "quiet (mediaPath n t)"
proof -
  have "list_all is_digit (decimal n)" using decimal_digits by (auto simp: list_all_iff)
  then have "\<not> list_ex control_or_backslash (decimal n @ ''?type='' @ media_word t)"
    using digits_quiet prefixes_quiet by (auto simp: media_word_def control_or_backslash_def split: link_media.splits)
  moreover have "length (decimal n @ ''?type='' @ media_word t) \<le> 21"
    using length_decimal_iff [OF assms] by (cases t) (simp_all add: media_word_def)
  ultimately show ?thesis
    unfolding mediaPath_def
    by (intro quiet_append prefixes_quiet [of "''/media/''"]) (simp_all add: starts_with_def)
qed

lemma lower_unchanged: "lower_char c = c \<or> (65 \<le> (of_char c :: nat) \<and> of_char c \<noteq> (0x5C :: nat) \<and> of_char c \<noteq> (0x7F :: nat))"
  by (auto simp: lower_char_def char_code_def Let_def)

lemma lower_letter:
  assumes "lower_char c \<in> set ''/episodes/''"
  shows "\<not> control_or_backslash c"
proof (cases "lower_char c = c")
  case True
  with assms show ?thesis by (auto simp: control_or_backslash_def)
next
  case False
  then have "65 \<le> (of_char c :: nat)" "of_char c \<noteq> (0x5C :: nat)" "of_char c \<noteq> (0x7F :: nat)"
    using lower_unchanged [of c] by auto
  then show ?thesis by (auto simp: control_or_backslash_def)
qed

lemma lower_slash: "lower_char c = CHR ''/'' \<Longrightarrow> c = CHR ''/''"
proof (rule ccontr)
  assume l: "lower_char c = CHR ''/''" and "c \<noteq> CHR ''/''"
  then have "lower_char c \<noteq> c" by simp
  then have n: "65 \<le> (of_char c :: nat)" "lower_char c = char_of ((of_char c :: nat) + 32)"
    by (auto simp: lower_char_def char_code_def Let_def split: if_splits)
  have "(of_char c :: nat) < 223" using \<open>lower_char c \<noteq> c\<close> by (auto simp: lower_char_def char_code_def Let_def split: if_splits)
  then have "of_char (lower_char c) = (of_char c :: nat) + 32" unfolding n(2) by (simp add: of_char_of)
  then show False using n(1) l by simp
qed

lemma episodes_prefix:
  assumes "to_lower e = ''/episodes/''"
  shows "length e = 10" "starts_with ''/'' e" "\<not> starts_with ''//'' e" "\<not> list_ex control_or_backslash e"
    "lower_char (e ! 1) = CHR ''e''"
proof -
  show len: "length e = 10" using arg_cong [OF assms, of length] by (simp add: to_lower_def)
  have low: "lower_char c \<in> set ''/episodes/''" if "c \<in> set e" for c
    using that assms by (metis image_eqI list.set_map to_lower_def)
  then show "\<not> list_ex control_or_backslash e" using lower_letter by (auto simp only: list_ex_iff)
  obtain c d r where e: "e = c # d # r" using len by (cases e; cases "tl e") auto
  have l: "lower_char c = CHR ''/''" "lower_char d = CHR ''e''" using assms by (simp_all add: e to_lower_def)
  have "d \<noteq> CHR ''/''" using l(2) by (auto simp: lower_char_def char_code_def)
  moreover have "c = CHR ''/''" using lower_slash [OF l(1)] .
  ultimately show "starts_with ''/'' e" "\<not> starts_with ''//'' e" by (simp_all add: e starts_with_def)
  show "lower_char (e ! 1) = CHR ''e''" using l(2) by (simp add: e)
qed

lemma not_episode_path:
  assumes "to_lower e = ''/episodes/''" and "lower_char (p ! 1) \<noteq> CHR ''e''"
  shows "p \<noteq> e @ u"
  using assms(2) episodes_prefix [OF assms(1)] by (auto simp: nth_append)

lemma episode_path_iff:
  "episode_path_pattern s \<longleftrightarrow> (\<exists>u e. uuid_pattern u \<and> to_lower e = ''/episodes/'' \<and> s = e @ u)"
proof
  assume "episode_path_pattern s"
  then show "\<exists>u e. uuid_pattern u \<and> to_lower e = ''/episodes/'' \<and> s = e @ u"
    by (intro exI [of _ "drop 10 s"] exI [of _ "take 10 s"]) (simp add: episode_path_pattern_def)
next
  assume "\<exists>u e. uuid_pattern u \<and> to_lower e = ''/episodes/'' \<and> s = e @ u"
  then obtain u e where "uuid_pattern u" "to_lower e = ''/episodes/''" "s = e @ u" by blast
  then show "episode_path_pattern s" by (simp add: episode_path_pattern_def episodes_prefix(1))
qed

lemma uuid_quiet:
  assumes "uuid_pattern u" and "to_lower e = ''/episodes/''"
  shows "quiet (e @ u)"
proof -
  from assms obtain a b c d f where parts: "split_on (CHR ''-'') u = [a, b, c, d, f]"
    and len: "length a = 8" "length b = 4" "length c = 4" "length d = 4" "length f = 12"
    and hex: "list_all is_hex (a @ b @ c @ d @ f)"
    by (auto simp: uuid_pattern_def split: list.splits)
  have u: "u = a @ ''-'' @ b @ ''-'' @ c @ ''-'' @ d @ ''-'' @ f"
    using join_split_on [of "CHR ''-''" u] by (simp add: parts)
  have "is_hex x \<Longrightarrow> name_char x" for x
    by (auto simp: is_hex_def hex_value_def name_char_def is_letter_def is_digit_nat char_le_nat char_code_def Let_def
        split: if_splits)
  with hex have "list_all name_inner u"
    by (auto simp: u list_all_iff name_inner_def)
  then have "\<not> list_ex control_or_backslash u" by (rule names_quiet)
  then show ?thesis
    using len episodes_prefix [OF assms(2)]
    by (intro quiet_append [OF episodes_prefix(2-3) [OF assms(2)]]) (simp_all add: u)
qed

lemma name_quiet:
  assumes "link_name_pattern w"
  shows "quiet (profilePath w)" and "quiet (messagePath w)"
  using link_name_chars [OF assms] unfolding profilePath_def messagePath_def
  by (intro quiet_append prefixes_quiet [of "''/profile/''"] prefixes_quiet [of "''/messages/''"] names_quiet;
      simp add: starts_with_def)+

lemma redirect_accepts:
  "safePostAuthRedirect value = Some p \<longleftrightarrow>
    (value = One p \<or> value = Many [p]) \<and>
    ((\<exists>n t. 0 < n \<and> n \<le> LINK_MAX_TMDB_ID \<and> p = mediaPath n t) \<or>
     (\<exists>u e. uuid_pattern u \<and> to_lower e = ''/episodes/'' \<and> p = e @ u) \<or>
     (\<exists>w. link_name_pattern w \<and> (p = profilePath w \<or> p = messagePath w)))"
proof -
  let ?app = "\<lambda>p. (\<exists>n t. 0 < n \<and> n \<le> LINK_MAX_TMDB_ID \<and> p = mediaPath n t) \<or>
     (\<exists>u e. uuid_pattern u \<and> to_lower e = ''/episodes/'' \<and> p = e @ u) \<or> (\<exists>w. link_name_pattern w \<and> (p = profilePath w \<or> p = messagePath w))"
  have media: "(case media_digits s of Some ds \<Rightarrow> parse_digits ds \<le> LINK_MAX_TMDB_ID | None \<Rightarrow> False) \<longleftrightarrow>
      (\<exists>n t. 0 < n \<and> n \<le> LINK_MAX_TMDB_ID \<and> s = mediaPath n t)" for s
  proof (cases "media_digits s")
    case None
    then have "\<not> (0 < n \<and> n < 10 ^ 10 \<and> s = mediaPath n t)" for n t using media_digits_iff [of s] by auto
    moreover have "n < 10 ^ 10" if "n \<le> LINK_MAX_TMDB_ID" for n using that by (simp add: LINK_MAX_TMDB_ID_def)
    ultimately show ?thesis using None by auto
  next
    case (Some ds)
    then obtain n t where n: "0 < n" "s = mediaPath n t" "ds = decimal n" using media_digits_iff by blast
    have "m = n" if "s = mediaPath m t'" "0 < m" "m \<le> LINK_MAX_TMDB_ID" for m t'
    proof -
      have "m < 10 ^ 10" using that(3) by (simp add: LINK_MAX_TMDB_ID_def)
      then have "media_digits s = Some (decimal m)" unfolding media_digits_iff using that by blast
      with Some n(3) show ?thesis by simp
    qed
    then have "(\<exists>m t'. 0 < m \<and> m \<le> LINK_MAX_TMDB_ID \<and> s = mediaPath m t') \<longleftrightarrow> n \<le> LINK_MAX_TMDB_ID"
      using n(1,2) by blast
    then show ?thesis unfolding Some option.case n(3) parse_digits_decimal by (rule sym)
  qed
  have quiet: "quiet s" if "?app s" for s
    using that mediaPath_quiet uuid_quiet name_quiet by (auto simp: LINK_MAX_TMDB_ID_def)
  have single: "safePostAuthRedirect (One s) = (if ?app s then Some s else None)" for s
  proof -
    have merge: "(if A then None else if B then Some s else if C then Some s else None) =
        (if \<not> A \<and> (B \<or> C) then Some s else None)" for A B C by simp
    have q: "\<not> (s = [] \<or> 256 < length s \<or> starts_with ''//'' s \<or> list_ex control_or_backslash s) \<longleftrightarrow> quiet s"
      by (auto simp: quiet_def)
    have paths: "(episode_path_pattern s \<or> matches_after ''/profile/'' link_name_pattern s \<or>
        matches_after ''/messages/'' link_name_pattern s) \<longleftrightarrow>
      (\<exists>u e. uuid_pattern u \<and> to_lower e = ''/episodes/'' \<and> s = e @ u) \<or>
      (\<exists>w. link_name_pattern w \<and> (s = profilePath w \<or> s = messagePath w))"
      unfolding matches_after_iff episode_path_iff profilePath_def messagePath_def by blast
    have def: "safePostAuthRedirect (One s) = (if quiet s \<and> ?app s then Some s else None)"
      unfolding safePostAuthRedirect_def Let_def link_parameter.case option.case MAX_REDIRECT_LENGTH_def
        merge media q paths ..
    have absorb: "(if Q \<and> P then x else y) = (if P then x else y)" if "P \<Longrightarrow> Q" for P Q and x y :: "string option"
      using that by simp
    show ?thesis unfolding def by (rule absorb) (rule quiet)
  qed
  have many: "safePostAuthRedirect (Many [s]) = (if ?app s then Some s else None)" for s
    unfolding single [symmetric] by (simp add: safePostAuthRedirect_def)
  have other: "safePostAuthRedirect (Many ss) = None" if "length ss \<noteq> 1" for ss
    using that by (cases ss; cases "tl ss") (auto simp: safePostAuthRedirect_def)
  show ?thesis
  proof (cases "value")
    case Undefined
    then show ?thesis by (simp add: safePostAuthRedirect_def)
  next
    case (One s)
    then show ?thesis unfolding One single by auto
  next
    case (Many ss)
    show ?thesis
    proof (cases "length ss = 1")
      case True
      then obtain s where "ss = [s]" by (cases ss) auto
      then show ?thesis unfolding Many by (simp only: many) auto
    next
      case False
      then show ?thesis unfolding Many using other by auto
    qed
  qed
qed

lemma redirect_value: "safePostAuthRedirect value = Some p \<Longrightarrow> value = One p \<or> value = Many [p]"
  unfolding redirect_accepts by blast

text \<open>C29: After a sign-in the app follows the paths it builds itself, and one more kind: a single parameter
  is accepted exactly when it is the path of a title with a valid id, of a profile or of a conversation,
  as the app writes them, or the path of an episode whose \<open>/episodes/\<close> may be in letters of either
  case; and it is passed on as it was given.\<close>

theorem redirect_follows_app_paths:
  "safePostAuthRedirect value = Some p \<longleftrightarrow>
    (value = One p \<or> value = Many [p]) \<and>
    ((\<exists>n t. 0 < n \<and> n \<le> LINK_MAX_TMDB_ID \<and> p = mediaPath n t) \<or>
     (\<exists>u e. uuid_pattern u \<and> to_lower e = ''/episodes/'' \<and> p = e @ u) \<or>
     (\<exists>w. link_name_pattern w \<and> (p = profilePath w \<or> p = messagePath w)))"
  by (rule redirect_accepts)

lemma link_name_iff: "link_name_pattern s \<longleftrightarrow> username_pattern s \<and> 3 \<le> length s \<and> length s \<le> 50"
  by (cases s; cases "tl s") (auto simp: link_name_pattern_def username_pattern_def)

text \<open>The rules for a username and the paths agree: a draft of a profile is accepted exactly when its
  trimmed name can be followed as a profile and as a conversation, and its text is short enough.\<close>

theorem usernames_are_linkable:
  "validateProfileDraft username bio = None \<longleftrightarrow>
    safePostAuthRedirect (One (profilePath (str_trim username))) \<noteq> None \<and>
    safePostAuthRedirect (One (messagePath (str_trim username))) \<noteq> None \<and>
    length (code_points bio) \<le> 500"
proof -
  let ?u = "str_trim username"
  have kinds: "profilePath w \<noteq> mediaPath n t" "profilePath w \<noteq> episodePath u" "profilePath w \<noteq> messagePath v"
    "messagePath w \<noteq> mediaPath n t" "messagePath w \<noteq> episodePath u" "messagePath w \<noteq> profilePath v" for w v u n t
    by (simp_all add: profilePath_def messagePath_def mediaPath_def episodePath_def)
  have kinds': "\<not> (to_lower e = ''/episodes/'' \<and> profilePath w = e @ u)" "\<not> (to_lower e = ''/episodes/'' \<and> messagePath w = e @ u)" for e w u
    using not_episode_path [of e "profilePath w" u] not_episode_path [of e "messagePath w" u]
    by (auto simp: profilePath_def messagePath_def lower_char_def char_code_def)
  have same: "profilePath w = profilePath v \<longleftrightarrow> w = v" "messagePath w = messagePath v \<longleftrightarrow> w = v" for w v
    by (simp_all add: profilePath_def messagePath_def)
  have follow: "safePostAuthRedirect (One p) \<noteq> None \<longleftrightarrow> safePostAuthRedirect (One p) = Some p" for p
    using redirect_value [of "One p"] by auto
  have "safePostAuthRedirect (One (profilePath ?u)) = Some (profilePath ?u) \<longleftrightarrow> link_name_pattern ?u"
    "safePostAuthRedirect (One (messagePath ?u)) = Some (messagePath ?u) \<longleftrightarrow> link_name_pattern ?u"
    unfolding redirect_accepts using kinds' by (auto simp: kinds same)
  moreover have "validateProfileDraft username bio = None \<longleftrightarrow> link_name_pattern ?u \<and> length (code_points bio) \<le> 500"
    by (auto simp: validateProfileDraft_def Let_def link_name_iff MAX_PROFILE_BIO_LENGTH_def)
  ultimately show ?thesis unfolding follow by blast
qed

end
