(* ===== verification/Derive_Worker.thy ===== *)
theory Derive_Worker
  imports Crypto_Core
begin

text \<open>
  The derivation of a wrapping key off the main thread (frontend/src/lib/crypto/derive.ts and
  derive.worker.ts): the page, the worker and the two channels between them as one machine.

  \<open>derive\<close> is \<open>deriveWrappingKey\<close>, which may throw an error with a message. Whether a worker can be
  created and whether the module of the fallback can be loaded are part of the events. The page
  numbers its calls in the order in which they are made; a call of the model is a call of
  \<open>deriveWrappingKeyOffThread\<close>.
\<close>

type_synonym derivation = "jstr \<Rightarrow> bytes \<Rightarrow> kdf_cost \<Rightarrow> string + bytes"

record derive_request =
  dr_id :: nat
  dr_secret :: jstr
  dr_salt :: bytes
  dr_cost :: kdf_cost

datatype worker_answer = Worker_Key nat bytes | Worker_Error_Message nat string

text \<open>\<open>self.onmessage\<close> of the worker.\<close>

definition worker_onmessage :: "derivation \<Rightarrow> derive_request \<Rightarrow> worker_answer" where
  "worker_onmessage derive r =
     (case derive (dr_secret r) (dr_salt r) (dr_cost r) of
        Inr key \<Rightarrow> Worker_Key (dr_id r) key
      | Inl message \<Rightarrow> Worker_Error_Message (dr_id r) message)"

fun answer_id :: "worker_answer \<Rightarrow> nat" where
  "answer_id (Worker_Key i _) = i"
| "answer_id (Worker_Error_Message i _) = i"

datatype call_phase = Call_Waiting nat | Call_In_Place | Call_Resolved bytes | Call_Rejected

record derive_call =
  dc_secret :: jstr
  dc_salt :: bytes
  dc_cost :: kdf_cost
  dc_phase :: call_phase

text \<open>\<open>dw_pending\<close> maps an id to the call whose promise it settles. The channels are those of the current
  worker; they are empty while there is none.\<close>

record derive_page =
  dw_worker :: bool
  dw_next :: nat
  dw_pending :: "(nat, nat) jsmap"
  dw_inbox :: "derive_request list"
  dw_outbox :: "worker_answer list"
  dw_calls :: "derive_call list"

definition initial_page :: derive_page where
  "initial_page = \<lparr>dw_worker = False, dw_next = 1, dw_pending = [], dw_inbox = [], dw_outbox = [], dw_calls = []\<rparr>"

definition ensureWorker :: "bool \<Rightarrow> derive_page \<Rightarrow> derive_page" where
  "ensureWorker can_create s =
     (if dw_worker s then s
      else if can_create then s\<lparr>dw_worker := True, dw_inbox := [], dw_outbox := []\<rparr>
      else s)"

definition set_phase :: "call_phase \<Rightarrow> nat \<Rightarrow> derive_page \<Rightarrow> derive_page" where
  "set_phase p t s = s\<lparr>dw_calls := (dw_calls s)[t := (dw_calls s ! t)\<lparr>dc_phase := p\<rparr>]\<rparr>"

definition deriveWrappingKeyOffThread ::
  "bool \<Rightarrow> jstr \<Rightarrow> bytes \<Rightarrow> kdf_cost \<Rightarrow> derive_page \<Rightarrow> derive_page" where
  "deriveWrappingKeyOffThread can_create secret salt cost s =
     (let s1 = ensureWorker can_create s;
          new_call = (\<lambda>p. \<lparr>dc_secret = secret, dc_salt = salt, dc_cost = cost, dc_phase = p\<rparr>) in
      if \<not> dw_worker s1 then s1\<lparr>dw_calls := dw_calls s1 @ [new_call Call_In_Place]\<rparr>
      else let i = dw_next s1 in
        s1\<lparr>dw_next := i + 1,
           dw_pending := jm_set i (length (dw_calls s1)) (dw_pending s1),
           dw_inbox := dw_inbox s1 @ [\<lparr>dr_id = i, dr_secret = secret, dr_salt = salt, dr_cost = cost\<rparr>],
           dw_calls := dw_calls s1 @ [new_call (Call_Waiting i)]\<rparr>)"

text \<open>\<open>worker.onmessage\<close>. An error with an empty message is falsy, and a key that is not there makes an
  empty array. A rejected promise is caught and derived in place.\<close>

definition page_onmessage :: "worker_answer \<Rightarrow> derive_page \<Rightarrow> derive_page" where
  "page_onmessage answer s =
     (case jm_get (dw_pending s) (answer_id answer) of
        None \<Rightarrow> s
      | Some t \<Rightarrow>
          let s1 = s\<lparr>dw_pending := jm_del (answer_id answer) (dw_pending s)\<rparr> in
          (case answer of
             Worker_Error_Message _ message \<Rightarrow>
               if message \<noteq> [] then set_phase Call_In_Place t s1 else set_phase (Call_Resolved []) t s1
           | Worker_Key _ key \<Rightarrow> set_phase (Call_Resolved key) t s1))"

definition page_onerror :: "derive_page \<Rightarrow> derive_page" where
  "page_onerror s =
     (fold (\<lambda>(_, t). set_phase Call_In_Place t) (dw_pending s) s)
       \<lparr>dw_pending := [], dw_worker := False, dw_inbox := [], dw_outbox := []\<rparr>"

definition deriveInPlace :: "derivation \<Rightarrow> bool \<Rightarrow> nat \<Rightarrow> derive_page \<Rightarrow> derive_page" where
  "deriveInPlace derive loaded t s =
     (let c = dw_calls s ! t in
      if \<not> loaded then set_phase Call_Rejected t s
      else (case derive (dc_secret c) (dc_salt c) (dc_cost c) of
              Inr key \<Rightarrow> set_phase (Call_Resolved key) t s
            | Inl _ \<Rightarrow> set_phase Call_Rejected t s))"

datatype derive_event =
    Derive_Call bool jstr bytes kdf_cost
  | Worker_Turn
  | Page_Message
  | Worker_Fails
  | Fallback_Turn nat bool

definition derive_step :: "derivation \<Rightarrow> derive_event \<Rightarrow> derive_page \<Rightarrow> derive_page" where
  "derive_step derive ev s =
     (case ev of
        Derive_Call can_create secret salt cost \<Rightarrow> deriveWrappingKeyOffThread can_create secret salt cost s
      | Worker_Turn \<Rightarrow>
          (case dw_inbox s of
             [] \<Rightarrow> s
           | r # rs \<Rightarrow> s\<lparr>dw_inbox := rs, dw_outbox := dw_outbox s @ [worker_onmessage derive r]\<rparr>)
      | Page_Message \<Rightarrow>
          (case dw_outbox s of [] \<Rightarrow> s | a # as \<Rightarrow> page_onmessage a (s\<lparr>dw_outbox := as\<rparr>))
      | Worker_Fails \<Rightarrow> if dw_worker s then page_onerror s else s
      | Fallback_Turn t loaded \<Rightarrow>
          if t < length (dw_calls s) \<and> dc_phase (dw_calls s ! t) = Call_In_Place
          then deriveInPlace derive loaded t s else s)"

inductive derive_reachable :: "derivation \<Rightarrow> derive_page \<Rightarrow> bool" for derive where
  start: "derive_reachable derive initial_page"
| step: "derive_reachable derive s \<Longrightarrow> derive_reachable derive (derive_step derive ev s)"

section \<open>What the machine keeps\<close>

definition request_of :: "derive_request \<Rightarrow> derive_call \<Rightarrow> bool" where
  "request_of r c \<longleftrightarrow> dr_secret r = dc_secret c \<and> dr_salt r = dc_salt c \<and> dr_cost r = dc_cost c"

definition derived_of :: "derivation \<Rightarrow> derive_call \<Rightarrow> string + bytes" where
  "derived_of derive c = derive (dc_secret c) (dc_salt c) (dc_cost c)"

text \<open>A call that is settled got the key of its own arguments; the one exception is an error whose
  message is empty.\<close>

definition settled_well :: "derivation \<Rightarrow> derive_call \<Rightarrow> bool" where
  "settled_well derive c =
     (case dc_phase c of
        Call_Resolved key \<Rightarrow> derived_of derive c = Inr key \<or> key = [] \<and> derived_of derive c = Inl []
      | _ \<Rightarrow> True)"

definition on_the_way :: "derivation \<Rightarrow> derive_page \<Rightarrow> nat \<Rightarrow> derive_call \<Rightarrow> bool" where
  "on_the_way derive s i c \<longleftrightarrow>
     (\<exists>r. dr_id r = i \<and> request_of r c \<and> (r \<in> set (dw_inbox s) \<or> worker_onmessage derive r \<in> set (dw_outbox s)))"

definition request_ids :: "derive_page \<Rightarrow> nat list" where
  "request_ids s = map answer_id (dw_outbox s) @ map dr_id (dw_inbox s)"

text \<open>The invariant: each id on the channels is waited for by one call, whose arguments the request has.\<close>

definition derive_inv :: "derivation \<Rightarrow> derive_page \<Rightarrow> bool" where
  "derive_inv derive s \<longleftrightarrow>
     (\<forall>c \<in> set (dw_calls s). settled_well derive c) \<and>
     jm_ok (dw_pending s) \<and>
     distinct (request_ids s) \<and>
     set (request_ids s) = fst ` set (dw_pending s) \<and>
     (\<forall>i t. jm_get (dw_pending s) i = Some t \<longrightarrow>
        i < dw_next s \<and> t < length (dw_calls s) \<and> dc_phase (dw_calls s ! t) = Call_Waiting i \<and>
        dw_worker s \<and> on_the_way derive s i (dw_calls s ! t)) \<and>
     (\<forall>t i. t < length (dw_calls s) \<longrightarrow> dc_phase (dw_calls s ! t) = Call_Waiting i \<longrightarrow>
        jm_get (dw_pending s) i = Some t)"

lemma answer_id_worker [simp]: "answer_id (worker_onmessage derive r) = dr_id r"
  by (simp add: worker_onmessage_def split: sum.splits)

lemma derive_inv_start: "derive_inv derive initial_page"
  by (simp add: derive_inv_def initial_page_def request_ids_def jm_ok_def)

lemma set_phase_simps [simp]:
  "dw_worker (set_phase p t s) = dw_worker s"
  "dw_next (set_phase p t s) = dw_next s"
  "dw_pending (set_phase p t s) = dw_pending s"
  "dw_inbox (set_phase p t s) = dw_inbox s"
  "dw_outbox (set_phase p t s) = dw_outbox s"
  "length (dw_calls (set_phase p t s)) = length (dw_calls s)"
  by (simp_all add: set_phase_def)

lemma set_phase_calls:
  "dw_calls (set_phase p t s) = (dw_calls s)[t := (dw_calls s ! t)\<lparr>dc_phase := p\<rparr>]"
  by (simp add: set_phase_def)


lemma derive_invD:
  assumes "derive_inv derive s"
  shows "c \<in> set (dw_calls s) \<Longrightarrow> settled_well derive c"
    and "jm_ok (dw_pending s)"
    and "distinct (request_ids s)"
    and "set (request_ids s) = fst ` set (dw_pending s)"
    and "jm_get (dw_pending s) i = Some t \<Longrightarrow>
      i < dw_next s \<and> t < length (dw_calls s) \<and> dc_phase (dw_calls s ! t) = Call_Waiting i \<and>
      dw_worker s \<and> on_the_way derive s i (dw_calls s ! t)"
    and "t < length (dw_calls s) \<Longrightarrow> dc_phase (dw_calls s ! t) = Call_Waiting i \<Longrightarrow>
      jm_get (dw_pending s) i = Some t"
  using assms unfolding derive_inv_def by (blast, blast, blast, blast, blast, blast)

lemma derive_invI:
  assumes "\<And>c. c \<in> set (dw_calls s) \<Longrightarrow> settled_well derive c"
    and "jm_ok (dw_pending s)"
    and "distinct (request_ids s)"
    and "set (request_ids s) = fst ` set (dw_pending s)"
    and "\<And>i t. jm_get (dw_pending s) i = Some t \<Longrightarrow>
      i < dw_next s \<and> t < length (dw_calls s) \<and> dc_phase (dw_calls s ! t) = Call_Waiting i \<and>
      dw_worker s \<and> on_the_way derive s i (dw_calls s ! t)"
    and "\<And>i t. t < length (dw_calls s) \<Longrightarrow> dc_phase (dw_calls s ! t) = Call_Waiting i \<Longrightarrow>
      jm_get (dw_pending s) i = Some t"
  shows "derive_inv derive s"
  using assms unfolding derive_inv_def by blast

lemma pending_key_get: "jm_ok m \<Longrightarrow> i \<in> fst ` set m \<Longrightarrow> \<exists>t. jm_get m i = Some t"
  by (cases "jm_get m i") (simp_all add: jm_get_None_iff)

lemma no_worker_nothing_pending:
  assumes inv: "derive_inv derive s" and no: "\<not> dw_worker s"
  shows "dw_pending s = [] \<and> dw_inbox s = [] \<and> dw_outbox s = []"
proof -
  have "dw_pending s = []"
  proof (rule ccontr)
    assume "dw_pending s \<noteq> []"
    then obtain i where "i \<in> fst ` set (dw_pending s)" by (cases "dw_pending s") auto
    then obtain t where t: "jm_get (dw_pending s) i = Some t"
      using pending_key_get [OF derive_invD(2) [OF inv]] by blast
    from derive_invD(5) [OF inv t] no show False by simp
  qed
  moreover from this have "request_ids s = []" using derive_invD(4) [OF inv] by simp
  ultimately show ?thesis by (simp add: request_ids_def)
qed

lemma derive_inv_idle:
  assumes inv: "derive_inv derive s" and no: "\<not> dw_worker s"
  shows "derive_inv derive (s\<lparr>dw_worker := w, dw_calls := dw_calls s @ cs\<rparr>) \<longleftrightarrow>
    (\<forall>c \<in> set cs. settled_well derive c \<and> (\<forall>i. dc_phase c \<noteq> Call_Waiting i))"
proof -
  have e: "dw_pending s = []" "dw_inbox s = []" "dw_outbox s = []"
    using no_worker_nothing_pending [OF inv no] by blast+
  have c: "\<forall>c \<in> set (dw_calls s). settled_well derive c" using derive_invD(1) [OF inv] by blast
  have n: "\<forall>c \<in> set (dw_calls s). \<forall>i. dc_phase c \<noteq> Call_Waiting i"
  proof (intro ballI allI notI)
    fix c i assume "c \<in> set (dw_calls s)" and w: "dc_phase c = Call_Waiting i"
    then obtain t where "t < length (dw_calls s)" "dw_calls s ! t = c" by (auto simp: in_set_conv_nth)
    then have "jm_get (dw_pending s) i = Some t" using derive_invD(6) [OF inv, of t i] w by simp
    then show False by (simp add: e)
  qed
  have "derive_inv derive (s\<lparr>dw_worker := w, dw_calls := dw_calls s @ cs\<rparr>) \<longleftrightarrow>
    (\<forall>c \<in> set cs. settled_well derive c) \<and>
    (\<forall>t < length (dw_calls s @ cs). \<forall>i. dc_phase ((dw_calls s @ cs) ! t) \<noteq> Call_Waiting i)"
    using c by (simp add: derive_inv_def request_ids_def e ball_Un jm_ok_def)
  also have "\<dots> \<longleftrightarrow> (\<forall>c \<in> set cs. settled_well derive c) \<and>
    (\<forall>c \<in> set (dw_calls s @ cs). \<forall>i. dc_phase c \<noteq> Call_Waiting i)"
    by (simp only: all_set_conv_all_nth)
  finally show ?thesis using n by (auto simp: ball_Un)
qed

lemma derive_inv_ensure:
  assumes "derive_inv derive s"
  shows "derive_inv derive (ensureWorker can_create s)"
proof (cases "dw_worker s \<or> \<not> can_create")
  case True
  then show ?thesis using assms by (auto simp: ensureWorker_def)
next
  case False
  then have "ensureWorker can_create s = s\<lparr>dw_worker := True\<rparr>"
    using no_worker_nothing_pending [OF assms] by (simp add: ensureWorker_def)
  then show ?thesis using derive_inv_idle [OF assms, of "[]" True] False by simp
qed

lemma on_the_way_mono:
  assumes "on_the_way derive s i c"
    and "set (dw_inbox s) \<subseteq> set (dw_inbox s')" and "set (dw_outbox s) \<subseteq> set (dw_outbox s')"
  shows "on_the_way derive s' i c"
  using assms unfolding on_the_way_def by blast

lemma derive_inv_call:
  assumes inv: "derive_inv derive s0"
  shows "derive_inv derive (deriveWrappingKeyOffThread can_create secret salt cost s0)"
proof -
  define s where "s = ensureWorker can_create s0"
  have inv: "derive_inv derive s" unfolding s_def by (rule derive_inv_ensure [OF inv])
  show ?thesis
  proof (cases "dw_worker s")
    case False
    then have "deriveWrappingKeyOffThread can_create secret salt cost s0 =
      s\<lparr>dw_worker := False, dw_calls := dw_calls s @
        [\<lparr>dc_secret = secret, dc_salt = salt, dc_cost = cost, dc_phase = Call_In_Place\<rparr>]\<rparr>"
      unfolding deriveWrappingKeyOffThread_def s_def [symmetric] Let_def by simp
    then show ?thesis using derive_inv_idle [OF inv False] by (simp add: settled_well_def)
  next
    case True
    let ?r = "\<lparr>dr_id = dw_next s, dr_secret = secret, dr_salt = salt, dr_cost = cost\<rparr>"
    let ?c = "\<lparr>dc_secret = secret, dc_salt = salt, dc_cost = cost, dc_phase = Call_Waiting (dw_next s)\<rparr>"
    define s' where "s' = deriveWrappingKeyOffThread can_create secret salt cost s0"
    have s': "dw_worker s'" "dw_next s' = dw_next s + 1" "dw_inbox s' = dw_inbox s @ [?r]"
      "dw_pending s' = jm_set (dw_next s) (length (dw_calls s)) (dw_pending s)"
      "dw_outbox s' = dw_outbox s" "dw_calls s' = dw_calls s @ [?c]"
      using True unfolding s'_def deriveWrappingKeyOffThread_def s_def [symmetric] Let_def by simp_all
    have new: "dw_next s \<notin> fst ` set (dw_pending s)"
      using derive_invD(5) [OF inv, of "dw_next s"] by (metis jm_get_None_iff less_irrefl not_Some_eq)
    have ids: "request_ids s' = request_ids s @ [dw_next s]"
      by (simp add: request_ids_def s')
    have "derive_inv derive s'"
      unfolding derive_inv_def
    proof (intro conjI)
      show "\<forall>c\<in>set (dw_calls s'). settled_well derive c"
        using derive_invD(1) [OF inv] by (simp add: s' settled_well_def)
      show "jm_ok (dw_pending s')" using derive_invD(2) [OF inv] by (simp add: s')
      show "distinct (request_ids s')" using derive_invD(3,4) [OF inv] new by (simp add: ids)
      show "set (request_ids s') = fst ` set (dw_pending s')"
        using derive_invD(4) [OF inv] by (simp add: ids s' jm_keys_set)
      have own: "on_the_way derive s' (dw_next s) ?c"
        unfolding on_the_way_def by (intro exI [of _ ?r]) (simp add: s' request_of_def)
      show "\<forall>i t. jm_get (dw_pending s') i = Some t \<longrightarrow>
        i < dw_next s' \<and> t < length (dw_calls s') \<and> dc_phase (dw_calls s' ! t) = Call_Waiting i \<and>
        dw_worker s' \<and> on_the_way derive s' i (dw_calls s' ! t)"
      proof (intro allI impI)
        fix i t assume get: "jm_get (dw_pending s') i = Some t"
        show "i < dw_next s' \<and> t < length (dw_calls s') \<and> dc_phase (dw_calls s' ! t) = Call_Waiting i \<and>
          dw_worker s' \<and> on_the_way derive s' i (dw_calls s' ! t)"
        proof (cases "i = dw_next s")
          case True
          with get own show ?thesis by (simp add: s' nth_append)
        next
          case False
          with get have old: "jm_get (dw_pending s) i = Some t" by (simp add: s')
          then have "on_the_way derive s' i (dw_calls s ! t)"
            using derive_invD(5) [OF inv old] on_the_way_mono [of derive s i _ s'] by (auto simp: s')
          then show ?thesis using derive_invD(5) [OF inv old] s' by (auto simp: nth_append)
        qed
      qed
      show "\<forall>t i. t < length (dw_calls s') \<longrightarrow> dc_phase (dw_calls s' ! t) = Call_Waiting i \<longrightarrow>
        jm_get (dw_pending s') i = Some t"
      proof (intro allI impI)
        fix t i
        assume t: "t < length (dw_calls s')" and w: "dc_phase (dw_calls s' ! t) = Call_Waiting i"
        show "jm_get (dw_pending s') i = Some t"
        proof (cases "t = length (dw_calls s)")
          case True
          with w show ?thesis by (simp add: s')
        next
          case False
          with t w have "jm_get (dw_pending s) i = Some t"
            by (intro derive_invD(6) [OF inv]) (auto simp: s' nth_append)
          then show ?thesis using derive_invD(5) [OF inv, of i t] by (simp add: s')
        qed
      qed
    qed
    then show ?thesis by (simp add: s'_def)
  qed
qed


text \<open>A settled or failed call changes the phase of one call.\<close>

lemma derive_inv_forget:
  assumes inv: "derive_inv derive s"
    and get: "jm_get (dw_pending s) i = Some t"
    and head: "dw_outbox s = a # as" "answer_id a = i"
    and good: "settled_well derive ((dw_calls s ! t)\<lparr>dc_phase := p\<rparr>)"
    and settled: "\<forall>j. p \<noteq> Call_Waiting j"
  shows "derive_inv derive (set_phase p t (s\<lparr>dw_outbox := as, dw_pending := jm_del i (dw_pending s)\<rparr>))"
    (is "derive_inv derive ?s")
proof -
  have t: "t < length (dw_calls s)" and ph: "dc_phase (dw_calls s ! t) = Call_Waiting i"
    using derive_invD(5) [OF inv get] by blast+
  have calls: "dw_calls ?s = (dw_calls s)[t := (dw_calls s ! t)\<lparr>dc_phase := p\<rparr>]"
    by (simp add: set_phase_calls)
  have ids: "request_ids s = i # request_ids ?s"
    by (simp add: request_ids_def head)
  have keys: "fst ` set (jm_del i (dw_pending s)) = fst ` set (dw_pending s) - {i}"
    by (force simp: jm_del_def)
  show ?thesis
    unfolding derive_inv_def
  proof (intro conjI)
    show "\<forall>c\<in>set (dw_calls ?s). settled_well derive c"
      using derive_invD(1) [OF inv] good set_update_subset_insert [of "dw_calls s" t] calls by (metis insertE subsetD)
    show "jm_ok (dw_pending ?s)" using derive_invD(2) [OF inv] by simp
    show "distinct (request_ids ?s)" using derive_invD(3) [OF inv] ids by simp
    show "set (request_ids ?s) = fst ` set (dw_pending ?s)"
      using derive_invD(3,4) [OF inv] ids by (auto simp: keys)
    show "\<forall>j u. jm_get (dw_pending ?s) j = Some u \<longrightarrow>
        j < dw_next ?s \<and> u < length (dw_calls ?s) \<and> dc_phase (dw_calls ?s ! u) = Call_Waiting j \<and>
        dw_worker ?s \<and> on_the_way derive ?s j (dw_calls ?s ! u)"
    proof (intro allI impI)
      fix j u assume "jm_get (dw_pending ?s) j = Some u"
      then have old: "jm_get (dw_pending s) j = Some u" and ne: "j \<noteq> i" by (auto split: if_splits)
      note d = derive_invD(5) [OF inv old]
      have "u \<noteq> t" using d ph ne by auto
      then have c: "dw_calls ?s ! u = dw_calls s ! u" by (simp add: calls)
      from d obtain r where r: "dr_id r = j" "request_of r (dw_calls s ! u)"
        "r \<in> set (dw_inbox s) \<or> worker_onmessage derive r \<in> set (dw_outbox s)"
        unfolding on_the_way_def by blast
      then have "r \<in> set (dw_inbox ?s) \<or> worker_onmessage derive r \<in> set (dw_outbox ?s)"
        using head ne by (auto dest: arg_cong [where f = answer_id])
      with r c have "on_the_way derive ?s j (dw_calls ?s ! u)" unfolding on_the_way_def by auto
      with d c show "j < dw_next ?s \<and> u < length (dw_calls ?s) \<and> dc_phase (dw_calls ?s ! u) = Call_Waiting j \<and>
        dw_worker ?s \<and> on_the_way derive ?s j (dw_calls ?s ! u)" by simp
    qed
    show "\<forall>u j. u < length (dw_calls ?s) \<longrightarrow> dc_phase (dw_calls ?s ! u) = Call_Waiting j \<longrightarrow>
        jm_get (dw_pending ?s) j = Some u"
    proof (intro allI impI)
      fix u j assume u: "u < length (dw_calls ?s)" and w: "dc_phase (dw_calls ?s ! u) = Call_Waiting j"
      have "u \<noteq> t" using w settled t by (auto simp: calls)
      with u w have get': "jm_get (dw_pending s) j = Some u"
        by (intro derive_invD(6) [OF inv]) (auto simp: calls)
      with \<open>u \<noteq> t\<close> get have "j \<noteq> i" by auto
      with get' show "jm_get (dw_pending ?s) j = Some u" by simp
    qed
  qed
qed

lemma first_answer:
  assumes inv: "derive_inv derive s" and out: "dw_outbox s = a # as"
  obtains t r where "jm_get (dw_pending s) (answer_id a) = Some t" "dr_id r = answer_id a"
    "request_of r (dw_calls s ! t)" "a = worker_onmessage derive r"
proof -
  have "answer_id a \<in> fst ` set (dw_pending s)"
    using derive_invD(4) [OF inv] out by (auto simp: request_ids_def)
  then obtain t where t: "jm_get (dw_pending s) (answer_id a) = Some t"
    using pending_key_get [OF derive_invD(2) [OF inv]] by blast
  from derive_invD(5) [OF inv t] obtain r where r: "dr_id r = answer_id a" "request_of r (dw_calls s ! t)"
    "r \<in> set (dw_inbox s) \<or> worker_onmessage derive r \<in> set (dw_outbox s)"
    unfolding on_the_way_def by blast
  have d: "answer_id a \<notin> answer_id ` set as" "answer_id a \<notin> dr_id ` set (dw_inbox s)"
    using derive_invD(3) [OF inv] out by (auto simp: request_ids_def)
  have "a = worker_onmessage derive r"
    using r d out by (metis answer_id_worker image_eqI set_ConsD)
  with t r that show ?thesis by blast
qed

lemma derive_inv_page_message:
  assumes inv: "derive_inv derive s" and out: "dw_outbox s = a # as"
  shows "derive_inv derive (page_onmessage a (s\<lparr>dw_outbox := as\<rparr>))"
proof -
  obtain t r where t: "jm_get (dw_pending s) (answer_id a) = Some t" "dr_id r = answer_id a"
    and r: "request_of r (dw_calls s ! t)" "a = worker_onmessage derive r"
    using first_answer [OF inv out] by blast
  show ?thesis
  proof (cases "derived_of derive (dw_calls s ! t)")
    case (Inl message)
    with r have "a = Worker_Error_Message (dr_id r) message"
      by (simp add: worker_onmessage_def request_of_def derived_of_def)
    then obtain i where a: "a = Worker_Error_Message i message" by blast
    show ?thesis
      using t(1) Inl derive_inv_forget [OF inv t(1) out refl, of Call_In_Place]
        derive_inv_forget [OF inv t(1) out refl, of "Call_Resolved []"]
      by (simp add: a page_onmessage_def settled_well_def derived_of_def Let_def)
  next
    case (Inr key)
    with r have "a = Worker_Key (dr_id r) key"
      by (simp add: worker_onmessage_def request_of_def derived_of_def)
    then obtain i where a: "a = Worker_Key i key" by blast
    show ?thesis
      using t(1) Inr derive_inv_forget [OF inv t(1) out refl, of "Call_Resolved key"]
      by (simp add: a page_onmessage_def settled_well_def derived_of_def)
  qed
qed

lemma derive_inv_worker_turn:
  assumes inv: "derive_inv derive s" and inbox: "dw_inbox s = r # rs"
  shows "derive_inv derive (s\<lparr>dw_inbox := rs, dw_outbox := dw_outbox s @ [worker_onmessage derive r]\<rparr>)"
    (is "derive_inv derive ?s")
proof -
  have ids: "request_ids ?s = request_ids s" by (simp add: request_ids_def inbox)
  have way: "on_the_way derive ?s i c" if "on_the_way derive s i c" for i c
    using that unfolding on_the_way_def by (auto simp: inbox)
  show ?thesis
  proof (rule derive_invI)
    show "set (request_ids ?s) = fst ` set (dw_pending ?s)"
      unfolding ids using derive_invD(4) [OF inv] by simp
    show "distinct (request_ids ?s)" unfolding ids by (rule derive_invD(3) [OF inv])
  next
    fix i t assume "jm_get (dw_pending ?s) i = Some t"
    then have "jm_get (dw_pending s) i = Some t" by simp
    from derive_invD(5) [OF inv this] way
    show "i < dw_next ?s \<and> t < length (dw_calls ?s) \<and> dc_phase (dw_calls ?s ! t) = Call_Waiting i \<and>
      dw_worker ?s \<and> on_the_way derive ?s i (dw_calls ?s ! t)" by simp
  next
    fix i t assume "t < length (dw_calls ?s)" and "dc_phase (dw_calls ?s ! t) = Call_Waiting i"
    then show "jm_get (dw_pending ?s) i = Some t" using derive_invD(6) [OF inv, of t i] by simp
  next
    fix c assume "c \<in> set (dw_calls ?s)"
    then show "settled_well derive c" using derive_invD(1) [OF inv, of c] by simp
  next
    show "jm_ok (dw_pending ?s)" using derive_invD(2) [OF inv] by simp
  qed
qed

text \<open>A worker that fails sends every call that waits for it to the fallback.\<close>

lemma fold_set_phase:
  "dw_calls (fold (\<lambda>(_, t). set_phase p t) m s) =
     map (\<lambda>t. if t \<in> snd ` set m then (dw_calls s ! t)\<lparr>dc_phase := p\<rparr> else dw_calls s ! t) [0..<length (dw_calls s)]"
proof (induction m arbitrary: s)
  case Nil
  then show ?case by (simp add: map_nth)
next
  case (Cons x m)
  obtain i t where x: "x = (i, t)" by (cases x)
  show ?case
    unfolding fold_simps Cons.IH comp_apply x prod.case
    by (rule nth_equalityI; cases "t < length (dw_calls s)")
      (auto simp: set_phase_calls nth_list_update list_update_beyond split: if_splits)
qed

lemma derive_inv_onerror:
  assumes inv: "derive_inv derive s"
  shows "derive_inv derive (page_onerror s)"
proof -
  let ?n = "length (dw_calls s)"
  let ?c = "\<lambda>t. if t \<in> snd ` set (dw_pending s) then (dw_calls s ! t)\<lparr>dc_phase := Call_In_Place\<rparr> else dw_calls s ! t"
  have calls: "dw_calls (page_onerror s) = map ?c [0..<?n]"
    by (simp add: page_onerror_def fold_set_phase)
  have e: "dw_pending (page_onerror s) = []" "request_ids (page_onerror s) = []"
    by (simp_all add: page_onerror_def request_ids_def)
  have good: "settled_well derive (?c t)" if "t < ?n" for t
    using derive_invD(1) [OF inv, of "dw_calls s ! t"] that by (simp add: settled_well_def)
  have settled: "dc_phase (?c t) \<noteq> Call_Waiting i" if t: "t < ?n" for t i
  proof
    assume w: "dc_phase (?c t) = Call_Waiting i"
    then have n: "t \<notin> snd ` set (dw_pending s)" by (simp split: if_splits)
    with w t have "jm_get (dw_pending s) i = Some t" by (intro derive_invD(6) [OF inv]) simp_all
    then have "(i, t) \<in> set (dw_pending s)" using jm_entries_iff [OF derive_invD(2) [OF inv], of i t] by simp
    with n show False by force
  qed
  show ?thesis
  proof (rule derive_invI)
    fix c assume "c \<in> set (dw_calls (page_onerror s))"
    then have "c \<in> ?c ` set [0..<?n]" unfolding calls by (simp only: set_map)
    then obtain t where "c = ?c t" "t \<in> set [0..<?n]" by (rule imageE)
    with good [of t] show "settled_well derive c" by simp
  next
    fix i t assume t: "t < length (dw_calls (page_onerror s))"
      and w: "dc_phase (dw_calls (page_onerror s) ! t) = Call_Waiting i"
    from t have n: "t < ?n" unfolding calls by simp
    then have "dw_calls (page_onerror s) ! t = ?c t" unfolding calls by (simp only: nth_map_upt diff_zero add_0)
    with w have "dc_phase (?c t) = Call_Waiting i" by simp
    with settled n show "jm_get (dw_pending (page_onerror s)) i = Some t" by blast
  qed (simp_all add: e jm_ok_def)
qed

lemma derive_inv_phase:
  assumes inv: "derive_inv derive s" and t: "t < length (dw_calls s)"
    and old: "dc_phase (dw_calls s ! t) = Call_In_Place"
    and good: "settled_well derive ((dw_calls s ! t)\<lparr>dc_phase := p\<rparr>)" and settled: "\<forall>j. p \<noteq> Call_Waiting j"
  shows "derive_inv derive (set_phase p t s)" (is "derive_inv derive ?s")
proof -
  have same: "dw_calls ?s ! u = (if u = t then (dw_calls s ! t)\<lparr>dc_phase := p\<rparr> else dw_calls s ! u)"
    if "u < length (dw_calls s)" for u using that t by (simp add: set_phase_calls)
  have ids: "request_ids ?s = request_ids s" by (simp add: request_ids_def)
  have way: "on_the_way derive ?s i c = on_the_way derive s i c" for i c by (simp add: on_the_way_def)
  have "settled_well derive c" if "c \<in> set (dw_calls ?s)" for c
    using that derive_invD(1) [OF inv, of c] good set_update_subset_insert [of "dw_calls s" t] unfolding set_phase_calls
    by (metis insertE subsetD)
  moreover have "jm_get (dw_pending s) i = Some u"
    if u: "u < length (dw_calls s)" and w: "dc_phase (dw_calls ?s ! u) = Call_Waiting i" for i u
    using derive_invD(6) [OF inv u, of i] w same [OF u] settled by (simp split: if_splits)
  moreover have "i < dw_next ?s \<and> u < length (dw_calls ?s) \<and> dc_phase (dw_calls ?s ! u) = Call_Waiting i \<and>
      dw_worker ?s \<and> on_the_way derive ?s i (dw_calls ?s ! u)" if g: "jm_get (dw_pending s) i = Some u" for i u
  proof -
    note d = derive_invD(5) [OF inv g]
    then have "u \<noteq> t" using old by auto
    with d same [of u] show ?thesis by (simp add: way)
  qed
  ultimately show ?thesis
    using derive_invD(2-4) [OF inv] by (intro derive_invI) (unfold ids set_phase_simps, blast+)
qed

lemma derive_inv_in_place:
  assumes inv: "derive_inv derive s" and t: "t < length (dw_calls s)"
    and old: "dc_phase (dw_calls s ! t) = Call_In_Place"
  shows "derive_inv derive (deriveInPlace derive loaded t s)"
  using derive_inv_phase [OF inv t old]
  by (auto simp: deriveInPlace_def Let_def settled_well_def derived_of_def split: sum.splits)

lemma derive_inv_reachable: "derive_reachable derive s \<Longrightarrow> derive_inv derive s"
proof (induction rule: derive_reachable.induct)
  case start
  show ?case by (rule derive_inv_start)
next
  case (step s ev)
  note inv = step.IH
  show ?case
  proof (cases ev)
    case (Derive_Call can_create secret salt cost)
    then show ?thesis using derive_inv_call [OF inv] by (simp add: derive_step_def)
  next
    case Worker_Turn
    then show ?thesis using inv derive_inv_worker_turn [OF inv] by (simp add: derive_step_def split: list.split)
  next
    case Page_Message
    then show ?thesis using inv derive_inv_page_message [OF inv] by (simp add: derive_step_def split: list.split)
  next
    case Worker_Fails
    then show ?thesis using inv derive_inv_onerror [OF inv] by (simp add: derive_step_def)
  next
    case (Fallback_Turn t loaded)
    then show ?thesis using inv derive_inv_in_place [OF inv] by (simp add: derive_step_def)
  qed
qed


text \<open>The worker takes every request and the page every answer.\<close>

definition deliver_all :: "derivation \<Rightarrow> derive_page \<Rightarrow> derive_page" where
  "deliver_all derive s =
     (let n = length (dw_inbox s);
          worked = (derive_step derive Worker_Turn ^^ n) s
      in (derive_step derive Page_Message ^^ length (dw_outbox worked)) worked)"

lemma derive_reachable_steps:
  "derive_reachable derive s \<Longrightarrow> derive_reachable derive ((derive_step derive ev ^^ n) s)"
  by (induction n) (auto intro: derive_reachable.step)

lemma worker_turns:
  "dw_inbox ((derive_step derive Worker_Turn ^^ length (dw_inbox s)) s) = []"
proof (induction "dw_inbox s" arbitrary: s)
  case Nil
  then show ?case by (cases "dw_inbox s") auto
next
  case (Cons r rs)
  let ?s = "derive_step derive Worker_Turn s"
  have "dw_inbox ?s = rs" using Cons.hyps(2) [symmetric] by (simp add: derive_step_def)
  with Cons.hyps(1) [of ?s] show ?case
    using Cons.hyps(2) [symmetric] by (simp add: funpow_swap1)
qed

lemma page_message_channels:
  "dw_inbox (derive_step derive Page_Message s) = dw_inbox s"
  "dw_outbox (derive_step derive Page_Message s) = tl (dw_outbox s)"
  by (simp_all add: derive_step_def page_onmessage_def Let_def
      split: list.split option.split worker_answer.split)

lemma page_messages:
  "dw_outbox ((derive_step derive Page_Message ^^ n) s) = drop n (dw_outbox s) \<and>
   dw_inbox ((derive_step derive Page_Message ^^ n) s) = dw_inbox s"
  by (induction n) (simp_all add: page_message_channels drop_Suc tl_drop)

lemma idle_channels_no_waiting:
  assumes inv: "derive_inv derive s" and idle: "dw_inbox s = []" "dw_outbox s = []"
    and t: "t < length (dw_calls s)"
  shows "dc_phase (dw_calls s ! t) \<noteq> Call_Waiting i"
proof
  assume "dc_phase (dw_calls s ! t) = Call_Waiting i"
  then have "jm_get (dw_pending s) i = Some t" by (rule derive_invD(6) [OF inv t])
  from derive_invD(5) [OF inv this] idle show False by (simp add: on_the_way_def)
qed

lemma deliver_all_idle:
  "dw_inbox (deliver_all derive s) = []" "dw_outbox (deliver_all derive s) = []"
  by (simp_all add: deliver_all_def Let_def page_messages worker_turns)

lemma deliver_all_reachable: "derive_reachable derive s \<Longrightarrow> derive_reachable derive (deliver_all derive s)"
  by (simp add: deliver_all_def Let_def derive_reachable_steps)

text \<open>C30: A key derived off the main thread is the key its caller asked for. Whatever the order of calls, worker
  turns, messages, failures of the worker and fallbacks, a call that resolved has the key that the
  derivation gives for its own secret, salt and cost (the one exception the code has: the derivation
  threw an error with an empty message, which is falsy, and the call resolved with no bytes). And no
  call is left hanging: in every reachable state, once the worker has taken its requests and the page
  its messages, no call waits for the worker any more.\<close>

theorem derived_key_is_the_callers:
  assumes "derive_reachable derive s"
  shows "list_all (\<lambda>c. case dc_phase c of
           Call_Resolved key \<Rightarrow> derive (dc_secret c) (dc_salt c) (dc_cost c) = Inr key \<or>
             key = [] \<and> derive (dc_secret c) (dc_salt c) (dc_cost c) = Inl []
         | _ \<Rightarrow> True) (dw_calls s) \<and>
    list_all (\<lambda>c. case dc_phase c of Call_Waiting _ \<Rightarrow> False | _ \<Rightarrow> True) (dw_calls (deliver_all derive s))"
proof
  show "list_all (\<lambda>c. case dc_phase c of
           Call_Resolved key \<Rightarrow> derive (dc_secret c) (dc_salt c) (dc_cost c) = Inr key \<or>
             key = [] \<and> derive (dc_secret c) (dc_salt c) (dc_cost c) = Inl []
         | _ \<Rightarrow> True) (dw_calls s)"
    using derive_invD(1) [OF derive_inv_reachable [OF assms]]
    unfolding list_all_iff settled_well_def derived_of_def by blast
  have inv: "derive_inv derive (deliver_all derive s)"
    by (rule derive_inv_reachable [OF deliver_all_reachable [OF assms]])
  show "list_all (\<lambda>c. case dc_phase c of Call_Waiting _ \<Rightarrow> False | _ \<Rightarrow> True) (dw_calls (deliver_all derive s))"
    using idle_channels_no_waiting [OF inv deliver_all_idle]
    by (auto simp: list_all_length split: call_phase.split)
qed

text \<open>Two calls with different secrets, and a worker that fails after the first answer: the second call is
  derived in place.\<close>

definition sample_derivation :: derivation where
  "sample_derivation secret salt cost = Inr (rev salt @ take (length secret) salt)"

definition sample_page :: derive_page where
  "sample_page = foldl (\<lambda>s ev. derive_step sample_derivation ev s) initial_page
     [Derive_Call True [97] [1, 2] DEFAULT_KDF_COST, Derive_Call True [98, 98] [3, 4] DEFAULT_KDF_COST,
      Worker_Turn, Page_Message, Worker_Fails, Fallback_Turn 1 True,
      Derive_Call True [99] [3] DEFAULT_KDF_COST]"

lemma derived_key_is_the_callers_witness:
  "map dc_phase (dw_calls sample_page) = [Call_Resolved [2, 1, 1], Call_Resolved [4, 3, 3, 4], Call_Waiting 3] \<and>
   list_all (\<lambda>c. case dc_phase c of Call_Waiting _ \<Rightarrow> False | _ \<Rightarrow> True)
     (dw_calls (deliver_all sample_derivation sample_page))"
proof
  show "map dc_phase (dw_calls sample_page) = [Call_Resolved [2, 1, 1], Call_Resolved [4, 3, 3, 4], Call_Waiting 3]"
    by (simp add: sample_page_def derive_step_def deriveWrappingKeyOffThread_def ensureWorker_def initial_page_def
      Let_def page_onmessage_def page_onerror_def deriveInPlace_def set_phase_def worker_onmessage_def
      sample_derivation_def jm_del_def jm_get_def)
  have "derive_reachable sample_derivation sample_page"
    unfolding sample_page_def foldl.simps by (intro derive_reachable.intros)
  from derived_key_is_the_callers [OF this]
  show "list_all (\<lambda>c. case dc_phase c of Call_Waiting _ \<Rightarrow> False | _ \<Rightarrow> True)
     (dw_calls (deliver_all sample_derivation sample_page))" by (rule conjunct2)
qed

end
