(* ===== verification/Query_Hooks.thy ===== *)
theory Query_Hooks
  imports Bytes_Hex Feeds Http_Client
begin

text \<open>
  The query hooks of the mobile client (\<open>mobile/src/hooks\<close>): for each hook its cache key, the requests
  its query function makes, whether it is enabled, how long an answer is fresh and how often it is asked
  for again. The cache is TanStack Query's: it stores one answer per key, and two hooks with the same key
  share it. A hook's arguments are those of the function plus what it reads from the clock, the locale
  and the stores (\<open>today\<close>, the UTC offset, the language, whether there is a local session).

  Key parts are the JSON values of the key; \<open>undefined\<close> and \<open>null\<close> are the same value in a hashed key.
\<close>

section \<open>Keys, calls and hooks\<close>

datatype key_part = KS jstr | KN int | KB bool | KNull | KL "key_part list"

definition ks :: "string \<Rightarrow> key_part" where "ks s = KS (units_of s)"

lemma ks_inject [simp]: "ks s = ks t \<longleftrightarrow> s = t"
proof -
  have "inj (\<lambda>c. of_nat (of_char c) :: 16 word)"
  proof (rule injI)
    fix c d :: char
    assume "(of_nat (of_char c) :: 16 word) = of_nat (of_char d)"
    then have "unat (of_nat (of_char c) :: 16 word) = unat (of_nat (of_char d) :: 16 word)" by simp
    moreover have "of_char c < (256 :: nat)" "of_char d < (256 :: nat)" by (rule nat_of_char_less_256)+
    ultimately show "c = d" by (simp add: unat_of_nat)
  qed
  then show ?thesis by (simp add: ks_def units_of_def inj_map_eq_map)
qed

definition ktype :: "media_type \<Rightarrow> key_part" where "ktype m = ks (media_type_text m)"

lemma ktype_inject [simp]: "ktype m = ktype n \<longleftrightarrow> m = n"
  by (cases m; cases n) (simp_all add: ktype_def media_type_text_def)

definition knum :: "int option \<Rightarrow> key_part" where
  "knum x = (case x of None \<Rightarrow> KNull | Some i \<Rightarrow> KN i)"

lemma knum_inject [simp]: "knum x = knum y \<longleftrightarrow> x = y"
  by (cases x; cases y) (simp_all add: knum_def)

datatype call_body = No_Body | Object "(string \<times> query_value) list" | Lookup_Items "lookup_target list"

record hook_call =
  hc_method :: http_method
  hc_path :: string
  hc_body :: call_body

definition get_call :: "string \<Rightarrow> hook_call" where
  "get_call path = \<lparr>hc_method = GET, hc_path = path, hc_body = No_Body\<rparr>"

text \<open>The \<open>pageParam\<close> of an infinite query: a number, or a cursor whose fields go into the query.\<close>

datatype page_param = Whole | Page nat | Cursor "(string \<times> query_value) list"

definition page_number :: "page_param \<Rightarrow> query_value" where
  "page_number p = (case p of Page n \<Rightarrow> Q_Number (int n) | _ \<Rightarrow> Q_Undefined)"

definition cursor_fields :: "page_param \<Rightarrow> (string \<times> query_value) list" where
  "cursor_fields p = (case p of Cursor fs \<Rightarrow> fs | _ \<Rightarrow> [])"

definition cursor_field :: "page_param \<Rightarrow> string \<Rightarrow> query_value" where
  "cursor_field p k = (case map_of (cursor_fields p) k of Some v \<Rightarrow> v | None \<Rightarrow> Q_Undefined)"

datatype freshness = Default_Stale | Stale_After nat | Never_Stale

text \<open>How an infinite query finds its next page (\<open>initialPageParam\<close> and \<open>getNextPageParam\<close>): by counting full
  pages (\<open>next_page_number\<close>), by what the page says (\<open>has_more\<close>, \<open>total_pages\<close>, \<open>next_cursor\<close>), or from its
  last element (\<open>nextActivityCursor\<close>, \<open>nextMessageCursor\<close>, \<open>nextNotificationCursor\<close>).\<close>

datatype paging =
    One_Answer | Counts_Pages nat | Until_Has_More_Ends | Until_Last_Search_Page | Cursor_Of_Page
  | Activity_Cursor | Message_Cursor | Notification_Cursor

record query_hook =
  qh_key :: "key_part list"
  qh_paging :: paging
  qh_calls :: "page_param \<Rightarrow> hook_call list"
  qh_enabled :: bool
  qh_stale :: freshness
  qh_poll :: "nat option"

definition simple_hook :: "key_part list \<Rightarrow> string \<Rightarrow> bool \<Rightarrow> query_hook" where
  "simple_hook key path enabled =
     \<lparr>qh_key = key, qh_paging = One_Answer, qh_calls = (\<lambda>_. [get_call path]), qh_enabled = enabled,
      qh_stale = Default_Stale, qh_poll = None\<rparr>"

definition paged_hook ::
  "paging \<Rightarrow> key_part list \<Rightarrow> string \<Rightarrow> (page_param \<Rightarrow> (string \<times> query_value) list) \<Rightarrow> bool \<Rightarrow> query_hook" where
  "paged_hook paging key path params enabled =
     \<lparr>qh_key = key, qh_paging = paging, qh_calls = (\<lambda>p. [get_call (withQuery path (params p))]), qh_enabled = enabled,
      qh_stale = Default_Stale, qh_poll = None\<rparr>"

text \<open>\<open>getNextPageParam\<close> of the hooks that count pages: a full page has a next one.\<close>

definition next_page_number :: "nat \<Rightarrow> 'a list \<Rightarrow> 'a list list \<Rightarrow> nat option" where
  "next_page_number limit lastPage pages =
     (if length lastPage = limit then Some (length pages + 1) else None)"

definition text_value :: "string \<Rightarrow> query_value" where
  "text_value s = Q_Text (units_of s)"

text \<open>A template literal prints a missing number by its word.\<close>

definition number_text :: "string \<Rightarrow> int option \<Rightarrow> string" where
  "number_text missing x = (case x of None \<Rightarrow> missing | Some i \<Rightarrow> decimal_int i)"

section \<open>use-tracking.ts\<close>

datatype tracking_status = Watching | Completed | Plan_To_Watch | Dropped | On_Hold

definition status_text :: "tracking_status \<Rightarrow> string" where
  "status_text s =
     (case s of
        Watching \<Rightarrow> ''watching'' | Completed \<Rightarrow> ''completed'' | Plan_To_Watch \<Rightarrow> ''plan_to_watch''
      | Dropped \<Rightarrow> ''dropped'' | On_Hold \<Rightarrow> ''on_hold'')"

definition useTrackingLookup :: "lookup_target list \<Rightarrow> query_hook" where
  "useTrackingLookup targets =
     (let batches = buildTrackingLookupBatches targets;
          lookupKey = concat (map (map (\<lambda>item. ks (lookup_key item))) batches)
      in \<lparr>qh_key = [ks ''tracking'', ks ''lookup'', KL lookupKey], qh_paging = One_Answer,
          qh_calls = (\<lambda>_. map (\<lambda>its.
            \<lparr>hc_method = POST, hc_path = ''/tracking/lookup'', hc_body = Lookup_Items its\<rparr>) batches),
          qh_enabled = (0 < length batches), qh_stale = Default_Stale, qh_poll = None\<rparr>)"

definition useTrackingInfinite :: "tracking_status option \<Rightarrow> bool \<Rightarrow> query_hook" where
  "useTrackingInfinite status enabled =
     paged_hook (Counts_Pages 100) [ks ''tracking'', (case status of None \<Rightarrow> KNull | Some s \<Rightarrow> ks (status_text s)), ks ''infinite'']
       ''/tracking''
       (\<lambda>p. [(''status'', (case status of None \<Rightarrow> Q_Undefined | Some s \<Rightarrow> text_value (status_text s))),
             (''page'', page_number p), (''limit'', Q_Number 100)])
       enabled"

definition useWatchlistPreview :: "int \<Rightarrow> query_hook" where
  "useWatchlistPreview limit =
     paged_hook One_Answer [ks ''tracking'', ks ''plan_to_watch'', ks ''preview'', KN limit] ''/tracking''
       (\<lambda>_. [(''status'', text_value ''plan_to_watch''), (''page'', Q_Number 1), (''limit'', Q_Number limit)]) True"

definition useWatchedEpisodes :: "int option \<Rightarrow> int option \<Rightarrow> query_hook" where
  "useWatchedEpisodes tmdbId seasonNumber =
     simple_hook [ks ''watched-episodes'', knum tmdbId, knum seasonNumber]
       (''/history/tv/'' @ number_text ''undefined'' tmdbId @ ''/seasons/'' @ number_text ''null'' seasonNumber @ ''/episodes'')
       (tmdbId \<noteq> None \<and> tmdbId \<noteq> Some 0 \<and> (case seasonNumber of None \<Rightarrow> False | Some n \<Rightarrow> 0 \<le> n))"

definition useShowProgress :: "int option \<Rightarrow> query_hook" where
  "useShowProgress tmdbId =
     simple_hook [ks ''show-progress'', knum tmdbId]
       (''/history/tv/'' @ number_text ''undefined'' tmdbId @ ''/progress'')
       (tmdbId \<noteq> None \<and> tmdbId \<noteq> Some 0)"

section \<open>use-history.ts\<close>

definition historyKeys_all :: "key_part list" where "historyKeys_all = [ks ''history'']"
definition historyKeys_list :: "key_part list" where "historyKeys_list = [ks ''history'', ks ''list'']"

definition useHistory :: "bool \<Rightarrow> query_hook" where
  "useHistory enabled =
     paged_hook (Counts_Pages HISTORY_PAGE_LIMIT) historyKeys_list ''/history''
       (\<lambda>p. [(''page'', page_number p), (''limit'', Q_Number (int HISTORY_PAGE_LIMIT))]) enabled"

section \<open>use-calendar.ts\<close>

definition calendar_PAGE_LIMIT :: nat where "calendar_PAGE_LIMIT = 50"

datatype upcoming_type = Upcoming_All | Upcoming_Of media_type

definition upcoming_text :: "upcoming_type \<Rightarrow> string" where
  "upcoming_text t = (case t of Upcoming_All \<Rightarrow> ''all'' | Upcoming_Of m \<Rightarrow> media_type_text m)"

definition calendarKeys_all :: "key_part list" where "calendarKeys_all = [ks ''calendar'']"
definition calendarKeys_preferences :: "key_part list" where
  "calendarKeys_preferences = [ks ''calendar'', ks ''preferences'']"
definition calendarKeys_summary :: "string \<Rightarrow> key_part list" where
  "calendarKeys_summary today = [ks ''calendar'', ks ''summary'', ks today]"
definition calendarKeys_upNext :: "string \<Rightarrow> int \<Rightarrow> key_part list" where
  "calendarKeys_upNext today limit = [ks ''calendar'', ks ''up-next'', ks today, KN limit]"
definition calendarKeys_new :: "string \<Rightarrow> bool \<Rightarrow> key_part list" where
  "calendarKeys_new today includeSpecials = [ks ''calendar'', ks ''new'', ks today, KB includeSpecials]"
definition calendarKeys_upcoming :: "string \<Rightarrow> upcoming_type \<Rightarrow> bool \<Rightarrow> key_part list" where
  "calendarKeys_upcoming today type includeSpecials =
     [ks ''calendar'', ks ''upcoming'', ks today, ks (upcoming_text type), KB includeSpecials]"
definition calendarKeys_feed :: "key_part list" where "calendarKeys_feed = [ks ''calendar'', ks ''feed'']"

definition useCalendarFeedStatus :: "bool \<Rightarrow> query_hook" where
  "useCalendarFeedStatus enabled = simple_hook calendarKeys_feed ''/calendar/feed'' enabled"

definition useCalendarPreferences :: "bool \<Rightarrow> query_hook" where
  "useCalendarPreferences enabled = simple_hook calendarKeys_preferences ''/calendar/preferences'' enabled"

definition useCalendarSummary :: "string \<Rightarrow> query_hook" where
  "useCalendarSummary today =
     (simple_hook (calendarKeys_summary today) (withQuery ''/calendar/summary'' [(''today'', text_value today)]) True)
       \<lparr>qh_poll := Some 300000\<rparr>"

definition useUpNext :: "string \<Rightarrow> int \<Rightarrow> query_hook" where
  "useUpNext today limit =
     simple_hook (calendarKeys_upNext today limit)
       (withQuery ''/calendar/up-next''
         [(''today'', text_value today), (''limit'', Q_Number limit), (''include_specials'', Q_Bool False)]) True"

definition useNewEpisodes :: "string \<Rightarrow> bool \<Rightarrow> bool \<Rightarrow> query_hook" where
  "useNewEpisodes today includeSpecials enabled =
     paged_hook Cursor_Of_Page (calendarKeys_new today includeSpecials) ''/calendar/new''
       (\<lambda>p. [(''today'', text_value today), (''limit'', Q_Number (int calendar_PAGE_LIMIT)),
             (''include_specials'', Q_Bool includeSpecials)] @ cursor_fields p)
       enabled"

definition useUpcoming :: "string \<Rightarrow> upcoming_type \<Rightarrow> bool \<Rightarrow> bool \<Rightarrow> query_hook" where
  "useUpcoming today type includeSpecials enabled =
     paged_hook Cursor_Of_Page (calendarKeys_upcoming today type includeSpecials) ''/calendar/upcoming''
       (\<lambda>p. [(''today'', text_value today), (''limit'', Q_Number (int calendar_PAGE_LIMIT)),
             (''type'', text_value (upcoming_text type)), (''include_specials'', Q_Bool includeSpecials)] @ cursor_fields p)
       enabled"

section \<open>use-social.ts\<close>

datatype connection_kind = Followers | Following

definition kind_text :: "connection_kind \<Rightarrow> string" where
  "kind_text k = (case k of Followers \<Rightarrow> ''followers'' | Following \<Rightarrow> ''following'')"

definition socialKeys_all :: "key_part list" where "socialKeys_all = [ks ''social'']"
definition socialKeys_feed :: "key_part list" where "socialKeys_feed = [ks ''social'', ks ''feed'']"
definition socialKeys_search :: "jstr \<Rightarrow> key_part list" where
  "socialKeys_search query = [ks ''social'', ks ''search'', KS query]"
definition socialKeys_profile :: "string \<Rightarrow> key_part list" where
  "socialKeys_profile username = [ks ''social'', ks ''profile'', ks username]"
definition socialKeys_activity :: "string \<Rightarrow> key_part list" where
  "socialKeys_activity username = [ks ''social'', ks ''activity'', ks username]"
definition socialKeys_requests :: "key_part list" where "socialKeys_requests = [ks ''social'', ks ''requests'']"
definition socialKeys_connections :: "connection_kind \<Rightarrow> key_part list" where
  "socialKeys_connections kind = [ks ''social'', ks (kind_text kind)]"
definition socialKeys_profileConnections :: "string \<Rightarrow> connection_kind \<Rightarrow> key_part list" where
  "socialKeys_profileConnections username kind =
     [ks ''social'', ks ''connections'', ks (to_lower username), ks (kind_text kind)]"

definition social_page :: "page_param \<Rightarrow> (string \<times> query_value) list" where
  "social_page p = [(''page'', page_number p), (''limit'', Q_Number (int SOCIAL_PAGE_LIMIT))]"

definition useSocialFeed :: "bool \<Rightarrow> query_hook" where
  "useSocialFeed enabled =
     paged_hook Activity_Cursor socialKeys_feed ''/users/me/feed''
       (\<lambda>p. (''limit'', Q_Number (int SOCIAL_PAGE_LIMIT)) # cursor_fields p) enabled"

definition usePeopleSearch :: "jstr \<Rightarrow> bool \<Rightarrow> query_hook" where
  "usePeopleSearch query enabled =
     (let normalized = js_trim query
      in paged_hook Until_Has_More_Ends (socialKeys_search normalized) ''/users/search''
           (\<lambda>p. (''q'', Q_Text normalized) # social_page p)
           (enabled \<and> isValidPeopleSearch normalized))"

definition usePublicUserProfile :: "string \<Rightarrow> bool \<Rightarrow> query_hook" where
  "usePublicUserProfile username enabled =
     simple_hook (socialKeys_profile username) (''/users/'' @ encodeURIComponent username)
       (enabled \<and> 0 < length username)"

definition usePublicUserActivity :: "string \<Rightarrow> bool \<Rightarrow> query_hook" where
  "usePublicUserActivity username enabled =
     paged_hook (Counts_Pages SOCIAL_PAGE_LIMIT) (socialKeys_activity username) (''/users/'' @ encodeURIComponent username @ ''/activity'') social_page
       (enabled \<and> 0 < length username)"

definition useFollowRequests :: "bool \<Rightarrow> query_hook" where
  "useFollowRequests enabled = paged_hook (Counts_Pages SOCIAL_PAGE_LIMIT) socialKeys_requests ''/users/me/follow-requests'' social_page enabled"

definition useConnections :: "connection_kind \<Rightarrow> bool \<Rightarrow> query_hook" where
  "useConnections kind enabled =
     paged_hook (Counts_Pages SOCIAL_PAGE_LIMIT) (socialKeys_connections kind) (''/users/me/'' @ kind_text kind) social_page enabled"

definition useProfileConnections :: "string \<Rightarrow> connection_kind \<Rightarrow> bool \<Rightarrow> query_hook" where
  "useProfileConnections username kind enabled =
     paged_hook (Counts_Pages SOCIAL_PAGE_LIMIT) (socialKeys_profileConnections username kind)
       (''/users/'' @ encodeURIComponent username @ ''/'' @ kind_text kind) social_page
       (enabled \<and> 0 < length username)"

section \<open>use-stats.ts\<close>

definition STATS_STALE_TIME :: nat where "STATS_STALE_TIME = 60000"

text \<open>\<open>-getTimezoneOffset()\<close>, read at each call, is an argument here.\<close>

definition stats_request :: "key_part list \<Rightarrow> string \<Rightarrow> bool \<Rightarrow> query_hook" where
  "stats_request key path enabled = (simple_hook key path enabled)\<lparr>qh_stale := Stale_After STATS_STALE_TIME\<rparr>"

definition useMyStats :: "int \<Rightarrow> bool \<Rightarrow> query_hook" where
  "useMyStats offset enabled =
     stats_request [ks ''stats'', ks ''me'', KN offset]
       (withQuery ''/stats/me'' [(''utc_offset_minutes'', Q_Number offset)]) enabled"

definition useHeatmap :: "int \<Rightarrow> int \<Rightarrow> bool \<Rightarrow> query_hook" where
  "useHeatmap year offset enabled =
     stats_request [ks ''stats'', ks ''heatmap'', KN year, KN offset]
       (withQuery ''/stats/me/heatmap'' [(''year'', Q_Number year), (''utc_offset_minutes'', Q_Number offset)]) enabled"

definition useGenreDistribution :: "bool \<Rightarrow> query_hook" where
  "useGenreDistribution enabled = stats_request [ks ''stats'', ks ''genres''] ''/stats/me/genres'' enabled"

definition useMonthlyActivity :: "int \<Rightarrow> bool \<Rightarrow> query_hook" where
  "useMonthlyActivity offset enabled =
     stats_request [ks ''stats'', ks ''monthly'', KN offset]
       (withQuery ''/stats/me/monthly'' [(''utc_offset_minutes'', Q_Number offset)]) enabled"

text \<open>The call is the one \<open>fetchWrapped\<close> makes for a year it accepts.\<close>

definition useWrapped :: "int \<Rightarrow> int \<Rightarrow> bool \<Rightarrow> query_hook" where
  "useWrapped year offset enabled =
     stats_request [ks ''stats'', ks ''wrapped'', KN year]
       (withQuery ''/stats/me/wrapped'' [(''year'', Q_Number year), (''utc_offset_minutes'', Q_Number offset)]) enabled"

section \<open>use-lists.ts\<close>

definition listKeys_all :: "key_part list" where "listKeys_all = [ks ''lists'']"
definition listKeys_mine :: "key_part list" where "listKeys_mine = [ks ''lists'', ks ''mine'']"
definition listKeys_detail :: "string \<Rightarrow> key_part list" where "listKeys_detail i = [ks ''lists'', ks ''detail'', ks i]"

definition useMyLists :: "bool \<Rightarrow> query_hook" where
  "useMyLists enabled =
     simple_hook listKeys_mine (withQuery ''/lists/me'' [(''page'', Q_Number 1), (''limit'', Q_Number 50)]) enabled"

definition useList :: "string option \<Rightarrow> query_hook" where
  "useList i =
     (let key = (case i of None \<Rightarrow> [] | Some x \<Rightarrow> x)
      in simple_hook (listKeys_detail key) (''/lists/'' @ encodeURIComponent key) (key \<noteq> []))"

section \<open>use-media.ts\<close>

text \<open>\<open>lib/locale.ts\<close> gives the language of the first two hooks; it is an argument.\<close>

definition useMediaSearch :: "jstr \<Rightarrow> media_type option \<Rightarrow> string \<Rightarrow> query_hook" where
  "useMediaSearch query type language =
     paged_hook Until_Last_Search_Page [ks ''media-search'', KS query, (case type of None \<Rightarrow> KNull | Some t \<Rightarrow> ktype t), ks language] ''/media/search''
       (\<lambda>p. [(''q'', Q_Text query), (''page'', page_number p), (''language'', text_value language),
             (''type'', (case type of None \<Rightarrow> Q_Undefined | Some t \<Rightarrow> text_value (media_type_text t)))])
       (2 \<le> length query)"

text \<open>\<open>getNextPageParam\<close> of the search: the service has at most 500 pages.\<close>

definition next_search_page :: "nat \<Rightarrow> nat \<Rightarrow> nat option" where
  "next_search_page page total_pages = (if page < min total_pages 500 then Some (page + 1) else None)"

definition useDiscovery :: "string \<Rightarrow> query_hook" where
  "useDiscovery language =
     (simple_hook [ks ''discovery'', ks language] (withQuery ''/media/discovery'' [(''language'', text_value language)]) True)
       \<lparr>qh_stale := Stale_After 600000\<rparr>"

definition useMediaDetail :: "string \<Rightarrow> media_type \<Rightarrow> string \<Rightarrow> query_hook" where
  "useMediaDetail i type language =
     simple_hook [ks ''media'', ks i, ktype type, ks language]
       (withQuery (''/media/'' @ i)
         [(''type'', text_value (media_type_text type)), (''language'', text_value language)])
       (i \<noteq> [])"

definition useWatchProviders :: "string \<Rightarrow> media_type \<Rightarrow> query_hook" where
  "useWatchProviders i type =
     (simple_hook [ks ''watch-providers'', ks i, ktype type]
       (withQuery (''/media/'' @ encodeURIComponent i @ ''/watch-providers'') [(''type'', text_value (media_type_text type))])
       (i \<noteq> []))\<lparr>qh_stale := Stale_After 3600000\<rparr>"

definition useCommunityRating :: "string \<Rightarrow> media_type \<Rightarrow> query_hook" where
  "useCommunityRating i type =
     (simple_hook [ks ''community-rating'', ks i, ktype type]
       (withQuery (''/media/'' @ encodeURIComponent i @ ''/community-rating'') [(''type'', text_value (media_type_text type))])
       (i \<noteq> []))\<lparr>qh_stale := Stale_After 600000\<rparr>"

definition useSeasons :: "string \<Rightarrow> bool \<Rightarrow> query_hook" where
  "useSeasons i enabled =
     simple_hook [ks ''seasons'', ks i] (''/media/'' @ i @ ''/seasons'') (i \<noteq> [] \<and> enabled)"

definition useEpisodes :: "string \<Rightarrow> int option \<Rightarrow> query_hook" where
  "useEpisodes i seasonNumber =
     simple_hook [ks ''episodes'', ks i, knum seasonNumber]
       (''/media/'' @ i @ ''/seasons/'' @ number_text ''null'' seasonNumber @ ''/episodes'')
       (i \<noteq> [] \<and> (case seasonNumber of None \<Rightarrow> False | Some n \<Rightarrow> 0 \<le> n))"

definition useEpisodeDetail :: "string \<Rightarrow> query_hook" where
  "useEpisodeDetail i = simple_hook [ks ''episode'', ks i] (''/media/episodes/'' @ i) (i \<noteq> [])"

section \<open>The other hooks\<close>

text \<open>\<open>use-community-safety.ts\<close> and \<open>use-badges.ts\<close>; \<open>local\<close> says whether there is a local session.\<close>

definition BLOCKS_PAGE_SIZE :: nat where "BLOCKS_PAGE_SIZE = 50"
definition safetyKeys_all :: "key_part list" where "safetyKeys_all = [ks ''community-safety'']"
definition safetyKeys_blocks :: "key_part list" where "safetyKeys_blocks = [ks ''community-safety'', ks ''blocks'']"
definition safetyKeys_reports :: "key_part list" where "safetyKeys_reports = [ks ''community-safety'', ks ''reports'']"

definition useBlockedUsers :: query_hook where
  "useBlockedUsers =
     paged_hook (Counts_Pages BLOCKS_PAGE_SIZE) safetyKeys_blocks ''/users/me/blocks''
       (\<lambda>p. [(''page'', page_number p), (''limit'', Q_Number (int BLOCKS_PAGE_SIZE))]) True"

definition useBadges :: "bool \<Rightarrow> query_hook" where
  "useBadges local =
     (simple_hook [ks ''badges'', ks ''shelf''] ''/badges'' local)\<lparr>qh_stale := Stale_After 300000\<rparr>"

text \<open>\<open>use-import.ts\<close>: a job is asked for every two seconds until it is done.\<close>

datatype import_status = Import_Pending | Import_Running | Import_Completed | Import_Failed

definition importKeys_all :: "key_part list" where "importKeys_all = [ks ''imports'']"
definition importKeys_jobs :: "key_part list" where "importKeys_jobs = [ks ''imports'', ks ''jobs'']"
definition importKeys_job :: "string \<Rightarrow> key_part list" where "importKeys_job jobId = [ks ''imports'', ks ''job'', ks jobId]"

definition useImportJobs :: "bool \<Rightarrow> query_hook" where
  "useImportJobs enabled = simple_hook importKeys_jobs ''/import/jobs'' enabled"

definition useImportJob :: "string option \<Rightarrow> import_status option \<Rightarrow> bool \<Rightarrow> query_hook" where
  "useImportJob jobId status enabled =
     (let given = (case jobId of Some (c # cs) \<Rightarrow> True | _ \<Rightarrow> False)
      in (simple_hook
            (if given then importKeys_job (the jobId) else [ks ''imports'', ks ''job'', ks ''none''])
            (''/import/jobs/'' @ (case jobId of None \<Rightarrow> ''null'' | Some j \<Rightarrow> j))
            (enabled \<and> given))
          \<lparr>qh_poll := (if status = Some Import_Pending \<or> status = Some Import_Running then Some 2000 else None)\<rparr>)"

text \<open>\<open>use-account.ts\<close>; the list of sessions is asked for with the refresh token in the body.\<close>

definition accountKeys_all :: "key_part list" where "accountKeys_all = [ks ''account'']"
definition accountKeys_sessions :: "key_part list" where "accountKeys_sessions = [ks ''account'', ks ''sessions'']"
definition accountKeys_securityActivity :: "key_part list" where
  "accountKeys_securityActivity = [ks ''account'', ks ''security-activity'']"

definition useAccountSessions :: "string \<Rightarrow> bool \<Rightarrow> query_hook" where
  "useAccountSessions refreshToken enabled =
     (simple_hook accountKeys_sessions [] enabled)
       \<lparr>qh_calls := (\<lambda>_. [\<lparr>hc_method = POST, hc_path = ''/auth/mobile/sessions'',
         hc_body = Object [(''refresh_token'', text_value refreshToken)]\<rparr>])\<rparr>"

definition useSecurityActivity :: "bool \<Rightarrow> query_hook" where
  "useSecurityActivity enabled = simple_hook accountKeys_securityActivity ''/auth/security-activity'' enabled"

text \<open>\<open>use-messages.ts\<close> and \<open>use-notifications.ts\<close>.\<close>

definition EVENT_STREAM_FALLBACK_MS :: nat where "EVENT_STREAM_FALLBACK_MS = 120000"

definition messageKeys_all :: "key_part list" where "messageKeys_all = [ks ''messages'']"
definition messageKeys_summary :: "key_part list" where "messageKeys_summary = [ks ''messages'', ks ''summary'']"
definition messageKeys_conversations :: "key_part list" where
  "messageKeys_conversations = [ks ''messages'', ks ''conversations'']"
definition messageKeys_thread :: "string \<Rightarrow> key_part list" where
  "messageKeys_thread username = [ks ''messages'', ks ''thread'', ks (to_lower username)]"

definition poll_if :: "bool \<Rightarrow> nat option" where
  "poll_if poll = (if poll then Some EVENT_STREAM_FALLBACK_MS else None)"

definition useMessageSummary :: "bool \<Rightarrow> bool \<Rightarrow> query_hook" where
  "useMessageSummary enabled poll =
     (simple_hook messageKeys_summary ''/messages/summary'' enabled)\<lparr>qh_poll := poll_if poll\<rparr>"

definition useMessageConversations :: "bool \<Rightarrow> query_hook" where
  "useMessageConversations enabled =
     (paged_hook (Counts_Pages MESSAGE_CONVERSATION_PAGE_SIZE) messageKeys_conversations ''/messages''
       (\<lambda>p. [(''page'', page_number p), (''limit'', Q_Number (int MESSAGE_CONVERSATION_PAGE_SIZE))]) enabled)
       \<lparr>qh_poll := poll_if enabled\<rparr>"

definition useMessageThread :: "string \<Rightarrow> bool \<Rightarrow> query_hook" where
  "useMessageThread username enabled =
     (paged_hook Message_Cursor (messageKeys_thread username) (''/messages/'' @ encodeURIComponent username)
       (\<lambda>p. [(''limit'', Q_Number (int MESSAGE_THREAD_PAGE_SIZE)), (''before'', cursor_field p ''before''),
             (''before_id'', cursor_field p ''beforeId'')])
       (enabled \<and> 0 < length username))
       \<lparr>qh_poll := poll_if (enabled \<and> 0 < length username)\<rparr>"

definition notificationKeys_all :: "key_part list" where "notificationKeys_all = [ks ''notifications'']"
definition notificationKeys_summary :: "key_part list" where
  "notificationKeys_summary = [ks ''notifications'', ks ''summary'']"
definition notificationKeys_list :: "key_part list" where "notificationKeys_list = [ks ''notifications'', ks ''list'']"

definition fetchNotifications :: "nat \<Rightarrow> page_param \<Rightarrow> (string \<times> query_value) list" where
  "fetchNotifications limit p =
     [(''limit'', Q_Number (int limit)), (''before'', cursor_field p ''before''), (''before_id'', cursor_field p ''beforeId'')]"

definition useNotificationSummary :: "bool \<Rightarrow> bool \<Rightarrow> query_hook" where
  "useNotificationSummary enabled poll =
     (paged_hook One_Answer notificationKeys_summary ''/notifications'' (\<lambda>_. fetchNotifications 5 Whole) enabled)
       \<lparr>qh_poll := poll_if poll\<rparr>"

definition useNotifications :: "bool \<Rightarrow> query_hook" where
  "useNotifications enabled = paged_hook Notification_Cursor notificationKeys_list ''/notifications'' (fetchNotifications 20) enabled"

text \<open>\<open>use-encryption.ts\<close>.\<close>

definition encryptionKeys_status :: "key_part list" where "encryptionKeys_status = [ks ''encryption'', ks ''status'']"
definition encryptionKeys_backup :: "key_part list" where "encryptionKeys_backup = [ks ''encryption'', ks ''backup'']"
definition encryptionKeys_peer :: "string \<Rightarrow> key_part list" where
  "encryptionKeys_peer username = [ks ''encryption'', ks ''peer'', ks (to_lower username)]"

definition useKeyStatus :: "bool \<Rightarrow> query_hook" where
  "useKeyStatus local = (simple_hook encryptionKeys_status ''/encryption/keys'' local)\<lparr>qh_stale := Never_Stale\<rparr>"

definition usePeerKeys :: "string \<Rightarrow> bool \<Rightarrow> query_hook" where
  "usePeerKeys username enabled =
     (simple_hook (encryptionKeys_peer username) (''/encryption/keys/'' @ encodeURIComponent username)
       (enabled \<and> username \<noteq> []))\<lparr>qh_stale := Stale_After 300000\<rparr>"

definition usePasswordCopyState :: "bool \<Rightarrow> bool \<Rightarrow> query_hook" where
  "usePasswordCopyState local hasKeys =
     (simple_hook encryptionKeys_backup ''/encryption/keys/backup'' (local \<and> hasKeys))\<lparr>qh_stale := Never_Stale\<rparr>"

section \<open>All of them\<close>

text \<open>A query of the app: the hook and its arguments, without the flag that enables it.\<close>

datatype library_query =
    Q_Tracking_Lookup "lookup_target list"
  | Q_Tracking "tracking_status option"
  | Q_Watchlist int
  | Q_Watched_Episodes "int option" "int option"
  | Q_Show_Progress "int option"
  | Q_History

datatype calendar_query =
    Q_Calendar_Feed
  | Q_Calendar_Preferences
  | Q_Calendar_Summary string
  | Q_Up_Next string int
  | Q_New_Episodes string bool
  | Q_Upcoming string upcoming_type bool

datatype social_query =
    Q_Social_Feed
  | Q_People_Search jstr
  | Q_Profile string
  | Q_Activity string
  | Q_Follow_Requests
  | Q_Connections connection_kind
  | Q_Profile_Connections string connection_kind
  | Q_Blocked_Users

datatype stats_query =
    Q_My_Stats int
  | Q_Heatmap int int
  | Q_Genres
  | Q_Monthly int
  | Q_Wrapped int int
  | Q_Badges

datatype media_query =
    Q_Media_Search jstr "media_type option" string
  | Q_Discovery string
  | Q_Media_Detail string media_type string
  | Q_Watch_Providers string media_type
  | Q_Community_Rating string media_type
  | Q_Seasons string
  | Q_Episodes string "int option"
  | Q_Episode_Detail string

datatype account_query =
    Q_My_Lists
  | Q_List "string option"
  | Q_Import_Jobs
  | Q_Import_Job "string option" "import_status option"
  | Q_Account_Sessions string
  | Q_Security_Activity

datatype contact_query =
    Q_Message_Summary bool
  | Q_Conversations
  | Q_Thread string
  | Q_Notification_Summary bool
  | Q_Notifications
  | Q_Key_Status
  | Q_Peer_Keys string
  | Q_Password_Copy bool

datatype app_query =
    Library library_query
  | Calendar calendar_query
  | Social social_query
  | Stats stats_query
  | Media media_query
  | Account account_query
  | Contact contact_query

primrec library_hook :: "library_query \<Rightarrow> query_hook" where
  "library_hook (Q_Tracking_Lookup targets) = useTrackingLookup targets"
| "library_hook (Q_Tracking status) = useTrackingInfinite status True"
| "library_hook (Q_Watchlist limit) = useWatchlistPreview limit"
| "library_hook (Q_Watched_Episodes t n) = useWatchedEpisodes t n"
| "library_hook (Q_Show_Progress t) = useShowProgress t"
| "library_hook Q_History = useHistory True"

primrec calendar_hook :: "calendar_query \<Rightarrow> query_hook" where
  "calendar_hook Q_Calendar_Feed = useCalendarFeedStatus True"
| "calendar_hook Q_Calendar_Preferences = useCalendarPreferences True"
| "calendar_hook (Q_Calendar_Summary today) = useCalendarSummary today"
| "calendar_hook (Q_Up_Next today limit) = useUpNext today limit"
| "calendar_hook (Q_New_Episodes today specials) = useNewEpisodes today specials True"
| "calendar_hook (Q_Upcoming today type specials) = useUpcoming today type specials True"

primrec social_hook :: "social_query \<Rightarrow> query_hook" where
  "social_hook Q_Social_Feed = useSocialFeed True"
| "social_hook (Q_People_Search q) = usePeopleSearch q True"
| "social_hook (Q_Profile u) = usePublicUserProfile u True"
| "social_hook (Q_Activity u) = usePublicUserActivity u True"
| "social_hook Q_Follow_Requests = useFollowRequests True"
| "social_hook (Q_Connections kind) = useConnections kind True"
| "social_hook (Q_Profile_Connections u kind) = useProfileConnections u kind True"
| "social_hook Q_Blocked_Users = useBlockedUsers"

primrec stats_hook :: "stats_query \<Rightarrow> query_hook" where
  "stats_hook (Q_My_Stats offset) = useMyStats offset True"
| "stats_hook (Q_Heatmap year offset) = useHeatmap year offset True"
| "stats_hook Q_Genres = useGenreDistribution True"
| "stats_hook (Q_Monthly offset) = useMonthlyActivity offset True"
| "stats_hook (Q_Wrapped year offset) = useWrapped year offset True"
| "stats_hook Q_Badges = useBadges True"

primrec media_hook :: "media_query \<Rightarrow> query_hook" where
  "media_hook (Q_Media_Search q type language) = useMediaSearch q type language"
| "media_hook (Q_Discovery language) = useDiscovery language"
| "media_hook (Q_Media_Detail i type language) = useMediaDetail i type language"
| "media_hook (Q_Watch_Providers i type) = useWatchProviders i type"
| "media_hook (Q_Community_Rating i type) = useCommunityRating i type"
| "media_hook (Q_Seasons i) = useSeasons i True"
| "media_hook (Q_Episodes i n) = useEpisodes i n"
| "media_hook (Q_Episode_Detail i) = useEpisodeDetail i"

primrec account_hook :: "account_query \<Rightarrow> query_hook" where
  "account_hook Q_My_Lists = useMyLists True"
| "account_hook (Q_List i) = useList i"
| "account_hook Q_Import_Jobs = useImportJobs True"
| "account_hook (Q_Import_Job jobId status) = useImportJob jobId status True"
| "account_hook (Q_Account_Sessions token) = useAccountSessions token True"
| "account_hook Q_Security_Activity = useSecurityActivity True"

primrec contact_hook :: "contact_query \<Rightarrow> query_hook" where
  "contact_hook (Q_Message_Summary poll) = useMessageSummary True poll"
| "contact_hook Q_Conversations = useMessageConversations True"
| "contact_hook (Q_Thread u) = useMessageThread u True"
| "contact_hook (Q_Notification_Summary poll) = useNotificationSummary True poll"
| "contact_hook Q_Notifications = useNotifications True"
| "contact_hook Q_Key_Status = useKeyStatus True"
| "contact_hook (Q_Peer_Keys u) = usePeerKeys u True"
| "contact_hook (Q_Password_Copy has_keys) = usePasswordCopyState True has_keys"

primrec query_hook_of :: "app_query \<Rightarrow> query_hook" where
  "query_hook_of (Library q) = library_hook q"
| "query_hook_of (Calendar q) = calendar_hook q"
| "query_hook_of (Social q) = social_hook q"
| "query_hook_of (Stats q) = stats_hook q"
| "query_hook_of (Media q) = media_hook q"
| "query_hook_of (Account q) = account_hook q"
| "query_hook_of (Contact q) = contact_hook q"

definition key_of :: "app_query \<Rightarrow> key_part list" where "key_of q = qh_key (query_hook_of q)"
definition calls_of :: "app_query \<Rightarrow> page_param \<Rightarrow> hook_call list" where "calls_of q = qh_calls (query_hook_of q)"
definition enabled_of :: "app_query \<Rightarrow> bool" where "enabled_of q = qh_enabled (query_hook_of q)"

end
