(* ===== verification/Query_Claims.thy ===== *)
theory Query_Claims
  imports Query_Hooks "HOL-Library.Sublist"
begin

text \<open>
  What the cache keys of the mobile client are worth: two enabled queries with the same key make the
  same requests, so an answer in the cache is the answer to the request of whoever reads it.
\<close>

section \<open>Cache keys by their first part\<close>

text \<open>What a client relies on of its keys: each begins with a text that the query alone determines. The filter of
  an invalidation then selects by this text and what follows it.\<close>

locale rooted_keys =
  fixes key :: "'q \<Rightarrow> key_part list" and root_text :: "'q \<Rightarrow> string"
  assumes rooted: "key q \<noteq> [] \<and> hd (key q) = ks (root_text q)"
begin

lemma same_root: "key q = key q' \<Longrightarrow> root_text q = root_text q'"
  using rooted [of q] rooted [of q'] by (metis ks_inject)

lemma prefix_filter: "prefix (ks r # fs) (key q) \<longleftrightarrow> root_text q = r \<and> prefix fs (tl (key q))"
  using rooted [of q] by (cases "key q") auto

end

text \<open>The first text also tells which group of hooks a query is of.\<close>

locale grouped_keys = rooted_keys key root_text
  for key :: "'q \<Rightarrow> key_part list" and root_text :: "'q \<Rightarrow> string" +
  fixes group :: "'q \<Rightarrow> nat" and group_of_text :: "string \<Rightarrow> nat"
  assumes group_by_text: "group q = group_of_text (root_text q)"
begin

lemma same_group: "key q = key q' \<Longrightarrow> group q = group q'"
  unfolding group_by_text by (rule arg_cong [OF same_root])

end

section \<open>Keys\<close>

lemma ks_distinct [simp]:
  "ks s \<noteq> KN i" "ks s \<noteq> KB b" "ks s \<noteq> KNull" "ks s \<noteq> KL xs"
  "KN i \<noteq> ks s" "KB b \<noteq> ks s" "KNull \<noteq> ks s" "KL xs \<noteq> ks s"
  by (simp_all add: ks_def)

lemma ktype_distinct [simp]: "ktype m \<noteq> KNull" "KNull \<noteq> ktype m"
  by (simp_all add: ktype_def)

lemma KS_ks [simp]: "KS q = ks s \<longleftrightarrow> q = units_of s" "ks s = KS q \<longleftrightarrow> units_of s = q"
  by (simp_all add: ks_def)

lemma status_text_inject [simp]: "status_text s = status_text t \<longleftrightarrow> s = t"
  by (cases s; cases t) (simp_all add: status_text_def)

lemma kind_text_inject [simp]: "kind_text k = kind_text l \<longleftrightarrow> k = l"
  by (cases k; cases l) (simp_all add: kind_text_def)

lemma upcoming_text_inject [simp]: "upcoming_text s = upcoming_text t \<longleftrightarrow> s = t"
  by (cases s; cases t) (auto simp: upcoming_text_def media_type_text_def split: media_type.splits)

text \<open>A valid title is its key.\<close>

lemma lookup_key_inject:
  assumes "valid_target a" "valid_target b" "lookup_key a = lookup_key b"
  shows "a = b"
proof -
  have num: "lt_tmdb_id t = of_int \<lfloor>lt_tmdb_id t\<rfloor>" "0 < \<lfloor>lt_tmdb_id t\<rfloor>" if "valid_target t" for t
  proof -
    obtain n d where q: "quotient_of (lt_tmdb_id t) = (n, d)" by (cases "quotient_of (lt_tmdb_id t)")
    with that have "d = 1" by (simp add: valid_target_def is_integer_def)
    with q have v: "lt_tmdb_id t = of_int n" using quotient_of_div [OF q] by simp
    then show "lt_tmdb_id t = of_int \<lfloor>lt_tmdb_id t\<rfloor>" by simp
    from v that show "0 < \<lfloor>lt_tmdb_id t\<rfloor>" by (simp add: valid_target_def)
  qed
  have int_text: "decimal_int i = decimal_int j \<Longrightarrow> 0 < i \<Longrightarrow> 0 < j \<Longrightarrow> i = j" for i j
    by (simp add: decimal_int_def decimal_inj)
  have "lt_media_type a = lt_media_type b \<and>
    decimal_int \<lfloor>lt_tmdb_id a\<rfloor> = decimal_int \<lfloor>lt_tmdb_id b\<rfloor>"
    using assms(3) by (auto simp: lookup_key_def media_type_text_def split: media_type.splits)
  with num [OF assms(1)] num [OF assms(2)] int_text have "lt_media_type a = lt_media_type b" "lt_tmdb_id a = lt_tmdb_id b"
    by metis+
  then show ?thesis by simp
qed

lemma lookup_keys_inject:
  assumes "list_all valid_target xs" "list_all valid_target ys" "map lookup_key xs = map lookup_key ys"
  shows "xs = ys"
  using assms
proof (induction xs arbitrary: ys)
  case (Cons x xs)
  then show ?case by (cases ys) (auto dest: lookup_key_inject)
qed simp

lemma lookup_batches_of_key:
  assumes "map lookup_key (concat (buildTrackingLookupBatches ts)) = map lookup_key (concat (buildTrackingLookupBatches us))"
  shows "buildTrackingLookupBatches ts = buildTrackingLookupBatches us"
proof -
  have c: "concat (buildTrackingLookupBatches ts) = keep_last lookup_key (filter valid_target ts)" for ts
    by (simp add: buildTrackingLookupBatches_def LOOKUP_BATCH_SIZE_def concat_chunks)
  have v: "list_all valid_target (keep_last lookup_key (filter valid_target ts))" for ts
    using keep_last_subset [of lookup_key "filter valid_target ts"] by (auto simp: list_all_iff)
  have "keep_last lookup_key (filter valid_target ts) = keep_last lookup_key (filter valid_target us)"
    using lookup_keys_inject [OF v v] assms unfolding c .
  then show ?thesis by (simp add: buildTrackingLookupBatches_def)
qed

lemma map_ks [simp]: "map (\<lambda>x. ks (f x)) xs = map (\<lambda>x. ks (f x)) ys \<longleftrightarrow> map f xs = map f ys"
proof -
  have "inj ks" by (rule injI) simp
  then have "map ks (map f xs) = map ks (map f ys) \<longleftrightarrow> map f xs = map f ys" by (rule inj_map_eq_map)
  then show ?thesis by (simp add: comp_def)
qed

section \<open>One group of hooks after the other\<close>

lemmas hook_defs = simple_hook_def paged_hook_def stats_request_def Let_def

lemma library_keys:
  "qh_key (library_hook q) = qh_key (library_hook q') \<Longrightarrow> qh_calls (library_hook q) p = qh_calls (library_hook q') p"
  by (cases q; cases q')
    (auto simp: hook_defs useTrackingLookup_def useTrackingInfinite_def useWatchlistPreview_def
      useWatchedEpisodes_def useShowProgress_def useHistory_def historyKeys_list_def map_concat [symmetric]
      dest: lookup_batches_of_key split: option.splits)

lemma calendar_keys:
  "qh_key (calendar_hook q) = qh_key (calendar_hook q') \<Longrightarrow> qh_calls (calendar_hook q) p = qh_calls (calendar_hook q') p"
  by (cases q; cases q')
    (auto simp: hook_defs useCalendarFeedStatus_def useCalendarPreferences_def useCalendarSummary_def useUpNext_def
      useNewEpisodes_def useUpcoming_def calendarKeys_feed_def calendarKeys_preferences_def calendarKeys_summary_def
      calendarKeys_upNext_def calendarKeys_new_def calendarKeys_upcoming_def)

lemma media_keys:
  "qh_key (media_hook q) = qh_key (media_hook q') \<Longrightarrow> qh_calls (media_hook q) p = qh_calls (media_hook q') p"
  by (cases q; cases q')
    (auto simp: hook_defs useMediaSearch_def useDiscovery_def useMediaDetail_def useWatchProviders_def
      useCommunityRating_def useSeasons_def useEpisodes_def useEpisodeDetail_def split: option.splits)


text \<open>What two reads of one resource may differ in: the case of a username, which the server ignores, and the
  refresh token, which names the session that asks.\<close>

fun same_resource :: "app_query \<Rightarrow> app_query \<Rightarrow> bool" where
  "same_resource (Social (Q_Profile_Connections u k)) (Social (Q_Profile_Connections v l)) \<longleftrightarrow>
     to_lower u = to_lower v \<and> k = l"
| "same_resource (Contact (Q_Thread u)) (Contact (Q_Thread v)) \<longleftrightarrow> to_lower u = to_lower v"
| "same_resource (Contact (Q_Peer_Keys u)) (Contact (Q_Peer_Keys v)) \<longleftrightarrow> to_lower u = to_lower v"
| "same_resource (Account (Q_Account_Sessions _)) (Account (Q_Account_Sessions _)) \<longleftrightarrow> True"
| "same_resource _ _ \<longleftrightarrow> False"

lemma social_keys:
  "qh_key (social_hook q) = qh_key (social_hook q') \<Longrightarrow>
   qh_calls (social_hook q) p = qh_calls (social_hook q') p \<or> same_resource (Social q) (Social q')"
  by (cases q; cases q')
    (auto simp: hook_defs useSocialFeed_def usePeopleSearch_def usePublicUserProfile_def usePublicUserActivity_def
      useFollowRequests_def useConnections_def useProfileConnections_def useBlockedUsers_def socialKeys_feed_def
      socialKeys_search_def socialKeys_profile_def socialKeys_activity_def socialKeys_requests_def
      socialKeys_connections_def socialKeys_profileConnections_def safetyKeys_blocks_def kind_text_def
      split: connection_kind.splits)

lemma stats_keys:
  "qh_key (stats_hook q) = qh_key (stats_hook q') \<Longrightarrow>
   qh_calls (stats_hook q) p = qh_calls (stats_hook q') p \<or> (\<exists>y a b. q = Q_Wrapped y a \<and> q' = Q_Wrapped y b)"
  by (cases q; cases q')
    (auto simp: hook_defs useMyStats_def useHeatmap_def useGenreDistribution_def useMonthlyActivity_def
      useWrapped_def useBadges_def)

lemma account_keys:
  "qh_key (account_hook q) = qh_key (account_hook q') \<Longrightarrow> qh_enabled (account_hook q) \<Longrightarrow> qh_enabled (account_hook q') \<Longrightarrow>
   qh_calls (account_hook q) p = qh_calls (account_hook q') p \<or> same_resource (Account q) (Account q')"
  by (cases q; cases q')
    (auto simp: hook_defs useMyLists_def useList_def useImportJobs_def useImportJob_def useAccountSessions_def
      useSecurityActivity_def listKeys_mine_def listKeys_detail_def importKeys_jobs_def importKeys_job_def
      accountKeys_sessions_def accountKeys_securityActivity_def split: option.splits list.splits)

lemma contact_keys:
  "qh_key (contact_hook q) = qh_key (contact_hook q') \<Longrightarrow>
   qh_calls (contact_hook q) p = qh_calls (contact_hook q') p \<or> same_resource (Contact q) (Contact q')"
  by (cases q; cases q')
    (auto simp: hook_defs useMessageSummary_def useMessageConversations_def useMessageThread_def
      useNotificationSummary_def useNotifications_def useKeyStatus_def usePeerKeys_def usePasswordCopyState_def
      messageKeys_summary_def messageKeys_conversations_def messageKeys_thread_def notificationKeys_summary_def
      notificationKeys_list_def encryptionKeys_status_def encryptionKeys_backup_def encryptionKeys_peer_def)

section \<open>The first part of a key\<close>

primrec library_root :: "library_query \<Rightarrow> string" where
  "library_root (Q_Tracking_Lookup _) = ''tracking''"
| "library_root (Q_Tracking _) = ''tracking''"
| "library_root (Q_Watchlist _) = ''tracking''"
| "library_root (Q_Watched_Episodes _ _) = ''watched-episodes''"
| "library_root (Q_Show_Progress _) = ''show-progress''"
| "library_root Q_History = ''history''"

definition social_root :: "social_query \<Rightarrow> string" where
  "social_root q = (case q of Q_Blocked_Users \<Rightarrow> ''community-safety'' | _ \<Rightarrow> ''social'')"

definition stats_root :: "stats_query \<Rightarrow> string" where
  "stats_root q = (case q of Q_Badges \<Rightarrow> ''badges'' | _ \<Rightarrow> ''stats'')"

primrec media_root :: "media_query \<Rightarrow> string" where
  "media_root (Q_Media_Search _ _ _) = ''media-search''"
| "media_root (Q_Discovery _) = ''discovery''"
| "media_root (Q_Media_Detail _ _ _) = ''media''"
| "media_root (Q_Watch_Providers _ _) = ''watch-providers''"
| "media_root (Q_Community_Rating _ _) = ''community-rating''"
| "media_root (Q_Seasons _) = ''seasons''"
| "media_root (Q_Episodes _ _) = ''episodes''"
| "media_root (Q_Episode_Detail _) = ''episode''"

primrec account_root :: "account_query \<Rightarrow> string" where
  "account_root Q_My_Lists = ''lists''"
| "account_root (Q_List _) = ''lists''"
| "account_root Q_Import_Jobs = ''imports''"
| "account_root (Q_Import_Job _ _) = ''imports''"
| "account_root (Q_Account_Sessions _) = ''account''"
| "account_root Q_Security_Activity = ''account''"

primrec contact_root :: "contact_query \<Rightarrow> string" where
  "contact_root (Q_Message_Summary _) = ''messages''"
| "contact_root Q_Conversations = ''messages''"
| "contact_root (Q_Thread _) = ''messages''"
| "contact_root (Q_Notification_Summary _) = ''notifications''"
| "contact_root Q_Notifications = ''notifications''"
| "contact_root Q_Key_Status = ''encryption''"
| "contact_root (Q_Peer_Keys _) = ''encryption''"
| "contact_root (Q_Password_Copy _) = ''encryption''"

primrec root_of :: "app_query \<Rightarrow> string" where
  "root_of (Library q) = library_root q"
| "root_of (Calendar q) = ''calendar''"
| "root_of (Social q) = social_root q"
| "root_of (Stats q) = stats_root q"
| "root_of (Media q) = media_root q"
| "root_of (Account q) = account_root q"
| "root_of (Contact q) = contact_root q"

lemma hd_library: "qh_key (library_hook q) \<noteq> [] \<and> hd (qh_key (library_hook q)) = ks (library_root q)"
  by (cases q) (simp_all add: hook_defs useTrackingLookup_def useTrackingInfinite_def useWatchlistPreview_def
      useWatchedEpisodes_def useShowProgress_def useHistory_def historyKeys_list_def)

lemma hd_calendar: "qh_key (calendar_hook q) \<noteq> [] \<and> hd (qh_key (calendar_hook q)) = ks ''calendar''"
  by (cases q) (simp_all add: hook_defs useCalendarFeedStatus_def useCalendarPreferences_def useCalendarSummary_def
      useUpNext_def useNewEpisodes_def useUpcoming_def calendarKeys_feed_def calendarKeys_preferences_def
      calendarKeys_summary_def calendarKeys_upNext_def calendarKeys_new_def calendarKeys_upcoming_def)

lemma hd_social: "qh_key (social_hook q) \<noteq> [] \<and> hd (qh_key (social_hook q)) = ks (social_root q)"
  by (cases q) (simp_all add: hook_defs useSocialFeed_def usePeopleSearch_def usePublicUserProfile_def
      usePublicUserActivity_def useFollowRequests_def useConnections_def useProfileConnections_def useBlockedUsers_def
      socialKeys_feed_def socialKeys_search_def socialKeys_profile_def socialKeys_activity_def socialKeys_requests_def
      socialKeys_connections_def socialKeys_profileConnections_def safetyKeys_blocks_def social_root_def)

lemma hd_stats: "qh_key (stats_hook q) \<noteq> [] \<and> hd (qh_key (stats_hook q)) = ks (stats_root q)"
  by (cases q) (simp_all add: hook_defs useMyStats_def useHeatmap_def useGenreDistribution_def useMonthlyActivity_def
      useWrapped_def useBadges_def stats_root_def)

lemma hd_media: "qh_key (media_hook q) \<noteq> [] \<and> hd (qh_key (media_hook q)) = ks (media_root q)"
  by (cases q) (simp_all add: hook_defs useMediaSearch_def useDiscovery_def useMediaDetail_def useWatchProviders_def
      useCommunityRating_def useSeasons_def useEpisodes_def useEpisodeDetail_def)

lemma hd_account: "qh_key (account_hook q) \<noteq> [] \<and> hd (qh_key (account_hook q)) = ks (account_root q)"
  by (cases q) (simp_all add: hook_defs useMyLists_def useList_def useImportJobs_def useImportJob_def
      useAccountSessions_def useSecurityActivity_def listKeys_mine_def listKeys_detail_def importKeys_jobs_def
      importKeys_job_def accountKeys_sessions_def accountKeys_securityActivity_def)

lemma hd_contact: "qh_key (contact_hook q) \<noteq> [] \<and> hd (qh_key (contact_hook q)) = ks (contact_root q)"
  by (cases q) (simp_all add: hook_defs useMessageSummary_def useMessageConversations_def useMessageThread_def
      useNotificationSummary_def useNotifications_def useKeyStatus_def usePeerKeys_def usePasswordCopyState_def
      messageKeys_summary_def messageKeys_conversations_def messageKeys_thread_def notificationKeys_summary_def
      notificationKeys_list_def encryptionKeys_status_def encryptionKeys_backup_def encryptionKeys_peer_def)

lemma hd_key_of: "key_of q \<noteq> [] \<and> hd (key_of q) = ks (root_of q)"
  by (cases q) (simp_all add: key_of_def hd_library hd_calendar hd_social hd_stats hd_media hd_account hd_contact)

text \<open>Two queries with the same first key part are in the same group.\<close>

primrec group_of :: "app_query \<Rightarrow> nat" where
  "group_of (Library _) = 0" | "group_of (Calendar _) = 1" | "group_of (Social _) = 2" | "group_of (Stats _) = 3"
| "group_of (Media _) = 4" | "group_of (Account _) = 5" | "group_of (Contact _) = 6"

definition root_group :: "string \<Rightarrow> nat" where
  "root_group r =
     (if r \<in> set [''tracking'', ''watched-episodes'', ''show-progress'', ''history''] then 0
      else if r = ''calendar'' then 1
      else if r \<in> set [''social'', ''community-safety''] then 2
      else if r \<in> set [''stats'', ''badges''] then 3
      else if r \<in> set [''lists'', ''imports'', ''account''] then 5
      else if r \<in> set [''messages'', ''notifications'', ''encryption''] then 6
      else 4)"

lemma group_of_root: "group_of q = root_group (root_of q)"
proof (cases q)
  case (Library x) then show ?thesis by (cases x) (simp_all add: root_group_def)
next
  case (Calendar x) then show ?thesis by (simp add: root_group_def)
next
  case (Social x) then show ?thesis by (cases x) (simp_all add: root_group_def social_root_def)
next
  case (Stats x) then show ?thesis by (cases x) (simp_all add: root_group_def stats_root_def)
next
  case (Media x) then show ?thesis by (cases x) (simp_all add: root_group_def)
next
  case (Account x) then show ?thesis by (cases x) (simp_all add: root_group_def)
next
  case (Contact x) then show ?thesis by (cases x) (simp_all add: root_group_def)
qed

interpretation mobile_keys: grouped_keys key_of root_of group_of root_group
  by unfold_locales (rule hd_key_of, rule group_of_root)

lemma offsets_differ:
  "withQuery ''/stats/me/wrapped'' [(''year'', Q_Number 2026), (''utc_offset_minutes'', Q_Number 120)] \<noteq>
   withQuery ''/stats/me/wrapped'' [(''year'', Q_Number 2026), (''utc_offset_minutes'', Q_Number 180)]"
proof
  let ?q = "\<lambda>i. [(''year'', Q_Number 2026), (''utc_offset_minutes'', Q_Number i)]"
  let ?e = "\<lambda>i. [(''year'', units_of (decimal_int 2026)), (''utc_offset_minutes'', units_of (decimal_int i))]"
  assume w: "withQuery ''/stats/me/wrapped'' (?q 120) = withQuery ''/stats/me/wrapped'' (?q 180)"
  have shown: "query_text (Q_Number i) = Some (units_of (decimal_int i))" for i by (simp add: query_text_def)
  have e: "query_entries (?q i) = ?e i" for i
    unfolding query_entries_def foldl.simps prod.case shown option.case jm_set.simps by simp
  have n: "decimal_int 120 = ''120''" "decimal_int 180 = ''180''"
    by (simp_all add: decimal_int_def decimal.simps digit_eval)
  have "withQuery path (?q i) = path @ ''?'' @ query_string (?e i)" for path i
    unfolding withQuery_def Let_def e by (simp only: query_string_empty if_not_P list.distinct not_False_eq_True if_True)
  with w have "query_string (?e 120) = query_string (?e 180)" by (simp only: same_append_eq)
  then have "query_decode (query_string (?e 120)) = query_decode (query_string (?e 180))" by (rule arg_cong)
  then have "text_encode (units_of (decimal_int 120)) = text_encode (units_of (decimal_int 180))"
    by (simp only: query_decode_string list.distinct not_False_eq_True list.map prod.case list.inject prod.inject simp_thms)
  moreover have "plain_text (units_of ''120'')" "plain_text (units_of ''180'')" by code_simp+
  ultimately have "units_of ''120'' = units_of ''180''" using text_encode_inj unfolding n by blast
  moreover have "units_of ''120'' \<noteq> units_of ''180''" by code_simp
  ultimately show False by blast
qed
text \<open>C31: An answer in the cache of the mobile client is the answer to the request of whoever reads it: two
  queries that are enabled and have the same key make the same requests, page for page, or read one
  resource of the server and differ only in the case of a username or in the refresh token that names
  the asking session. The one exception is the yearly recap, whose key has the year and not the offset
  from UTC that its request sends; two offsets share an answer there, as the second half shows.\<close>

theorem key_names_the_request:
  assumes "enabled_of q" "enabled_of q'" "key_of q = key_of q'"
  shows "(calls_of q p = calls_of q' p \<or> same_resource q q' \<or>
           (\<exists>y a b. q = Stats (Q_Wrapped y a) \<and> q' = Stats (Q_Wrapped y b))) \<and>
         key_of (Stats (Q_Wrapped 2026 120)) = key_of (Stats (Q_Wrapped 2026 180)) \<and>
         calls_of (Stats (Q_Wrapped 2026 120)) p \<noteq> calls_of (Stats (Q_Wrapped 2026 180)) p"
proof (intro conjI)
  have group: "group_of q = group_of q'" by (rule mobile_keys.same_group [OF assms(3)])
  show "calls_of q p = calls_of q' p \<or> same_resource q q' \<or>
    (\<exists>y a b. q = Stats (Q_Wrapped y a) \<and> q' = Stats (Q_Wrapped y b))"
  proof (cases q)
    case (Library x)
    with group obtain y where y: "q' = Library y" by (cases q') auto
    from library_keys [of x y p] assms(3) show ?thesis
      unfolding Library y key_of_def calls_of_def enabled_of_def query_hook_of.simps by blast
  next
    case (Calendar x)
    with group obtain y where y: "q' = Calendar y" by (cases q') auto
    from calendar_keys [of x y p] assms(3) show ?thesis
      unfolding Calendar y key_of_def calls_of_def enabled_of_def query_hook_of.simps by blast
  next
    case (Social x)
    with group obtain y where y: "q' = Social y" by (cases q') auto
    from social_keys [of x y p] assms(3) show ?thesis
      unfolding Social y key_of_def calls_of_def enabled_of_def query_hook_of.simps by blast
  next
    case (Stats x)
    with group obtain y where y: "q' = Stats y" by (cases q') auto
    from stats_keys [of x y p] assms(3) show ?thesis
      unfolding Stats y key_of_def calls_of_def enabled_of_def query_hook_of.simps by blast
  next
    case (Media x)
    with group obtain y where y: "q' = Media y" by (cases q') auto
    from media_keys [of x y p] assms(3) show ?thesis
      unfolding Media y key_of_def calls_of_def enabled_of_def query_hook_of.simps by blast
  next
    case (Account x)
    with group obtain y where y: "q' = Account y" by (cases q') auto
    from account_keys [of x y p] assms(3) assms(1,2) show ?thesis
      unfolding Account y key_of_def calls_of_def enabled_of_def query_hook_of.simps by blast
  next
    case (Contact x)
    with group obtain y where y: "q' = Contact y" by (cases q') auto
    from contact_keys [of x y p] assms(3) show ?thesis
      unfolding Contact y key_of_def calls_of_def enabled_of_def query_hook_of.simps by blast
  qed
  show "key_of (Stats (Q_Wrapped 2026 120)) = key_of (Stats (Q_Wrapped 2026 180))"
    by (simp add: key_of_def useWrapped_def hook_defs)
  show "calls_of (Stats (Q_Wrapped 2026 120)) p \<noteq> calls_of (Stats (Q_Wrapped 2026 180)) p"
    using offsets_differ by (simp add: calls_of_def useWrapped_def hook_defs get_call_def)
qed

text \<open>Two spellings of a username share the thread.\<close>

lemma key_names_the_request_witness:
  "same_resource (Contact (Q_Thread ''Ana'')) (Contact (Q_Thread ''ana''))"
proof -
  have low: "to_lower ''Ana'' = to_lower ''ana''" by code_simp
  have "enabled_of (Contact (Q_Thread ''Ana''))" "enabled_of (Contact (Q_Thread ''ana''))"
    "key_of (Contact (Q_Thread ''Ana'')) = key_of (Contact (Q_Thread ''ana''))"
    using low by (simp_all add: enabled_of_def key_of_def useMessageThread_def messageKeys_thread_def hook_defs)
  from key_names_the_request [OF this, of Whole]
  have "calls_of (Contact (Q_Thread ''Ana'')) Whole = calls_of (Contact (Q_Thread ''ana'')) Whole \<or>
    same_resource (Contact (Q_Thread ''Ana'')) (Contact (Q_Thread ''ana''))" by blast
  moreover have "encodeURIComponent ''Ana'' \<noteq> encodeURIComponent ''ana''" by code_simp
  ultimately show ?thesis using low by simp
qed

end
