(* ===== verification/Query_Mutations.thy ===== *)
theory Query_Mutations
  imports Query_Claims
begin

text \<open>
  The mutation hooks of the mobile client (\<open>mobile/src/hooks\<close>): the request each makes and the keys it
  hands to \<open>invalidateQueries\<close>, \<open>removeQueries\<close> or \<open>setQueryData\<close> when the server has accepted it. A
  filter marks every cached query whose key begins with it.
\<close>

section \<open>What a mutation does\<close>

record mutation_hook =
  mh_call :: hook_call
  mh_invalidates :: "key_part list list"
  mh_removes :: "key_part list list"
  mh_sets :: "(key_part list \<times> (string \<times> query_value) list option) list"

text \<open>\<open>setQueryData\<close> puts a given object under a key, or (\<open>None\<close>) the answer of the server.\<close>

definition write_call :: "http_method \<Rightarrow> string \<Rightarrow> call_body \<Rightarrow> hook_call" where
  "write_call method path body = \<lparr>hc_method = method, hc_path = path, hc_body = body\<rparr>"

definition mutation_of :: "hook_call \<Rightarrow> key_part list list \<Rightarrow> mutation_hook" where
  "mutation_of call filters = \<lparr>mh_call = call, mh_invalidates = filters, mh_removes = [], mh_sets = []\<rparr>"

definition reaches :: "mutation_hook \<Rightarrow> app_query \<Rightarrow> bool" where
  "reaches m q \<longleftrightarrow> list_ex (\<lambda>f. prefix f (key_of q)) (mh_invalidates m)"

section \<open>use-tracking.ts\<close>

definition invalidateWatchState :: "int \<Rightarrow> key_part list list" where
  "invalidateWatchState tmdbId =
     [[ks ''watched-episodes'', KN tmdbId], [ks ''show-progress'', KN tmdbId], [ks ''tracking''], [ks ''stats''],
      [ks ''discovery''], calendarKeys_all]"

definition invalidateTrackingState :: "key_part list list" where
  "invalidateTrackingState =
     [[ks ''tracking''], [ks ''stats''], [ks ''discovery''], calendarKeys_all, [ks ''watched-episodes''],
      [ks ''show-progress'']]"

definition useCreateTracking :: "int \<Rightarrow> media_type \<Rightarrow> tracking_status \<Rightarrow> mutation_hook" where
  "useCreateTracking tmdb_id media_type status =
     mutation_of (write_call POST ''/tracking''
       (Object [(''tmdb_id'', Q_Number tmdb_id), (''media_type'', text_value (media_type_text media_type)),
                (''status'', text_value (status_text status))]))
       invalidateTrackingState"

definition useUpdateTracking :: "string \<Rightarrow> (string \<times> query_value) list \<Rightarrow> mutation_hook" where
  "useUpdateTracking i data =
     mutation_of (write_call PATCH (''/tracking/'' @ i) (Object data)) invalidateTrackingState"

definition useDeleteTracking :: "string \<Rightarrow> mutation_hook" where
  "useDeleteTracking i = mutation_of (write_call DELETE (''/tracking/'' @ i) No_Body) invalidateTrackingState"

definition season_path :: "int \<Rightarrow> int \<Rightarrow> string" where
  "season_path tmdbId seasonNumber = ''/history/tv/'' @ decimal_int tmdbId @ ''/seasons/'' @ decimal_int seasonNumber"

definition useMarkEpisodeWatched :: "int \<Rightarrow> int \<Rightarrow> int \<Rightarrow> mutation_hook" where
  "useMarkEpisodeWatched tmdbId seasonNumber episodeNumber =
     mutation_of (write_call POST
       (season_path tmdbId seasonNumber @ ''/episodes/'' @ decimal_int episodeNumber @ ''/watched'') No_Body)
       (invalidateWatchState tmdbId)"

definition useMarkSeasonWatched :: "int \<Rightarrow> int \<Rightarrow> mutation_hook" where
  "useMarkSeasonWatched tmdbId seasonNumber =
     mutation_of (write_call POST (season_path tmdbId seasonNumber @ ''/watched'') No_Body) (invalidateWatchState tmdbId)"

definition useRewatchSeason :: "int \<Rightarrow> int \<Rightarrow> mutation_hook" where
  "useRewatchSeason tmdbId seasonNumber =
     mutation_of (write_call POST (season_path tmdbId seasonNumber @ ''/rewatch'') No_Body) (invalidateWatchState tmdbId)"

definition useRewatchShow :: "int \<Rightarrow> mutation_hook" where
  "useRewatchShow tmdbId =
     mutation_of (write_call POST (''/history/tv/'' @ decimal_int tmdbId @ ''/rewatch'') No_Body) (invalidateWatchState tmdbId)"

definition useRewatchMovie :: "int \<Rightarrow> mutation_hook" where
  "useRewatchMovie tmdbId =
     mutation_of (write_call POST (''/history/movies/'' @ decimal_int tmdbId @ ''/rewatch'') No_Body)
       (invalidateWatchState tmdbId)"

definition useMarkEpisodesWatchedThrough :: "int \<Rightarrow> int \<Rightarrow> int \<Rightarrow> mutation_hook" where
  "useMarkEpisodesWatchedThrough tmdbId seasonNumber episodeNumber =
     mutation_of (write_call POST
       (season_path tmdbId seasonNumber @ ''/episodes/'' @ decimal_int episodeNumber @ ''/watched-through'') No_Body)
       (invalidateWatchState tmdbId)"

section \<open>use-history.ts and use-calendar.ts\<close>

definition invalidateHistoryState :: "key_part list list" where
  "invalidateHistoryState =
     [historyKeys_all, [ks ''stats''], [ks ''social''], [ks ''tracking''], [ks ''watched-episodes''],
      [ks ''show-progress''], calendarKeys_all]"

definition useCreateHistory :: "string \<Rightarrow> string option \<Rightarrow> string \<Rightarrow> mutation_hook" where
  "useCreateHistory mediaId episodeId watchedAt =
     mutation_of (write_call POST ''/history''
       (Object [(''media_id'', text_value mediaId),
                (''episode_id'', (case episodeId of None \<Rightarrow> Q_Undefined | Some e \<Rightarrow> text_value e)),
                (''watched_at'', text_value watchedAt)]))
       invalidateHistoryState"

definition useDeleteHistory :: "string \<Rightarrow> mutation_hook" where
  "useDeleteHistory i =
     mutation_of (write_call DELETE (''/history/'' @ encodeURIComponent i) No_Body) invalidateHistoryState"

definition useEnableCalendarFeed :: mutation_hook where
  "useEnableCalendarFeed =
     (mutation_of (write_call POST ''/calendar/feed'' No_Body) [])
       \<lparr>mh_sets := [(calendarKeys_feed, Some [(''enabled'', Q_Bool True)])]\<rparr>"

definition useDisableCalendarFeed :: mutation_hook where
  "useDisableCalendarFeed =
     (mutation_of (write_call DELETE ''/calendar/feed'' No_Body) [])
       \<lparr>mh_sets := [(calendarKeys_feed, Some [(''enabled'', Q_Bool False)])]\<rparr>"

definition useUpdateCalendarPreferences :: "string \<Rightarrow> mutation_hook" where
  "useUpdateCalendarPreferences countryCode =
     (mutation_of (write_call PUT ''/calendar/preferences'' (Object [(''country_code'', text_value countryCode)]))
       [calendarKeys_all])\<lparr>mh_sets := [(calendarKeys_preferences, None)]\<rparr>"

definition useSetEpisodePlanned :: "string \<Rightarrow> bool \<Rightarrow> mutation_hook" where
  "useSetEpisodePlanned episodeId planned =
     mutation_of (write_call (if planned then PUT else DELETE) (''/calendar/episodes/'' @ episodeId @ ''/plan'') No_Body)
       [calendarKeys_all, [ks ''episode'', ks episodeId]]"

definition useMarkCalendarEpisodeWatched :: "string \<Rightarrow> mutation_hook" where
  "useMarkCalendarEpisodeWatched episodeId =
     mutation_of (write_call POST (''/calendar/episodes/'' @ episodeId @ ''/watched'') No_Body)
       [calendarKeys_all, [ks ''episode'', ks episodeId], [ks ''tracking''], [ks ''stats''], [ks ''discovery''],
        [ks ''watched-episodes''], [ks ''show-progress'']]"

section \<open>use-social.ts and use-community-safety.ts\<close>

definition useInvalidateSocial :: "key_part list list" where
  "useInvalidateSocial = [socialKeys_all, [ks ''notifications''], [ks ''messages'']]"

definition useFollowUser :: "string \<Rightarrow> mutation_hook" where
  "useFollowUser username =
     mutation_of (write_call POST (''/users/'' @ encodeURIComponent username @ ''/follow'') No_Body) useInvalidateSocial"

definition useUnfollowUser :: "string \<Rightarrow> mutation_hook" where
  "useUnfollowUser username =
     mutation_of (write_call DELETE (''/users/'' @ encodeURIComponent username @ ''/follow'') No_Body) useInvalidateSocial"

definition useAcceptFollowRequest :: "string \<Rightarrow> mutation_hook" where
  "useAcceptFollowRequest userId =
     mutation_of (write_call POST (''/users/me/follow-requests/'' @ encodeURIComponent userId @ ''/accept'') No_Body)
       useInvalidateSocial"

definition useRejectFollowRequest :: "string \<Rightarrow> mutation_hook" where
  "useRejectFollowRequest userId =
     mutation_of (write_call DELETE (''/users/me/follow-requests/'' @ encodeURIComponent userId) No_Body)
       useInvalidateSocial"

definition invalidateSafetyContext :: "key_part list list" where
  "invalidateSafetyContext =
     [safetyKeys_all, socialKeys_all, [ks ''notifications''], [ks ''lists''], [ks ''messages'']]"

definition useBlockUser :: "string \<Rightarrow> mutation_hook" where
  "useBlockUser username =
     mutation_of (write_call POST (''/users/'' @ encodeURIComponent username @ ''/block'') No_Body) invalidateSafetyContext"

definition useUnblockUser :: "string \<Rightarrow> mutation_hook" where
  "useUnblockUser username =
     mutation_of (write_call DELETE (''/users/'' @ encodeURIComponent username @ ''/block'') No_Body) invalidateSafetyContext"

definition useReportContent :: "(string \<times> query_value) list \<Rightarrow> mutation_hook" where
  "useReportContent input = mutation_of (write_call POST ''/reports'' (Object input)) [safetyKeys_reports]"

section \<open>use-lists.ts, use-media.ts and use-import.ts\<close>

definition useCreateList :: "(string \<times> query_value) list \<Rightarrow> mutation_hook" where
  "useCreateList input = mutation_of (write_call POST ''/lists'' (Object input)) [listKeys_mine]"

definition list_path :: "string \<Rightarrow> string" where "list_path i = ''/lists/'' @ encodeURIComponent i"

definition useUpdateList :: "string \<Rightarrow> (string \<times> query_value) list \<Rightarrow> mutation_hook" where
  "useUpdateList i input =
     mutation_of (write_call PATCH (list_path i) (Object input)) [listKeys_mine, listKeys_detail i]"

definition useDeleteList :: "string \<Rightarrow> mutation_hook" where
  "useDeleteList i =
     (mutation_of (write_call DELETE (list_path i) No_Body) [listKeys_mine])\<lparr>mh_removes := [listKeys_detail i]\<rparr>"

definition useAddListItem :: "string \<Rightarrow> string \<Rightarrow> mutation_hook" where
  "useAddListItem listId mediaId =
     mutation_of (write_call POST (list_path listId @ ''/items'') (Object [(''media_id'', text_value mediaId)]))
       [listKeys_mine, listKeys_detail listId]"

definition useRemoveListItem :: "string \<Rightarrow> string \<Rightarrow> mutation_hook" where
  "useRemoveListItem listId mediaId =
     mutation_of (write_call DELETE (list_path listId @ ''/items/'' @ encodeURIComponent mediaId) No_Body)
       [listKeys_mine, listKeys_detail listId]"

definition useDismissRecommendation :: "int \<Rightarrow> string \<Rightarrow> mutation_hook" where
  "useDismissRecommendation tmdb_id media_type =
     (let type = (if media_type = ''tv'' then ''tv'' else ''movie'')
      in mutation_of (write_call POST (''/media/discovery/dismiss/'' @ type @ ''/'' @ decimal_int tmdb_id) No_Body)
           [[ks ''discovery'']])"

definition useSetEpisodeReaction :: "string \<Rightarrow> string option \<Rightarrow> mutation_hook" where
  "useSetEpisodeReaction episodeId reaction =
     (let path = ''/media/episodes/'' @ episodeId @ ''/reaction''
      in mutation_of
           (case reaction of
              None \<Rightarrow> write_call DELETE path No_Body
            | Some r \<Rightarrow> write_call PUT path (Object [(''reaction'', text_value r)]))
           [[ks ''episode'', ks episodeId]])"

text \<open>\<open>onSuccess\<close> of \<open>useStartImport\<close>, whose request is a form of files.\<close>

definition import_started :: "key_part list list" where "import_started = [importKeys_all]"

text \<open>\<open>onSuccess\<close> of \<open>useSendMessage\<close> and \<open>useMarkMessageThreadRead\<close>.\<close>

definition thread_changed :: "string \<Rightarrow> key_part list list" where
  "thread_changed username = [messageKeys_thread username, messageKeys_conversations, messageKeys_summary]"

definition useMarkMessageThreadRead :: "string \<Rightarrow> string \<Rightarrow> mutation_hook" where
  "useMarkMessageThreadRead username throughId =
     mutation_of (write_call POST (''/messages/'' @ encodeURIComponent username @ ''/read'')
       (Object [(''through_id'', text_value throughId)])) (thread_changed username)"

definition useRevokeAccountSession :: "string \<Rightarrow> mutation_hook" where
  "useRevokeAccountSession i =
     mutation_of (write_call DELETE (''/auth/sessions/'' @ encodeURIComponent i) No_Body)
       [accountKeys_sessions, accountKeys_securityActivity]"

section \<open>What a change of the library marks\<close>

text \<open>The mutations that change what is tracked or was watched.\<close>

datatype library_change =
    Create_Tracking int media_type tracking_status
  | Update_Tracking string "(string \<times> query_value) list"
  | Delete_Tracking string
  | Mark_Episode_Watched int int int
  | Mark_Season_Watched int int
  | Mark_Watched_Through int int int
  | Rewatch_Season int int
  | Rewatch_Show int
  | Rewatch_Movie int
  | Create_History string "string option" string
  | Delete_History string
  | Mark_Calendar_Episode_Watched string

primrec change_hook :: "library_change \<Rightarrow> mutation_hook" where
  "change_hook (Create_Tracking t m s) = useCreateTracking t m s"
| "change_hook (Update_Tracking i d) = useUpdateTracking i d"
| "change_hook (Delete_Tracking i) = useDeleteTracking i"
| "change_hook (Mark_Episode_Watched t s e) = useMarkEpisodeWatched t s e"
| "change_hook (Mark_Season_Watched t s) = useMarkSeasonWatched t s"
| "change_hook (Mark_Watched_Through t s e) = useMarkEpisodesWatchedThrough t s e"
| "change_hook (Rewatch_Season t s) = useRewatchSeason t s"
| "change_hook (Rewatch_Show t) = useRewatchShow t"
| "change_hook (Rewatch_Movie t) = useRewatchMovie t"
| "change_hook (Create_History m e w) = useCreateHistory m e w"
| "change_hook (Delete_History i) = useDeleteHistory i"
| "change_hook (Mark_Calendar_Episode_Watched e) = useMarkCalendarEpisodeWatched e"

text \<open>The title a change is about, where its hook says so.\<close>

definition changed_title :: "library_change \<Rightarrow> int option" where
  "changed_title c =
     (case c of
        Mark_Episode_Watched t _ _ \<Rightarrow> Some t
      | Mark_Season_Watched t _ \<Rightarrow> Some t
      | Mark_Watched_Through t _ _ \<Rightarrow> Some t
      | Rewatch_Season t _ \<Rightarrow> Some t
      | Rewatch_Show t \<Rightarrow> Some t
      | Rewatch_Movie t \<Rightarrow> Some t
      | _ \<Rightarrow> None)"

definition from_history_screen :: "library_change \<Rightarrow> bool" where
  "from_history_screen c = (case c of Create_History _ _ _ \<Rightarrow> True | Delete_History _ \<Rightarrow> True | _ \<Rightarrow> False)"

text \<open>The queries that show the library and the progress of the changed title.\<close>

definition shows_library :: "library_change \<Rightarrow> app_query \<Rightarrow> bool" where
  "shows_library c q =
     (case q of
        Library (Q_Watched_Episodes t _) \<Rightarrow> changed_title c = None \<or> changed_title c = t
      | Library (Q_Show_Progress t) \<Rightarrow> changed_title c = None \<or> changed_title c = t
      | Library Q_History \<Rightarrow> from_history_screen c
      | Library _ \<Rightarrow> True
      | Calendar _ \<Rightarrow> True
      | Stats Q_Badges \<Rightarrow> False
      | Stats _ \<Rightarrow> True
      | Media (Q_Discovery _) \<Rightarrow> \<not> from_history_screen c
      | Media (Q_Episode_Detail i) \<Rightarrow> c = Mark_Calendar_Episode_Watched i
      | Social Q_Blocked_Users \<Rightarrow> False
      | Social _ \<Rightarrow> from_history_screen c
      | _ \<Rightarrow> False)"

lemma prefix_root [simp]: "prefix [ks r] (key_of q) \<longleftrightarrow> root_of q = r"
  by (simp add: mobile_keys.prefix_filter)

lemma prefix_two: "prefix [ks r, a] (key_of q) \<longleftrightarrow> root_of q = r \<and> (\<exists>k ks'. key_of q = k # a # ks')"
proof -
  obtain k ks' where "key_of q = k # ks'" "k = ks (root_of q)" using hd_key_of [of q] by (cases "key_of q") auto
  then show ?thesis by (cases ks') auto
qed

lemma watched_key [simp]:
  "root_of q = ''watched-episodes'' \<and> (\<exists>k ks'. key_of q = k # a # ks') \<longleftrightarrow>
     (\<exists>t n. q = Library (Q_Watched_Episodes t n) \<and> knum t = a)"
proof (cases q)
  case (Library x) then show ?thesis by (cases x) (auto simp: key_of_def useWatchedEpisodes_def hook_defs)
next
  case (Social x) then show ?thesis by (cases x) (auto simp: social_root_def)
next
  case (Stats x) then show ?thesis by (cases x) (auto simp: stats_root_def)
next
  case (Media x) then show ?thesis by (cases x) auto
next
  case (Account x) then show ?thesis by (cases x) auto
next
  case (Contact x) then show ?thesis by (cases x) auto
qed auto

lemma progress_key [simp]:
  "root_of q = ''show-progress'' \<and> (\<exists>k ks'. key_of q = k # a # ks') \<longleftrightarrow>
     (\<exists>t. q = Library (Q_Show_Progress t) \<and> knum t = a)"
proof (cases q)
  case (Library x) then show ?thesis by (cases x) (auto simp: key_of_def useShowProgress_def hook_defs)
next
  case (Social x) then show ?thesis by (cases x) (auto simp: social_root_def)
next
  case (Stats x) then show ?thesis by (cases x) (auto simp: stats_root_def)
next
  case (Media x) then show ?thesis by (cases x) auto
next
  case (Account x) then show ?thesis by (cases x) auto
next
  case (Contact x) then show ?thesis by (cases x) auto
qed auto

lemma episode_key [simp]:
  "root_of q = ''episode'' \<and> (\<exists>k ks'. key_of q = k # ks i # ks') \<longleftrightarrow> q = Media (Q_Episode_Detail i)"
proof (cases q)
  case (Library x) then show ?thesis by (cases x) auto
next
  case (Social x) then show ?thesis by (cases x) (auto simp: social_root_def)
next
  case (Stats x) then show ?thesis by (cases x) (auto simp: stats_root_def)
next
  case (Media x) then show ?thesis by (cases x) (auto simp: key_of_def useEpisodeDetail_def hook_defs)
next
  case (Account x) then show ?thesis by (cases x) auto
next
  case (Contact x) then show ?thesis by (cases x) auto
qed auto

lemma knum_KN [simp]: "knum t = KN i \<longleftrightarrow> t = Some i"
  by (cases t) (auto simp: knum_def)


text \<open>What the four lists of filters mark.\<close>

abbreviation marks :: "key_part list list \<Rightarrow> app_query \<Rightarrow> bool" where
  "marks filters q \<equiv> list_ex (\<lambda>f. prefix f (key_of q)) filters"

lemma marks_watch:
  "marks (invalidateWatchState t) q \<longleftrightarrow>
     (\<exists>n. q = Library (Q_Watched_Episodes (Some t) n)) \<or> q = Library (Q_Show_Progress (Some t)) \<or>
     root_of q = ''tracking'' \<or> root_of q = ''stats'' \<or> root_of q = ''discovery'' \<or> root_of q = ''calendar''"
  by (simp add: invalidateWatchState_def calendarKeys_all_def prefix_two)

lemma marks_tracking:
  "marks invalidateTrackingState q \<longleftrightarrow>
     root_of q = ''tracking'' \<or> root_of q = ''stats'' \<or> root_of q = ''discovery'' \<or> root_of q = ''calendar'' \<or>
     root_of q = ''watched-episodes'' \<or> root_of q = ''show-progress''"
  by (simp add: invalidateTrackingState_def calendarKeys_all_def)

lemma marks_history:
  "marks invalidateHistoryState q \<longleftrightarrow>
     root_of q = ''history'' \<or> root_of q = ''stats'' \<or> root_of q = ''social'' \<or> root_of q = ''tracking'' \<or>
     root_of q = ''watched-episodes'' \<or> root_of q = ''show-progress'' \<or> root_of q = ''calendar''"
  by (simp add: invalidateHistoryState_def historyKeys_all_def calendarKeys_all_def)

lemma marks_calendar_watch:
  "marks (mh_invalidates (useMarkCalendarEpisodeWatched i)) q \<longleftrightarrow>
     root_of q = ''calendar'' \<or> q = Media (Q_Episode_Detail i) \<or> root_of q = ''tracking'' \<or> root_of q = ''stats'' \<or>
     root_of q = ''discovery'' \<or> root_of q = ''watched-episodes'' \<or> root_of q = ''show-progress''"
  by (simp add: useMarkCalendarEpisodeWatched_def mutation_of_def calendarKeys_all_def prefix_two)

text \<open>The same sets by kind of query.\<close>

lemma library_roots:
  "root_of (Library x) = ''stats'' \<longleftrightarrow> False" "root_of (Library x) = ''discovery'' \<longleftrightarrow> False"
  "root_of (Library x) = ''calendar'' \<longleftrightarrow> False" "root_of (Library x) = ''social'' \<longleftrightarrow> False"
  by (cases x; simp)+

lemmas change_hook_defs =
  useCreateTracking_def useUpdateTracking_def useDeleteTracking_def useMarkEpisodeWatched_def
  useMarkSeasonWatched_def useMarkEpisodesWatchedThrough_def useRewatchSeason_def useRewatchShow_def
  useRewatchMovie_def useCreateHistory_def useDeleteHistory_def mutation_of_def

lemma change_filters:
  "mh_invalidates (change_hook c) =
     (if from_history_screen c then invalidateHistoryState
      else case changed_title c of
        Some t \<Rightarrow> invalidateWatchState t
      | None \<Rightarrow> (case c of
            Mark_Calendar_Episode_Watched i \<Rightarrow> mh_invalidates (useMarkCalendarEpisodeWatched i)
          | _ \<Rightarrow> invalidateTrackingState))"
  by (cases c) (simp_all add: change_hook_defs from_history_screen_def changed_title_def)

lemma shows_watch:
  assumes "\<not> from_history_screen c" "changed_title c = Some t"
  shows "shows_library c q \<longleftrightarrow> marks (invalidateWatchState t) q"
proof -
  have c: "c \<noteq> Mark_Calendar_Episode_Watched i" for i using assms(2) by (auto simp: changed_title_def)
  show ?thesis
  proof (cases q)
    case (Library x) then show ?thesis using assms by (cases x) (auto simp: marks_watch shows_library_def)
  next
    case (Stats x) then show ?thesis using assms by (cases x) (auto simp: marks_watch shows_library_def stats_root_def)
  next
    case (Media x) then show ?thesis using assms c by (cases x) (auto simp: marks_watch shows_library_def)
  next
    case (Social x) then show ?thesis using assms by (cases x) (auto simp: marks_watch shows_library_def social_root_def)
  next
    case (Account x) then show ?thesis using assms by (cases x) (auto simp: marks_watch shows_library_def)
  next
    case (Contact x) then show ?thesis using assms by (cases x) (auto simp: marks_watch shows_library_def)
  next
    case (Calendar x) then show ?thesis by (simp add: marks_watch shows_library_def)
  qed
qed

lemma shows_untitled:
  assumes "\<not> from_history_screen c" "changed_title c = None"
  shows "shows_library c q \<longleftrightarrow>
     root_of q = ''tracking'' \<or> root_of q = ''stats'' \<or> root_of q = ''discovery'' \<or> root_of q = ''calendar'' \<or>
     root_of q = ''watched-episodes'' \<or> root_of q = ''show-progress'' \<or>
     (\<exists>i. c = Mark_Calendar_Episode_Watched i \<and> q = Media (Q_Episode_Detail i))"
proof (cases q)
  case (Library x) then show ?thesis using assms by (cases x) (auto simp: shows_library_def)
next
  case (Stats x) then show ?thesis using assms by (cases x) (auto simp: shows_library_def stats_root_def)
next
  case (Media x) then show ?thesis using assms by (cases x) (auto simp: shows_library_def)
next
  case (Social x) then show ?thesis using assms by (cases x) (auto simp: shows_library_def social_root_def)
next
  case (Account x) then show ?thesis using assms by (cases x) (auto simp: shows_library_def)
next
  case (Contact x) then show ?thesis using assms by (cases x) (auto simp: shows_library_def)
next
  case (Calendar x) then show ?thesis by (simp add: shows_library_def)
qed

lemma shows_from_history:
  assumes "from_history_screen c"
  shows "shows_library c q \<longleftrightarrow> marks invalidateHistoryState q"
proof -
  have c: "c \<noteq> Mark_Calendar_Episode_Watched i" "changed_title c = None" for i
    using assms by (auto simp: from_history_screen_def changed_title_def split: library_change.splits)
  show ?thesis
  proof (cases q)
    case (Library x) then show ?thesis using assms c by (cases x) (auto simp: marks_history shows_library_def)
  next
    case (Stats x) then show ?thesis using assms by (cases x) (auto simp: marks_history shows_library_def stats_root_def)
  next
    case (Media x) then show ?thesis using assms c by (cases x) (auto simp: marks_history shows_library_def)
  next
    case (Social x) then show ?thesis using assms by (cases x) (auto simp: marks_history shows_library_def social_root_def)
  next
    case (Account x) then show ?thesis using assms by (cases x) (auto simp: marks_history shows_library_def)
  next
    case (Contact x) then show ?thesis using assms by (cases x) (auto simp: marks_history shows_library_def)
  next
    case (Calendar x) then show ?thesis by (simp add: marks_history shows_library_def)
  qed
qed

text \<open>C32: A change of the library marks exactly the cached answers it makes stale, as far as its hook marks any:
  every change marks all tracking lists, all statistics and the whole calendar, and the watched episodes
  and the progress of the title it is about (of every title, when the hook does not know the title). A
  change made outside the history screen also marks the recommendations, and only a change made on the
  history screen marks the watch history and the social lists; the badges are never marked. So after an
  episode is marked on the page of its title, the cached watch history does not have it.\<close>

theorem library_change_marks:
  "reaches (change_hook c) q \<longleftrightarrow> shows_library c q"
proof (cases "from_history_screen c")
  case True
  then show ?thesis unfolding reaches_def change_filters by (simp add: shows_from_history)
next
  case outside: False
  show ?thesis
  proof (cases "changed_title c")
    case (Some t)
    with outside show ?thesis unfolding reaches_def change_filters by (simp add: shows_watch)
  next
    case None
    show ?thesis
      unfolding reaches_def change_filters shows_untitled [OF outside None]
      using outside None
      by (cases c) (auto simp: marks_tracking marks_calendar_watch from_history_screen_def changed_title_def)
  qed
qed

section \<open>What a change of contacts marks\<close>

text \<open>Following, unfollowing and answering a request mark every social list, the notifications and the
  messages; blocking and unblocking mark the lists of titles and the blocked accounts as well.\<close>

lemma social_change_marks:
  "m \<in> {useFollowUser u, useUnfollowUser u, useAcceptFollowRequest u, useRejectFollowRequest u} \<Longrightarrow>
   reaches m q \<longleftrightarrow> root_of q \<in> set [''social'', ''notifications'', ''messages'']"
  by (auto simp: reaches_def useFollowUser_def useUnfollowUser_def useAcceptFollowRequest_def
      useRejectFollowRequest_def mutation_of_def useInvalidateSocial_def socialKeys_all_def)

lemma block_marks:
  "m \<in> {useBlockUser u, useUnblockUser u} \<Longrightarrow>
   reaches m q \<longleftrightarrow> root_of q \<in> set [''community-safety'', ''social'', ''notifications'', ''lists'', ''messages'']"
  by (auto simp: reaches_def useBlockUser_def useUnblockUser_def mutation_of_def invalidateSafetyContext_def
      safetyKeys_all_def socialKeys_all_def)

end
