(* ===== verification/Query_Persistence.thy ===== *)
theory Query_Persistence
  imports Query_Claims Text_Codec
begin

text \<open>
  What of the query cache is written to the phone, and how: \<open>lib/query-cache-policy.ts\<close>,
  \<open>lib/query-persistence.ts\<close> and \<open>lib/encrypted-storage.ts\<close>.
\<close>

section \<open>Which queries\<close>

definition PERSISTED_QUERY_ROOTS :: "string list" where
  "PERSISTED_QUERY_ROOTS =
     [''calendar'', ''discovery'', ''episode'', ''episodes'', ''media'', ''seasons'', ''show-progress'', ''tracking'',
      ''watched-episodes'']"

text \<open>\<open>queryKey[0]\<close> of an empty key is \<open>undefined\<close>.\<close>

definition shouldPersistQueryKey :: "key_part list \<Rightarrow> bool" where
  "shouldPersistQueryKey queryKey =
     (case queryKey of
        KS first # _ \<Rightarrow> first \<in> set (map units_of PERSISTED_QUERY_ROOTS)
      | _ \<Rightarrow> False)"

datatype query_status = Query_Pending | Query_Error | Query_Success

record 'd cached_query =
  cq_key :: "key_part list"
  cq_status :: query_status
  cq_data :: "'d option"

definition shouldDehydrateQuery :: "'d cached_query \<Rightarrow> bool" where
  "shouldDehydrateQuery query \<longleftrightarrow>
     cq_status query = Query_Success \<and> cq_data query \<noteq> None \<and> shouldPersistQueryKey (cq_key query)"

definition QUERY_CACHE_MAX_AGE :: int where "QUERY_CACHE_MAX_AGE = 7 * 24 * 60 * 60 * 1000"
definition QUERY_CACHE_BUSTER :: string where "QUERY_CACHE_BUSTER = ''vazute-mobile-cache-v2-encrypted''"

text \<open>\<open>removeQueries\<close> drops the queries whose key begins with the filter.\<close>

definition removeQueries :: "key_part list \<Rightarrow> 'd cached_query list \<Rightarrow> 'd cached_query list" where
  "removeQueries queryKey = filter (\<lambda>q. take (length queryKey) (cq_key q) \<noteq> queryKey)"

definition clearOfflineQueryCache ::
  "'d cached_query list option \<Rightarrow> 'd cached_query list option \<times> bool" where
  "clearOfflineQueryCache client =
     (map_option (\<lambda>qs. fold (\<lambda>root. removeQueries [ks root]) PERSISTED_QUERY_ROOTS qs) client, True)"

section \<open>Encrypted storage\<close>

text \<open>The cipher of the platform: importing and exporting a key, sealing to the combined base64 text and
  opening it. \<open>None\<close> is an exception.\<close>

record 'k aes =
  aes_import :: "string \<Rightarrow> 'k option"
  aes_encoded :: "'k \<Rightarrow> string"
  aes_seal :: "'k \<Rightarrow> bytes \<Rightarrow> bytes \<Rightarrow> bytes \<Rightarrow> string"
  aes_open :: "'k \<Rightarrow> bytes \<Rightarrow> string \<Rightarrow> bytes option"

text \<open>What the platform documents: an exported key is imported as itself and its text is not empty; sealed
  data opens under its key and additional data, and under no other additional data.\<close>

definition aes_ok :: "'k aes \<Rightarrow> bool" where
  "aes_ok A \<longleftrightarrow>
     (\<forall>k. aes_import A (aes_encoded A k) = Some k \<and> aes_encoded A k \<noteq> []) \<and>
     (\<forall>k iv aad pt. aes_open A k aad (aes_seal A k iv aad pt) = Some pt) \<and>
     (\<forall>k iv aad aad' pt. aad' \<noteq> aad \<longrightarrow> aes_open A k aad' (aes_seal A k iv aad pt) = None)"

definition ENVELOPE_PREFIX :: string where "ENVELOPE_PREFIX = ''v1:''"

record storage_names =
  encryptionKeyName :: string
  aadNamespace :: string

definition encryptedQueryStorage :: storage_names where
  "encryptedQueryStorage = \<lparr>encryptionKeyName = ''vazute.query-cache-key.v1'', aadNamespace = ''vazute-query-cache''\<rparr>"

definition encryptedClientErrorStorage :: storage_names where
  "encryptedClientErrorStorage =
     \<lparr>encryptionKeyName = ''vazute.client-errors-key.v1'', aadNamespace = ''vazute-client-errors''\<rparr>"

text \<open>The device: plain storage, secure storage, and the key that the module has loaded.\<close>

record 'k device =
  dv_async :: "string \<Rightarrow> string option"
  dv_secure :: "string \<Rightarrow> string option"
  dv_loaded :: "'k option"

text \<open>Which calls of the platform succeed, the key that is generated and the initialisation vector.\<close>

record 'k platform =
  pl_async_read :: bool
  pl_async_write :: bool
  pl_async_remove :: bool
  pl_secure_read :: bool
  pl_secure_write :: bool
  pl_secure_delete :: bool
  pl_generated :: 'k
  pl_iv :: bytes

definition generate_key :: "'k aes \<Rightarrow> storage_names \<Rightarrow> 'k platform \<Rightarrow> 'k device \<Rightarrow> 'k option \<times> 'k device" where
  "generate_key A n p d =
     (if pl_secure_write p
      then (Some (pl_generated p),
            d\<lparr>dv_secure := (dv_secure d)(encryptionKeyName n \<mapsto> aes_encoded A (pl_generated p))\<rparr>)
      else (None, d))"

definition loadEncryptionKey :: "'k aes \<Rightarrow> storage_names \<Rightarrow> 'k platform \<Rightarrow> 'k device \<Rightarrow> 'k option \<times> 'k device" where
  "loadEncryptionKey A n p d =
     (if \<not> pl_secure_read p then (None, d)
      else case dv_secure d (encryptionKeyName n) of
        Some (c # cs) \<Rightarrow>
          (case aes_import A (c # cs) of
             Some k \<Rightarrow> (Some k, d)
           | None \<Rightarrow> generate_key A n p
               (if pl_secure_delete p then d\<lparr>dv_secure := (dv_secure d)(encryptionKeyName n := None)\<rparr> else d))
      | _ \<Rightarrow> generate_key A n p d)"

text \<open>The promise is kept when it resolves and forgotten when it rejects.\<close>

definition getEncryptionKey :: "'k aes \<Rightarrow> storage_names \<Rightarrow> 'k platform \<Rightarrow> 'k device \<Rightarrow> 'k option \<times> 'k device" where
  "getEncryptionKey A n p d =
     (case dv_loaded d of
        Some k \<Rightarrow> (Some k, d)
      | None \<Rightarrow> (case loadEncryptionKey A n p d of (r, d') \<Rightarrow> (r, d'\<lparr>dv_loaded := r\<rparr>)))"

definition additionalData :: "storage_names \<Rightarrow> string \<Rightarrow> bytes" where
  "additionalData n storageKey = text_encode (units_of (aadNamespace n @ '':'' @ storageKey))"

definition drop_entry :: "'k platform \<Rightarrow> string \<Rightarrow> 'k device \<Rightarrow> 'k device" where
  "drop_entry p storageKey d =
     (if pl_async_remove p then d\<lparr>dv_async := (dv_async d)(storageKey := None)\<rparr> else d)"

datatype 'a reply = Throws_Error | Gives 'a

definition getItem ::
  "'k aes \<Rightarrow> storage_names \<Rightarrow> 'k platform \<Rightarrow> string \<Rightarrow> 'k device \<Rightarrow> jstr option reply \<times> 'k device" where
  "getItem A n p storageKey d =
     (if \<not> pl_async_read p then (Throws_Error, d)
      else case dv_async d storageKey of
        Some (c # cs) \<Rightarrow>
          (if take (length ENVELOPE_PREFIX) (c # cs) \<noteq> ENVELOPE_PREFIX then (Gives None, drop_entry p storageKey d)
           else (case getEncryptionKey A n p d of
               (None, d') \<Rightarrow> (Gives None, drop_entry p storageKey d')
             | (Some k, d') \<Rightarrow>
                 (case aes_open A k (additionalData n storageKey) (drop (length ENVELOPE_PREFIX) (c # cs)) of
                    Some plain \<Rightarrow> (Gives (Some (text_decode plain)), d')
                  | None \<Rightarrow> (Gives None, drop_entry p storageKey d'))))
      | _ \<Rightarrow> (Gives None, d))"

definition setItem ::
  "'k aes \<Rightarrow> storage_names \<Rightarrow> 'k platform \<Rightarrow> string \<Rightarrow> jstr \<Rightarrow> 'k device \<Rightarrow> unit reply \<times> 'k device" where
  "setItem A n p storageKey v d =
     (case getEncryptionKey A n p d of
        (None, d') \<Rightarrow> (Throws_Error, d')
      | (Some k, d') \<Rightarrow>
          (if pl_async_write p
           then (Gives (), d'\<lparr>dv_async := (dv_async d')(storageKey \<mapsto>
                  ENVELOPE_PREFIX @ aes_seal A k (pl_iv p) (additionalData n storageKey) (text_encode v))\<rparr>)
           else (Throws_Error, d')))"

definition removeItem :: "'k platform \<Rightarrow> string \<Rightarrow> 'k device \<Rightarrow> unit reply \<times> 'k device" where
  "removeItem p storageKey d =
     (if pl_async_remove p then (Gives (), drop_entry p storageKey d) else (Throws_Error, d))"

section \<open>What is kept\<close>

lemma persist_root: "shouldPersistQueryKey (ks r # rest) \<longleftrightarrow> r \<in> set PERSISTED_QUERY_ROOTS"
proof -
  have "units_of r \<in> units_of ` set PERSISTED_QUERY_ROOTS \<longleftrightarrow> r \<in> set PERSISTED_QUERY_ROOTS"
    using ks_inject by (auto simp: ks_def)
  then show ?thesis by (simp add: shouldPersistQueryKey_def ks_def)
qed

lemma persist_key_of: "shouldPersistQueryKey (key_of q) \<longleftrightarrow> root_of q \<in> set PERSISTED_QUERY_ROOTS"
  using hd_key_of [of q] persist_root by (metis list.collapse)

lemma in_removed:
  "q \<in> set (fold (\<lambda>r. removeQueries [ks r]) rs qs) \<Longrightarrow> q \<in> set qs \<and> (\<forall>r \<in> set rs. take 1 (cq_key q) \<noteq> [ks r])"
proof (induction rs arbitrary: qs)
  case (Cons r rs)
  then have "q \<in> set (removeQueries [ks r] qs)" "\<forall>r \<in> set rs. take 1 (cq_key q) \<noteq> [ks r]" by auto
  then show ?case by (auto simp: removeQueries_def)
qed simp

lemma persisted_first:
  assumes "shouldPersistQueryKey k"
  shows "\<exists>r \<in> set PERSISTED_QUERY_ROOTS. take 1 k = [ks r]"
proof -
  from assms obtain first rest where k: "k = KS first # rest" and f: "first \<in> units_of ` set PERSISTED_QUERY_ROOTS"
    by (auto simp: shouldPersistQueryKey_def split: list.splits key_part.splits)
  then obtain r where "r \<in> set PERSISTED_QUERY_ROOTS" "first = units_of r" by auto
  with k show ?thesis by (auto simp: ks_def)
qed

text \<open>The queries that are written to the phone.\<close>

definition kept_on_phone :: "app_query \<Rightarrow> bool" where
  "kept_on_phone q =
     (case q of
        Library Q_History \<Rightarrow> False
      | Library _ \<Rightarrow> True
      | Calendar _ \<Rightarrow> True
      | Media (Q_Media_Search _ _ _) \<Rightarrow> False
      | Media (Q_Watch_Providers _ _) \<Rightarrow> False
      | Media (Q_Community_Rating _ _) \<Rightarrow> False
      | Media _ \<Rightarrow> True
      | _ \<Rightarrow> False)"

lemma kept_roots: "kept_on_phone q \<longleftrightarrow> root_of q \<in> set PERSISTED_QUERY_ROOTS"
proof (cases q)
  case (Library x) then show ?thesis by (cases x) (simp_all add: kept_on_phone_def PERSISTED_QUERY_ROOTS_def)
next
  case (Calendar x) then show ?thesis by (simp add: kept_on_phone_def PERSISTED_QUERY_ROOTS_def)
next
  case (Social x) then show ?thesis by (cases x) (simp_all add: kept_on_phone_def PERSISTED_QUERY_ROOTS_def social_root_def)
next
  case (Stats x) then show ?thesis by (cases x) (simp_all add: kept_on_phone_def PERSISTED_QUERY_ROOTS_def stats_root_def)
next
  case (Media x) then show ?thesis by (cases x) (simp_all add: kept_on_phone_def PERSISTED_QUERY_ROOTS_def)
next
  case (Account x) then show ?thesis by (cases x) (simp_all add: kept_on_phone_def PERSISTED_QUERY_ROOTS_def)
next
  case (Contact x) then show ?thesis by (cases x) (simp_all add: kept_on_phone_def PERSISTED_QUERY_ROOTS_def)
qed

text \<open>Of the answers the app caches, exactly the successful ones about tracking, the calendar and the titles
  are written to the phone: nothing of messages, notifications, encryption keys, contacts, statistics,
  lists, imports, the account and its sessions, nor the watch history. And clearing the offline cache with
  the client at hand leaves no cached answer that would be written.\<close>

theorem offline_cache_scope:
  "(shouldDehydrateQuery \<lparr>cq_key = key_of q, cq_status = st, cq_data = d\<rparr> \<longleftrightarrow>
      st = Query_Success \<and> d \<noteq> None \<and> kept_on_phone q) \<and>
   filter shouldDehydrateQuery (the (fst (clearOfflineQueryCache (Some queries)))) = []"
proof
  show "shouldDehydrateQuery \<lparr>cq_key = key_of q, cq_status = st, cq_data = d\<rparr> \<longleftrightarrow>
      st = Query_Success \<and> d \<noteq> None \<and> kept_on_phone q"
    by (simp add: shouldDehydrateQuery_def persist_key_of kept_roots)
  show "filter shouldDehydrateQuery (the (fst (clearOfflineQueryCache (Some queries)))) = []"
    using in_removed persisted_first
    by (fastforce simp: clearOfflineQueryCache_def filter_empty_conv shouldDehydrateQuery_def)
qed

section \<open>What is read back\<close>

lemma loadEncryptionKey_effect:
  assumes "aes_ok A" "loadEncryptionKey A n p d = (Some k, d')"
  shows "dv_secure d' (encryptionKeyName n) = Some (aes_encoded A k) \<or>
     (\<exists>e. dv_secure d' (encryptionKeyName n) = Some e \<and> e \<noteq> [] \<and> aes_import A e = Some k)"
  using assms by (auto simp: loadEncryptionKey_def generate_key_def split: if_splits option.splits list.splits)

text \<open>The key in memory is the one in secure storage, so that a restart finds it again.\<close>

definition key_stored :: "'k aes \<Rightarrow> storage_names \<Rightarrow> 'k device \<Rightarrow> bool" where
  "key_stored A n d \<longleftrightarrow>
     (\<forall>k. dv_loaded d = Some k \<longrightarrow>
        (\<exists>e. dv_secure d (encryptionKeyName n) = Some e \<and> e \<noteq> [] \<and> aes_import A e = Some k))"

lemma getEncryptionKey_stored:
  assumes "aes_ok A" "key_stored A n d" "getEncryptionKey A n p d = (r, d')"
  shows "key_stored A n d' \<and> dv_loaded d' = r"
proof (cases "dv_loaded d")
  case (Some k)
  with assms show ?thesis by (auto simp: getEncryptionKey_def)
next
  case None
  obtain d1 where l: "loadEncryptionKey A n p d = (r, d1)" and d': "d' = d1\<lparr>dv_loaded := r\<rparr>"
    using assms(3) None by (auto simp: getEncryptionKey_def split: prod.splits)
  have "\<exists>e. dv_secure d1 (encryptionKeyName n) = Some e \<and> e \<noteq> [] \<and> aes_import A e = Some k" if "r = Some k" for k
    using loadEncryptionKey_effect [OF assms(1)] l that assms(1) by (metis aes_ok_def)
  then show ?thesis by (auto simp: d' key_stored_def)
qed

lemma stored_key_loads:
  assumes "key_stored A n d" "dv_loaded d = Some k" "pl_secure_read p"
  shows "fst (getEncryptionKey A n p (d\<lparr>dv_loaded := None\<rparr>)) = Some k"
proof -
  obtain e where e: "dv_secure d (encryptionKeyName n) = Some e" "e \<noteq> []" "aes_import A e = Some k"
    using assms(1,2) unfolding key_stored_def by blast
  then obtain c cs where "e = c # cs" by (cases e) auto
  with e assms(3) show ?thesis by (simp add: getEncryptionKey_def loadEncryptionKey_def)
qed

lemma getEncryptionKey_async: "dv_async (snd (getEncryptionKey A n p d)) = dv_async d"
  by (auto simp: getEncryptionKey_def loadEncryptionKey_def generate_key_def
      split: option.splits prod.splits list.splits if_splits)

lemma additionalData_inject:
  assumes "plain_text (units_of (aadNamespace n @ '':'' @ a))" "plain_text (units_of (aadNamespace n @ '':'' @ b))"
    and "additionalData n a = additionalData n b"
  shows "a = b"
proof -
  have "units_of (aadNamespace n @ '':'' @ a) = units_of (aadNamespace n @ '':'' @ b)"
    using assms text_encode_inj unfolding additionalData_def by blast
  then have "ks (aadNamespace n @ '':'' @ a) = ks (aadNamespace n @ '':'' @ b)" by (simp only: ks_def)
  then show ?thesis by simp
qed

text \<open>A platform on which the calls of a read succeed.\<close>

definition calls_succeed :: "'k platform \<Rightarrow> bool" where
  "calls_succeed p \<longleftrightarrow> pl_async_read p \<and> pl_async_remove p \<and> pl_secure_read p"

lemma setItem_effect:
  assumes A: "aes_ok A" "key_stored A n d" and set: "setItem A n p a v d = (Gives (), d1)"
  obtains k where "dv_loaded d1 = Some k" "key_stored A n d1"
    "dv_async d1 a = Some (ENVELOPE_PREFIX @ aes_seal A k (pl_iv p) (additionalData n a) (text_encode v))"
proof -
  obtain r d' where g: "getEncryptionKey A n p d = (r, d')" by fastforce
  with set obtain k where k: "r = Some k"
    and d1: "d1 = d'\<lparr>dv_async := (dv_async d')(a \<mapsto>
      ENVELOPE_PREFIX @ aes_seal A k (pl_iv p) (additionalData n a) (text_encode v))\<rparr>"
    by (auto simp: setItem_def split: option.splits if_splits)
  have "key_stored A n d'" "dv_loaded d' = Some k" using getEncryptionKey_stored [OF A g] k by auto
  then show ?thesis by (intro that [of k]) (simp_all add: d1 key_stored_def)
qed

text \<open>Reading an envelope that was sealed for \<open>a\<close> under the name \<open>b\<close>.\<close>

lemma getItem_envelope:
  assumes "calls_succeed p" "fst (getEncryptionKey A n p d) = Some k"
    and "dv_async d b = Some (ENVELOPE_PREFIX @ c)"
  shows "getItem A n p b d =
    (case aes_open A k (additionalData n b) c of
       Some plain \<Rightarrow> (Gives (Some (text_decode plain)), snd (getEncryptionKey A n p d))
     | None \<Rightarrow> (Gives None, drop_entry p b (snd (getEncryptionKey A n p d))))"
proof -
  obtain d' where g: "getEncryptionKey A n p d = (Some k, d')"
    using assms(2) by (cases "getEncryptionKey A n p d") auto
  obtain x xs where e: "ENVELOPE_PREFIX @ c = x # xs" "take (length ENVELOPE_PREFIX) (x # xs) = ENVELOPE_PREFIX"
    "drop (length ENVELOPE_PREFIX) (x # xs) = c"
    by (cases "ENVELOPE_PREFIX @ c") (auto simp: ENVELOPE_PREFIX_def)
  show ?thesis
    using assms(1,3) unfolding getItem_def e(1)
    by (simp only: calls_succeed_def not_True_eq_False if_False option.case list.case e(2,3) g prod.case
        prod.sel if_True simp_thms)
qed

text \<open>C33: Encrypted storage reads back what it stored, and only where it was stored. After a successful write
  of a text, a read of the same name gives the text, also after a restart that loses the key in memory; an
  envelope copied to another name is refused and removed. A text that cannot be read is never an error of
  the caller, only a missing entry.\<close>

theorem stored_text_reads_back:
  assumes "aes_ok A" "key_stored A n d" "setItem A n p a v d = (Gives (), d1)"
    and "plain_text v" "calls_succeed p'"
    and "a \<noteq> b" "plain_text (units_of (aadNamespace n @ '':'' @ a))" "plain_text (units_of (aadNamespace n @ '':'' @ b))"
  shows "fst (getItem A n p' a d1) = Gives (Some v) \<and>
         fst (getItem A n p' a (d1\<lparr>dv_loaded := None\<rparr>)) = Gives (Some v) \<and>
         (let moved = d1\<lparr>dv_async := (dv_async d1)(b := dv_async d1 a)\<rparr>
          in fst (getItem A n p' b moved) = Gives None \<and> dv_async (snd (getItem A n p' b moved)) b = None)"
proof -
  obtain k where k: "dv_loaded d1 = Some k" and stored: "key_stored A n d1"
    and entry: "dv_async d1 a = Some (ENVELOPE_PREFIX @ aes_seal A k (pl_iv p) (additionalData n a) (text_encode v))"
    using setItem_effect [OF assms(1-3)] .
  have opens: "aes_open A k (additionalData n a) (aes_seal A k (pl_iv p) (additionalData n a) (text_encode v)) =
    Some (text_encode v)" using assms(1) by (simp add: aes_ok_def)
  have "additionalData n b \<noteq> additionalData n a" using additionalData_inject assms(6-8) by metis
  then have shut: "aes_open A k (additionalData n b) (aes_seal A k (pl_iv p) (additionalData n a) (text_encode v)) = None"
    using assms(1) by (simp add: aes_ok_def)
  have key: "getEncryptionKey A n p' x = (Some k, x)" if "dv_loaded x = Some k" for x
    using that by (simp add: getEncryptionKey_def)
  have first: "fst (getItem A n p' a d1) = Gives (Some v)"
    using getItem_envelope [OF assms(5) _ entry, of A n k] key [OF k] opens assms(4) by (simp add: text_decode_encode)
  have again: "fst (getItem A n p' a (d1\<lparr>dv_loaded := None\<rparr>)) = Gives (Some v)"
  proof -
    have "fst (getEncryptionKey A n p' (d1\<lparr>dv_loaded := None\<rparr>)) = Some k"
      using stored_key_loads [OF stored k] assms(5) by (simp add: calls_succeed_def)
    then show ?thesis
      using getItem_envelope [OF assms(5), of A n "d1\<lparr>dv_loaded := None\<rparr>" k a] entry opens assms(4)
      by (simp add: text_decode_encode)
  qed
  let ?moved = "d1\<lparr>dv_async := (dv_async d1)(b := dv_async d1 a)\<rparr>"
  have "getItem A n p' b ?moved = (Gives None, drop_entry p' b ?moved)"
    using getItem_envelope [OF assms(5), of A n ?moved k b] key [of ?moved] k entry shut by simp
  then show ?thesis using first again assms(5) by (simp add: Let_def drop_entry_def calls_succeed_def)
qed

text \<open>A toy cipher: the envelope of a text is its additional data and the text, each byte two hexadecimal
  digits, under one key.\<close>

definition toy_aes :: "unit aes" where
  "toy_aes =
     \<lparr>aes_import = (\<lambda>e. if e = ''k'' then Some () else None), aes_encoded = (\<lambda>_. ''k''),
      aes_seal = (\<lambda>_ _ aad pt. to_hex aad @ ''.'' @ to_hex pt),
      aes_open = (\<lambda>_ aad s. if take (length (to_hex aad @ ''.'')) s = to_hex aad @ ''.''
        then case from_hex (drop (length (to_hex aad @ ''.'')) s) of Inr pt \<Rightarrow> Some pt | Inl _ \<Rightarrow> None else None)\<rparr>"


lemma dot_not_hex: "CHR ''.'' \<notin> set (to_hex bs)"
proof
  assume "CHR ''.'' \<in> set (to_hex bs)"
  then have "is_hex (CHR ''.'')" using list_all_hex_to_hex [of bs] by (simp add: list_all_iff)
  moreover have "\<not> is_hex (CHR ''.'')" by code_simp
  ultimately show False by blast
qed

lemma toy_aes_ok: "aes_ok toy_aes"
proof -
  have "aad' = aad" if "take (length (to_hex aad' @ ''.'')) (to_hex aad @ ''.'' @ to_hex pt) = to_hex aad' @ ''.''"
    for aad aad' pt
  proof -
    let ?s = "to_hex aad @ ''.'' @ to_hex pt" and ?n = "length (to_hex aad' @ ''.'')"
    have "?s = take ?n ?s @ drop ?n ?s" by (rule append_take_drop_id [symmetric])
    then have "?s = (to_hex aad' @ ''.'') @ drop ?n ?s" unfolding that .
    then have "to_hex aad @ CHR ''.'' # to_hex pt = to_hex aad' @ CHR ''.'' # drop ?n ?s" by (simp only: append_assoc append_Cons append_Nil)
    then have "to_hex aad = to_hex aad'" using dot_not_hex by (metis append_Cons_eq_iff)
    then show ?thesis using to_hex_inj by metis
  qed
  then show ?thesis by (auto simp: aes_ok_def toy_aes_def)
qed

definition sample_platform :: "unit platform" where
  "sample_platform =
     \<lparr>pl_async_read = True, pl_async_write = True, pl_async_remove = True, pl_secure_read = True,
      pl_secure_write = True, pl_secure_delete = True, pl_generated = (), pl_iv = []\<rparr>"

definition empty_device :: "unit device" where
  "empty_device = \<lparr>dv_async = (\<lambda>_. None), dv_secure = (\<lambda>_. None), dv_loaded = None\<rparr>"

lemma stored_text_reads_back_witness:
  "\<exists>d1. setItem toy_aes encryptedQueryStorage sample_platform ''x'' (units_of ''hi'') empty_device = (Gives (), d1) \<and>
     fst (getItem toy_aes encryptedQueryStorage sample_platform ''x'' (d1\<lparr>dv_loaded := None\<rparr>)) =
       Gives (Some (units_of ''hi''))"
proof -
  obtain d1 where d1: "setItem toy_aes encryptedQueryStorage sample_platform ''x'' (units_of ''hi'') empty_device = (Gives (), d1)"
    by (simp add: setItem_def getEncryptionKey_def loadEncryptionKey_def generate_key_def sample_platform_def
        empty_device_def)
  have "key_stored toy_aes encryptedQueryStorage empty_device" by (simp add: key_stored_def empty_device_def)
  moreover have "plain_text (units_of ''hi'')" by code_simp
  moreover have "calls_succeed sample_platform" by (simp add: calls_succeed_def sample_platform_def)
  moreover have "plain_text (units_of (aadNamespace encryptedQueryStorage @ '':'' @ ''x''))"
    "plain_text (units_of (aadNamespace encryptedQueryStorage @ '':'' @ ''y''))" by code_simp+
  ultimately have "fst (getItem toy_aes encryptedQueryStorage sample_platform ''x'' (d1\<lparr>dv_loaded := None\<rparr>)) =
      Gives (Some (units_of ''hi''))"
    using stored_text_reads_back [OF toy_aes_ok _ d1, of sample_platform "''y''"] by simp
  with d1 show ?thesis by blast
qed

text \<open>A read while the secure store cannot be read destroys the entry, although its key is intact.\<close>

lemma locked_read_drops_entry:
  assumes "pl_async_read p" "pl_async_remove p" "\<not> pl_secure_read p" "dv_loaded d = None"
    and "dv_async d a = Some (ENVELOPE_PREFIX @ c)"
  shows "getItem A n p a d = (Gives None, d\<lparr>dv_async := (dv_async d)(a := None)\<rparr>)"
proof -
  have g: "getEncryptionKey A n p d = (None, d)"
    using assms by (cases d) (simp add: getEncryptionKey_def loadEncryptionKey_def)
  show ?thesis
    using assms g by (simp add: getItem_def ENVELOPE_PREFIX_def drop_entry_def)
qed

end
