(* ===== verification/App_Lifecycle.thy ===== *)
theory App_Lifecycle
  imports Query_Persistence
begin

text \<open>
  What the mobile app does when the session, the network or the foreground changes
  (mobile/src/providers/app-providers.tsx): the effects as lists of actions, and the query cache, its
  copy on the phone, and the fetches, writes, restores and read marks under way as one machine, in which
  every answer carries the account it was fetched for.
\<close>

section \<open>The effects\<close>

datatype app_status = App_Loading | App_Authenticated | App_Offline | App_Anonymous | App_Restore_Error

text \<open>The part of the auth store that the effects read: the status and the id of the user.\<close>

record app_auth =
  aa_status :: app_status
  aa_user :: "string option"

datatype app_action =
    Clear_Query_Client
  | Clear_Offline_Cache
  | Clear_Error_Reports
  | Flush_Error_Reports
  | Flush_Logout_Revocations
  | Flush_Push_Revocations
  | Sync_Release_Notifications string
  | Set_Online bool
  | Set_Focused bool
  | Enter_Offline_Mode
  | Resume_Offline_Session

definition refreshReleaseNotifications :: "app_auth \<Rightarrow> app_action list" where
  "refreshReleaseNotifications auth =
     [Flush_Logout_Revocations, Flush_Push_Revocations] @
     (case (aa_status auth, aa_user auth) of
        (App_Authenticated, Some u) \<Rightarrow> [Sync_Release_Notifications u]
      | _ \<Rightarrow> [])"

definition clearCache :: "app_action list" where
  "clearCache = [Clear_Query_Client, Clear_Offline_Cache, Clear_Error_Reports]"

definition app_state_changed :: "bool \<Rightarrow> app_auth \<Rightarrow> app_action list" where
  "app_state_changed active auth =
     Set_Focused active # (if active then Flush_Error_Reports # refreshReleaseNotifications auth else [])"

text \<open>The mount of the cache effect, and its subscription to the store.\<close>

definition mounted :: "app_auth \<Rightarrow> app_action list" where
  "mounted auth =
     (if aa_status auth = App_Anonymous then clearCache else []) @
     (if aa_status auth = App_Authenticated then Flush_Error_Reports # refreshReleaseNotifications auth else [])"

definition account_changed :: "app_auth \<Rightarrow> app_auth \<Rightarrow> bool" where
  "account_changed state previous \<longleftrightarrow> aa_user state \<noteq> aa_user previous"

definition signed_out :: "app_auth \<Rightarrow> app_auth \<Rightarrow> bool" where
  "signed_out state previous \<longleftrightarrow> aa_status state = App_Anonymous \<and> aa_status previous \<noteq> App_Anonymous"

definition auth_changed :: "app_auth \<Rightarrow> app_auth \<Rightarrow> app_action list" where
  "auth_changed state previous =
     (if (account_changed state previous \<and> aa_user previous \<noteq> None) \<or> signed_out state previous then clearCache else []) @
     (if signed_out state previous then [Flush_Push_Revocations]
      else case aa_user state of
        Some u \<Rightarrow>
          (if aa_status state = App_Authenticated \<and>
              (aa_status previous \<noteq> App_Authenticated \<or> account_changed state previous)
           then [Flush_Error_Reports, Sync_Release_Notifications u] else [])
      | None \<Rightarrow> [])"

text \<open>A report of the network: \<open>isConnected\<close> may be unknown, \<open>isInternetReachable\<close> as well. The second
  result says whether a resumption is under way afterwards.\<close>

definition network_changed :: "bool option \<Rightarrow> bool option \<Rightarrow> app_auth \<Rightarrow> bool \<Rightarrow> app_action list \<times> bool" where
  "network_changed isConnected isInternetReachable auth resuming =
     (case isConnected of
        None \<Rightarrow> ([], resuming)
      | Some c \<Rightarrow>
          let connected = c \<and> isInternetReachable \<noteq> Some False in
          if \<not> connected then
            (Set_Online False # (if aa_status auth = App_Authenticated then [Enter_Offline_Mode] else []), resuming)
          else if aa_status auth \<noteq> App_Offline then
            (Set_Online True #
               (if aa_status auth = App_Authenticated then Flush_Error_Reports # refreshReleaseNotifications auth else []),
             resuming)
          else if resuming then ([Set_Online False], True)
          else ([Set_Online False, Resume_Offline_Session], True))"

definition resume_finished :: "bool \<Rightarrow> app_auth \<Rightarrow> app_action list \<times> bool" where
  "resume_finished disposed auth =
     ((if disposed then []
       else Set_Online (aa_status auth = App_Authenticated) #
         (if aa_status auth = App_Authenticated then Flush_Error_Reports # refreshReleaseNotifications auth else [])),
      False)"

text \<open>While the session is offline and no resumption runs, a report of a connection starts exactly one; while one
  runs, none; and the queries stay paused until it has signed the session in again.\<close>

lemma connection_resumes_once:
  assumes "aa_status auth = App_Offline" "reachable \<noteq> Some False"
  shows "network_changed (Some True) reachable auth False = ([Set_Online False, Resume_Offline_Session], True)"
    and "network_changed (Some True) reachable auth True = ([Set_Online False], True)"
    and "Set_Online True \<in> set (fst (resume_finished False auth')) \<longleftrightarrow> aa_status auth' = App_Authenticated"
  using assms
  by (auto simp: network_changed_def resume_finished_def refreshReleaseNotifications_def
      split: app_status.splits option.splits)

section \<open>The cache and its copy on the phone\<close>

text \<open>\<open>buster\<close> of the persist options: it names the account the copy was written for.\<close>

definition cache_buster :: "string option \<Rightarrow> string" where
  "cache_buster userId = QUERY_CACHE_BUSTER @ '':'' @ (case userId of None \<Rightarrow> ''anonymous'' | Some u \<Rightarrow> u)"

text \<open>An answer with the account it was fetched for, and how it came into the cache: as an answer, out of the
  copy on the phone, or by the rollback of a read mark.\<close>

datatype entry_source = From_Server | From_Copy | From_Rollback

record 'd entry =
  ce_owner :: "string option"
  ce_source :: entry_source
  ce_query :: "'d cached_query"

abbreviation entry_key :: "'d entry \<Rightarrow> key_part list" where "entry_key e \<equiv> cq_key (ce_query e)"

text \<open>A restore keeps the buster of the provider that began it, and the copy once it has been read.\<close>

record 'd restore =
  rs_buster :: string
  rs_read :: "(string \<times> 'd entry list) option option"

record 'd life =
  lf_auth :: app_auth
  lf_memory :: "'d entry list"
  lf_stored :: "(string \<times> 'd entry list) option"
  lf_writes :: "(string \<times> 'd entry list) list"
  lf_fetches :: "(string option \<times> key_part list) list"
  lf_restores :: "'d restore list"
  lf_marks :: "'d entry list list"

definition put_entry :: "'d entry \<Rightarrow> 'd entry list \<Rightarrow> 'd entry list" where
  "put_entry e memory = filter (\<lambda>x. entry_key x \<noteq> entry_key e) memory @ [e]"

definition drop_nth :: "nat \<Rightarrow> 'a list \<Rightarrow> 'a list" where
  "drop_nth n xs = take n xs @ drop (Suc n) xs"

text \<open>\<open>queryClient.clear()\<close>: what is in flight keeps running, but a fetch of a removed query ends outside the
  cache. A restore and a mutation are not touched.\<close>

definition run_action :: "'d life \<Rightarrow> app_action \<Rightarrow> 'd life" where
  "run_action s a = (case a of Clear_Query_Client \<Rightarrow> s\<lparr>lf_memory := [], lf_fetches := []\<rparr> | _ \<Rightarrow> s)"

text \<open>What may happen: the store changes; a query is asked for, and answered; a mutation writes its answer into
  the cache (only into the session that made it, as \<open>answer_belongs_to_session\<close> of \<open>Api_Request\<close> states);
  the persister takes a copy of what is to be written, and a write or a removal reaches the phone, in any
  order and as often as it likes; the provider of the current account begins to restore the copy, which is
  read, and then put into the cache where it is newer, each after a while; a notification is marked read,
  which changes the cached answers at once and keeps the old ones, and the mark is settled; the app is
  killed and started again with some session.\<close>

datatype 'd life_event =
    Auth_Becomes app_auth
  | Fetch_Begins "key_part list"
  | Fetch_Answered nat 'd
  | Mutation_Writes "key_part list" 'd
  | Copy_Taken
  | Write_Lands
  | Removal_Lands
  | Restore_Begins
  | Restore_Reads nat
  | Restore_Ends nat bool "key_part list \<Rightarrow> bool"
  | Mark_Made "'d \<Rightarrow> 'd"
  | Mark_Settled nat bool
  | App_Restarts app_auth

definition successful :: "key_part list \<Rightarrow> 'd \<Rightarrow> 'd cached_query" where
  "successful key data = \<lparr>cq_key = key, cq_status = Query_Success, cq_data = Some data\<rparr>"

definition own_answer :: "'d life \<Rightarrow> string option \<Rightarrow> key_part list \<Rightarrow> 'd \<Rightarrow> 'd life" where
  "own_answer s owner key data =
     s\<lparr>lf_memory := put_entry \<lparr>ce_owner = owner, ce_source = From_Server, ce_query = successful key data\<rparr> (lf_memory s)\<rparr>"

definition fetch_answered :: "nat \<Rightarrow> 'd \<Rightarrow> 'd life \<Rightarrow> 'd life" where
  "fetch_answered n data s =
     (if n < length (lf_fetches s)
      then let (owner, key) = lf_fetches s ! n
           in own_answer (s\<lparr>lf_fetches := drop_nth n (lf_fetches s)\<rparr>) owner key data
      else s)"

text \<open>The end of a restore: nothing was stored, the copy is too old or has another buster and is removed, or it
  is put into the cache. \<open>accepts\<close> compares the busters, \<open>newer\<close> says for which keys the copy is newer.\<close>

definition restore_ends ::
  "(string \<Rightarrow> string \<Rightarrow> bool) \<Rightarrow> nat \<Rightarrow> bool \<Rightarrow> (key_part list \<Rightarrow> bool) \<Rightarrow> 'd life \<Rightarrow> 'd life" where
  "restore_ends accepts n expired newer s =
     (if n < length (lf_restores s)
      then let r = lf_restores s ! n; s' = s\<lparr>lf_restores := drop_nth n (lf_restores s)\<rparr>
           in case rs_read r of
                Some (Some (buster, copy)) \<Rightarrow>
                  if expired \<or> \<not> accepts (rs_buster r) buster then s'\<lparr>lf_stored := None\<rparr>
                  else s'\<lparr>lf_memory :=
                    filter (\<lambda>e. entry_key e \<notin> entry_key ` set copy \<or> \<not> newer (entry_key e)) (lf_memory s) @
                    map (\<lambda>e. e\<lparr>ce_source := From_Copy\<rparr>)
                      (filter (\<lambda>e. entry_key e \<notin> entry_key ` set (lf_memory s) \<or> newer (entry_key e)) copy)\<rparr>
              | Some None \<Rightarrow> s'
              | None \<Rightarrow> s
      else s)"

text \<open>\<open>onMutate\<close> of the two read marks, after \<open>cancelQueries\<close>, and \<open>onError\<close>; \<open>setQueryData\<close> leaves an entry
  without data alone.\<close>

definition is_notifications :: "key_part list \<Rightarrow> bool" where
  "is_notifications key \<longleftrightarrow> key = notificationKeys_summary \<or> key = notificationKeys_list"

definition changed_by :: "('d \<Rightarrow> 'd) \<Rightarrow> 'd entry \<Rightarrow> 'd entry" where
  "changed_by f e =
     (case cq_data (ce_query e) of
        Some data \<Rightarrow> if is_notifications (entry_key e) then e\<lparr>ce_query := successful (entry_key e) (f data)\<rparr> else e
      | None \<Rightarrow> e)"

definition mark_made :: "('d \<Rightarrow> 'd) \<Rightarrow> 'd life \<Rightarrow> 'd life" where
  "mark_made f s =
     s\<lparr>lf_fetches := filter (\<lambda>(_, key). take 1 key \<noteq> notificationKeys_all) (lf_fetches s),
       lf_marks := lf_marks s @ [filter (\<lambda>e. is_notifications (entry_key e)) (lf_memory s)],
       lf_memory := map (changed_by f) (lf_memory s)\<rparr>"

definition put_back :: "'d entry \<Rightarrow> 'd entry list \<Rightarrow> 'd entry list" where
  "put_back e memory =
     (case cq_data (ce_query e) of
        Some data \<Rightarrow> put_entry (e\<lparr>ce_source := From_Rollback, ce_query := successful (entry_key e) data\<rparr>) memory
      | None \<Rightarrow> memory)"

definition mark_settled :: "nat \<Rightarrow> bool \<Rightarrow> 'd life \<Rightarrow> 'd life" where
  "mark_settled n ok s =
     (if n < length (lf_marks s)
      then s\<lparr>lf_marks := drop_nth n (lf_marks s),
             lf_memory := (if ok then lf_memory s else fold put_back (lf_marks s ! n) (lf_memory s))\<rparr>
      else s)"

definition life_step :: "(string \<Rightarrow> string \<Rightarrow> bool) \<Rightarrow> 'd life_event \<Rightarrow> 'd life \<Rightarrow> 'd life" where
  "life_step accepts ev s =
     (case ev of
        Auth_Becomes auth \<Rightarrow> foldl run_action (s\<lparr>lf_auth := auth\<rparr>) (auth_changed auth (lf_auth s))
      | Fetch_Begins key \<Rightarrow> s\<lparr>lf_fetches := lf_fetches s @ [(aa_user (lf_auth s), key)]\<rparr>
      | Fetch_Answered n data \<Rightarrow> fetch_answered n data s
      | Mutation_Writes key data \<Rightarrow> own_answer s (aa_user (lf_auth s)) key data
      | Copy_Taken \<Rightarrow>
          s\<lparr>lf_writes := lf_writes s @
             [(cache_buster (aa_user (lf_auth s)), filter (\<lambda>e. shouldDehydrateQuery (ce_query e)) (lf_memory s))]\<rparr>
      | Write_Lands \<Rightarrow>
          (case lf_writes s of [] \<Rightarrow> s | w # ws \<Rightarrow> s\<lparr>lf_stored := Some w, lf_writes := ws\<rparr>)
      | Removal_Lands \<Rightarrow> s\<lparr>lf_stored := None\<rparr>
      | Restore_Begins \<Rightarrow>
          s\<lparr>lf_restores := lf_restores s @ [\<lparr>rs_buster = cache_buster (aa_user (lf_auth s)), rs_read = None\<rparr>]\<rparr>
      | Restore_Reads n \<Rightarrow>
          (if n < length (lf_restores s)
           then s\<lparr>lf_restores := (lf_restores s)[n := (lf_restores s ! n)\<lparr>rs_read := Some (lf_stored s)\<rparr>]\<rparr> else s)
      | Restore_Ends n expired newer \<Rightarrow> restore_ends accepts n expired newer s
      | Mark_Made f \<Rightarrow> mark_made f s
      | Mark_Settled n ok \<Rightarrow> mark_settled n ok s
      | App_Restarts auth \<Rightarrow>
          foldl run_action (s\<lparr>lf_auth := auth, lf_memory := [], lf_writes := [], lf_fetches := [], lf_restores := [],
              lf_marks := []\<rparr>) (mounted auth))"

definition fresh_app :: "'d life" where
  "fresh_app =
     \<lparr>lf_auth = \<lparr>aa_status = App_Loading, aa_user = None\<rparr>, lf_memory = [], lf_stored = None, lf_writes = [],
      lf_fetches = [], lf_restores = [], lf_marks = []\<rparr>"

text \<open>The ids of users come from the server; none is the word that stands for nobody.\<close>

definition event_user_ok :: "'d life_event \<Rightarrow> bool" where
  "event_user_ok ev =
     (case ev of
        Auth_Becomes auth \<Rightarrow> aa_user auth \<noteq> Some ''anonymous''
      | App_Restarts auth \<Rightarrow> aa_user auth \<noteq> Some ''anonymous''
      | _ \<Rightarrow> True)"

text \<open>An account is left while nothing of it that \<open>clear()\<close> does not stop is under way.\<close>

definition left_calmly :: "'d life_event \<Rightarrow> 'd life \<Rightarrow> bool" where
  "left_calmly ev s =
     (case ev of
        Auth_Becomes auth \<Rightarrow>
          aa_user auth \<noteq> aa_user (lf_auth s) \<and> aa_user (lf_auth s) \<noteq> None \<longrightarrow> lf_restores s = [] \<and> lf_marks s = []
      | _ \<Rightarrow> True)"

text \<open>With \<open>calm\<close>, every account is left so.\<close>

inductive life_reachable :: "(string \<Rightarrow> string \<Rightarrow> bool) \<Rightarrow> bool \<Rightarrow> 'd life \<Rightarrow> bool" for accepts calm where
  life_start: "life_reachable accepts calm fresh_app"
| life_next: "life_reachable accepts calm s \<Longrightarrow> event_user_ok ev \<Longrightarrow> (calm \<Longrightarrow> left_calmly ev s) \<Longrightarrow>
    life_reachable accepts calm (life_step accepts ev s)"

section \<open>No answer crosses accounts\<close>

definition owned :: "string option \<Rightarrow> 'd entry \<Rightarrow> bool" where
  "owned u e \<longleftrightarrow> ce_owner e = None \<or> ce_owner e = u"

text \<open>What may be in the cache of \<open>u\<close>, and in a copy of theirs.\<close>

definition entry_ok :: "bool \<Rightarrow> string option \<Rightarrow> 'd entry \<Rightarrow> bool" where
  "entry_ok calm u e \<longleftrightarrow>
     owned u e \<or> \<not> calm \<and> (ce_source e = From_Rollback \<and> is_notifications (entry_key e) \<or> ce_source e = From_Copy)"

definition copied_ok :: "bool \<Rightarrow> string option \<Rightarrow> 'd entry \<Rightarrow> bool" where
  "copied_ok calm u e \<longleftrightarrow>
     shouldDehydrateQuery (ce_query e) \<and> (owned u e \<or> \<not> calm \<and> ce_source e = From_Copy)"

definition copy_ok :: "bool \<Rightarrow> string \<times> 'd entry list \<Rightarrow> bool" where
  "copy_ok calm w \<longleftrightarrow>
     (\<exists>u. u \<noteq> Some ''anonymous'' \<and> fst w = cache_buster u \<and> (\<forall>e \<in> set (snd w). copied_ok calm u e))"

definition restore_ok :: "bool \<Rightarrow> string option \<Rightarrow> 'd restore \<Rightarrow> bool" where
  "restore_ok calm u r \<longleftrightarrow>
     (\<forall>w. rs_read r = Some (Some w) \<longrightarrow> copy_ok calm w) \<and>
     (calm \<longrightarrow> rs_buster r = cache_buster None \<or> rs_buster r = cache_buster u)"

definition mark_ok :: "bool \<Rightarrow> string option \<Rightarrow> 'd entry list \<Rightarrow> bool" where
  "mark_ok calm u m \<longleftrightarrow> (\<forall>e \<in> set m. is_notifications (entry_key e) \<and> (calm \<longrightarrow> owned u e))"

definition life_ok :: "bool \<Rightarrow> 'd life \<Rightarrow> bool" where
  "life_ok calm s \<longleftrightarrow>
     aa_user (lf_auth s) \<noteq> Some ''anonymous'' \<and>
     (\<forall>e \<in> set (lf_memory s). entry_ok calm (aa_user (lf_auth s)) e) \<and>
     (\<forall>f \<in> set (lf_fetches s). fst f = None \<or> fst f = aa_user (lf_auth s)) \<and>
     (\<forall>w \<in> set (lf_writes s). copy_ok calm w) \<and> (\<forall>w. lf_stored s = Some w \<longrightarrow> copy_ok calm w) \<and>
     (\<forall>r \<in> set (lf_restores s). restore_ok calm (aa_user (lf_auth s)) r) \<and>
     (\<forall>m \<in> set (lf_marks s). mark_ok calm (aa_user (lf_auth s)) m)"

lemma run_actions:
  "foldl run_action s as =
     (if Clear_Query_Client \<in> set as then s\<lparr>lf_memory := [], lf_fetches := []\<rparr> else s)"
  by (induction as arbitrary: s) (auto simp: run_action_def split: app_action.splits)

lemma cache_buster_inject:
  "u \<noteq> Some ''anonymous'' \<Longrightarrow> v \<noteq> Some ''anonymous'' \<Longrightarrow> cache_buster u = cache_buster v \<Longrightarrow> u = v"
  by (auto simp: cache_buster_def split: option.splits)

lemma notifications_not_copied: "is_notifications key \<Longrightarrow> \<not> shouldPersistQueryKey key"
  by (auto simp: is_notifications_def notificationKeys_summary_def notificationKeys_list_def persist_root
      PERSISTED_QUERY_ROOTS_def)

text \<open>Whoever follows another account finds the cache empty.\<close>

lemma auth_changed_clears:
  "aa_user auth \<noteq> aa_user previous \<Longrightarrow> aa_user previous \<noteq> None \<Longrightarrow>
   Clear_Query_Client \<in> set (auth_changed auth previous)"
  by (simp add: auth_changed_def account_changed_def clearCache_def)

lemma nobodys: "owned None e \<Longrightarrow> owned u e"
  by (simp add: owned_def)

lemma entry_nobodys: "entry_ok calm None e \<Longrightarrow> entry_ok calm u e"
  by (auto simp: entry_ok_def owned_def)

lemma drop_nth_subset: "set (drop_nth n xs) \<subseteq> set xs"
  unfolding drop_nth_def using set_take_subset set_drop_subset by fastforce

lemma put_entry_ok:
  "\<forall>x \<in> set memory. entry_ok calm u x \<Longrightarrow> entry_ok calm u e \<Longrightarrow> \<forall>x \<in> set (put_entry e memory). entry_ok calm u x"
  by (auto simp: put_entry_def)

lemma put_back_ok:
  "mark_ok calm u m \<Longrightarrow> \<forall>x \<in> set memory. entry_ok calm u x \<Longrightarrow> \<forall>x \<in> set (fold put_back m memory). entry_ok calm u x"
proof (induction m arbitrary: memory)
  case (Cons e m)
  have "entry_ok calm u (e\<lparr>ce_source := From_Rollback, ce_query := successful (entry_key e) d\<rparr>)" for d
    using Cons.prems(1) by (auto simp: mark_ok_def entry_ok_def owned_def successful_def)
  then have "\<forall>x \<in> set (put_back e memory). entry_ok calm u x"
    using Cons.prems(2) put_entry_ok by (simp add: put_back_def split: option.split) blast
  with Cons show ?case by (simp add: mark_ok_def)
qed simp

lemma changed_by_ok: "entry_ok calm u e \<Longrightarrow> entry_ok calm u (changed_by f e)"
  by (auto simp: changed_by_def entry_ok_def owned_def successful_def split: option.splits)

lemma life_okI:
  assumes "aa_user (lf_auth s) = u" "u \<noteq> Some ''anonymous''" "\<And>e. e \<in> set (lf_memory s) \<Longrightarrow> entry_ok calm u e"
    and "\<And>f. f \<in> set (lf_fetches s) \<Longrightarrow> fst f = None \<or> fst f = u"
    and "\<And>w. w \<in> set (lf_writes s) \<Longrightarrow> copy_ok calm w" "\<And>w. lf_stored s = Some w \<Longrightarrow> copy_ok calm w"
    and "\<And>r. r \<in> set (lf_restores s) \<Longrightarrow> restore_ok calm u r" "\<And>m. m \<in> set (lf_marks s) \<Longrightarrow> mark_ok calm u m"
  shows "life_ok calm s"
  using assms unfolding life_ok_def by simp

lemma life_okD:
  assumes "life_ok calm s" and "aa_user (lf_auth s) = u"
  shows "u \<noteq> Some ''anonymous''" "\<And>e. e \<in> set (lf_memory s) \<Longrightarrow> entry_ok calm u e"
    and "\<And>f. f \<in> set (lf_fetches s) \<Longrightarrow> fst f = None \<or> fst f = u"
    and "\<And>w. w \<in> set (lf_writes s) \<Longrightarrow> copy_ok calm w" "\<And>w. lf_stored s = Some w \<Longrightarrow> copy_ok calm w"
    and "\<And>r. r \<in> set (lf_restores s) \<Longrightarrow> restore_ok calm u r" "\<And>m. m \<in> set (lf_marks s) \<Longrightarrow> mark_ok calm u m"
  using assms unfolding life_ok_def by auto

lemma life_ok_auth:
  assumes ok: "life_ok calm s" and user: "aa_user auth \<noteq> Some ''anonymous''"
    and calm: "calm \<Longrightarrow> left_calmly (Auth_Becomes auth) s"
  shows "life_ok calm (life_step accepts (Auth_Becomes auth) s)"
proof -
  let ?u = "aa_user (lf_auth s)" and ?v = "aa_user auth"
  let ?clears = "Clear_Query_Client \<in> set (auth_changed auth (lf_auth s))"
  note d = life_okD [OF ok refl]
  have same: "?v = ?u \<or> ?u = None" if "\<not> ?clears" using auth_changed_clears [of auth "lf_auth s"] that by blast
  have memory: "entry_ok calm ?v e" if "\<not> ?clears" "e \<in> set (lf_memory s)" for e
    using same [OF that(1)] d(2) [OF that(2)] entry_nobodys [of calm e ?v] by auto
  have fetches: "fst f = None \<or> fst f = ?v" if "\<not> ?clears" "f \<in> set (lf_fetches s)" for f
    using same [OF that(1)] d(3) [OF that(2)] by auto
  have moved: "?v = ?u \<or> ?u = None \<or> lf_restores s = [] \<and> lf_marks s = []" if calm
    using calm [OF that] by (auto simp: left_calmly_def)
  have restores: "restore_ok calm ?v r" if "r \<in> set (lf_restores s)" for r
    using moved d(6) [OF that] that by (cases calm) (auto simp: restore_ok_def)
  have marks: "mark_ok calm ?v m" if "m \<in> set (lf_marks s)" for m
    using moved d(7) [OF that] that by (cases calm) (auto simp: mark_ok_def owned_def)
  show ?thesis
    by (rule life_okI [OF refl]) (use user memory fetches d(4,5) restores marks in
      \<open>auto simp: life_step_def run_actions split: if_splits\<close>)
qed

lemma life_ok_answer:
  assumes ok: "life_ok calm s" and owner: "owner = None \<or> owner = aa_user (lf_auth s)"
    and fetches: "set fetches \<subseteq> set (lf_fetches s)"
  shows "life_ok calm (own_answer (s\<lparr>lf_fetches := fetches\<rparr>) owner key data)"
proof -
  have "entry_ok calm (aa_user (lf_auth s)) \<lparr>ce_owner = owner, ce_source = From_Server, ce_query = successful key data\<rparr>"
    using owner by (auto simp: entry_ok_def owned_def)
  with life_okD(2) [OF ok refl] put_entry_ok have
    "\<forall>e \<in> set (put_entry \<lparr>ce_owner = owner, ce_source = From_Server, ce_query = successful key data\<rparr> (lf_memory s)).
       entry_ok calm (aa_user (lf_auth s)) e" by blast
  moreover have "fst f = None \<or> fst f = aa_user (lf_auth s)" if "f \<in> set fetches" for f
    using life_okD(3) [OF ok refl] fetches that by blast
  ultimately show ?thesis
    using life_okD [OF ok refl] by (intro life_okI [OF refl]) (simp_all add: own_answer_def)
qed

lemma life_ok_copy:
  assumes ok: "life_ok calm s"
  shows "copy_ok calm (cache_buster (aa_user (lf_auth s)),
    filter (\<lambda>e. shouldDehydrateQuery (ce_query e)) (lf_memory s))"
proof -
  have "copied_ok calm (aa_user (lf_auth s)) e" if "e \<in> set (lf_memory s)" "shouldDehydrateQuery (ce_query e)" for e
    using life_okD(2) [OF ok refl that(1)] that(2) notifications_not_copied [of "entry_key e"]
    by (auto simp: copied_ok_def entry_ok_def shouldDehydrateQuery_def)
  with life_okD(1) [OF ok refl] show ?thesis by (auto simp: copy_ok_def)
qed

text \<open>What a restore puts into the cache, if the busters are equal.\<close>

lemma restored_ok:
  assumes "restore_ok calm u r" and "rs_read r = Some (Some (rs_buster r, copy))" and "u \<noteq> Some ''anonymous''"
    and "e \<in> set copy"
  shows "entry_ok calm u (e\<lparr>ce_source := From_Copy\<rparr>)"
proof (cases calm)
  case True
  obtain v where v: "v \<noteq> Some ''anonymous''" "rs_buster r = cache_buster v" "copied_ok calm v e"
    using assms(1,2,4) by (auto simp: restore_ok_def copy_ok_def)
  from assms(1) True have "rs_buster r = cache_buster None \<or> rs_buster r = cache_buster u" by (simp add: restore_ok_def)
  then have "v = None \<or> v = u" using cache_buster_inject [OF v(1)] assms(3) v(2) by auto
  with v(3) True show ?thesis by (auto simp: entry_ok_def copied_ok_def owned_def)
next
  case False
  then show ?thesis by (simp add: entry_ok_def)
qed

lemma life_ok_restore:
  assumes ok: "life_ok calm s" and accepts: "\<And>b c. accepts b c \<Longrightarrow> b = c"
  shows "life_ok calm (restore_ends accepts n expired newer s)"
proof (cases "n < length (lf_restores s)")
  case False
  with ok show ?thesis by (simp add: restore_ends_def)
next
  case True
  let ?r = "lf_restores s ! n"
  let ?s = "s\<lparr>lf_restores := drop_nth n (lf_restores s)\<rparr>"
  note d = life_okD [OF ok refl]
  have r: "restore_ok calm (aa_user (lf_auth s)) ?r" using d(6) True by simp
  have rest: "life_ok calm ?s"
    using d drop_nth_subset [of n "lf_restores s"] by (intro life_okI [OF refl]) auto
  show ?thesis
  proof (cases "\<exists>copy. rs_read ?r = Some (Some (rs_buster ?r, copy)) \<and> \<not> expired \<and> accepts (rs_buster ?r) (rs_buster ?r)")
    case True
    then obtain copy where copy: "rs_read ?r = Some (Some (rs_buster ?r, copy))" "\<not> expired"
      "accepts (rs_buster ?r) (rs_buster ?r)" by blast
    have "entry_ok calm (aa_user (lf_auth s)) (e\<lparr>ce_source := From_Copy\<rparr>)" if "e \<in> set copy" for e
      using restored_ok [OF r copy(1) d(1) that] .
    then show ?thesis
      using \<open>n < length (lf_restores s)\<close> copy life_okD [OF rest refl]
      by (intro life_okI [OF refl]) (auto simp: restore_ends_def Let_def)
  next
    case False
    have "life_ok calm (?s\<lparr>lf_stored := None\<rparr>)"
      using life_okD [OF rest refl] by (intro life_okI [OF refl]) auto
    with False rest ok accepts \<open>n < length (lf_restores s)\<close> show ?thesis
      by (auto simp: restore_ends_def Let_def split: option.splits prod.splits)
  qed
qed

lemma life_ok_made:
  assumes ok: "life_ok calm s"
  shows "life_ok calm (mark_made f s)"
proof -
  note d = life_okD [OF ok refl]
  have "mark_ok calm (aa_user (lf_auth s)) (filter (\<lambda>e. is_notifications (entry_key e)) (lf_memory s))"
    using d(2) by (auto simp: mark_ok_def entry_ok_def)
  with d show ?thesis
    by (intro life_okI [OF refl]) (auto simp: mark_made_def changed_by_ok)
qed

lemma life_ok_settled:
  assumes ok: "life_ok calm s"
  shows "life_ok calm (mark_settled n ok' s)"
proof (cases "n < length (lf_marks s)")
  case True
  note d = life_okD [OF ok refl]
  have "\<forall>e \<in> set (fold put_back (lf_marks s ! n) (lf_memory s)). entry_ok calm (aa_user (lf_auth s)) e"
    using True d(2) by (intro put_back_ok d(7) ballI) simp_all
  with d True drop_nth_subset [of n "lf_marks s"] show ?thesis
    by (intro life_okI [OF refl]) (auto simp: mark_settled_def split: if_splits)
next
  case False
  with ok show ?thesis by (simp add: mark_settled_def)
qed

lemma life_ok_step:
  assumes ok: "life_ok calm s" and ev: "event_user_ok ev" and calm: "calm \<Longrightarrow> left_calmly ev s"
    and accepts: "\<And>b c. accepts b c \<Longrightarrow> b = c"
  shows "life_ok calm (life_step accepts ev s)"
proof (cases ev)
  case (Auth_Becomes auth)
  then show ?thesis using life_ok_auth [OF ok] ev calm by (simp add: event_user_ok_def)
next
  case (Fetch_Answered n data)
  show ?thesis
  proof (cases "n < length (lf_fetches s)")
    case True
    then have "fst (lf_fetches s ! n) = None \<or> fst (lf_fetches s ! n) = aa_user (lf_auth s)"
      using life_okD(3) [OF ok refl] by simp
    with life_ok_answer [OF ok _ drop_nth_subset] Fetch_Answered True show ?thesis
      by (auto simp: life_step_def fetch_answered_def Let_def split: prod.splits)
  next
    case False
    with Fetch_Answered ok show ?thesis by (simp add: life_step_def fetch_answered_def)
  qed
next
  case (Mutation_Writes key data)
  then show ?thesis
    using life_ok_answer [OF ok disjI2 [OF refl] order_refl] by (simp add: life_step_def)
next
  case (Restore_Ends n expired newer)
  then show ?thesis using life_ok_restore [OF ok accepts] by (simp add: life_step_def)
next
  case (Mark_Made f)
  then show ?thesis using life_ok_made [OF ok] by (simp add: life_step_def)
next
  case (Mark_Settled n ok')
  then show ?thesis using life_ok_settled [OF ok] by (simp add: life_step_def)
next
  case (Restore_Reads n)
  have "restore_ok calm (aa_user (lf_auth s)) ((lf_restores s ! n)\<lparr>rs_read := Some (lf_stored s)\<rparr>)"
    if "n < length (lf_restores s)"
    using life_okD(5,6) [OF ok refl] that by (auto simp: restore_ok_def)
  with Restore_Reads life_okD [OF ok refl] show ?thesis
    by (intro life_okI [OF refl]) (auto simp: life_step_def dest!: set_update_subset_insert [THEN subsetD] split: if_splits)
next
  case Copy_Taken
  with life_ok_copy [OF ok] life_okD [OF ok refl] show ?thesis
    by (intro life_okI [OF refl]) (auto simp: life_step_def)
next
  case Restore_Begins
  have "restore_ok calm (aa_user (lf_auth s)) \<lparr>rs_buster = cache_buster (aa_user (lf_auth s)), rs_read = None\<rparr>"
    by (simp add: restore_ok_def)
  with Restore_Begins life_okD [OF ok refl] show ?thesis
    by (intro life_okI [OF refl]) (auto simp: life_step_def)
next
  case (App_Restarts auth)
  with life_okD [OF ok refl] ev show ?thesis
    by (intro life_okI [OF refl]) (auto simp: life_step_def run_actions event_user_ok_def split: if_splits)
qed (use life_okD [OF ok refl] in \<open>(intro life_okI [OF refl]; auto simp: life_step_def split: list.splits)\<close>)+

lemma life_ok_reachable:
  assumes "\<And>b c. accepts b c \<Longrightarrow> b = c" and "life_reachable accepts calm s"
  shows "life_ok calm s"
  using assms(2)
proof (induction rule: life_reachable.induct)
  case life_start
  show ?case by (rule life_okI [OF refl]) (simp_all add: fresh_app_def)
next
  case (life_next s ev)
  then show ?case using life_ok_step assms(1) by blast
qed

text \<open>C34: What crosses accounts in the cache of the phone, exactly, whatever the order in which accounts sign in
  and out, queries and mutations are answered, copies are taken, written late, removed late, read back and
  put into the cache late, notifications are marked and the marks fail late, and the app is killed and
  started again. If no account is left while a restore of its copy or a read mark of it is under way, every
  answer in the cache was fetched for the account that is signed in, or for nobody. Otherwise the only
  answers of another account are the notifications a failed mark puts back and what a restore puts in that
  was begun before the account changed. A copy on the phone has answers of the one account its name
  carries, up to such restored ones, and only those that may be written: never a notification. The
  persister is only relied on to refuse a copy with another name.\<close>

theorem cache_stays_with_account:
  assumes "\<And>b c. accepts b c \<Longrightarrow> b = c" "life_reachable accepts calm s"
  shows "(calm \<longrightarrow> (\<forall>e \<in> set (lf_memory s). ce_owner e = None \<or> ce_owner e = aa_user (lf_auth s))) \<and>
    (\<forall>e \<in> set (lf_memory s). ce_owner e \<noteq> None \<and> ce_owner e \<noteq> aa_user (lf_auth s) \<longrightarrow>
       ce_source e = From_Rollback \<and> is_notifications (entry_key e) \<or> ce_source e = From_Copy) \<and>
    (case lf_stored s of
       None \<Rightarrow> True
     | Some (name, copy) \<Rightarrow>
         (\<exists>u. name = cache_buster u \<and>
            (\<forall>e \<in> set copy. shouldDehydrateQuery (ce_query e) \<and> \<not> is_notifications (entry_key e) \<and>
               (ce_owner e = None \<or> ce_owner e = u \<or> \<not> calm \<and> ce_source e = From_Copy))))"
proof -
  have ok: "life_ok calm s" using life_ok_reachable [of accepts] assms by blast
  note d = life_okD [OF ok refl]
  have copied: "shouldDehydrateQuery (ce_query e) \<and> \<not> is_notifications (entry_key e) \<and>
      (ce_owner e = None \<or> ce_owner e = u \<or> \<not> calm \<and> ce_source e = From_Copy)" if "copied_ok calm u e" for u e
  proof -
    from that have "shouldDehydrateQuery (ce_query e)" by (simp add: copied_ok_def)
    moreover from this have "\<not> is_notifications (entry_key e)"
      using notifications_not_copied unfolding shouldDehydrateQuery_def by blast
    ultimately show ?thesis using that unfolding copied_ok_def owned_def by blast
  qed
  have stored: "case lf_stored s of
       None \<Rightarrow> True
     | Some (name, copy) \<Rightarrow>
         (\<exists>u. name = cache_buster u \<and>
            (\<forall>e \<in> set copy. shouldDehydrateQuery (ce_query e) \<and> \<not> is_notifications (entry_key e) \<and>
               (ce_owner e = None \<or> ce_owner e = u \<or> \<not> calm \<and> ce_source e = From_Copy)))"
  proof (cases "lf_stored s")
    case (Some w)
    obtain name copy where w: "w = (name, copy)" by (cases w)
    obtain u where "name = cache_buster u" "\<forall>e \<in> set copy. copied_ok calm u e"
      using d(5) [OF Some] w by (auto simp: copy_ok_def)
    with Some w copied show ?thesis by auto
  qed simp
  have memory: "ce_owner e = None \<or> ce_owner e = aa_user (lf_auth s) \<or>
      \<not> calm \<and> (ce_source e = From_Rollback \<and> is_notifications (entry_key e) \<or> ce_source e = From_Copy)"
    if "e \<in> set (lf_memory s)" for e
    using d(2) [OF that] by (auto simp: entry_ok_def owned_def)
  show ?thesis
  proof (intro conjI impI ballI)
    show "ce_owner e = None \<or> ce_owner e = aa_user (lf_auth s)" if calm "e \<in> set (lf_memory s)" for e
      using memory [OF that(2)] that(1) by blast
    show "ce_source e = From_Rollback \<and> is_notifications (entry_key e) \<or> ce_source e = From_Copy"
      if "e \<in> set (lf_memory s)" "ce_owner e \<noteq> None \<and> ce_owner e \<noteq> aa_user (lf_auth s)" for e
      using memory [OF that(1)] that(2) by blast
  qed (rule stored)
qed

definition life_run :: "nat life_event list \<Rightarrow> nat life" where
  "life_run evs = foldl (\<lambda>s ev. life_step (=) ev s) fresh_app evs"

definition account :: "string \<Rightarrow> app_auth" where
  "account u = \<lparr>aa_status = App_Authenticated, aa_user = Some u\<rparr>"

text \<open>Two accounts one after the other: the copy of the first lands after the second has signed in, and is not
  put into its cache. And the same two with a mark of the first under way at the sign-out: it fails, as every
  request of the session that ended does, and the second account has the notifications of the first.\<close>

definition calm_switch :: "nat life_event list" where
  "calm_switch =
     [Auth_Becomes (account ''a''), Fetch_Begins [ks ''tracking''], Fetch_Answered 0 7, Copy_Taken,
      Auth_Becomes (account ''b''), Removal_Lands, Write_Lands, Restore_Begins, Restore_Reads 0,
      Restore_Ends 0 False (\<lambda>_. True)]"

definition marked_switch :: "nat life_event list" where
  "marked_switch =
     [Auth_Becomes (account ''a''), Fetch_Begins notificationKeys_summary, Fetch_Answered 0 7, Mark_Made Suc,
      Auth_Becomes \<lparr>aa_status = App_Anonymous, aa_user = None\<rparr>, Auth_Becomes (account ''b''), Mark_Settled 0 False]"

lemmas life_run_simps = life_run_def life_step_def fresh_app_def account_def auth_changed_def account_changed_def
  signed_out_def clearCache_def run_action_def fetch_answered_def own_answer_def put_entry_def drop_nth_def

lemma calm_switch_run:
  "lf_stored (life_run (take 7 calm_switch)) = Some (cache_buster (Some ''a''),
     [\<lparr>ce_owner = Some ''a'', ce_source = From_Server, ce_query = successful [ks ''tracking''] 7\<rparr>])"
  "lf_memory (life_run calm_switch) = []" "aa_user (lf_auth (life_run calm_switch)) = Some ''b''"
proof -
  have d: "shouldDehydrateQuery (successful [ks ''tracking''] 7)"
    by (simp add: shouldDehydrateQuery_def successful_def persist_root PERSISTED_QUERY_ROOTS_def)
  have b: "cache_buster (Some ''b'') \<noteq> cache_buster (Some ''a'')" by (simp add: cache_buster_def)
  show "lf_stored (life_run (take 7 calm_switch)) = Some (cache_buster (Some ''a''),
     [\<lparr>ce_owner = Some ''a'', ce_source = From_Server, ce_query = successful [ks ''tracking''] 7\<rparr>])"
    "lf_memory (life_run calm_switch) = []" "aa_user (lf_auth (life_run calm_switch)) = Some ''b''"
    using d b by (simp_all add: calm_switch_def life_run_simps restore_ends_def Let_def)
qed

lemma marked_switch_run:
  "lf_memory (life_run marked_switch) =
     [\<lparr>ce_owner = Some ''a'', ce_source = From_Rollback, ce_query = successful notificationKeys_summary 7\<rparr>]"
  "aa_user (lf_auth (life_run marked_switch)) = Some ''b''"
  by (simp_all add: marked_switch_def life_run_simps mark_made_def mark_settled_def put_back_def changed_by_def
      successful_def is_notifications_def)

lemma life_run_reachable:
  "\<forall>ev \<in> set evs. event_user_ok ev \<Longrightarrow>
   (calm \<Longrightarrow> \<forall>n < length evs. left_calmly (evs ! n) (life_run (take n evs))) \<Longrightarrow> life_reachable (=) calm (life_run evs)"
proof (induction evs rule: rev_induct)
  case Nil
  then show ?case by (simp add: life_run_def life_start)
next
  case (snoc ev evs)
  have "left_calmly (evs ! n) (life_run (take n evs))" if calm "n < length evs" for n
    using snoc.prems(2) [OF that(1), rule_format, of n] that(2) by (simp add: nth_append)
  then have "life_reachable (=) calm (life_run evs)"
    using snoc.prems(1) by (intro snoc.IH) simp_all
  moreover have "left_calmly ev (life_run evs)" if calm
    using snoc.prems(2) [OF that] by (auto dest: spec [of _ "length evs"])
  ultimately have "life_reachable (=) calm (life_step (=) ev (life_run evs))"
    using snoc.prems(1) by (intro life_next) simp_all
  then show ?case by (simp add: life_run_def)
qed

lemma cache_stays_with_account_witness:
  "list_all (\<lambda>e. ce_owner e = None \<or> ce_owner e = Some ''b'') (lf_memory (life_run calm_switch)) \<and>
   (\<exists>e \<in> set (lf_memory (life_run marked_switch)). ce_owner e = Some ''a'' \<and> is_notifications (entry_key e)) \<and>
   aa_user (lf_auth (life_run marked_switch)) = Some ''b''"
proof (intro conjI)
  have users: "\<forall>ev \<in> set calm_switch. event_user_ok ev" "\<forall>ev \<in> set marked_switch. event_user_ok ev"
    by (simp_all add: calm_switch_def marked_switch_def event_user_ok_def account_def)
  have "left_calmly (calm_switch ! n) (life_run (take n calm_switch))" if "n < length calm_switch" for n
  proof -
    from that have "n = 4 \<or> (\<forall>auth. calm_switch ! n \<noteq> Auth_Becomes auth) \<or> n = 0"
      by (auto simp: calm_switch_def less_Suc_eq numeral_eq_Suc)
    then show ?thesis
      by (elim disjE) (auto simp: left_calmly_def calm_switch_def life_run_simps split: life_event.split)
  qed
  then have "life_reachable (=) True (life_run calm_switch)" by (intro life_run_reachable users) simp
  from cache_stays_with_account [OF _ this]
  show "list_all (\<lambda>e. ce_owner e = None \<or> ce_owner e = Some ''b'') (lf_memory (life_run calm_switch))"
    unfolding calm_switch_run(3) list_all_iff by simp
  have "life_reachable (=) False (life_run marked_switch)" by (intro life_run_reachable users) simp
  from cache_stays_with_account [OF _ this]
  show "\<exists>e \<in> set (lf_memory (life_run marked_switch)). ce_owner e = Some ''a'' \<and> is_notifications (entry_key e)"
    unfolding marked_switch_run by simp
  show "aa_user (lf_auth (life_run marked_switch)) = Some ''b''" by (rule marked_switch_run)
qed

end
