(* ===== verification/Web_Queries.thy ===== *)
theory Web_Queries
  imports Query_Claims
begin

text \<open>
  The query hooks of the web client (\<open>frontend/src/hooks\<close>), in the form of the mobile ones: the cache key
  of each hook, the requests of its query function, whether it is enabled, how long an answer is fresh
  and how often it is asked for again. A request is the one handed to the HTTP client (\<open>axios\<close>): method,
  path, \<open>params\<close> and body; the client leaves out parameters that are \<open>undefined\<close>.
\<close>

section \<open>Requests and hooks\<close>

record web_call =
  wc_method :: http_method
  wc_path :: string
  wc_params :: "(string \<times> query_value) list"
  wc_body :: call_body

definition web_get :: "string \<Rightarrow> (string \<times> query_value) list \<Rightarrow> web_call" where
  "web_get path params = \<lparr>wc_method = GET, wc_path = path, wc_params = params, wc_body = No_Body\<rparr>"

record web_hook =
  wh_key :: "key_part list"
  wh_paging :: paging
  wh_calls :: "page_param \<Rightarrow> web_call list"
  wh_enabled :: bool
  wh_stale :: freshness
  wh_poll :: "nat option"

definition web_paged ::
  "paging \<Rightarrow> key_part list \<Rightarrow> string \<Rightarrow> (page_param \<Rightarrow> (string \<times> query_value) list) \<Rightarrow> bool \<Rightarrow> web_hook" where
  "web_paged paging key path params enabled =
     \<lparr>wh_key = key, wh_paging = paging, wh_calls = (\<lambda>p. [web_get path (params p)]), wh_enabled = enabled,
      wh_stale = Default_Stale, wh_poll = None\<rparr>"

definition web_simple :: "key_part list \<Rightarrow> string \<Rightarrow> (string \<times> query_value) list \<Rightarrow> bool \<Rightarrow> web_hook" where
  "web_simple key path params enabled = web_paged One_Answer key path (\<lambda>_. params) enabled"

definition number_value :: "int \<Rightarrow> query_value" where "number_value i = text_value (decimal_int i)"

text \<open>A text of the program that may be \<open>undefined\<close>: in a key, in a path, as an optional parameter (\<open>if (x)\<close>).\<close>

definition kopt :: "string option \<Rightarrow> key_part" where
  "kopt x = (case x of None \<Rightarrow> KNull | Some s \<Rightarrow> ks s)"

definition shown_or :: "string \<Rightarrow> string option \<Rightarrow> string" where
  "shown_or missing x = (case x of None \<Rightarrow> missing | Some s \<Rightarrow> s)"

definition given :: "string option \<Rightarrow> bool" where
  "given x = (case x of None \<Rightarrow> False | Some s \<Rightarrow> s \<noteq> [])"

definition if_given :: "string \<Rightarrow> string option \<Rightarrow> (string \<times> query_value) list" where
  "if_given name x = (case x of None \<Rightarrow> [] | Some s \<Rightarrow> if s = [] then [] else [(name, text_value s)])"

lemma kopt_inject [simp]: "kopt x = kopt y \<longleftrightarrow> x = y"
  by (cases x; cases y) (simp_all add: kopt_def)

lemma kopt_distinct [simp]:
  "kopt x \<noteq> KN i" "KN i \<noteq> kopt x" "kopt x \<noteq> KL ks'" "KL ks' \<noteq> kopt x"
  "kopt x = ks s \<longleftrightarrow> x = Some s" "ks s = kopt x \<longleftrightarrow> x = Some s"
  by (cases x; auto simp: kopt_def)+

section \<open>useTracking.ts\<close>

definition trackingLookupBatches :: "lookup_target list \<Rightarrow> lookup_target list list" where
  "trackingLookupBatches targets = chunks 100 (keep_last lookup_key (filter valid_target targets))"

lemma trackingLookupBatches_mobile: "trackingLookupBatches = buildTrackingLookupBatches"
  by (rule ext) (simp add: trackingLookupBatches_def buildTrackingLookupBatches_def LOOKUP_BATCH_SIZE_def)

definition useTrackingInfinite_web :: "string option \<Rightarrow> web_hook" where
  "useTrackingInfinite_web status =
     web_paged (Counts_Pages 100) [ks ''tracking'', kopt status, ks ''infinite''] ''/tracking''
       (\<lambda>p. if_given ''status'' status @ [(''page'', page_number p), (''limit'', Q_Number 100)]) True"

definition lookup_title :: "int option \<Rightarrow> string option \<Rightarrow> call_body" where
  "lookup_title tmdbId mediaType =
     Object [(''tmdb_id'', (case tmdbId of None \<Rightarrow> Q_Undefined | Some i \<Rightarrow> Q_Number i)),
             (''media_type'', (case mediaType of None \<Rightarrow> Q_Undefined | Some t \<Rightarrow> text_value t))]"

text \<open>The body is \<open>items\<close> with this one element.\<close>

definition useTrackingLookup_web :: "int option \<Rightarrow> string option \<Rightarrow> web_hook" where
  "useTrackingLookup_web tmdbId mediaType =
     (web_simple [ks ''tracking'', ks ''lookup'', kopt mediaType, knum tmdbId] [] []
        ((case tmdbId of None \<Rightarrow> False | Some i \<Rightarrow> 0 < i) \<and> (mediaType = Some ''movie'' \<or> mediaType = Some ''tv'')))
       \<lparr>wh_calls := (\<lambda>_. [\<lparr>wc_method = POST, wc_path = ''/tracking/lookup'', wc_params = [],
          wc_body = lookup_title tmdbId mediaType\<rparr>])\<rparr>"

definition useTrackingLookupBatch :: "lookup_target list \<Rightarrow> web_hook" where
  "useTrackingLookupBatch targets =
     (let batches = trackingLookupBatches targets;
          lookupKey = concat (map (map (\<lambda>item. ks (lookup_key item))) batches)
      in (web_simple [ks ''tracking'', ks ''lookup'', ks ''batch'', KL lookupKey] [] [] (0 < length batches))
           \<lparr>wh_calls := (\<lambda>_. map (\<lambda>its.
              \<lparr>wc_method = POST, wc_path = ''/tracking/lookup'', wc_params = [], wc_body = Lookup_Items its\<rparr>) batches)\<rparr>)"

definition useWatchedEpisodes_web :: "int option \<Rightarrow> int option \<Rightarrow> web_hook" where
  "useWatchedEpisodes_web tmdbId seasonNumber =
     web_simple [ks ''watched-episodes'', knum tmdbId, knum seasonNumber]
       (''/history/tv/'' @ number_text ''undefined'' tmdbId @ ''/seasons/'' @ number_text ''null'' seasonNumber @ ''/episodes'') []
       (tmdbId \<noteq> None \<and> tmdbId \<noteq> Some 0 \<and> (case seasonNumber of None \<Rightarrow> False | Some n \<Rightarrow> 0 \<le> n))"

definition useShowWatchProgress :: "int option \<Rightarrow> web_hook" where
  "useShowWatchProgress tmdbId =
     web_simple [ks ''show-watch-progress'', knum tmdbId]
       (''/history/tv/'' @ number_text ''undefined'' tmdbId @ ''/progress'') [] (tmdbId \<noteq> None \<and> tmdbId \<noteq> Some 0)"

section \<open>useCalendar.ts\<close>

definition PAGE_LIMIT_calendar :: nat where "PAGE_LIMIT_calendar = 50"

definition calendar_all :: "key_part list" where "calendar_all = [ks ''calendar'']"
definition calendar_preferences :: "key_part list" where "calendar_preferences = [ks ''calendar'', ks ''preferences'']"
definition calendar_feed :: "key_part list" where "calendar_feed = [ks ''calendar'', ks ''feed'']"
definition calendar_summary :: "string \<Rightarrow> key_part list" where
  "calendar_summary today = [ks ''calendar'', ks ''summary'', ks today]"
definition calendar_upNext :: "string \<Rightarrow> int \<Rightarrow> bool \<Rightarrow> key_part list" where
  "calendar_upNext today limit includeSpecials =
     [ks ''calendar'', ks ''up-next'', ks today, KN limit, KB includeSpecials]"
definition calendar_new :: "string \<Rightarrow> bool \<Rightarrow> key_part list" where
  "calendar_new today includeSpecials = [ks ''calendar'', ks ''new'', ks today, KB includeSpecials]"
definition calendar_upcoming :: "string \<Rightarrow> upcoming_type \<Rightarrow> bool \<Rightarrow> key_part list" where
  "calendar_upcoming today itemType includeSpecials =
     [ks ''calendar'', ks ''upcoming'', ks today, ks (upcoming_text itemType), KB includeSpecials]"

definition useCalendarSummary_web :: "string \<Rightarrow> bool \<Rightarrow> web_hook" where
  "useCalendarSummary_web today enabled =
     (web_simple (calendar_summary today) ''/calendar/summary'' [(''today'', text_value today)] enabled)
       \<lparr>wh_poll := Some 300000\<rparr>"

definition useUpNextEpisodes :: "string \<Rightarrow> int \<Rightarrow> bool \<Rightarrow> bool \<Rightarrow> web_hook" where
  "useUpNextEpisodes today limit includeSpecials enabled =
     web_simple (calendar_upNext today limit includeSpecials) ''/calendar/up-next''
       [(''today'', text_value today), (''limit'', Q_Number limit), (''include_specials'', Q_Bool includeSpecials)] enabled"

definition useNewEpisodes_web :: "string \<Rightarrow> bool \<Rightarrow> bool \<Rightarrow> web_hook" where
  "useNewEpisodes_web today includeSpecials enabled =
     web_paged Cursor_Of_Page (calendar_new today includeSpecials) ''/calendar/new''
       (\<lambda>p. [(''today'', text_value today), (''limit'', Q_Number (int PAGE_LIMIT_calendar)),
             (''include_specials'', Q_Bool includeSpecials)] @ cursor_fields p) enabled"

definition useUpcomingReleases :: "string \<Rightarrow> upcoming_type \<Rightarrow> bool \<Rightarrow> bool \<Rightarrow> web_hook" where
  "useUpcomingReleases today itemType includeSpecials enabled =
     web_paged Cursor_Of_Page (calendar_upcoming today itemType includeSpecials) ''/calendar/upcoming''
       (\<lambda>p. [(''today'', text_value today), (''limit'', Q_Number (int PAGE_LIMIT_calendar)),
             (''type'', text_value (upcoming_text itemType)), (''include_specials'', Q_Bool includeSpecials)] @
             cursor_fields p) enabled"

definition useCalendarPreferences_web :: "bool \<Rightarrow> web_hook" where
  "useCalendarPreferences_web enabled = web_simple calendar_preferences ''/calendar/preferences'' [] enabled"

definition useCalendarFeedStatus_web :: "bool \<Rightarrow> web_hook" where
  "useCalendarFeedStatus_web enabled = web_simple calendar_feed ''/calendar/feed'' [] enabled"

section \<open>useMedia.ts\<close>

text \<open>The language of the browser, when it is a language with or without a region.\<close>

definition letter :: "char \<Rightarrow> bool" where
  "letter c \<longleftrightarrow> of_char c \<in> {65 .. 90 :: nat} \<union> {97 .. 122}"

definition preferredLanguage :: "string \<Rightarrow> string" where
  "preferredLanguage language =
     (if length language \<in> {2, 5} \<and> list_all letter (take 2 language) \<and>
         (length language = 5 \<longrightarrow> language ! 2 = CHR ''-'' \<and> list_all letter (drop 3 language))
      then language else ''en-US'')"

definition useSearch :: "jstr \<Rightarrow> string option \<Rightarrow> int \<Rightarrow> string \<Rightarrow> web_hook" where
  "useSearch query type page navigator_language =
     (let language = preferredLanguage navigator_language
      in web_simple [ks ''search'', KS query, kopt type, KN page, ks language] ''/media/search''
           ([(''q'', Q_Text query), (''page'', number_value page), (''language'', text_value language)] @ if_given ''type'' type)
           (2 \<le> length query))"

definition useDiscovery_web :: "string \<Rightarrow> web_hook" where
  "useDiscovery_web navigator_language =
     (let language = preferredLanguage navigator_language
      in (web_simple [ks ''discovery'', ks language] ''/media/discovery'' [(''language'', text_value language)] True)
           \<lparr>wh_stale := Stale_After 600000\<rparr>)"

definition useMediaDetail_web :: "string \<Rightarrow> string \<Rightarrow> string \<Rightarrow> web_hook" where
  "useMediaDetail_web i type navigator_language =
     (let language = preferredLanguage navigator_language
      in web_simple [ks ''media'', ks i, ks type, ks language] (''/media/'' @ i)
           [(''type'', text_value type), (''language'', text_value language)] (i \<noteq> []))"

definition useWatchProviders_web :: "string \<Rightarrow> string \<Rightarrow> string option \<Rightarrow> web_hook" where
  "useWatchProviders_web i type region =
     (web_simple [ks ''watch-providers'', ks i, ks type, ks (shown_or ''default'' region)]
        (''/media/'' @ i @ ''/watch-providers'') ((''type'', text_value type) # if_given ''region'' region) (i \<noteq> []))
       \<lparr>wh_stale := Stale_After 3600000\<rparr>"

definition useCommunityRating_web :: "string \<Rightarrow> string \<Rightarrow> web_hook" where
  "useCommunityRating_web i type =
     (web_simple [ks ''community-rating'', ks i, ks type] (''/media/'' @ i @ ''/community-rating'')
        [(''type'', text_value type)] (i \<noteq> []))\<lparr>wh_stale := Stale_After 600000\<rparr>"

definition useSeasons_web :: "string \<Rightarrow> web_hook" where
  "useSeasons_web i = web_simple [ks ''seasons'', ks i] (''/media/'' @ i @ ''/seasons'') [] (i \<noteq> [])"

definition useEpisodes_web :: "string \<Rightarrow> int option \<Rightarrow> web_hook" where
  "useEpisodes_web i seasonNumber =
     web_simple [ks ''episodes'', ks i, knum seasonNumber]
       (''/media/'' @ i @ ''/seasons/'' @ number_text ''null'' seasonNumber @ ''/episodes'') []
       (i \<noteq> [] \<and> (case seasonNumber of None \<Rightarrow> False | Some n \<Rightarrow> 0 \<le> n))"

definition useEpisodeDetail_web :: "string option \<Rightarrow> web_hook" where
  "useEpisodeDetail_web i =
     web_simple [ks ''episode'', kopt i] (''/media/episodes/'' @ shown_or ''undefined'' i) [] (given i)"

section \<open>useStats.ts and useBadges.ts\<close>

text \<open>\<open>utcOffsetMinutes()\<close>, read at each call, is an argument here.\<close>

definition offset_param :: "int \<Rightarrow> string \<times> query_value" where
  "offset_param offset = (''utc_offset_minutes'', number_value offset)"

definition useMyStats_web :: "int \<Rightarrow> web_hook" where
  "useMyStats_web offset = web_simple [ks ''stats'', ks ''me'', KN offset] ''/stats/me'' [offset_param offset] True"

definition useHeatmap_web :: "int option \<Rightarrow> int \<Rightarrow> web_hook" where
  "useHeatmap_web year offset =
     web_simple [ks ''stats'', ks ''heatmap'', knum year, KN offset] ''/stats/me/heatmap''
       (offset_param offset # (case year of None \<Rightarrow> [] | Some y \<Rightarrow> if y = 0 then [] else [(''year'', number_value y)])) True"

definition useGenreDistribution_web :: web_hook where
  "useGenreDistribution_web = web_simple [ks ''stats'', ks ''genres''] ''/stats/me/genres'' [] True"

definition useMonthlyActivity_web :: "int \<Rightarrow> web_hook" where
  "useMonthlyActivity_web offset =
     web_simple [ks ''stats'', ks ''monthly'', KN offset] ''/stats/me/monthly'' [offset_param offset] True"

definition useWrapped_web :: "int \<Rightarrow> int \<Rightarrow> web_hook" where
  "useWrapped_web year offset =
     web_simple [ks ''stats'', ks ''wrapped'', KN year, KN offset] ''/stats/me/wrapped''
       [(''year'', number_value year), offset_param offset] True"

definition badgeKeys_shelf :: "key_part list" where "badgeKeys_shelf = [ks ''badges'', ks ''shelf'']"

definition useBadges_web :: "bool \<Rightarrow> web_hook" where
  "useBadges_web isAuthenticated =
     (web_simple badgeKeys_shelf ''/badges'' [] isAuthenticated)\<lparr>wh_stale := Stale_After 300000\<rparr>"

section \<open>useSocial.ts and useCommunitySafety.ts\<close>

definition CONNECTIONS_PAGE_SIZE :: nat where "CONNECTIONS_PAGE_SIZE = 50"
definition BLOCKS_PAGE_SIZE_web :: nat where "BLOCKS_PAGE_SIZE_web = 50"

definition user_path :: "string \<Rightarrow> string" where "user_path username = ''/users/'' @ encodeURIComponent username"

definition page_of :: "nat \<Rightarrow> page_param \<Rightarrow> (string \<times> query_value) list" where
  "page_of limit p = [(''page'', page_number p), (''limit'', Q_Number (int limit))]"

definition useUserProfile :: "string \<Rightarrow> web_hook" where
  "useUserProfile username = web_simple [ks ''user'', ks username] (user_path username) [] (username \<noteq> [])"

definition useUserActivity :: "string \<Rightarrow> bool \<Rightarrow> web_hook" where
  "useUserActivity username enabled =
     web_simple [ks ''activity'', ks ''user'', ks username] (user_path username @ ''/activity'') []
       (username \<noteq> [] \<and> enabled)"

definition useActivityFeed :: "int \<Rightarrow> web_hook" where
  "useActivityFeed limit =
     (web_simple [ks ''activity'', ks ''feed'', KN limit] ''/users/me/feed'' [(''limit'', Q_Number limit)] True)
       \<lparr>wh_stale := Stale_After 30000\<rparr>"

definition useUserSearch :: "jstr \<Rightarrow> int \<Rightarrow> int \<Rightarrow> web_hook" where
  "useUserSearch query page limit =
     web_simple [ks ''user-search'', KS query, KN page, KN limit] ''/users/search''
       [(''q'', Q_Text query), (''page'', Q_Number page), (''limit'', Q_Number limit)] (2 \<le> length query)"

definition useUserConnections :: "string \<Rightarrow> connection_kind \<Rightarrow> bool \<Rightarrow> web_hook" where
  "useUserConnections username kind enabled =
     web_paged (Counts_Pages CONNECTIONS_PAGE_SIZE) [ks ''connections'', ks username, ks (kind_text kind)]
       (user_path username @ ''/'' @ kind_text kind) (page_of CONNECTIONS_PAGE_SIZE) (username \<noteq> [] \<and> enabled)"

definition useFollowRequests_web :: web_hook where
  "useFollowRequests_web =
     (web_simple [ks ''follow-requests''] ''/users/me/follow-requests'' [] True)\<lparr>wh_poll := Some 30000\<rparr>"

definition useBlockedUsers_web :: web_hook where
  "useBlockedUsers_web =
     web_paged (Counts_Pages BLOCKS_PAGE_SIZE_web) [ks ''blocks''] ''/users/me/blocks'' (page_of BLOCKS_PAGE_SIZE_web) True"

datatype report_status = Report_Open | Report_Reviewing | Report_Actioned | Report_Dismissed
datatype queue_filter = Queue_Active | Queue_All | Queue_Of report_status

definition report_status_text :: "report_status \<Rightarrow> string" where
  "report_status_text s =
     (case s of Report_Open \<Rightarrow> ''open'' | Report_Reviewing \<Rightarrow> ''reviewing'' | Report_Actioned \<Rightarrow> ''actioned''
      | Report_Dismissed \<Rightarrow> ''dismissed'')"

definition filter_text :: "queue_filter \<Rightarrow> string" where
  "filter_text f = (case f of Queue_Active \<Rightarrow> ''active'' | Queue_All \<Rightarrow> ''all'' | Queue_Of s \<Rightarrow> report_status_text s)"

definition moderationKeys_all :: "key_part list" where "moderationKeys_all = [ks ''moderation'']"
definition moderationKeys_status :: "key_part list" where "moderationKeys_status = [ks ''moderation'', ks ''status'']"
definition moderationKeys_queue :: "queue_filter \<Rightarrow> int \<Rightarrow> key_part list" where
  "moderationKeys_queue status page = [ks ''moderation'', ks ''reports'', ks (filter_text status), KN page]"

definition useModeratorStatus :: web_hook where
  "useModeratorStatus =
     (web_simple moderationKeys_status ''/moderation/me'' [] True)\<lparr>wh_stale := Stale_After 60000\<rparr>"

definition useModerationReports :: "queue_filter \<Rightarrow> int \<Rightarrow> web_hook" where
  "useModerationReports status page =
     web_simple (moderationKeys_queue status page) ''/moderation/reports''
       [(''status'', text_value (filter_text status)), (''page'', Q_Number page), (''limit'', Q_Number 25)] True"

section \<open>useLists.ts, useImport.ts and the queries of useAuth.ts\<close>

definition list_mine_key :: "key_part list" where "list_mine_key = [ks ''lists'', ks ''mine'']"
definition list_detail_key :: "string \<Rightarrow> key_part list" where "list_detail_key i = [ks ''lists'', ks ''detail'', ks i]"

definition useMyLists_web :: "bool \<Rightarrow> web_hook" where
  "useMyLists_web enabled = web_simple list_mine_key ''/lists/me'' [(''page'', Q_Number 1), (''limit'', Q_Number 50)] enabled"

definition useList_web :: "string option \<Rightarrow> web_hook" where
  "useList_web i =
     web_simple (list_detail_key (shown_or [] i)) (''/lists/'' @ encodeURIComponent (shown_or [] i)) [] (given i)"

definition useImportJobs_web :: web_hook where
  "useImportJobs_web = web_simple [ks ''import'', ks ''jobs''] ''/import/jobs'' [] True"

definition useImportJob_web :: "string option \<Rightarrow> import_status option \<Rightarrow> web_hook" where
  "useImportJob_web jobId status =
     (web_simple [ks ''import'', ks ''job'', kopt jobId] (''/import/jobs/'' @ shown_or ''null'' jobId) [] (given jobId))
       \<lparr>wh_poll := (if status = Some Import_Pending \<or> status = Some Import_Running then Some 2000 else None)\<rparr>"

definition useMe :: "string option \<Rightarrow> web_hook" where
  "useMe token = web_simple [ks ''me''] ''/auth/me'' [] (given token)"

definition useSessions :: "string option \<Rightarrow> web_hook" where
  "useSessions token = web_simple [ks ''sessions''] ''/auth/sessions'' [] (given token)"

definition useSecurityActivity_web :: "string option \<Rightarrow> web_hook" where
  "useSecurityActivity_web token = web_simple [ks ''security-activity''] ''/auth/security-activity'' [] (given token)"

section \<open>useMessages.ts, useNotifications.ts and useEncryption.ts\<close>

definition EVENT_STREAM_FALLBACK_MS_web :: nat where "EVENT_STREAM_FALLBACK_MS_web = 120000"
definition CONVERSATION_PAGE_SIZE :: nat where "CONVERSATION_PAGE_SIZE = 30"
definition THREAD_PAGE_SIZE :: nat where "THREAD_PAGE_SIZE = 50"

definition message_all_key :: "key_part list" where "message_all_key = [ks ''messages'']"
definition message_summary_key :: "key_part list" where "message_summary_key = [ks ''messages'', ks ''summary'']"
definition message_conversations_key :: "key_part list" where "message_conversations_key = [ks ''messages'', ks ''conversations'']"
definition message_thread_key :: "string \<Rightarrow> key_part list" where
  "message_thread_key username = [ks ''messages'', ks ''thread'', ks (to_lower username)]"

definition polled :: "web_hook \<Rightarrow> web_hook" where
  "polled h = h\<lparr>wh_poll := Some EVENT_STREAM_FALLBACK_MS_web\<rparr>"

definition cursor_params :: "nat \<Rightarrow> page_param \<Rightarrow> (string \<times> query_value) list" where
  "cursor_params limit p =
     (''limit'', Q_Number (int limit)) #
     (case p of
        Cursor _ \<Rightarrow> [(''before'', cursor_field p ''before''), (''before_id'', cursor_field p ''beforeId'')]
      | _ \<Rightarrow> [])"

definition useMessageSummary_web :: "bool \<Rightarrow> web_hook" where
  "useMessageSummary_web enabled = polled (web_simple message_summary_key ''/messages/summary'' [] enabled)"

definition useMessageConversations_web :: "bool \<Rightarrow> web_hook" where
  "useMessageConversations_web enabled =
     polled (web_paged (Counts_Pages CONVERSATION_PAGE_SIZE) message_conversations_key ''/messages''
       (page_of CONVERSATION_PAGE_SIZE) enabled)"

definition useMessageThread_web :: "string \<Rightarrow> web_hook" where
  "useMessageThread_web username =
     polled (web_paged Message_Cursor (message_thread_key username) (''/messages/'' @ encodeURIComponent username)
       (cursor_params THREAD_PAGE_SIZE) (username \<noteq> []))"

definition SUMMARY_LIMIT_web :: nat where "SUMMARY_LIMIT_web = 5"
definition PAGE_LIMIT_notifications :: nat where "PAGE_LIMIT_notifications = 20"

definition notification_all_key :: "key_part list" where "notification_all_key = [ks ''notifications'']"
definition notification_summary_key :: "key_part list" where "notification_summary_key = [ks ''notifications'', ks ''summary'']"
definition notification_list_key :: "key_part list" where "notification_list_key = [ks ''notifications'', ks ''list'']"

definition useNotificationSummary_web :: "bool \<Rightarrow> web_hook" where
  "useNotificationSummary_web enabled =
     (web_paged One_Answer notification_summary_key ''/notifications'' (\<lambda>_. cursor_params SUMMARY_LIMIT_web Whole) enabled)
       \<lparr>wh_poll := Some 120000\<rparr>"

definition useNotifications_web :: "bool \<Rightarrow> web_hook" where
  "useNotifications_web enabled =
     web_paged Notification_Cursor notification_list_key ''/notifications'' (cursor_params PAGE_LIMIT_notifications) enabled"

definition encryption_status_key :: "key_part list" where "encryption_status_key = [ks ''encryption'', ks ''status'']"
definition encryption_backup_key :: "key_part list" where "encryption_backup_key = [ks ''encryption'', ks ''backup'']"
definition encryption_peer_key :: "string \<Rightarrow> key_part list" where
  "encryption_peer_key username = [ks ''encryption'', ks ''peer'', ks (to_lower username)]"

definition useKeyStatus_web :: "bool \<Rightarrow> web_hook" where
  "useKeyStatus_web isAuthenticated =
     (web_simple encryption_status_key ''/encryption/keys'' [] isAuthenticated)\<lparr>wh_stale := Never_Stale\<rparr>"

definition usePeerKeys_web :: "string \<Rightarrow> bool \<Rightarrow> web_hook" where
  "usePeerKeys_web username enabled =
     (web_simple (encryption_peer_key username) (''/encryption/keys/'' @ encodeURIComponent username) []
        (enabled \<and> username \<noteq> []))\<lparr>wh_stale := Stale_After 300000\<rparr>"

definition usePasswordCopyState_web :: "bool \<Rightarrow> bool \<Rightarrow> web_hook" where
  "usePasswordCopyState_web isAuthenticated hasKeys =
     (web_simple encryption_backup_key ''/encryption/keys/backup'' [] (isAuthenticated \<and> hasKeys))\<lparr>wh_stale := Never_Stale\<rparr>"

section \<open>All queries\<close>

datatype web_title_query =
    W_Tracking "string option"
  | W_Lookup "int option" "string option"
  | W_Lookup_Batch "lookup_target list"
  | W_Watched_Episodes "int option" "int option"
  | W_Show_Progress "int option"
  | W_Search jstr "string option" int string
  | W_Discovery string
  | W_Media string string string
  | W_Providers string string "string option"
  | W_Rating string string
  | W_Seasons string
  | W_Episodes string "int option"
  | W_Episode "string option"

datatype web_time_query =
    W_Calendar_Summary string bool
  | W_Up_Next string int bool bool
  | W_New_Episodes string bool bool
  | W_Upcoming string upcoming_type bool bool
  | W_Preferences bool
  | W_Feed_Status bool
  | W_My_Stats int
  | W_Heatmap "int option" int
  | W_Genres
  | W_Monthly int
  | W_Wrapped int int
  | W_Badges bool

datatype web_people_query =
    W_Profile string
  | W_User_Activity string bool
  | W_Activity_Feed int
  | W_User_Search jstr int int
  | W_Connections string connection_kind bool
  | W_Follow_Requests
  | W_Blocks
  | W_Moderator
  | W_Reports queue_filter int
  | W_Message_Summary bool
  | W_Conversations bool
  | W_Thread string
  | W_Notification_Summary bool
  | W_Notifications bool

datatype web_own_query =
    W_My_Lists bool
  | W_List "string option"
  | W_Import_Jobs
  | W_Import_Job "string option" "import_status option"
  | W_Me "string option"
  | W_Sessions "string option"
  | W_Security "string option"
  | W_Key_Status bool
  | W_Peer_Keys string bool
  | W_Password_Copy bool bool

datatype web_query =
  Of_Titles web_title_query | Of_Time web_time_query | Of_People web_people_query | Of_Account web_own_query

primrec title_hook :: "web_title_query \<Rightarrow> web_hook" where
  "title_hook (W_Tracking s) = useTrackingInfinite_web s"
| "title_hook (W_Lookup i t) = useTrackingLookup_web i t"
| "title_hook (W_Lookup_Batch ts) = useTrackingLookupBatch ts"
| "title_hook (W_Watched_Episodes i n) = useWatchedEpisodes_web i n"
| "title_hook (W_Show_Progress i) = useShowWatchProgress i"
| "title_hook (W_Search q t p l) = useSearch q t p l"
| "title_hook (W_Discovery l) = useDiscovery_web l"
| "title_hook (W_Media i t l) = useMediaDetail_web i t l"
| "title_hook (W_Providers i t r) = useWatchProviders_web i t r"
| "title_hook (W_Rating i t) = useCommunityRating_web i t"
| "title_hook (W_Seasons i) = useSeasons_web i"
| "title_hook (W_Episodes i n) = useEpisodes_web i n"
| "title_hook (W_Episode i) = useEpisodeDetail_web i"

primrec time_hook :: "web_time_query \<Rightarrow> web_hook" where
  "time_hook (W_Calendar_Summary d e) = useCalendarSummary_web d e"
| "time_hook (W_Up_Next d l s e) = useUpNextEpisodes d l s e"
| "time_hook (W_New_Episodes d s e) = useNewEpisodes_web d s e"
| "time_hook (W_Upcoming d t s e) = useUpcomingReleases d t s e"
| "time_hook (W_Preferences e) = useCalendarPreferences_web e"
| "time_hook (W_Feed_Status e) = useCalendarFeedStatus_web e"
| "time_hook (W_My_Stats z) = useMyStats_web z"
| "time_hook (W_Heatmap y z) = useHeatmap_web y z"
| "time_hook W_Genres = useGenreDistribution_web"
| "time_hook (W_Monthly z) = useMonthlyActivity_web z"
| "time_hook (W_Wrapped y z) = useWrapped_web y z"
| "time_hook (W_Badges e) = useBadges_web e"

primrec people_hook :: "web_people_query \<Rightarrow> web_hook" where
  "people_hook (W_Profile u) = useUserProfile u"
| "people_hook (W_User_Activity u e) = useUserActivity u e"
| "people_hook (W_Activity_Feed l) = useActivityFeed l"
| "people_hook (W_User_Search q p l) = useUserSearch q p l"
| "people_hook (W_Connections u k e) = useUserConnections u k e"
| "people_hook W_Follow_Requests = useFollowRequests_web"
| "people_hook W_Blocks = useBlockedUsers_web"
| "people_hook W_Moderator = useModeratorStatus"
| "people_hook (W_Reports s p) = useModerationReports s p"
| "people_hook (W_Message_Summary e) = useMessageSummary_web e"
| "people_hook (W_Conversations e) = useMessageConversations_web e"
| "people_hook (W_Thread u) = useMessageThread_web u"
| "people_hook (W_Notification_Summary e) = useNotificationSummary_web e"
| "people_hook (W_Notifications e) = useNotifications_web e"

primrec own_hook :: "web_own_query \<Rightarrow> web_hook" where
  "own_hook (W_My_Lists e) = useMyLists_web e"
| "own_hook (W_List i) = useList_web i"
| "own_hook W_Import_Jobs = useImportJobs_web"
| "own_hook (W_Import_Job i s) = useImportJob_web i s"
| "own_hook (W_Me t) = useMe t"
| "own_hook (W_Sessions t) = useSessions t"
| "own_hook (W_Security t) = useSecurityActivity_web t"
| "own_hook (W_Key_Status e) = useKeyStatus_web e"
| "own_hook (W_Peer_Keys u e) = usePeerKeys_web u e"
| "own_hook (W_Password_Copy e k) = usePasswordCopyState_web e k"

primrec web_hook_of :: "web_query \<Rightarrow> web_hook" where
  "web_hook_of (Of_Titles q) = title_hook q"
| "web_hook_of (Of_Time q) = time_hook q"
| "web_hook_of (Of_People q) = people_hook q"
| "web_hook_of (Of_Account q) = own_hook q"

end
