(* ===== verification/Web_Query_Claims.thy ===== *)
theory Web_Query_Claims
  imports Web_Queries
begin

text \<open>
  What the cache keys of the web client are worth, and the first part of each key.
\<close>

section \<open>The first part of a key\<close>

primrec title_root :: "web_title_query \<Rightarrow> string" where
  "title_root (W_Tracking _) = ''tracking''"
| "title_root (W_Lookup _ _) = ''tracking''"
| "title_root (W_Lookup_Batch _) = ''tracking''"
| "title_root (W_Watched_Episodes _ _) = ''watched-episodes''"
| "title_root (W_Show_Progress _) = ''show-watch-progress''"
| "title_root (W_Search _ _ _ _) = ''search''"
| "title_root (W_Discovery _) = ''discovery''"
| "title_root (W_Media _ _ _) = ''media''"
| "title_root (W_Providers _ _ _) = ''watch-providers''"
| "title_root (W_Rating _ _) = ''community-rating''"
| "title_root (W_Seasons _) = ''seasons''"
| "title_root (W_Episodes _ _) = ''episodes''"
| "title_root (W_Episode _) = ''episode''"

primrec time_root :: "web_time_query \<Rightarrow> string" where
  "time_root (W_Calendar_Summary _ _) = ''calendar''"
| "time_root (W_Up_Next _ _ _ _) = ''calendar''"
| "time_root (W_New_Episodes _ _ _) = ''calendar''"
| "time_root (W_Upcoming _ _ _ _) = ''calendar''"
| "time_root (W_Preferences _) = ''calendar''"
| "time_root (W_Feed_Status _) = ''calendar''"
| "time_root (W_My_Stats _) = ''stats''"
| "time_root (W_Heatmap _ _) = ''stats''"
| "time_root W_Genres = ''stats''"
| "time_root (W_Monthly _) = ''stats''"
| "time_root (W_Wrapped _ _) = ''stats''"
| "time_root (W_Badges _) = ''badges''"

primrec people_root :: "web_people_query \<Rightarrow> string" where
  "people_root (W_Profile _) = ''user''"
| "people_root (W_User_Activity _ _) = ''activity''"
| "people_root (W_Activity_Feed _) = ''activity''"
| "people_root (W_User_Search _ _ _) = ''user-search''"
| "people_root (W_Connections _ _ _) = ''connections''"
| "people_root W_Follow_Requests = ''follow-requests''"
| "people_root W_Blocks = ''blocks''"
| "people_root W_Moderator = ''moderation''"
| "people_root (W_Reports _ _) = ''moderation''"
| "people_root (W_Message_Summary _) = ''messages''"
| "people_root (W_Conversations _) = ''messages''"
| "people_root (W_Thread _) = ''messages''"
| "people_root (W_Notification_Summary _) = ''notifications''"
| "people_root (W_Notifications _) = ''notifications''"

primrec own_root :: "web_own_query \<Rightarrow> string" where
  "own_root (W_My_Lists _) = ''lists''"
| "own_root (W_List _) = ''lists''"
| "own_root W_Import_Jobs = ''import''"
| "own_root (W_Import_Job _ _) = ''import''"
| "own_root (W_Me _) = ''me''"
| "own_root (W_Sessions _) = ''sessions''"
| "own_root (W_Security _) = ''security-activity''"
| "own_root (W_Key_Status _) = ''encryption''"
| "own_root (W_Peer_Keys _ _) = ''encryption''"
| "own_root (W_Password_Copy _ _) = ''encryption''"

primrec web_root_of :: "web_query \<Rightarrow> string" where
  "web_root_of (Of_Titles q) = title_root q"
| "web_root_of (Of_Time q) = time_root q"
| "web_root_of (Of_People q) = people_root q"
| "web_root_of (Of_Account q) = own_root q"

definition web_key :: "web_query \<Rightarrow> key_part list" where "web_key q = wh_key (web_hook_of q)"
definition web_calls :: "web_query \<Rightarrow> page_param \<Rightarrow> web_call list" where "web_calls q = wh_calls (web_hook_of q)"
definition web_enabled :: "web_query \<Rightarrow> bool" where "web_enabled q = wh_enabled (web_hook_of q)"

lemmas web_shapes = web_simple_def web_paged_def polled_def Let_def

lemmas title_hook_defs =
  useTrackingInfinite_web_def useTrackingLookup_web_def useTrackingLookupBatch_def useWatchedEpisodes_web_def
  useShowWatchProgress_def useSearch_def useDiscovery_web_def useMediaDetail_web_def useWatchProviders_web_def
  useCommunityRating_web_def useSeasons_web_def useEpisodes_web_def useEpisodeDetail_web_def

lemmas time_hook_defs =
  useCalendarSummary_web_def useUpNextEpisodes_def useNewEpisodes_web_def useUpcomingReleases_def
  useCalendarPreferences_web_def useCalendarFeedStatus_web_def useMyStats_web_def useHeatmap_web_def
  useGenreDistribution_web_def useMonthlyActivity_web_def useWrapped_web_def useBadges_web_def
  calendar_summary_def calendar_upNext_def calendar_new_def calendar_upcoming_def calendar_preferences_def
  calendar_feed_def badgeKeys_shelf_def

lemmas people_hook_defs =
  useUserProfile_def useUserActivity_def useActivityFeed_def useUserSearch_def useUserConnections_def
  useFollowRequests_web_def useBlockedUsers_web_def useModeratorStatus_def useModerationReports_def
  useMessageSummary_web_def useMessageConversations_web_def useMessageThread_web_def
  useNotificationSummary_web_def useNotifications_web_def moderationKeys_status_def moderationKeys_queue_def
  message_summary_key_def message_conversations_key_def message_thread_key_def notification_summary_key_def notification_list_key_def

lemmas own_hook_defs =
  useMyLists_web_def useList_web_def useImportJobs_web_def useImportJob_web_def useMe_def useSessions_def
  useSecurityActivity_web_def useKeyStatus_web_def usePeerKeys_web_def usePasswordCopyState_web_def
  list_mine_key_def list_detail_key_def encryption_status_key_def encryption_backup_key_def encryption_peer_key_def

lemma hd_title: "wh_key (title_hook q) \<noteq> [] \<and> hd (wh_key (title_hook q)) = ks (title_root q)"
  by (cases q) (simp_all add: web_shapes title_hook_defs)

lemma hd_time: "wh_key (time_hook q) \<noteq> [] \<and> hd (wh_key (time_hook q)) = ks (time_root q)"
  by (cases q) (simp_all add: web_shapes time_hook_defs)

lemma hd_people: "wh_key (people_hook q) \<noteq> [] \<and> hd (wh_key (people_hook q)) = ks (people_root q)"
  by (cases q) (simp_all add: web_shapes people_hook_defs)

lemma hd_own: "wh_key (own_hook q) \<noteq> [] \<and> hd (wh_key (own_hook q)) = ks (own_root q)"
  by (cases q) (simp_all add: web_shapes own_hook_defs)

lemma hd_web_key: "web_key q \<noteq> [] \<and> hd (web_key q) = ks (web_root_of q)"
  by (cases q) (simp_all add: web_key_def hd_title hd_time hd_people hd_own)

text \<open>The first key part tells the group.\<close>

primrec web_group :: "web_query \<Rightarrow> nat" where
  "web_group (Of_Titles _) = 0" | "web_group (Of_Time _) = 1" | "web_group (Of_People _) = 2" | "web_group (Of_Account _) = 3"

definition web_root_group :: "string \<Rightarrow> nat" where
  "web_root_group r =
     (if r \<in> set [''calendar'', ''stats'', ''badges''] then 1
      else if r \<in> set [''user'', ''activity'', ''user-search'', ''connections'', ''follow-requests'', ''blocks'',
        ''moderation'', ''messages'', ''notifications''] then 2
      else if r \<in> set [''lists'', ''import'', ''me'', ''sessions'', ''security-activity'', ''encryption''] then 3
      else 0)"

lemma web_group_root: "web_group q = web_root_group (web_root_of q)"
proof (cases q)
  case (Of_Titles x) then show ?thesis by (cases x) (simp_all add: web_root_group_def)
next
  case (Of_Time x) then show ?thesis by (cases x) (simp_all add: web_root_group_def)
next
  case (Of_People x) then show ?thesis by (cases x) (simp_all add: web_root_group_def)
next
  case (Of_Account x) then show ?thesis by (cases x) (simp_all add: web_root_group_def)
qed

interpretation web_keys: grouped_keys web_key web_root_of web_group web_root_group
  by unfold_locales (rule hd_web_key, rule web_group_root)

section \<open>Keys name requests\<close>

lemma report_status_text_inject [simp]: "report_status_text s = report_status_text t \<longleftrightarrow> s = t"
  by (cases s; cases t) (simp_all add: report_status_text_def)

lemma filter_text_inject [simp]: "filter_text f = filter_text g \<longleftrightarrow> f = g"
proof -
  have "report_status_text s \<noteq> ''active''" "report_status_text s \<noteq> ''all''" for s
    by (cases s; simp add: report_status_text_def)+
  note this this [symmetric]
  then show ?thesis by (cases f; cases g) (simp_all add: filter_text_def)
qed

lemma tracking_texts [simp]: "knum x \<noteq> KL l" "KL l \<noteq> knum x" "knum x \<noteq> ks s" "ks s \<noteq> knum x"
  by (cases x; simp add: knum_def ks_def)+

lemma shown_or_eq: "shown_or d x = shown_or d y \<Longrightarrow> x = y \<or> x = None \<and> y = Some d \<or> y = None \<and> x = Some d"
  by (cases x; cases y) (auto simp: shown_or_def)

lemma title_keys:
  "wh_key (title_hook q) = wh_key (title_hook q') \<Longrightarrow> wh_enabled (title_hook q) \<Longrightarrow> wh_enabled (title_hook q') \<Longrightarrow>
   wh_calls (title_hook q) p = wh_calls (title_hook q') p \<or>
   (\<exists>i t. {q, q'} = {W_Providers i t None, W_Providers i t (Some ''default'')})"
  by (cases q; cases q')
    (auto simp: web_shapes title_hook_defs trackingLookupBatches_mobile map_concat [symmetric]
      dest: lookup_batches_of_key shown_or_eq split: option.splits)

lemma time_keys:
  "wh_key (time_hook q) = wh_key (time_hook q') \<Longrightarrow> wh_calls (time_hook q) p = wh_calls (time_hook q') p"
  by (cases q; cases q') (auto simp: web_shapes time_hook_defs)

text \<open>The threads and the keys of a peer are read under the lower-case name.\<close>

fun same_person :: "web_query \<Rightarrow> web_query \<Rightarrow> bool" where
  "same_person (Of_People (W_Thread u)) (Of_People (W_Thread v)) \<longleftrightarrow> to_lower u = to_lower v"
| "same_person (Of_Account (W_Peer_Keys u _)) (Of_Account (W_Peer_Keys v _)) \<longleftrightarrow> to_lower u = to_lower v"
| "same_person _ _ \<longleftrightarrow> False"

lemma people_keys:
  "wh_key (people_hook q) = wh_key (people_hook q') \<Longrightarrow>
   wh_calls (people_hook q) p = wh_calls (people_hook q') p \<or> same_person (Of_People q) (Of_People q')"
  by (cases q; cases q') (auto simp: web_shapes people_hook_defs)

lemma own_keys:
  "wh_key (own_hook q) = wh_key (own_hook q') \<Longrightarrow> wh_enabled (own_hook q) \<Longrightarrow> wh_enabled (own_hook q') \<Longrightarrow>
   wh_calls (own_hook q) p = wh_calls (own_hook q') p \<or> same_person (Of_Account q) (Of_Account q')"
  by (cases q; cases q') (auto simp: web_shapes own_hook_defs given_def shown_or_def split: option.splits)

text \<open>C35: An answer in the cache of the web client is the answer to the request of whoever reads it: two enabled
  queries with the same key make the same requests, page for page, or read the conversation or the keys of
  one person under two spellings of the name. This covers every query hook of the client; the only keys
  that two requests share are those of the providers of a title without a region and in a region named
  \<open>default\<close>.\<close>

theorem web_key_names_the_request:
  assumes "web_enabled q" "web_enabled q'" "web_key q = web_key q'"
  shows "web_calls q p = web_calls q' p \<or> same_person q q' \<or>
         (\<exists>i t. {q, q'} = {Of_Titles (W_Providers i t None), Of_Titles (W_Providers i t (Some ''default''))})"
proof -
  have group: "web_group q = web_group q'"
    by (rule web_keys.same_group [OF assms(3)])
  note defs = web_key_def web_calls_def web_enabled_def web_hook_of.simps
  show ?thesis
  proof (cases q)
    case (Of_Titles x)
    with group obtain y where y: "q' = Of_Titles y" by (cases q') auto
    from title_keys [of x y p] assms
    have "wh_calls (title_hook x) p = wh_calls (title_hook y) p \<or>
      (\<exists>i t. {x, y} = {W_Providers i t None, W_Providers i t (Some ''default'')})"
      unfolding Of_Titles y defs by blast
    then show ?thesis unfolding Of_Titles y defs by (auto simp: doubleton_eq_iff)
  next
    case (Of_Time x)
    with group obtain y where y: "q' = Of_Time y" by (cases q') auto
    from time_keys [of x y p] assms show ?thesis unfolding Of_Time y defs by blast
  next
    case (Of_People x)
    with group obtain y where y: "q' = Of_People y" by (cases q') auto
    from people_keys [of x y p] assms show ?thesis unfolding Of_People y defs by blast
  next
    case (Of_Account x)
    with group obtain y where y: "q' = Of_Account y" by (cases q') auto
    from own_keys [of x y p] assms show ?thesis unfolding Of_Account y defs by blast
  qed
qed

text \<open>A browser that names no usable language asks like one set to American English.\<close>

lemma web_key_names_the_request_witness:
  "web_calls (Of_Titles (W_Discovery ''klingon'')) Whole = web_calls (Of_Titles (W_Discovery ''en-US'')) Whole"
proof -
  have l: "preferredLanguage ''klingon'' = ''en-US''" "preferredLanguage ''en-US'' = ''en-US''" by code_simp+
  have "web_enabled (Of_Titles (W_Discovery ''klingon''))" "web_enabled (Of_Titles (W_Discovery ''en-US''))"
    "web_key (Of_Titles (W_Discovery ''klingon'')) = web_key (Of_Titles (W_Discovery ''en-US''))"
    by (simp_all add: web_enabled_def web_key_def web_shapes useDiscovery_web_def l)
  from web_key_names_the_request [OF this, of Whole] show ?thesis by (auto simp: doubleton_eq_iff)
qed

end
