(* ===== verification/Web_Mutations.thy ===== *)
theory Web_Mutations
  imports Web_Query_Claims Query_Mutations
begin

text \<open>
  The mutation hooks of the web client (\<open>frontend/src/hooks\<close>): the request each makes and the keys it hands
  to the cache when the server has accepted it (for the read marks of notifications and the plan of an
  episode: when the request has ended). Requests whose body is a form of files have the empty body here.
\<close>

section \<open>useTracking.ts\<close>

definition invalidateTrackingState_web :: "key_part list list" where
  "invalidateTrackingState_web =
     [[ks ''tracking''], [ks ''stats''], [ks ''activity''], [ks ''discovery''], [ks ''calendar''],
      [ks ''watched-episodes''], [ks ''show-watch-progress''], [ks ''history'']]"

definition invalidateEpisodeWatchState :: "int \<Rightarrow> key_part list list" where
  "invalidateEpisodeWatchState tmdbId =
     [[ks ''watched-episodes'', KN tmdbId], [ks ''show-watch-progress'', KN tmdbId], [ks ''history''],
      [ks ''tracking''], [ks ''stats''], [ks ''activity''], [ks ''discovery''], [ks ''calendar'']]"

definition episode_path :: "int \<Rightarrow> int \<Rightarrow> int \<Rightarrow> string" where
  "episode_path tmdbId seasonNumber episodeNumber =
     season_path tmdbId seasonNumber @ ''/episodes/'' @ decimal_int episodeNumber"

definition useCreateTracking_web :: "int \<Rightarrow> media_type \<Rightarrow> tracking_status \<Rightarrow> mutation_hook" where
  "useCreateTracking_web tmdb_id media_type status =
     mutation_of (write_call POST ''/tracking''
       (Object [(''tmdb_id'', Q_Number tmdb_id), (''media_type'', text_value (media_type_text media_type)),
                (''status'', text_value (status_text status))])) invalidateTrackingState_web"

definition useUpdateTracking_web :: "string \<Rightarrow> (string \<times> query_value) list \<Rightarrow> mutation_hook" where
  "useUpdateTracking_web i data =
     mutation_of (write_call PATCH (''/tracking/'' @ i) (Object data)) invalidateTrackingState_web"

definition useDeleteTracking_web :: "string \<Rightarrow> mutation_hook" where
  "useDeleteTracking_web i = mutation_of (write_call DELETE (''/tracking/'' @ i) No_Body) invalidateTrackingState_web"

definition watch_change :: "http_method \<Rightarrow> string \<Rightarrow> int \<Rightarrow> mutation_hook" where
  "watch_change method path tmdbId =
     mutation_of (write_call method path No_Body) (invalidateEpisodeWatchState tmdbId)"

definition useMarkEpisodeWatched_web :: "int \<Rightarrow> int \<Rightarrow> int \<Rightarrow> mutation_hook" where
  "useMarkEpisodeWatched_web tmdbId seasonNumber episodeNumber =
     watch_change POST (episode_path tmdbId seasonNumber episodeNumber @ ''/watched'') tmdbId"

definition useUnmarkEpisodeWatched :: "int \<Rightarrow> int \<Rightarrow> int \<Rightarrow> mutation_hook" where
  "useUnmarkEpisodeWatched tmdbId seasonNumber episodeNumber =
     watch_change DELETE (episode_path tmdbId seasonNumber episodeNumber @ ''/watched'') tmdbId"

definition useMarkSeasonWatched_web :: "int \<Rightarrow> int \<Rightarrow> mutation_hook" where
  "useMarkSeasonWatched_web tmdbId seasonNumber =
     watch_change POST (season_path tmdbId seasonNumber @ ''/watched'') tmdbId"

definition useRewatchSeason_web :: "int \<Rightarrow> int \<Rightarrow> mutation_hook" where
  "useRewatchSeason_web tmdbId seasonNumber =
     watch_change POST (season_path tmdbId seasonNumber @ ''/rewatch'') tmdbId"

definition useRewatchShow_web :: "int \<Rightarrow> mutation_hook" where
  "useRewatchShow_web tmdbId = watch_change POST (''/history/tv/'' @ decimal_int tmdbId @ ''/rewatch'') tmdbId"

definition useRewatchMovie_web :: "int \<Rightarrow> mutation_hook" where
  "useRewatchMovie_web tmdbId = watch_change POST (''/history/movies/'' @ decimal_int tmdbId @ ''/rewatch'') tmdbId"

definition useMarkEpisodesWatchedThrough_web :: "int \<Rightarrow> int \<Rightarrow> int \<Rightarrow> mutation_hook" where
  "useMarkEpisodesWatchedThrough_web tmdbId seasonNumber episodeNumber =
     watch_change POST (episode_path tmdbId seasonNumber episodeNumber @ ''/watched-through'') tmdbId"

section \<open>useCalendar.ts\<close>

definition useUpdateCalendarPreferences_web :: "string \<Rightarrow> mutation_hook" where
  "useUpdateCalendarPreferences_web countryCode =
     (mutation_of (write_call PUT ''/calendar/preferences'' (Object [(''country_code'', text_value countryCode)]))
       [calendar_all])\<lparr>mh_sets := [(calendar_preferences, None)]\<rparr>"

definition useEnableCalendarFeed_web :: mutation_hook where
  "useEnableCalendarFeed_web =
     (mutation_of (write_call POST ''/calendar/feed'' No_Body) [])
       \<lparr>mh_sets := [(calendar_feed, Some [(''enabled'', Q_Bool True)])]\<rparr>"

definition useDisableCalendarFeed_web :: mutation_hook where
  "useDisableCalendarFeed_web =
     (mutation_of (write_call DELETE ''/calendar/feed'' No_Body) [])
       \<lparr>mh_sets := [(calendar_feed, Some [(''enabled'', Q_Bool False)])]\<rparr>"

definition useSetEpisodePlanned_web :: "string \<Rightarrow> bool \<Rightarrow> mutation_hook" where
  "useSetEpisodePlanned_web episodeId planned =
     mutation_of (write_call (if planned then PUT else DELETE) (''/calendar/episodes/'' @ episodeId @ ''/plan'') No_Body)
       [calendar_all, [ks ''episode'', ks episodeId]]"

definition useMarkCalendarEpisodeWatched_web :: "string \<Rightarrow> mutation_hook" where
  "useMarkCalendarEpisodeWatched_web episodeId =
     mutation_of (write_call POST (''/calendar/episodes/'' @ episodeId @ ''/watched'') No_Body)
       [calendar_all, [ks ''episode'', ks episodeId], [ks ''history''], [ks ''tracking''], [ks ''stats''],
        [ks ''activity''], [ks ''discovery'']]"

section \<open>useSocial.ts and useCommunitySafety.ts\<close>

definition follow_changed :: "key_part list list" where
  "follow_changed = [[ks ''user''], [ks ''user-search''], [ks ''activity'', ks ''feed'']]"

definition useFollow :: "string \<Rightarrow> mutation_hook" where
  "useFollow username = mutation_of (write_call POST (user_path username @ ''/follow'') No_Body) follow_changed"

definition useUnfollow :: "string \<Rightarrow> mutation_hook" where
  "useUnfollow username = mutation_of (write_call DELETE (user_path username @ ''/follow'') No_Body) follow_changed"

definition useAcceptFollowRequest_web :: "string \<Rightarrow> mutation_hook" where
  "useAcceptFollowRequest_web userId =
     mutation_of (write_call POST (''/users/me/follow-requests/'' @ userId @ ''/accept'') No_Body)
       [[ks ''follow-requests''], [ks ''followers''], [ks ''user''], [ks ''notifications'']]"

definition useRejectFollowRequest_web :: "string \<Rightarrow> mutation_hook" where
  "useRejectFollowRequest_web userId =
     mutation_of (write_call DELETE (''/users/me/follow-requests/'' @ userId) No_Body)
       [[ks ''follow-requests''], [ks ''user''], [ks ''notifications'']]"

definition useBlockUser_web :: "string \<Rightarrow> mutation_hook" where
  "useBlockUser_web username =
     mutation_of (write_call POST (user_path username @ ''/block'') No_Body)
       [[ks ''blocks''], [ks ''user''], [ks ''user-search''], [ks ''activity''], [ks ''followers''], [ks ''following''],
        [ks ''follow-requests''], [ks ''notifications'']]"

definition useUnblockUser_web :: "string \<Rightarrow> mutation_hook" where
  "useUnblockUser_web username =
     mutation_of (write_call DELETE (user_path username @ ''/block'') No_Body)
       [[ks ''blocks''], [ks ''user''], [ks ''user-search'']]"

definition useReportContent_web :: "(string \<times> query_value) list \<Rightarrow> mutation_hook" where
  "useReportContent_web input = mutation_of (write_call POST ''/reports'' (Object input)) [[ks ''reports'', ks ''mine'']]"

definition useUpdateModerationReport :: "string \<Rightarrow> report_status \<Rightarrow> jstr \<Rightarrow> mutation_hook" where
  "useUpdateModerationReport i status note' =
     mutation_of (write_call PATCH (''/moderation/reports/'' @ encodeURIComponent i)
       (Object [(''status'', text_value (report_status_text status)), (''note'', Q_Text note')])) [moderationKeys_all]"

section \<open>useLists.ts, useMedia.ts and useImport.ts\<close>

definition useCreateList_web :: "(string \<times> query_value) list \<Rightarrow> mutation_hook" where
  "useCreateList_web input = mutation_of (write_call POST ''/lists'' (Object input)) [list_mine_key]"

definition useUpdateList_web :: "string \<Rightarrow> (string \<times> query_value) list \<Rightarrow> mutation_hook" where
  "useUpdateList_web i input =
     mutation_of (write_call PATCH (list_path i) (Object input)) [list_mine_key, list_detail_key i]"

definition useDeleteList_web :: "string \<Rightarrow> mutation_hook" where
  "useDeleteList_web i =
     (mutation_of (write_call DELETE (list_path i) No_Body) [list_mine_key])\<lparr>mh_removes := [list_detail_key i]\<rparr>"

definition useAddListItem_web :: "string \<Rightarrow> string \<Rightarrow> mutation_hook" where
  "useAddListItem_web listId mediaId =
     mutation_of (write_call POST (list_path listId @ ''/items'') (Object [(''media_id'', text_value mediaId)]))
       [list_mine_key, list_detail_key listId]"

definition useRemoveListItem_web :: "string \<Rightarrow> string \<Rightarrow> mutation_hook" where
  "useRemoveListItem_web listId mediaId =
     mutation_of (write_call DELETE (list_path listId @ ''/items/'' @ encodeURIComponent mediaId) No_Body)
       [list_mine_key, list_detail_key listId]"

definition useDismissRecommendation_web :: "int \<Rightarrow> string \<Rightarrow> mutation_hook" where
  "useDismissRecommendation_web tmdb_id media_type =
     (let type = (if media_type = ''tv'' then ''tv'' else ''movie'')
      in mutation_of (write_call POST (''/media/discovery/dismiss/'' @ type @ ''/'' @ decimal_int tmdb_id) No_Body)
           [[ks ''discovery'']])"

definition useSetEpisodeReaction_web :: "string option \<Rightarrow> string option \<Rightarrow> mutation_hook" where
  "useSetEpisodeReaction_web episodeId reaction =
     (let path = ''/media/episodes/'' @ shown_or ''undefined'' episodeId @ ''/reaction''
      in mutation_of
           (case reaction of
              None \<Rightarrow> write_call DELETE path No_Body
            | Some r \<Rightarrow> write_call PUT path (Object [(''reaction'', text_value r)]))
           [[ks ''episode'', kopt episodeId]])"

definition useStartImport_web :: mutation_hook where
  "useStartImport_web = mutation_of (write_call POST ''/import/tvtime'' No_Body) [[ks ''import'', ks ''jobs'']]"

section \<open>useMessages.ts, useNotifications.ts and useEncryption.ts\<close>

definition thread_changed_web :: "string \<Rightarrow> key_part list list" where
  "thread_changed_web username = [message_thread_key username, message_conversations_key, message_summary_key]"

text \<open>The body of a sent message is the payload its hook has made.\<close>

definition useSendMessage_web :: "string \<Rightarrow> (string \<times> query_value) list \<Rightarrow> mutation_hook" where
  "useSendMessage_web username payload =
     mutation_of (write_call POST (''/messages/'' @ encodeURIComponent username) (Object payload))
       (thread_changed_web username)"

definition useMarkMessageThreadRead_web :: "string \<Rightarrow> string \<Rightarrow> mutation_hook" where
  "useMarkMessageThreadRead_web username throughId =
     mutation_of (write_call POST (''/messages/'' @ encodeURIComponent username @ ''/read'')
       (Object [(''through_id'', text_value throughId)])) (thread_changed_web username)"

definition useMarkNotificationRead_web :: "string \<Rightarrow> mutation_hook" where
  "useMarkNotificationRead_web i =
     mutation_of (write_call POST (''/notifications/'' @ i @ ''/read'') No_Body) [notification_all_key]"

definition useMarkAllNotificationsRead_web :: mutation_hook where
  "useMarkAllNotificationsRead_web =
     mutation_of (write_call POST ''/notifications/read-all'' No_Body) [notification_all_key]"

text \<open>\<open>onSuccess\<close> of \<open>useSetupEncryption\<close> and \<open>useRestoreEncryption\<close>, and of \<open>useRotateRecoveryCode\<close>.\<close>

definition identity_changed :: "key_part list list" where "identity_changed = [encryption_status_key]"
definition recovery_code_changed :: "key_part list list" where "recovery_code_changed = [encryption_backup_key]"

section \<open>useAuth.ts\<close>

definition useUpdatePrivacy :: "bool \<Rightarrow> mutation_hook" where
  "useUpdatePrivacy isPublic =
     (mutation_of (write_call PATCH ''/users/me'' (Object [(''is_public'', Q_Bool isPublic)]))
       [[ks ''follow-requests''], [ks ''user''], [ks ''notifications'']])\<lparr>mh_sets := [([ks ''me''], None)]\<rparr>"

definition useAcceptTerms :: mutation_hook where
  "useAcceptTerms =
     (mutation_of (write_call POST ''/auth/terms'' (Object [(''accepted_terms'', Q_Bool True)])) [])
       \<lparr>mh_sets := [([ks ''me''], None)]\<rparr>"

text \<open>Some hooks ask for the own profile afterwards and put it under its key if that succeeds.\<close>

record account_mutation = mutation_hook +
  am_asks_me :: bool

definition asks_me_after :: "mutation_hook \<Rightarrow> account_mutation" where
  "asks_me_after m = mutation_hook.extend m \<lparr>am_asks_me = True\<rparr>"

definition security_changed :: "http_method \<Rightarrow> string \<Rightarrow> call_body \<Rightarrow> mutation_hook" where
  "security_changed method path body = mutation_of (write_call method path body) [[ks ''security-activity'']]"

definition useEnableTwoFactor :: "jstr \<Rightarrow> account_mutation" where
  "useEnableTwoFactor code =
     asks_me_after (security_changed POST ''/auth/2fa/enable'' (Object [(''code'', Q_Text code)]))"

definition useDisableTwoFactor :: "jstr \<Rightarrow> jstr option \<Rightarrow> account_mutation" where
  "useDisableTwoFactor password totp_code =
     asks_me_after (security_changed POST ''/auth/2fa/disable''
       (Object [(''password'', Q_Text password), (''totp_code'', (case totp_code of None \<Rightarrow> Q_Undefined | Some c \<Rightarrow> Q_Text c))]))"

definition useChangeEmail :: "(string \<times> query_value) list \<Rightarrow> mutation_hook" where
  "useChangeEmail data = security_changed POST ''/auth/email/change'' (Object data)"

definition useRevokeSession :: "string \<Rightarrow> mutation_hook" where
  "useRevokeSession i =
     mutation_of (write_call DELETE (''/auth/sessions/'' @ i) No_Body) [[ks ''sessions''], [ks ''security-activity'']]"

definition useUploadAvatar :: mutation_hook where
  "useUploadAvatar = mutation_of (write_call POST ''/users/me/avatar'' No_Body) [[ks ''me'']]"

definition useDeleteAvatar :: mutation_hook where
  "useDeleteAvatar = mutation_of (write_call DELETE ''/users/me/avatar'' No_Body) [[ks ''me'']]"

section \<open>All mutations that mark an answer\<close>

datatype title_change =
    WC_Create int media_type tracking_status
  | WC_Update string "(string \<times> query_value) list"
  | WC_Delete string
  | WC_Mark_Episode int int int
  | WC_Unmark_Episode int int int
  | WC_Mark_Season int int
  | WC_Mark_Through int int int
  | WC_Rewatch_Season int int
  | WC_Rewatch_Show int
  | WC_Rewatch_Movie int
  | WC_Calendar_Watched string

primrec title_change_hook :: "title_change \<Rightarrow> mutation_hook" where
  "title_change_hook (WC_Create t m s) = useCreateTracking_web t m s"
| "title_change_hook (WC_Update i d) = useUpdateTracking_web i d"
| "title_change_hook (WC_Delete i) = useDeleteTracking_web i"
| "title_change_hook (WC_Mark_Episode t s e) = useMarkEpisodeWatched_web t s e"
| "title_change_hook (WC_Unmark_Episode t s e) = useUnmarkEpisodeWatched t s e"
| "title_change_hook (WC_Mark_Season t s) = useMarkSeasonWatched_web t s"
| "title_change_hook (WC_Mark_Through t s e) = useMarkEpisodesWatchedThrough_web t s e"
| "title_change_hook (WC_Rewatch_Season t s) = useRewatchSeason_web t s"
| "title_change_hook (WC_Rewatch_Show t) = useRewatchShow_web t"
| "title_change_hook (WC_Rewatch_Movie t) = useRewatchMovie_web t"
| "title_change_hook (WC_Calendar_Watched e) = useMarkCalendarEpisodeWatched_web e"

datatype people_change =
    WC_Follow string
  | WC_Unfollow string
  | WC_Accept string
  | WC_Reject string
  | WC_Block string
  | WC_Unblock string
  | WC_Report "(string \<times> query_value) list"
  | WC_Moderate string report_status jstr
  | WC_Send string "(string \<times> query_value) list"
  | WC_Thread_Read string string
  | WC_Notification_Read string
  | WC_All_Notifications_Read
  | WC_Privacy bool

primrec people_change_hook :: "people_change \<Rightarrow> mutation_hook" where
  "people_change_hook (WC_Follow u) = useFollow u"
| "people_change_hook (WC_Unfollow u) = useUnfollow u"
| "people_change_hook (WC_Accept i) = useAcceptFollowRequest_web i"
| "people_change_hook (WC_Reject i) = useRejectFollowRequest_web i"
| "people_change_hook (WC_Block u) = useBlockUser_web u"
| "people_change_hook (WC_Unblock u) = useUnblockUser_web u"
| "people_change_hook (WC_Report d) = useReportContent_web d"
| "people_change_hook (WC_Moderate i s n) = useUpdateModerationReport i s n"
| "people_change_hook (WC_Send u d) = useSendMessage_web u d"
| "people_change_hook (WC_Thread_Read u i) = useMarkMessageThreadRead_web u i"
| "people_change_hook (WC_Notification_Read i) = useMarkNotificationRead_web i"
| "people_change_hook WC_All_Notifications_Read = useMarkAllNotificationsRead_web"
| "people_change_hook (WC_Privacy b) = useUpdatePrivacy b"

datatype own_change =
    WC_Country string
  | WC_Plan string bool
  | WC_Create_List "(string \<times> query_value) list"
  | WC_Update_List string "(string \<times> query_value) list"
  | WC_Delete_List string
  | WC_Add_Item string string
  | WC_Remove_Item string string
  | WC_Dismiss int string
  | WC_React "string option" "string option"
  | WC_Import
  | WC_Identity
  | WC_Recovery_Code
  | WC_Enable_Two_Factor jstr
  | WC_Disable_Two_Factor jstr "jstr option"
  | WC_Email "(string \<times> query_value) list"
  | WC_Revoke_Session string
  | WC_Upload_Avatar
  | WC_Delete_Avatar

primrec own_change_marks :: "own_change \<Rightarrow> key_part list list" where
  "own_change_marks (WC_Country c) = mh_invalidates (useUpdateCalendarPreferences_web c)"
| "own_change_marks (WC_Plan e p) = mh_invalidates (useSetEpisodePlanned_web e p)"
| "own_change_marks (WC_Create_List d) = mh_invalidates (useCreateList_web d)"
| "own_change_marks (WC_Update_List i d) = mh_invalidates (useUpdateList_web i d)"
| "own_change_marks (WC_Delete_List i) = mh_invalidates (useDeleteList_web i)"
| "own_change_marks (WC_Add_Item l m) = mh_invalidates (useAddListItem_web l m)"
| "own_change_marks (WC_Remove_Item l m) = mh_invalidates (useRemoveListItem_web l m)"
| "own_change_marks (WC_Dismiss t m) = mh_invalidates (useDismissRecommendation_web t m)"
| "own_change_marks (WC_React e r) = mh_invalidates (useSetEpisodeReaction_web e r)"
| "own_change_marks WC_Import = mh_invalidates useStartImport_web"
| "own_change_marks WC_Identity = identity_changed"
| "own_change_marks WC_Recovery_Code = recovery_code_changed"
| "own_change_marks (WC_Enable_Two_Factor c) = mh_invalidates (useEnableTwoFactor c)"
| "own_change_marks (WC_Disable_Two_Factor p c) = mh_invalidates (useDisableTwoFactor p c)"
| "own_change_marks (WC_Email d) = mh_invalidates (useChangeEmail d)"
| "own_change_marks (WC_Revoke_Session i) = mh_invalidates (useRevokeSession i)"
| "own_change_marks WC_Upload_Avatar = mh_invalidates useUploadAvatar"
| "own_change_marks WC_Delete_Avatar = mh_invalidates useDeleteAvatar"

datatype web_change = Title_Change title_change | People_Change people_change | Own_Change own_change

primrec web_filters :: "web_change \<Rightarrow> key_part list list" where
  "web_filters (Title_Change c) = mh_invalidates (title_change_hook c)"
| "web_filters (People_Change c) = mh_invalidates (people_change_hook c)"
| "web_filters (Own_Change c) = own_change_marks c"

definition web_marks :: "web_change \<Rightarrow> web_query \<Rightarrow> bool" where
  "web_marks c q \<longleftrightarrow> list_ex (\<lambda>f. prefix f (web_key q)) (web_filters c)"

end
