(* ===== verification/Web_Change_Claims.thy ===== *)
theory Web_Change_Claims
  imports Web_Mutations
begin

text \<open>
  Which cached answers of the web client a change marks stale, for every mutation hook that marks any and
  every query hook.
\<close>

section \<open>Filters and keys\<close>

declare web_keys.prefix_filter [simp]

lemma tl_watched [simp]:
  "web_root_of q = ''watched-episodes'' \<and> prefix [k] (tl (web_key q)) \<longleftrightarrow>
     (\<exists>t n. q = Of_Titles (W_Watched_Episodes t n) \<and> knum t = k)"
proof (cases q)
  case (Of_Titles x)
  then show ?thesis by (cases x) (auto simp: web_key_def useWatchedEpisodes_web_def web_shapes)
next
  case (Of_Time x) then show ?thesis by (cases x) auto
next
  case (Of_People x) then show ?thesis by (cases x) auto
next
  case (Of_Account x) then show ?thesis by (cases x) auto
qed

lemma tl_progress [simp]:
  "web_root_of q = ''show-watch-progress'' \<and> prefix [k] (tl (web_key q)) \<longleftrightarrow>
     (\<exists>t. q = Of_Titles (W_Show_Progress t) \<and> knum t = k)"
proof (cases q)
  case (Of_Titles x)
  then show ?thesis by (cases x) (auto simp: web_key_def useShowWatchProgress_def web_shapes)
next
  case (Of_Time x) then show ?thesis by (cases x) auto
next
  case (Of_People x) then show ?thesis by (cases x) auto
next
  case (Of_Account x) then show ?thesis by (cases x) auto
qed

lemma tl_episode [simp]:
  "web_root_of q = ''episode'' \<and> prefix [ks e] (tl (web_key q)) \<longleftrightarrow> q = Of_Titles (W_Episode (Some e))"
proof (cases q)
  case (Of_Titles x)
  then show ?thesis by (cases x) (auto simp: web_key_def useEpisodeDetail_web_def web_shapes)
next
  case (Of_Time x) then show ?thesis by (cases x) auto
next
  case (Of_People x) then show ?thesis by (cases x) auto
next
  case (Of_Account x) then show ?thesis by (cases x) auto
qed

section \<open>Changes of the library\<close>

text \<open>The title a change is about, where its hook knows it.\<close>

definition title_of_change :: "title_change \<Rightarrow> int option" where
  "title_of_change c =
     (case c of
        WC_Mark_Episode t _ _ \<Rightarrow> Some t
      | WC_Unmark_Episode t _ _ \<Rightarrow> Some t
      | WC_Mark_Season t _ \<Rightarrow> Some t
      | WC_Mark_Through t _ _ \<Rightarrow> Some t
      | WC_Rewatch_Season t _ \<Rightarrow> Some t
      | WC_Rewatch_Show t \<Rightarrow> Some t
      | WC_Rewatch_Movie t \<Rightarrow> Some t
      | _ \<Rightarrow> None)"

definition in_calendar :: "title_change \<Rightarrow> string option" where
  "in_calendar c = (case c of WC_Calendar_Watched e \<Rightarrow> Some e | _ \<Rightarrow> None)"

definition progress_marked :: "title_change \<Rightarrow> int option \<Rightarrow> bool" where
  "progress_marked c t \<longleftrightarrow> in_calendar c = None \<and> (title_of_change c = None \<or> title_of_change c = t)"

definition marked_by_title_change :: "title_change \<Rightarrow> web_query \<Rightarrow> bool" where
  "marked_by_title_change c q =
     (case q of
        Of_Titles (W_Watched_Episodes t _) \<Rightarrow> progress_marked c t
      | Of_Titles (W_Show_Progress t) \<Rightarrow> progress_marked c t
      | Of_Titles (W_Episode i) \<Rightarrow> i \<noteq> None \<and> i = in_calendar c
      | Of_Titles _ \<Rightarrow> web_root_of q \<in> set [''tracking'', ''discovery'']
      | Of_Time (W_Badges _) \<Rightarrow> False
      | Of_Time _ \<Rightarrow> True
      | Of_People _ \<Rightarrow> web_root_of q = ''activity''
      | Of_Account _ \<Rightarrow> False)"

lemma title_filters:
  "mh_invalidates (title_change_hook c) =
     (case in_calendar c of
        Some e \<Rightarrow> mh_invalidates (useMarkCalendarEpisodeWatched_web e)
      | None \<Rightarrow> (case title_of_change c of
            Some t \<Rightarrow> invalidateEpisodeWatchState t
          | None \<Rightarrow> invalidateTrackingState_web))"
  by (cases c) (simp_all add: in_calendar_def title_of_change_def useCreateTracking_web_def useUpdateTracking_web_def
      useDeleteTracking_web_def useMarkEpisodeWatched_web_def useUnmarkEpisodeWatched_def useMarkSeasonWatched_web_def
      useMarkEpisodesWatchedThrough_web_def useRewatchSeason_web_def useRewatchShow_web_def useRewatchMovie_web_def
      watch_change_def mutation_of_def)

lemma filters_by_root:
  "list_ex (\<lambda>f. prefix f (web_key q)) invalidateTrackingState_web \<longleftrightarrow>
     web_root_of q \<in> set [''tracking'', ''stats'', ''activity'', ''discovery'', ''calendar'', ''watched-episodes'',
       ''show-watch-progress'', ''history'']"
  "list_ex (\<lambda>f. prefix f (web_key q)) (invalidateEpisodeWatchState t) \<longleftrightarrow>
     (\<exists>n. q = Of_Titles (W_Watched_Episodes (Some t) n)) \<or> q = Of_Titles (W_Show_Progress (Some t)) \<or>
     web_root_of q \<in> set [''history'', ''tracking'', ''stats'', ''activity'', ''discovery'', ''calendar'']"
  "list_ex (\<lambda>f. prefix f (web_key q)) (mh_invalidates (useMarkCalendarEpisodeWatched_web e)) \<longleftrightarrow>
     q = Of_Titles (W_Episode (Some e)) \<or>
     web_root_of q \<in> set [''calendar'', ''history'', ''tracking'', ''stats'', ''activity'', ''discovery'']"
  by (auto simp: invalidateTrackingState_web_def invalidateEpisodeWatchState_def useMarkCalendarEpisodeWatched_web_def
      mutation_of_def calendar_all_def)

lemma marked_by_title_change_filters:
  "marked_by_title_change c q \<longleftrightarrow> list_ex (\<lambda>f. prefix f (web_key q)) (mh_invalidates (title_change_hook c))"
proof (cases q)
  case (Of_Titles x)
  then show ?thesis
    by (cases x) (auto simp: title_filters marked_by_title_change_def progress_marked_def filters_by_root
        split: option.splits)
next
  case (Of_Time x)
  then show ?thesis
    by (cases x) (auto simp: title_filters marked_by_title_change_def filters_by_root split: option.splits)
next
  case (Of_People x)
  then show ?thesis
    by (cases x) (auto simp: title_filters marked_by_title_change_def filters_by_root split: option.splits)
next
  case (Of_Account x)
  then show ?thesis
    by (cases x) (auto simp: title_filters marked_by_title_change_def filters_by_root split: option.splits)
qed

text \<open>C36: A change of the library made on the web marks exactly the cached answers it makes stale, with one gap:
  every change marks all tracking lists and lookups, the recommendations, all statistics, the whole
  calendar and all activity, and the watched episodes and the progress of the title it is about (of every
  title, when the hook does not know the title), and no other answer; but an episode marked in the
  calendar marks its own page and neither the watched episodes nor the progress of its show.\<close>

theorem web_library_change_marks:
  "web_marks (Title_Change c) q \<longleftrightarrow> marked_by_title_change c q"
  unfolding web_marks_def web_filters.simps by (rule marked_by_title_change_filters [symmetric])

section \<open>All changes\<close>

text \<open>The queries that no change marks.\<close>

definition never_marked :: "web_query \<Rightarrow> bool" where
  "never_marked q =
     (case q of
        Of_Titles t \<Rightarrow> title_root t \<in> set [''search'', ''media'', ''watch-providers'', ''community-rating'', ''seasons'', ''episodes'']
      | Of_Time t \<Rightarrow> time_root t = ''badges''
      | Of_People p \<Rightarrow> people_root p = ''connections''
      | Of_Account (W_Import_Job _ _) \<Rightarrow> True
      | Of_Account (W_Peer_Keys _ _) \<Rightarrow> True
      | Of_Account _ \<Rightarrow> False)"

lemmas people_change_defs =
  useFollow_def useUnfollow_def follow_changed_def useAcceptFollowRequest_web_def useRejectFollowRequest_web_def
  useBlockUser_web_def useUnblockUser_web_def useReportContent_web_def useUpdateModerationReport_def
  moderationKeys_all_def useSendMessage_web_def useMarkMessageThreadRead_web_def thread_changed_web_def
  message_thread_key_def message_conversations_key_def message_summary_key_def useMarkNotificationRead_web_def
  useMarkAllNotificationsRead_web_def notification_all_key_def useUpdatePrivacy_def mutation_of_def

lemmas own_change_defs =
  useUpdateCalendarPreferences_web_def useSetEpisodePlanned_web_def calendar_all_def useCreateList_web_def
  useUpdateList_web_def useDeleteList_web_def useAddListItem_web_def useRemoveListItem_web_def list_mine_key_def
  list_detail_key_def useDismissRecommendation_web_def useSetEpisodeReaction_web_def useStartImport_web_def
  identity_changed_def recovery_code_changed_def encryption_status_key_def encryption_backup_key_def
  useEnableTwoFactor_def useDisableTwoFactor_def asks_me_after_def mutation_hook.defs security_changed_def
  useChangeEmail_def useRevokeSession_def useUploadAvatar_def useDeleteAvatar_def mutation_of_def

lemma people_filters_miss:
  "never_marked q \<Longrightarrow> \<not> list_ex (\<lambda>f. prefix f (web_key q)) (mh_invalidates (people_change_hook c))"
  by (cases c) (auto simp: people_change_defs never_marked_def
      split: web_query.splits web_own_query.splits)

lemma own_filters_miss:
  assumes "never_marked q"
  shows "\<not> list_ex (\<lambda>f. prefix f (web_key q)) (own_change_marks c)"
proof (cases "\<exists>x. q = Of_Account x")
  case False
  then show ?thesis
    using assms by (cases c) (auto simp: own_change_defs never_marked_def Let_def split: web_query.splits)
next
  case True
  then obtain x where "q = Of_Account x" by blast
  with assms show ?thesis
    by (cases x; cases c) (auto simp: own_change_defs never_marked_def Let_def web_key_def web_shapes
        useImportJob_web_def usePeerKeys_web_def encryption_peer_key_def)
qed

lemma title_filters_miss: "never_marked q \<Longrightarrow> \<not> marked_by_title_change c q"
  by (auto simp: never_marked_def marked_by_title_change_def
      split: web_query.splits web_title_query.splits web_time_query.splits)

text \<open>A change that marks a given query.\<close>

definition marking_change :: "web_query \<Rightarrow> web_change" where
  "marking_change q =
     (case q of
        Of_Titles (W_Episode i) \<Rightarrow> Own_Change (WC_React i None)
      | Of_Titles _ \<Rightarrow> Title_Change (WC_Delete [])
      | Of_Time _ \<Rightarrow> Title_Change (WC_Delete [])
      | Of_People (W_Profile _) \<Rightarrow> People_Change (WC_Follow [])
      | Of_People (W_User_Search _ _ _) \<Rightarrow> People_Change (WC_Follow [])
      | Of_People W_Follow_Requests \<Rightarrow> People_Change (WC_Reject [])
      | Of_People W_Blocks \<Rightarrow> People_Change (WC_Block [])
      | Of_People W_Moderator \<Rightarrow> People_Change (WC_Moderate [] Report_Open [])
      | Of_People (W_Reports _ _) \<Rightarrow> People_Change (WC_Moderate [] Report_Open [])
      | Of_People (W_Message_Summary _) \<Rightarrow> People_Change (WC_Send [] [])
      | Of_People (W_Conversations _) \<Rightarrow> People_Change (WC_Send [] [])
      | Of_People (W_Thread u) \<Rightarrow> People_Change (WC_Send u [])
      | Of_People (W_Notification_Summary _) \<Rightarrow> People_Change WC_All_Notifications_Read
      | Of_People (W_Notifications _) \<Rightarrow> People_Change WC_All_Notifications_Read
      | Of_People _ \<Rightarrow> Title_Change (WC_Delete [])
      | Of_Account (W_My_Lists _) \<Rightarrow> Own_Change (WC_Create_List [])
      | Of_Account (W_List i) \<Rightarrow> Own_Change (WC_Update_List (shown_or [] i) [])
      | Of_Account W_Import_Jobs \<Rightarrow> Own_Change WC_Import
      | Of_Account (W_Me _) \<Rightarrow> Own_Change WC_Upload_Avatar
      | Of_Account (W_Sessions _) \<Rightarrow> Own_Change (WC_Revoke_Session [])
      | Of_Account (W_Security _) \<Rightarrow> Own_Change (WC_Revoke_Session [])
      | Of_Account (W_Key_Status _) \<Rightarrow> Own_Change WC_Identity
      | Of_Account _ \<Rightarrow> Own_Change WC_Recovery_Code)"

lemma marks_deleted:
  "web_marks (Title_Change (WC_Delete i)) q \<longleftrightarrow>
     web_root_of q \<in> set [''tracking'', ''stats'', ''activity'', ''discovery'', ''calendar'', ''watched-episodes'',
       ''show-watch-progress'', ''history'']"
  unfolding web_marks_def filters_by_root(1) [symmetric]
  by (simp add: title_filters in_calendar_def title_of_change_def del: title_change_hook.simps)

lemma marking_title: "\<not> never_marked (Of_Titles x) \<Longrightarrow> web_marks (marking_change (Of_Titles x)) (Of_Titles x)"
  by (cases x, auto simp: marks_deleted marking_change_def never_marked_def,
      auto simp: web_marks_def own_change_defs web_key_def web_shapes useEpisodeDetail_web_def)

lemma marking_time: "\<not> never_marked (Of_Time x) \<Longrightarrow> web_marks (marking_change (Of_Time x)) (Of_Time x)"
  by (cases x) (auto simp: marks_deleted marking_change_def never_marked_def)

lemma marking_people: "\<not> never_marked (Of_People x) \<Longrightarrow> web_marks (marking_change (Of_People x)) (Of_People x)"
  by (cases x, auto simp: marks_deleted marking_change_def never_marked_def,
      auto simp: web_marks_def people_change_defs web_key_def web_shapes people_hook_defs)

lemma marking_own: "\<not> never_marked (Of_Account x) \<Longrightarrow> web_marks (marking_change (Of_Account x)) (Of_Account x)"
  by (cases x) (auto simp: web_marks_def marking_change_def never_marked_def own_change_defs web_key_def web_shapes
      own_hook_defs)

text \<open>C37: Which cached answers of the web client can become stale by what its user does: a query is marked by
  some mutation exactly if it is none of the catalogue (search results, a title, its providers, ratings,
  seasons and episodes), the badges, one import job, the keys of a peer, or a list of followers or followed.
  No query has the keys \<open>followers\<close>, \<open>following\<close>, \<open>history\<close> and \<open>reports\<close> that some hooks mark, so following,
  accepting or blocking somebody leaves the cached lists of followers as they are.\<close>

theorem marked_by_some_change:
  "((\<exists>c. web_marks c q) \<longleftrightarrow> \<not> never_marked q) \<and>
   web_root_of q \<notin> set [''followers'', ''following'', ''history'', ''reports''] \<and>
   never_marked (Of_People (W_Connections username kind enabled))"
proof (intro conjI)
  have "\<not> web_marks c q" if "never_marked q" for c
    using that people_filters_miss own_filters_miss title_filters_miss
    by (cases c) (simp_all add: web_marks_def flip: marked_by_title_change_filters)
  moreover have "web_marks (marking_change q) q" if "\<not> never_marked q"
    using that marking_title marking_time marking_people marking_own by (cases q) auto
  ultimately show "(\<exists>c. web_marks c q) \<longleftrightarrow> \<not> never_marked q" by blast
  show "web_root_of q \<notin> set [''followers'', ''following'', ''history'', ''reports'']"
  proof (cases q)
    case (Of_Titles x) then show ?thesis by (cases x) simp_all
  next
    case (Of_Time x) then show ?thesis by (cases x) simp_all
  next
    case (Of_People x) then show ?thesis by (cases x) simp_all
  next
    case (Of_Account x) then show ?thesis by (cases x) simp_all
  qed
  show "never_marked (Of_People (W_Connections username kind enabled))" by (simp add: never_marked_def)
qed

end
