(* ===== verification/Keyed_Tasks.thy ===== *)
theory Keyed_Tasks
  imports Main
begin

text \<open>
  Independent asynchronous actions by key (mobile/src/lib/keyed-task-gate.ts): the gate, its callers and
  the tasks they run as one machine. A task is told apart by a number; the callback \<open>onPendingChange\<close> of
  a caller may throw, which the machine is told when it is called.
\<close>

section \<open>The gate\<close>

datatype 'v gate_result = Not_Started | Started 'v | Gate_Threw

record 'v task_gate =
  tg_pending :: "string set"
  tg_running :: "(nat \<times> string) list"
  tg_next :: nat
  tg_shown :: "string set list"
  tg_results :: "(nat \<times> 'v gate_result) list"

definition new_gate :: "'v task_gate" where
  "new_gate = \<lparr>tg_pending = {}, tg_running = [], tg_next = 0, tg_shown = [], tg_results = []\<rparr>"

definition snapshot :: "'v task_gate \<Rightarrow> string set" where "snapshot s = tg_pending s"

text \<open>\<open>run\<close> up to the \<open>await\<close>: the key is taken, the caller told, the task started.\<close>

definition run_begin :: "string \<Rightarrow> bool \<Rightarrow> 'v task_gate \<Rightarrow> 'v task_gate" where
  "run_begin key callback_ok s =
     (let t = tg_next s; s = s\<lparr>tg_next := t + 1\<rparr> in
      if key \<in> tg_pending s then s\<lparr>tg_results := (t, Not_Started) # tg_results s\<rparr>
      else
        let s = s\<lparr>tg_pending := insert key (tg_pending s)\<rparr>;
            s = s\<lparr>tg_shown := tg_shown s @ [snapshot s]\<rparr>
        in if callback_ok then s\<lparr>tg_running := (t, key) # tg_running s\<rparr>
           else s\<lparr>tg_results := (t, Gate_Threw) # tg_results s\<rparr>)"

text \<open>The \<open>finally\<close>: the task has an answer (\<open>Some\<close>) or has thrown. A callback that throws replaces the answer.\<close>

definition run_end :: "nat \<Rightarrow> 'v option \<Rightarrow> bool \<Rightarrow> 'v task_gate \<Rightarrow> 'v task_gate" where
  "run_end t answer callback_ok s =
     (case map_of (tg_running s) t of
        None \<Rightarrow> s
      | Some key \<Rightarrow>
          let s = s\<lparr>tg_pending := tg_pending s - {key}, tg_running := filter (\<lambda>(u, _). u \<noteq> t) (tg_running s)\<rparr>;
              s = s\<lparr>tg_shown := tg_shown s @ [snapshot s]\<rparr>;
              result = (case answer of Some v \<Rightarrow> if callback_ok then Started v else Gate_Threw | None \<Rightarrow> Gate_Threw)
          in s\<lparr>tg_results := (t, result) # tg_results s\<rparr>)"

datatype 'v gate_event = Run_Called string bool | Task_Settles nat "'v option" bool

definition gate_step :: "'v gate_event \<Rightarrow> 'v task_gate \<Rightarrow> 'v task_gate" where
  "gate_step e = (case e of Run_Called key ok \<Rightarrow> run_begin key ok | Task_Settles t answer ok \<Rightarrow> run_end t answer ok)"

definition callback_ok :: "'v gate_event \<Rightarrow> bool" where
  "callback_ok e = (case e of Run_Called _ ok \<Rightarrow> ok | Task_Settles _ _ ok \<Rightarrow> ok)"

definition gate_run :: "'v gate_event list \<Rightarrow> 'v task_gate" where
  "gate_run es = foldl (\<lambda>s e. gate_step e s) new_gate es"

text \<open>An event of the run that happens in a state of a kind.\<close>

definition met :: "('v task_gate \<Rightarrow> 'v gate_event \<Rightarrow> bool) \<Rightarrow> 'v gate_event list \<Rightarrow> bool" where
  "met happens es \<longleftrightarrow> (\<exists>before e later. es = before @ e # later \<and> happens (gate_run before) e)"

section \<open>What the gate keeps\<close>

text \<open>The keys that are taken and have no task: their first callback threw.\<close>

definition stuck :: "'v task_gate \<Rightarrow> string set" where
  "stuck s = tg_pending s - snd ` set (tg_running s)"

definition gate_ok :: "'v task_gate \<Rightarrow> bool" where
  "gate_ok s \<longleftrightarrow>
     distinct (map fst (tg_running s)) \<and> distinct (map snd (tg_running s)) \<and>
     snd ` set (tg_running s) \<subseteq> tg_pending s \<and> finite (tg_pending s) \<and>
     (\<forall>t \<in> fst ` (set (tg_running s)) \<union> fst ` (set (tg_results s)). t < tg_next s) \<and>
     fst ` set (tg_running s) \<inter> fst ` set (tg_results s) = {} \<and> distinct (map fst (tg_results s)) \<and>
     tg_pending s = (if tg_shown s = [] then {} else last (tg_shown s)) \<and>
     length (tg_running s) + length (tg_results s) = tg_next s"

lemma gate_okI:
  assumes "distinct (map fst (tg_running s))" "distinct (map snd (tg_running s))"
    "snd ` set (tg_running s) \<subseteq> tg_pending s" "finite (tg_pending s)"
    "\<And>t. t \<in> fst ` set (tg_running s) \<or> t \<in> fst ` set (tg_results s) \<Longrightarrow> t < tg_next s"
    "fst ` set (tg_running s) \<inter> fst ` set (tg_results s) = {}" "distinct (map fst (tg_results s))"
    "tg_pending s = (if tg_shown s = [] then {} else last (tg_shown s))"
    "length (tg_running s) + length (tg_results s) = tg_next s"
  shows "gate_ok s"
  unfolding gate_ok_def using assms by blast

lemma gate_okD:
  assumes "gate_ok s"
  shows "distinct (map fst (tg_running s))" "distinct (map snd (tg_running s))"
    "snd ` set (tg_running s) \<subseteq> tg_pending s" "finite (tg_pending s)"
    "\<And>t. t \<in> fst ` set (tg_running s) \<or> t \<in> fst ` set (tg_results s) \<Longrightarrow> t < tg_next s"
    "fst ` set (tg_running s) \<inter> fst ` set (tg_results s) = {}" "distinct (map fst (tg_results s))"
    "tg_pending s = (if tg_shown s = [] then {} else last (tg_shown s))"
    "length (tg_running s) + length (tg_results s) = tg_next s"
  using assms unfolding gate_ok_def by blast+

lemma gate_ok_begin:
  assumes "gate_ok s"
  shows "gate_ok (run_begin key ok s)"
proof -
  note d = gate_okD [OF assms]
  have new: "tg_next s \<notin> fst ` set (tg_running s)" "tg_next s \<notin> fst ` set (tg_results s)"
    using d(5) by blast+
  have less: "(t, k) \<in> set (tg_running s) \<Longrightarrow> t < Suc (tg_next s)"
    "(t, r) \<in> set (tg_results s) \<Longrightarrow> t < Suc (tg_next s)" for t k r
    using d(5) [of t] by (force intro: less_SucI)+
  have key: "key \<notin> tg_pending s \<Longrightarrow> key \<notin> snd ` set (tg_running s)" using d(3) by blast
  show ?thesis
  proof (cases "key \<in> tg_pending s")
    case True
    then have r: "run_begin key ok s = s\<lparr>tg_next := Suc (tg_next s), tg_results := (tg_next s, Not_Started) # tg_results s\<rparr>"
      by (simp add: run_begin_def Let_def)
    show ?thesis unfolding r by (rule gate_okI) (use d(1-4,6-9) new less in auto)
  next
    case taken: False
    let ?s = "s\<lparr>tg_next := Suc (tg_next s), tg_pending := insert key (tg_pending s),
      tg_shown := tg_shown s @ [insert key (tg_pending s)]\<rparr>"
    show ?thesis
    proof (cases ok)
      case True
      with taken have r: "run_begin key ok s = ?s\<lparr>tg_running := (tg_next s, key) # tg_running s\<rparr>"
        by (simp add: run_begin_def Let_def snapshot_def)
      show ?thesis unfolding r by (rule gate_okI) (use d(1-4,6,7,9) new less key taken in auto)
    next
      case False
      with taken have r: "run_begin key ok s = ?s\<lparr>tg_results := (tg_next s, Gate_Threw) # tg_results s\<rparr>"
        by (simp add: run_begin_def Let_def snapshot_def)
      show ?thesis unfolding r by (rule gate_okI) (use d(1-4,6,7,9) new less taken in auto)
    qed
  qed
qed

lemma take_ticket:
  assumes "distinct (map fst xs)" "map_of xs t = Some k"
  obtains as bs where "xs = as @ (t, k) # bs" "filter (\<lambda>(u, _). u \<noteq> t) xs = as @ bs"
proof -
  obtain as bs where xs: "xs = as @ (t, k) # bs" using split_list [OF map_of_SomeD [OF assms(2)]] by blast
  with assms(1) have "t \<notin> fst ` set as" "t \<notin> fst ` set bs" by auto
  then have "filter (\<lambda>(u, _). u \<noteq> t) as = as" "filter (\<lambda>(u, _). u \<noteq> t) bs = bs"
    by (force simp: filter_id_conv)+
  with xs that show ?thesis by simp
qed

lemma gate_ok_end:
  assumes "gate_ok s"
  shows "gate_ok (run_end t answer ok s)"
proof (cases "map_of (tg_running s) t")
  case None
  with assms show ?thesis by (simp add: run_end_def)
next
  case (Some key)
  note d = gate_okD [OF assms]
  obtain as bs where r: "tg_running s = as @ (t, key) # bs"
    and f: "filter (\<lambda>(u, _). u \<noteq> t) (tg_running s) = as @ bs"
    using take_ticket [OF d(1) Some] .
  have less: "u < tg_next s" if "u \<in> fst ` set (as @ bs) \<or> u = t \<or> u \<in> fst ` set (tg_results s)" for u
    using d(5) [of u] that r by auto
  have fresh: "t \<notin> fst ` set (tg_results s)" "t \<notin> fst ` set (as @ bs)" "key \<notin> snd ` set (as @ bs)"
    using d(1,2,6) r by auto
  show ?thesis
    unfolding run_end_def Some option.case Let_def
    by (rule gate_okI) (use d r f less fresh in \<open>auto simp: snapshot_def\<close>)
qed

lemma gate_run_simps [simp]:
  "gate_run [] = new_gate" "gate_run (es @ [e]) = gate_step e (gate_run es)"
  by (simp_all add: gate_run_def)

lemma met_simps [simp]:
  "\<not> met happens []" "met happens (es @ [e]) \<longleftrightarrow> met happens es \<or> happens (gate_run es) e"
proof -
  show "\<not> met happens []" by (simp add: met_def)
  show "met happens (es @ [e]) \<longleftrightarrow> met happens es \<or> happens (gate_run es) e"
  proof
    assume "met happens (es @ [e])"
    then obtain before x later where "es @ [e] = before @ x # later" "happens (gate_run before) x"
      unfolding met_def by blast
    then show "met happens es \<or> happens (gate_run es) e"
      by (cases later rule: rev_cases) (auto simp: met_def)
  next
    assume "met happens es \<or> happens (gate_run es) e"
    then show "met happens (es @ [e])"
    proof
      assume "met happens es"
      then obtain before x later where "es = before @ x # later" "happens (gate_run before) x"
        unfolding met_def by blast
      then have "es @ [e] = before @ x # (later @ [e]) \<and> happens (gate_run before) x" by simp
      then show ?thesis unfolding met_def by blast
    next
      assume "happens (gate_run es) e"
      then show ?thesis unfolding met_def by blast
    qed
  qed
qed

lemma gate_ok_run: "gate_ok (gate_run es)"
proof (induction es rule: rev_induct)
  case Nil
  show ?case by (rule gate_okI) (simp_all add: new_gate_def)
next
  case (snoc e es)
  then show ?case by (cases e) (simp_all add: gate_step_def gate_ok_begin gate_ok_end)
qed

lemma running_ended:
  assumes "gate_ok s" "map_of (tg_running s) t = Some key"
  shows "snd ` set (filter (\<lambda>(u, _). u \<noteq> t) (tg_running s)) = snd ` set (tg_running s) - {key}"
proof -
  obtain as bs where "tg_running s = as @ (t, key) # bs" "filter (\<lambda>(u, _). u \<noteq> t) (tg_running s) = as @ bs"
    using take_ticket [OF gate_okD(1) [OF assms(1)] assms(2)] .
  with gate_okD(2) [OF assms(1)] show ?thesis by auto
qed

lemma stuck_step:
  assumes "gate_ok s"
  shows "stuck (gate_step e s) =
    stuck s \<union> (case e of Run_Called key ok \<Rightarrow> if key \<notin> tg_pending s \<and> \<not> ok then {key} else {} | _ \<Rightarrow> {})"
proof (cases e)
  case (Run_Called key ok)
  then show ?thesis
    using gate_okD(3) [OF assms] by (auto simp: gate_step_def run_begin_def stuck_def Let_def)
next
  case (Task_Settles t answer ok)
  show ?thesis
  proof (cases "map_of (tg_running s) t")
    case None
    with Task_Settles show ?thesis by (simp add: gate_step_def run_end_def)
  next
    case (Some key)
    have "key \<in> snd ` set (tg_running s)" using map_of_SomeD [OF Some] by force
    then have "stuck (run_end t answer ok s) = stuck s"
      unfolding stuck_def run_end_def Some option.case Let_def
      by (simp add: running_ended [OF assms Some] del: set_filter) blast
    with Task_Settles show ?thesis by (simp add: gate_step_def)
  qed
qed

text \<open>What a call gets from an event.\<close>

definition runs :: "'v task_gate \<Rightarrow> nat \<Rightarrow> bool" where "runs s t \<longleftrightarrow> t \<in> fst ` set (tg_running s)"

fun gets :: "nat \<Rightarrow> 'v gate_result \<Rightarrow> 'v task_gate \<Rightarrow> 'v gate_event \<Rightarrow> bool" where
  "gets t Not_Started s (Run_Called key ok) \<longleftrightarrow> t = tg_next s \<and> key \<in> tg_pending s"
| "gets t Gate_Threw s (Run_Called key ok) \<longleftrightarrow> t = tg_next s \<and> key \<notin> tg_pending s \<and> \<not> ok"
| "gets t (Started v) s (Task_Settles u answer ok) \<longleftrightarrow> t = u \<and> runs s t \<and> answer = Some v \<and> ok"
| "gets t Gate_Threw s (Task_Settles u answer ok) \<longleftrightarrow> t = u \<and> runs s t \<and> (answer = None \<or> \<not> ok)"
| "gets t r s e \<longleftrightarrow> False"

fun starts :: "nat \<Rightarrow> string \<Rightarrow> 'v task_gate \<Rightarrow> 'v gate_event \<Rightarrow> bool" where
  "starts t key s (Run_Called k ok) \<longleftrightarrow> t = tg_next s \<and> k = key \<and> key \<notin> tg_pending s \<and> ok"
| "starts t key s (Task_Settles _ _ _) \<longleftrightarrow> False"

lemma gets_answer: "gets t (Started v) s e \<longleftrightarrow> e = Task_Settles t (Some v) True \<and> runs s t"
  by (cases e) auto

lemma gets_nothing:
  "gets t Not_Started s e \<longleftrightarrow> (\<exists>key ok. e = Run_Called key ok \<and> tg_next s = t \<and> key \<in> tg_pending s)"
  by (cases e) auto

lemma results_step:
  "(t, r) \<in> set (tg_results (gate_step e s)) \<longleftrightarrow> (t, r) \<in> set (tg_results s) \<or> gets t r s e"
proof (cases e)
  case (Run_Called key ok)
  then show ?thesis by (cases r) (auto simp: gate_step_def run_begin_def Let_def)
next
  case (Task_Settles u answer ok)
  show ?thesis
  proof (cases "map_of (tg_running s) u")
    case None
    then have "\<not> runs s u" by (simp add: runs_def map_of_eq_None_iff)
    with None Task_Settles show ?thesis by (cases r) (auto simp: gate_step_def run_end_def)
  next
    case (Some key)
    then have "runs s u" by (force simp: runs_def dest: map_of_SomeD)
    with Some Task_Settles show ?thesis
      by (cases r; cases answer) (auto simp: gate_step_def run_end_def Let_def)
  qed
qed

lemma running_step:
  "(t, key) \<in> set (tg_running (gate_step e s)) \<Longrightarrow> (t, key) \<in> set (tg_running s) \<or> starts t key s e"
  by (cases e) (auto simp: gate_step_def run_begin_def run_end_def Let_def split: if_splits option.splits)

lemma results_run: "(t, r) \<in> set (tg_results (gate_run es)) \<longleftrightarrow> met (gets t r) es"
  by (induction es rule: rev_induct) (simp_all add: results_step, simp add: new_gate_def)

lemma running_run: "(t, key) \<in> set (tg_running (gate_run es)) \<Longrightarrow> met (starts t key) es"
proof (induction es rule: rev_induct)
  case Nil
  then show ?case by (simp add: new_gate_def)
next
  case (snoc e es)
  then show ?case using running_step [of t key e "gate_run es"] by auto
qed

lemma stuck_run: "\<forall>e \<in> set es. callback_ok e \<Longrightarrow> stuck (gate_run es) = {}"
proof (induction es rule: rev_induct)
  case Nil
  show ?case by (simp add: stuck_def new_gate_def)
next
  case (snoc e es)
  then show ?case
    by (cases e) (auto simp: stuck_step [OF gate_ok_run] callback_ok_def)
qed

text \<open>C38: The gate runs one task per key and gives every caller the outcome of their own task. After any
  run of calls and answers no two running tasks have the same key, a running task has the key its caller
  gave when that key was free, the set the screen was last told is the set of taken keys, and every call so
  far either runs or has one outcome. A call has an answer of its task exactly if that very task ended
  with that answer while it ran and its callback did not throw; it is turned away exactly if its key was
  taken when it was made; and it throws exactly if its own task did or a callback of its own did. As long
  as no callback throws, a key is taken exactly while its task runs; a callback that throws when a key is
  taken leaves the key taken for good.\<close>

theorem one_task_per_key:
  "let s = gate_run es in
     distinct (map snd (tg_running s)) \<and>
     (\<forall>(t, key) \<in> set (tg_running s). met (starts t key) es) \<and>
     tg_pending s = (if tg_shown s = [] then {} else last (tg_shown s)) \<and>
     distinct (map fst (tg_running s) @ map fst (tg_results s)) \<and>
     set (map fst (tg_running s) @ map fst (tg_results s)) = {..< tg_next s} \<and>
     (\<forall>t v. (t, Started v) \<in> set (tg_results s) \<longleftrightarrow>
        (\<exists>before later. es = before @ Task_Settles t (Some v) True # later \<and> runs (gate_run before) t)) \<and>
     (\<forall>t. (t, Not_Started) \<in> set (tg_results s) \<longleftrightarrow>
        (\<exists>before key ok later. es = before @ Run_Called key ok # later \<and>
           tg_next (gate_run before) = t \<and> key \<in> tg_pending (gate_run before))) \<and>
     (\<forall>t. (t, Gate_Threw) \<in> set (tg_results s) \<longleftrightarrow> met (gets t Gate_Threw) es) \<and>
     ((\<forall>e \<in> set es. callback_ok e) \<longrightarrow> tg_pending s = snd ` set (tg_running s)) \<and>
     stuck s \<subseteq> stuck (gate_step e s)"
proof -
  define s where "s = gate_run es"
  have ok: "gate_ok s" by (simp add: s_def gate_ok_run)
  note d = gate_okD [OF ok]
  let ?tickets = "map fst (tg_running s) @ map fst (tg_results s)"
  have tickets: "distinct ?tickets" using d(1,6,7) by auto
  have "set ?tickets \<subseteq> {..< tg_next s}" using d(5) by (auto simp del: map_append)
  moreover have "card (set ?tickets) = tg_next s" using distinct_card [OF tickets] d(9) by simp
  ultimately have all: "set ?tickets = {..< tg_next s}" by (intro card_subset_eq) auto
  have started: "met (gets t (Started v)) es \<longleftrightarrow>
      (\<exists>before later. es = before @ Task_Settles t (Some v) True # later \<and> runs (gate_run before) t)" for t v
    unfolding met_def gets_answer by blast
  have turned_away: "met (gets t Not_Started) es \<longleftrightarrow>
      (\<exists>before key ok later. es = before @ Run_Called key ok # later \<and>
         tg_next (gate_run before) = t \<and> key \<in> tg_pending (gate_run before))" for t
    unfolding met_def gets_nothing by blast
  have quiet: "tg_pending s = snd ` set (tg_running s)" if "\<forall>e \<in> set es. callback_ok e"
    using stuck_run [OF that] d(3) by (auto simp: stuck_def s_def)
  have stays: "stuck s \<subseteq> stuck (gate_step e s)" by (auto simp: stuck_step [OF ok])
  have result: "(t, r) \<in> set (tg_results s) \<longleftrightarrow> met (gets t r) es" for t r
    by (simp add: s_def results_run)
  have begun: "\<forall>(t, key) \<in> set (tg_running s). met (starts t key) es"
    using running_run [of _ _ es] by (auto simp: s_def)
  show ?thesis
    unfolding Let_def s_def [symmetric] result started turned_away
    by (intro conjI allI impI) (use d(2,8) tickets all quiet stays begun in \<open>simp_all only: simp_thms\<close>)
qed

text \<open>Two titles are added at once, the first twice; the second answers first.\<close>

definition sample_calls :: "nat gate_event list" where
  "sample_calls =
     [Run_Called ''tv:1'' True, Run_Called ''tv:1'' True, Run_Called ''tv:2'' True, Task_Settles 2 (Some 5) True]"

lemma one_task_per_key_witness:
  "tg_running (gate_run sample_calls) = [(0, ''tv:1'')] \<and>
   tg_results (gate_run sample_calls) = [(2, Started 5), (1, Not_Started)] \<and>
   tg_pending (gate_run sample_calls) = {''tv:1''}"
proof -
  have r: "tg_running (gate_run sample_calls) = [(0, ''tv:1'')]"
      "tg_results (gate_run sample_calls) = [(2, Started 5), (1, Not_Started)]"
    by (simp_all add: sample_calls_def gate_run_def gate_step_def run_begin_def run_end_def new_gate_def Let_def)
  have "\<forall>e \<in> set sample_calls. callback_ok e" by (simp add: sample_calls_def callback_ok_def)
  then have "tg_pending (gate_run sample_calls) = snd ` set (tg_running (gate_run sample_calls))"
    using one_task_per_key [of sample_calls] unfolding Let_def by blast
  with r show ?thesis by simp
qed

end
