(* ===== verification/Data_Export.thy ===== *)
theory Data_Export
  imports Js_Text
begin

text \<open>
  The export of an account to a file that the system's share sheet takes over
  (mobile/src/lib/data-export.ts), as a machine over the one file of the cache directory. The request, the
  file and the share sheet are the platform's: each event carries how the call ended. The app may be killed
  at any moment and an export be asked for again.
\<close>

definition MAX_EXPORT_CHARACTERS :: nat where "MAX_EXPORT_CHARACTERS = 96 * 1024 * 1024"

datatype export_error =
    Sharing_Unavailable
  | Delete_Failed
  | Password_Refused
  | Export_Request_Failed
  | Export_Too_Large
  | Export_File_Failed
  | Sharing_Failed

text \<open>Where a run of \<open>exportAndShareAccountData\<close> is: the request has been made, the file has been made and has
  to be written, the file has been written and is being shared, the \<open>finally\<close> block is to run with what
  the run ends with, the run has ended.\<close>

datatype export_phase =
    Export_Idle
  | Export_Requested
  | Export_Creating jstr
  | Export_Writing jstr
  | Export_Sharing
  | Export_Cleanup "export_error option"
  | Export_Ended "export_error option"

record export_state =
  ex_phase :: export_phase
  ex_file :: "jstr option"
  ex_requests :: nat
  ex_answers :: "jstr list"
  ex_shared :: "jstr list"

definition export_start :: export_state where
  "export_start = \<lparr>ex_phase = Export_Idle, ex_file = None, ex_requests = 0, ex_answers = [], ex_shared = []\<rparr>"

text \<open>The guard of \<open>requestAccountDataExport\<close>.\<close>

definition password_accepted :: "jstr \<Rightarrow> bool" where
  "password_accepted password \<longleftrightarrow> password \<noteq> [] \<and> length password \<le> 128"

definition requestAccountDataExport :: "jstr \<Rightarrow> export_state \<Rightarrow> export_state" where
  "requestAccountDataExport password s =
     (if password_accepted password
      then s\<lparr>ex_phase := Export_Requested, ex_requests := ex_requests s + 1\<rparr>
      else s\<lparr>ex_phase := Export_Ended (Some Password_Refused)\<rparr>)"

definition export_called :: "bool \<Rightarrow> bool \<Rightarrow> jstr \<Rightarrow> export_state \<Rightarrow> export_state" where
  "export_called sharing delete_ok password s =
     (if \<not> sharing then s\<lparr>ex_phase := Export_Ended (Some Sharing_Unavailable)\<rparr>
      else if ex_file s \<noteq> None \<and> \<not> delete_ok then s\<lparr>ex_phase := Export_Ended (Some Delete_Failed)\<rparr>
      else requestAccountDataExport password (s\<lparr>ex_file := None\<rparr>))"

text \<open>\<open>answer\<close> is the text of an answer that the schema accepts; \<open>None\<close> is a request or a check that failed.\<close>

definition export_answered :: "jstr option \<Rightarrow> export_state \<Rightarrow> export_state" where
  "export_answered answer s =
     (case answer of
        None \<Rightarrow> s\<lparr>ex_phase := Export_Ended (Some Export_Request_Failed)\<rparr>
      | Some contents \<Rightarrow>
          let s = s\<lparr>ex_answers := contents # ex_answers s\<rparr> in
          if MAX_EXPORT_CHARACTERS < length contents then s\<lparr>ex_phase := Export_Ended (Some Export_Too_Large)\<rparr>
          else s\<lparr>ex_phase := Export_Creating contents\<rparr>)"

definition file_created :: "jstr \<Rightarrow> bool \<Rightarrow> export_state \<Rightarrow> export_state" where
  "file_created contents ok s =
     (if ok then s\<lparr>ex_file := Some [], ex_phase := Export_Writing contents\<rparr>
      else s\<lparr>ex_phase := Export_Cleanup (Some Export_File_Failed)\<rparr>)"

text \<open>A write that fails may have written a part.\<close>

definition file_written :: "jstr \<Rightarrow> nat option \<Rightarrow> export_state \<Rightarrow> export_state" where
  "file_written contents failed_at s =
     (case failed_at of
        None \<Rightarrow> s\<lparr>ex_file := Some contents, ex_phase := Export_Sharing\<rparr>
      | Some n \<Rightarrow> s\<lparr>ex_file := Some (take n contents), ex_phase := Export_Cleanup (Some Export_File_Failed)\<rparr>)"

definition sheet_closed :: "bool \<Rightarrow> export_state \<Rightarrow> export_state" where
  "sheet_closed ok s =
     (if ok then s\<lparr>ex_shared := (case ex_file s of None \<Rightarrow> [] | Some f \<Rightarrow> [f]) @ ex_shared s, ex_phase := Export_Cleanup None\<rparr>
      else s\<lparr>ex_phase := Export_Cleanup (Some Sharing_Failed)\<rparr>)"

text \<open>The \<open>finally\<close> block; an exception there replaces the one before.\<close>

definition export_cleanup :: "export_error option \<Rightarrow> bool \<Rightarrow> export_state \<Rightarrow> export_state" where
  "export_cleanup r delete_ok s =
     (if ex_file s = None then s\<lparr>ex_phase := Export_Ended r\<rparr>
      else if delete_ok then s\<lparr>ex_file := None, ex_phase := Export_Ended r\<rparr>
      else s\<lparr>ex_phase := Export_Ended (Some Delete_Failed)\<rparr>)"

datatype export_event =
    Export_Called bool bool jstr
  | Export_Answered "jstr option"
  | File_Created bool
  | File_Written "nat option"
  | Sheet_Closed bool
  | Cleanup_Run bool
  | App_Killed

definition export_step :: "export_event \<Rightarrow> export_state \<Rightarrow> export_state" where
  "export_step e s =
     (case (e, ex_phase s) of
        (App_Killed, _) \<Rightarrow> s\<lparr>ex_phase := Export_Idle\<rparr>
      | (Export_Called sharing ok password, Export_Idle) \<Rightarrow> export_called sharing ok password s
      | (Export_Called sharing ok password, Export_Ended _) \<Rightarrow> export_called sharing ok password s
      | (Export_Answered answer, Export_Requested) \<Rightarrow> export_answered answer s
      | (File_Created ok, Export_Creating contents) \<Rightarrow> file_created contents ok s
      | (File_Written failed_at, Export_Writing contents) \<Rightarrow> file_written contents failed_at s
      | (Sheet_Closed ok, Export_Sharing) \<Rightarrow> sheet_closed ok s
      | (Cleanup_Run ok, Export_Cleanup r) \<Rightarrow> export_cleanup r ok s
      | _ \<Rightarrow> s)"

inductive export_reachable :: "export_state \<Rightarrow> bool" where
  export_start: "export_reachable export_start"
| export_next: "export_reachable s \<Longrightarrow> export_reachable (export_step e s)"

section \<open>What is left on the phone\<close>

definition export_answer_of :: "export_state \<Rightarrow> jstr \<Rightarrow> bool" where
  "export_answer_of s x \<longleftrightarrow> x \<in> set (ex_answers s) \<and> length x \<le> MAX_EXPORT_CHARACTERS"

definition export_ok :: "export_state \<Rightarrow> bool" where
  "export_ok s \<longleftrightarrow>
     (\<forall>x \<in> set (ex_shared s). export_answer_of s x) \<and>
     length (ex_answers s) \<le> ex_requests s \<and>
     (case ex_phase s of
        Export_Requested \<Rightarrow> ex_file s = None \<and> length (ex_answers s) < ex_requests s
      | Export_Creating contents \<Rightarrow> ex_file s = None \<and> export_answer_of s contents
      | Export_Writing contents \<Rightarrow> export_answer_of s contents
      | Export_Sharing \<Rightarrow> (\<exists>contents. ex_file s = Some contents \<and> export_answer_of s contents)
      | Export_Ended r \<Rightarrow> r \<notin> {Some Sharing_Unavailable, Some Delete_Failed} \<longrightarrow> ex_file s = None
      | _ \<Rightarrow> True)"

lemmas export_step_defs =
  export_step_def export_called_def requestAccountDataExport_def export_answered_def file_created_def
  file_written_def sheet_closed_def export_cleanup_def export_answer_of_def

lemma export_ok_step: "export_ok s \<Longrightarrow> export_ok (export_step e s)"
  by (cases e; cases "ex_phase s") (auto simp: export_ok_def export_step_defs Let_def split: option.splits)

lemma export_ok_reachable: "export_reachable s \<Longrightarrow> export_ok s"
  by (induction rule: export_reachable.induct) (auto simp: export_ok_step, simp add: export_ok_def export_start_def)

text \<open>C39: No plaintext copy of the account stays behind. Over any sequence of exports, whatever their calls
  return and wherever the app is killed: when an export has ended, no export file is on the phone, unless
  sharing is not available on the device or a removal has failed; while the server is asked, no file of an
  earlier attempt is there; what the share sheet was given is always the whole of an answer of the server
  and within the bound; every answer was asked for with a password of 1 to 128 characters, and an export
  that is refused for its password asks for nothing.\<close>

theorem export_leaves_nothing:
  assumes "export_reachable s"
  shows "(\<forall>r. ex_phase s = Export_Ended r \<and> r \<noteq> Some Sharing_Unavailable \<and> r \<noteq> Some Delete_Failed \<longrightarrow> ex_file s = None) \<and>
         (ex_phase s = Export_Requested \<longrightarrow> ex_file s = None) \<and>
         (\<forall>x \<in> set (ex_shared s). x \<in> set (ex_answers s) \<and> length x \<le> MAX_EXPORT_CHARACTERS) \<and>
         length (ex_answers s) \<le> ex_requests s \<and>
         (ex_requests (export_called sharing ok password s) \<noteq> ex_requests s \<longrightarrow>
            sharing \<and> 0 < length password \<and> length password \<le> 128)"
proof -
  have "export_ok s" by (rule export_ok_reachable [OF assms])
  moreover have "ex_requests (export_called sharing ok password s) \<noteq> ex_requests s \<Longrightarrow>
      sharing \<and> 0 < length password \<and> length password \<le> 128"
    by (auto simp: export_called_def requestAccountDataExport_def password_accepted_def split: if_splits)
  ultimately show ?thesis by (auto simp: export_ok_def export_answer_of_def)
qed

text \<open>The app is killed while the sheet is open; the file is there until the next export, and gone after it.\<close>

definition killed_export :: export_state where
  "killed_export =
     foldl (\<lambda>s e. export_step e s) export_start
       [Export_Called True True [0x70], Export_Answered (Some [0x7B, 0x7D]), File_Created True, File_Written None, App_Killed]"

definition next_export :: export_state where
  "next_export =
     foldl (\<lambda>s e. export_step e s) killed_export
       [Export_Called True True [0x70], Export_Answered (Some [0x5B, 0x5D]), File_Created True, File_Written None,
        Sheet_Closed True, Cleanup_Run True]"

lemma export_leaves_nothing_witness:
  "ex_file killed_export = Some [0x7B, 0x7D] \<and> ex_phase next_export = Export_Ended None \<and>
   ex_shared next_export = [[0x5B, 0x5D]] \<and> ex_file next_export = None"
proof -
  note defs = export_step_defs password_accepted_def export_start_def MAX_EXPORT_CHARACTERS_def
  have k: "killed_export = \<lparr>ex_phase = Export_Idle, ex_file = Some [0x7B, 0x7D], ex_requests = 1,
      ex_answers = [[0x7B, 0x7D]], ex_shared = []\<rparr>"
    by (simp add: killed_export_def defs)
  have n: "ex_phase next_export = Export_Ended None" "ex_shared next_export = [[0x5B, 0x5D]]"
    by (simp_all add: next_export_def k defs)
  have "export_reachable next_export"
    unfolding next_export_def killed_export_def by (simp only: foldl.simps) (intro export_reachable.intros)
  from export_leaves_nothing [OF this] n(1) have "ex_file next_export = None" by blast
  moreover have "ex_file killed_export = Some [0x7B, 0x7D]" unfolding k by simp
  ultimately show ?thesis using n by blast
qed

end
