(* ===== verification/Wrapped_Recap.thy ===== *)
theory Wrapped_Recap
  imports History_Dates Http_Client Feeds Bytes_Hex
begin

text \<open>
  The yearly recap (mobile/src/lib/wrapped.ts): what an answer of the server has to satisfy before it is
  shown. A payload that has not the fields and types that the schema names is refused by the schema
  package and is no recap here; what remains are the bounds of the fields, the text that is trimmed and
  the checks across the fields.
\<close>

section \<open>The answer\<close>

record recap_genre =
  rg_genre :: jstr
  rg_count :: int

record recap_title =
  rt_tmdb_id :: int
  rt_media_type :: media_type
  rt_title :: jstr
  rt_poster_path :: "string option"
  rt_count :: int

record recap_month =
  rm_month :: int
  rm_count :: int

record recap =
  wr_year :: int
  wr_total_watches :: int
  wr_movies_watched :: int
  wr_episodes_watched :: int
  wr_distinct_titles :: int
  wr_total_hours :: rat
  wr_longest_streak :: int
  wr_first_watch :: "string option"
  wr_last_watch :: "string option"
  wr_top_genres :: "recap_genre list"
  wr_top_shows :: "recap_title list"
  wr_monthly :: "recap_month list"

definition nonNegativeInteger :: "int \<Rightarrow> bool" where
  "nonNegativeInteger n \<longleftrightarrow> 0 \<le> n \<and> n \<le> 9007199254740991"

definition calendarDateSchema :: "string \<Rightarrow> bool" where
  "calendarDateSchema value \<longleftrightarrow>
     date_pattern value \<and>
     (case date_numbers value of (year, month, day) \<Rightarrow>
        (case Date_UTC year (month - 1) day 0 of
           None \<Rightarrow> False
         | Some parsed \<Rightarrow> getUTCFullYear parsed = year \<and> int (getUTCMonth parsed) = month - 1 \<and> getUTCDate parsed = day))"

text \<open>\<open>^\/[A-Za-z0-9_-]+\.(?:png|jpe?g|webp)$\<close>, in either case.\<close>

definition poster_char :: "char \<Rightarrow> bool" where
  "poster_char c \<longleftrightarrow> of_char c \<in> {48 .. 57 :: nat} \<union> {65 .. 90} \<union> {97 .. 122} \<or> c = CHR ''_'' \<or> c = CHR ''-''"

definition poster_pattern :: "string \<Rightarrow> bool" where
  "poster_pattern s \<longleftrightarrow>
     (case s of
        [] \<Rightarrow> False
      | c # cs \<Rightarrow> c = CHR ''/'' \<and> takeWhile poster_char cs \<noteq> [] \<and>
          to_lower (dropWhile poster_char cs) \<in> set [''.png'', ''.jpg'', ''.jpeg'', ''.webp''])"

definition genreSchema :: "recap_genre \<Rightarrow> recap_genre option" where
  "genreSchema g =
     (let genre = js_trim (rg_genre g) in
      if 1 \<le> length genre \<and> length genre \<le> 100 \<and> nonNegativeInteger (rg_count g)
      then Some (g\<lparr>rg_genre := genre\<rparr>) else None)"

definition titleSchema :: "recap_title \<Rightarrow> recap_title option" where
  "titleSchema t =
     (let title = js_trim (rt_title t) in
      if 0 < rt_tmdb_id t \<and> rt_tmdb_id t \<le> 2147483647 \<and> 1 \<le> length title \<and> length title \<le> 300 \<and>
         (case rt_poster_path t of None \<Rightarrow> True | Some p \<Rightarrow> poster_pattern p \<and> length p \<le> 200) \<and>
         nonNegativeInteger (rt_count t)
      then Some (t\<lparr>rt_title := title\<rparr>) else None)"

fun map_all :: "('a \<Rightarrow> 'b option) \<Rightarrow> 'a list \<Rightarrow> 'b list option" where
  "map_all f [] = Some []"
| "map_all f (x # xs) = (case f x of None \<Rightarrow> None | Some y \<Rightarrow> map_option ((#) y) (map_all f xs))"

definition monthSchema :: "recap_month \<Rightarrow> bool" where
  "monthSchema m \<longleftrightarrow> 1 \<le> rm_month m \<and> rm_month m \<le> 12 \<and> nonNegativeInteger (rm_count m)"

definition recap_fields :: "recap \<Rightarrow> bool" where
  "recap_fields r \<longleftrightarrow>
     1900 \<le> wr_year r \<and> wr_year r \<le> 2100 \<and>
     nonNegativeInteger (wr_total_watches r) \<and> nonNegativeInteger (wr_movies_watched r) \<and>
     nonNegativeInteger (wr_episodes_watched r) \<and> nonNegativeInteger (wr_distinct_titles r) \<and>
     0 \<le> wr_total_hours r \<and> nonNegativeInteger (wr_longest_streak r) \<and>
     (case wr_first_watch r of None \<Rightarrow> True | Some d \<Rightarrow> calendarDateSchema d) \<and>
     (case wr_last_watch r of None \<Rightarrow> True | Some d \<Rightarrow> calendarDateSchema d) \<and>
     length (wr_top_genres r) \<le> 5 \<and> length (wr_top_shows r) \<le> 5 \<and>
     length (wr_monthly r) = 12 \<and> list_all monthSchema (wr_monthly r)"

section \<open>The checks across the fields\<close>

datatype recap_issue =
    Months_Not_Once
  | Totals_Inconsistent
  | Monthly_Totals_Inconsistent
  | Distinct_Inconsistent
  | First_Outside_Year
  | Last_Outside_Year
  | Range_Reversed

definition year_of_text :: "string \<Rightarrow> int" where "year_of_text date = int (parse_digits (take 4 date))"

definition outside_year :: "string option \<Rightarrow> int \<Rightarrow> bool" where
  "outside_year date year = (case date of None \<Rightarrow> False | Some d \<Rightarrow> d \<noteq> [] \<and> year_of_text d \<noteq> year)"

definition recap_issues :: "recap \<Rightarrow> recap_issue list" where
  "recap_issues value =
     (if card (set (map rm_month (wr_monthly value))) \<noteq> 12 then [Months_Not_Once] else []) @
     (if wr_movies_watched value + wr_episodes_watched value \<noteq> wr_total_watches value then [Totals_Inconsistent] else []) @
     (if foldl (\<lambda>total entry. total + rm_count entry) 0 (wr_monthly value) \<noteq> wr_total_watches value
      then [Monthly_Totals_Inconsistent] else []) @
     (if wr_total_watches value < wr_distinct_titles value then [Distinct_Inconsistent] else []) @
     (if outside_year (wr_first_watch value) (wr_year value) then [First_Outside_Year] else []) @
     (if outside_year (wr_last_watch value) (wr_year value) then [Last_Outside_Year] else []) @
     (case (wr_first_watch value, wr_last_watch value) of
        (Some first', Some last') \<Rightarrow> if first' \<noteq> [] \<and> last' \<noteq> [] \<and> str_less last' first' then [Range_Reversed] else []
      | _ \<Rightarrow> [])"

definition wrappedStatsSchema :: "recap \<Rightarrow> recap option" where
  "wrappedStatsSchema value =
     (if \<not> recap_fields value then None
      else case (map_all genreSchema (wr_top_genres value), map_all titleSchema (wr_top_shows value)) of
        (Some genres, Some shows') \<Rightarrow>
          if recap_issues value = [] then Some (value\<lparr>wr_top_genres := genres, wr_top_shows := shows'\<rparr>) else None
      | _ \<Rightarrow> None)"

section \<open>The request\<close>

datatype 'e recap_error = Year_Refused | Recap_Request_Failed 'e | Recap_Refused | Recap_Of_Other_Year

text \<open>The request that is made, if any, and what the caller gets; \<open>answer\<close> is what the request comes back with.
  A year that is not a whole number is refused like one out of range.\<close>

definition wrapped_request :: "int \<Rightarrow> int \<Rightarrow> string" where
  "wrapped_request year offset =
     withQuery ''/stats/me/wrapped'' [(''year'', Q_Number year), (''utc_offset_minutes'', Q_Number offset)]"

definition fetchWrapped :: "rat \<Rightarrow> int \<Rightarrow> 'e + recap option \<Rightarrow> string option \<times> ('e recap_error + recap)" where
  "fetchWrapped year offset answer =
     (if \<not> is_integer year \<or> year < 1900 \<or> 2100 < year then (None, Inl Year_Refused)
      else (Some (wrapped_request \<lfloor>year\<rfloor> offset),
        (case answer of
           Inl e \<Rightarrow> Inl (Recap_Request_Failed e)
         | Inr payload \<Rightarrow>
             (case Option.bind payload wrappedStatsSchema of
                None \<Rightarrow> Inl Recap_Refused
              | Some result \<Rightarrow> if of_int (wr_year result) \<noteq> year then Inl Recap_Of_Other_Year else Inr result))))"

section \<open>What an accepted recap is\<close>

text \<open>The day a date text names.\<close>

definition day_of_text :: "string \<Rightarrow> int" where
  "day_of_text s = (case date_numbers s of (y, m, d) \<Rightarrow> make_day y (m - 1) d)"

definition civil_text :: "string \<Rightarrow> bool" where
  "civil_text s \<longleftrightarrow> date_pattern s \<and> (case date_numbers s of (y, m, d) \<Rightarrow> civil_date y m d)"

text \<open>The days of a year.\<close>

definition day_in_year :: "int \<Rightarrow> string \<Rightarrow> bool" where
  "day_in_year year s \<longleftrightarrow> civil_text s \<and> day_year (day_of_text s) = year"

definition recap_consistent :: "recap \<Rightarrow> bool" where
  "recap_consistent r \<longleftrightarrow>
     distinct (map rm_month (wr_monthly r)) \<and> set (map rm_month (wr_monthly r)) = {1 .. 12} \<and>
     sum_list (map rm_count (wr_monthly r)) = wr_total_watches r \<and>
     wr_movies_watched r + wr_episodes_watched r = wr_total_watches r \<and>
     wr_distinct_titles r \<le> wr_total_watches r \<and>
     (\<forall>d. wr_first_watch r = Some d \<or> wr_last_watch r = Some d \<longrightarrow> day_in_year (wr_year r) d) \<and>
     (\<forall>d e. wr_first_watch r = Some d \<and> wr_last_watch r = Some e \<longrightarrow> day_of_text d \<le> day_of_text e)"

lemma sum_by_foldl: "foldl (\<lambda>t x. t + f x) a xs = a + sum_list (map f xs)" for f :: "'a \<Rightarrow> int"
  by (induction xs arbitrary: a) simp_all

lemma all_months_once:
  assumes "length ms = 12" and "\<And>m. m \<in> set ms \<Longrightarrow> 1 \<le> m \<and> m \<le> (12 :: int)"
  shows "card (set ms) = 12 \<longleftrightarrow> distinct ms \<and> set ms = {1 .. 12}"
proof
  assume c: "card (set ms) = 12"
  then have "distinct ms" using assms(1) by (simp add: card_distinct)
  moreover have "set ms = {1 .. 12}" using assms(2) c by (intro card_subset_eq) auto
  ultimately show "distinct ms \<and> set ms = {1 .. 12}" by simp
qed auto

lemma day_of_civil_text:
  assumes "civil_text s" "date_numbers s = (y, m, d)"
  shows "day_year (day_of_text s) = y" "civil_date y m d" "day_of_text s = make_day y (m - 1) d"
  using assms make_day_civil_fields [of y m d] by (auto simp: civil_text_def day_of_text_def)

text \<open>A text of a year from 1900 on passes the date check exactly if it is a date of the calendar.\<close>

lemma calendarDate_of_year:
  assumes "1900 \<le> year" "year \<le> 2100" "year_of_text s = year"
  shows "calendarDateSchema s \<longleftrightarrow> civil_text s"
proof (cases "date_pattern s")
  case True
  obtain y m d where n: "date_numbers s = (y, m, d)" by (cases "date_numbers s")
  have y: "y = year" using assms(3) n by (simp add: year_of_text_def date_numbers_def)
  have md: "-1 \<le> m - 1" "m - 1 < 99" "0 \<le> d" "d < 100"
    using date_pattern_bounds [OF True] n by (auto simp: date_numbers_def)
  define D where "D = make_day y (m - 1) d"
  have "day_from_year 1800 \<le> D" "D \<le> day_from_year 2300 + 1000"
  proof -
    have q: "-1 \<le> (m - 1) div 12" "(m - 1) div 12 \<le> 8" using md by linarith+
    have s: "0 \<le> month_start l (nat ((m - 1) mod 12))" "month_start l (nat ((m - 1) mod 12)) \<le> 366" for l
    proof -
      have lt: "nat ((m - 1) mod 12) < 12" using pos_mod_bound [of 12 "m - 1"] by linarith
      show "0 \<le> month_start l (nat ((m - 1) mod 12))" unfolding month_start_int [OF lt, symmetric] by simp
      show "month_start l (nat ((m - 1) mod 12)) \<le> 366"
        unfolding month_start_int [OF lt, symmetric] using month_begin_le [OF lt, of l] by (auto split: if_splits)
    qed
    have "day_from_year 1899 \<le> day_from_year (y + (m - 1) div 12)"
      "day_from_year (y + (m - 1) div 12) \<le> day_from_year 2108"
      using assms y q by (intro day_from_year_mono, linarith)+
    then show "day_from_year 1800 \<le> D" "D \<le> day_from_year 2300 + 1000"
      using s [of "leap_year (y + (m - 1) div 12)"] md
      by (simp_all add: D_def make_day_def Let_def day_from_year_def [of 1800] day_from_year_def [of 1899]
          day_from_year_def [of 2108] day_from_year_def [of 2300])
  qed
  then have "Date_UTC y (m - 1) d 0 = Some (D * ms_per_day)"
    using assms y by (simp add: Date_UTC_def full_year_def time_clip_def D_def ms_per_day_def
        day_from_year_def [of 1800] day_from_year_def [of 2300])
  then show ?thesis
    using True n make_day_valid_iff [of y m d] utc_fields [of 0 D]
    by (auto simp: calendarDateSchema_def civil_text_def D_def ms_per_day_def)
qed (simp add: calendarDateSchema_def civil_text_def)

lemma text_order:
  assumes "civil_text s" "civil_text t"
  shows "str_less s t \<longleftrightarrow> day_of_text s < day_of_text t"
proof -
  have p: "date_pattern s" "date_pattern t" using assms by (simp_all add: civil_text_def)
  obtain y m d y' m' d' where n: "date_numbers s = (y, m, d)" "date_numbers t = (y', m', d')"
    by (cases "date_numbers s"; cases "date_numbers t")
  note a = date_pattern_text [OF p(1)] date_pattern_text [OF p(2)]
  have "str_less s t \<longleftrightarrow> y < y' \<or> y = y' \<and> (m < m' \<or> m = m' \<and> d < d')"
    using str_less_date [OF date_pattern_bounds [OF p(1)] date_pattern_bounds [OF p(2)]] n a [symmetric]
    by (simp add: date_numbers_def) linarith
  then show ?thesis
    using make_day_less_iff [OF day_of_civil_text(2) [OF assms(1) n(1)] day_of_civil_text(2) [OF assms(2) n(2)]]
      day_of_civil_text(3) [OF assms(1) n(1)] day_of_civil_text(3) [OF assms(2) n(2)] by simp
qed

lemma not_outside:
  assumes "1900 \<le> year" "year \<le> 2100" "calendarDateSchema s"
  shows "\<not> outside_year (Some s) year \<longleftrightarrow> day_in_year year s"
proof -
  have ne: "s \<noteq> []" using assms(3) by (auto simp: calendarDateSchema_def date_pattern_def)
  obtain y m d where n: "date_numbers s = (y, m, d)" by (cases "date_numbers s")
  have y: "year_of_text s = y" using n by (simp add: year_of_text_def date_numbers_def)
  show ?thesis
    using calendarDate_of_year [OF assms(1,2), of s] assms(3) ne y day_of_civil_text(1) [OF _ n]
    by (auto simp: outside_year_def day_in_year_def)
qed

lemma issues_none:
  assumes "recap_fields p"
  shows "recap_issues p = [] \<longleftrightarrow> recap_consistent p"
proof -
  have year: "1900 \<le> wr_year p" "wr_year p \<le> 2100" using assms by (simp_all add: recap_fields_def)
  have months: "card (set (map rm_month (wr_monthly p))) = 12 \<longleftrightarrow>
      distinct (map rm_month (wr_monthly p)) \<and> set (map rm_month (wr_monthly p)) = {1 .. 12}"
    using assms by (intro all_months_once) (auto simp: recap_fields_def monthSchema_def list_all_iff)
  have dates: "calendarDateSchema d" if "wr_first_watch p = Some d \<or> wr_last_watch p = Some d" for d
    using that assms by (auto simp: recap_fields_def)
  have outside: "outside_year x (wr_year p) \<longleftrightarrow> \<not> (\<forall>d. x = Some d \<longrightarrow> day_in_year (wr_year p) d)"
    if "x = wr_first_watch p \<or> x = wr_last_watch p" for x
  proof (cases x)
    case None
    then show ?thesis by (simp add: outside_year_def)
  next
    case (Some d)
    with that have "calendarDateSchema d" by (intro dates) auto
    from not_outside [OF year this] Some show ?thesis by (simp; blast)
  qed
  have ne: "d \<noteq> []" if "day_in_year (wr_year p) d" for d
    using that by (auto simp: day_in_year_def civil_text_def date_pattern_def)
  have order: "str_less e d \<longleftrightarrow> \<not> day_of_text d \<le> day_of_text e"
    if "day_in_year (wr_year p) d" "day_in_year (wr_year p) e" for d e
    using that text_order [of e d] by (auto simp: day_in_year_def)
  show ?thesis
  proof (cases "\<forall>d. wr_first_watch p = Some d \<or> wr_last_watch p = Some d \<longrightarrow> day_in_year (wr_year p) d")
    case True
    then have "(case (wr_first_watch p, wr_last_watch p) of
        (Some d, Some e) \<Rightarrow> if d \<noteq> [] \<and> e \<noteq> [] \<and> str_less e d then [Range_Reversed] else [] | _ \<Rightarrow> []) = [] \<longleftrightarrow>
      (\<forall>d e. wr_first_watch p = Some d \<and> wr_last_watch p = Some e \<longrightarrow> day_of_text d \<le> day_of_text e)"
      by (cases "wr_first_watch p"; cases "wr_last_watch p") (simp_all add: order ne)
    then show ?thesis
      unfolding recap_issues_def recap_consistent_def append_is_Nil_conv
      using months outside True by (auto simp: sum_by_foldl)
  next
    case False
    then show ?thesis
      unfolding recap_issues_def recap_consistent_def append_is_Nil_conv using outside by auto
  qed
qed

lemma map_all_some: "map_all f xs \<noteq> None \<longleftrightarrow> (\<forall>x \<in> set xs. f x \<noteq> None)"
  by (induction xs) (auto split: option.splits)

lemma schema_accepts:
  "wrappedStatsSchema p = Some r \<longleftrightarrow>
     recap_fields p \<and> recap_consistent p \<and>
     (\<exists>gs ts. map_all genreSchema (wr_top_genres p) = Some gs \<and> map_all titleSchema (wr_top_shows p) = Some ts \<and>
        r = p\<lparr>wr_top_genres := gs, wr_top_shows := ts\<rparr>)"
  by (cases "recap_fields p") (auto simp: wrappedStatsSchema_def issues_none split: option.splits)

lemma schema_year: "wrappedStatsSchema p = Some r \<Longrightarrow> wr_year r = wr_year p"
  by (auto simp: schema_accepts)

lemma fetched:
  "snd (fetchWrapped year offset answer) = Inr r \<longleftrightarrow>
     is_integer year \<and> 1900 \<le> year \<and> year \<le> 2100 \<and>
     (\<exists>p. answer = Inr (Some p) \<and> wrappedStatsSchema p = Some r \<and> of_int (wr_year r) = year)"
  by (auto simp: fetchWrapped_def split: sum.splits option.splits bind_splits)

lemma of_int_integer: "is_integer (of_int i)"
  by (simp add: is_integer_def)

text \<open>C40: The recap screen shows only recaps that add up, and every one that does. A year is asked for exactly if
  it is a whole number from 1900 to 2100; an answer is shown exactly if its fields are in their bounds, it is of that
  year, has each month exactly once, the films and episodes and likewise the months sum to the total, no
  more titles than watches, and the first and the last watch are dates of the calendar in that year, the
  first not after the last. What is shown differs from the answer in trimmed texts only.\<close>

theorem recap_shown_adds_up:
  "((\<exists>r. snd (fetchWrapped year offset (Inr (Some p))) = Inr r) \<longleftrightarrow>
     1900 \<le> year \<and> year \<le> 2100 \<and> year = of_int (wr_year p) \<and> recap_fields p \<and> recap_consistent p \<and>
     (\<forall>g \<in> set (wr_top_genres p). genreSchema g \<noteq> None) \<and> (\<forall>t \<in> set (wr_top_shows p). titleSchema t \<noteq> None)) \<and>
   (snd (fetchWrapped year offset answer) = Inr r \<longrightarrow>
     recap_consistent r \<and> year = of_int (wr_year r) \<and>
     (\<exists>p gs ts. answer = Inr (Some p) \<and> r = p\<lparr>wr_top_genres := gs, wr_top_shows := ts\<rparr>)) \<and>
   fst (fetchWrapped year offset answer) =
     (if is_integer year \<and> 1900 \<le> year \<and> year \<le> 2100 then Some (wrapped_request \<lfloor>year\<rfloor> offset) else None)"
proof (intro conjI impI)
  have all: "(\<exists>gs. map_all f xs = Some gs) \<longleftrightarrow> (\<forall>x \<in> set xs. f x \<noteq> None)" for f :: "'x \<Rightarrow> 'y option" and xs
    using map_all_some [of f xs] by auto
  have "(\<exists>r. wrappedStatsSchema p = Some r \<and> of_int (wr_year r) = year) \<longleftrightarrow>
      recap_fields p \<and> recap_consistent p \<and> of_int (wr_year p) = year \<and>
      (\<exists>gs. map_all genreSchema (wr_top_genres p) = Some gs) \<and> (\<exists>ts. map_all titleSchema (wr_top_shows p) = Some ts)"
    by (auto simp: schema_accepts)
  then show "(\<exists>r. snd (fetchWrapped year offset (Inr (Some p))) = Inr r) \<longleftrightarrow>
     1900 \<le> year \<and> year \<le> 2100 \<and> year = of_int (wr_year p) \<and> recap_fields p \<and> recap_consistent p \<and>
     (\<forall>g \<in> set (wr_top_genres p). genreSchema g \<noteq> None) \<and> (\<forall>t \<in> set (wr_top_shows p). titleSchema t \<noteq> None)"
    unfolding fetched all [symmetric] using of_int_integer by auto
next
  assume "snd (fetchWrapped year offset answer) = Inr r"
  then obtain q where q: "answer = Inr (Some q)" "wrappedStatsSchema q = Some r" "of_int (wr_year r) = year"
    unfolding fetched by blast
  then obtain gs ts where r: "recap_consistent q" "r = q\<lparr>wr_top_genres := gs, wr_top_shows := ts\<rparr>"
    unfolding schema_accepts by blast
  then show "recap_consistent r" by (simp add: recap_consistent_def)
  show "year = of_int (wr_year r)" using q by simp
  show "\<exists>p gs ts. answer = Inr (Some p) \<and> r = p\<lparr>wr_top_genres := gs, wr_top_shows := ts\<rparr>" using q r by blast
next
  show "fst (fetchWrapped year offset answer) =
     (if is_integer year \<and> 1900 \<le> year \<and> year \<le> 2100 then Some (wrapped_request \<lfloor>year\<rfloor> offset) else None)"
    by (auto simp: fetchWrapped_def)
qed

text \<open>One film in March and one episode in December.\<close>

definition sample_recap :: recap where
  "sample_recap =
     \<lparr>wr_year = 2026, wr_total_watches = 2, wr_movies_watched = 1, wr_episodes_watched = 1, wr_distinct_titles = 2,
      wr_total_hours = 3, wr_longest_streak = 1, wr_first_watch = Some ''2026-03-01'', wr_last_watch = Some ''2026-12-31'',
      wr_top_genres = [\<lparr>rg_genre = [0x20, 0x41], rg_count = 2\<rparr>], wr_top_shows = [],
      wr_monthly = map (\<lambda>m. \<lparr>rm_month = m, rm_count = (if m = 3 \<or> m = 12 then 1 else 0)\<rparr>) [1 .. 12]\<rparr>"

lemma recap_shown_adds_up_witness:
  "\<exists>r. snd (fetchWrapped 2026 120 (Inr (Some sample_recap) :: unit + recap option)) = Inr r \<and> recap_consistent r"
proof -
  let ?f = "''2026-03-01''" and ?l = "''2026-12-31''"
  have n: "date_numbers ?f = (2026, 3, 1)" "date_numbers ?l = (2026, 12, 31)" by code_simp+
  have pat: "date_pattern ?f" "date_pattern ?l" by code_simp+
  have leap: "\<not> leap_year 2026" by (simp add: leap_year_def)
  have civil: "civil_date 2026 3 1" "civil_date 2026 12 31"
    by (simp_all add: civil_date_def days_in_month_def leap)
  have texts: "civil_text ?f" "civil_text ?l" using n pat civil by (simp_all add: civil_text_def)
  have years: "year_of_text ?f = 2026" "year_of_text ?l = 2026"
    using n by (simp_all add: year_of_text_def date_numbers_def)
  have dates: "calendarDateSchema ?f" "calendarDateSchema ?l"
    using calendarDate_of_year [of 2026] texts years by simp_all
  have days: "day_in_year 2026 ?f" "day_in_year 2026 ?l" "day_of_text ?f \<le> day_of_text ?l"
    using texts day_of_civil_text(1,3) [OF texts(1) n(1)] day_of_civil_text(1,3) [OF texts(2) n(2)] make_day_less [OF civil]
    by (simp_all add: day_in_year_def)
  have upt: "[1 .. 12] = [1, 2, 3, 4, 5, 6, 7, 8, 9, 10, 11, 12 :: int]" by (simp add: upto.simps)
  have twelve: "{1 .. 12} = set [1, 2, 3, 4, 5, 6, 7, 8, 9, 10, 11, 12 :: int]" unfolding upt [symmetric] by simp
  have trimmed: "js_trim [0x20, 0x41] = [0x41]" by code_simp
  have "recap_fields sample_recap"
    using dates by (simp add: recap_fields_def sample_recap_def upt nonNegativeInteger_def monthSchema_def)
  moreover have "recap_consistent sample_recap"
    unfolding recap_consistent_def twelve using days by (auto simp: sample_recap_def upt)
  moreover have "genreSchema \<lparr>rg_genre = [0x20, 0x41], rg_count = 2\<rparr> \<noteq> None"
    by (simp add: genreSchema_def trimmed nonNegativeInteger_def)
  ultimately obtain r where "snd (fetchWrapped 2026 120 (Inr (Some sample_recap) :: unit + recap option)) = Inr r"
    using recap_shown_adds_up [of 2026 120 sample_recap] by (auto simp: sample_recap_def)
  with recap_shown_adds_up show ?thesis by blast
qed

end
