(* ===== verification/Tv_Time_Import.thy ===== *)
theory Tv_Time_Import
  imports Query_Mutations
begin

text \<open>
  The import of a TV Time export on the phone: the files (mobile/src/lib/import.ts), the screen that
  chooses and sends them, and what its completion marks (mobile/src/app/import-tvtime.tsx). What the
  document picker returns is an input.
\<close>

section \<open>Choosing a file\<close>

definition MAX_FILE_BYTES :: int where "MAX_FILE_BYTES = 16 * 1024 * 1024"
definition MAX_UPLOAD_BYTES :: int where "MAX_UPLOAD_BYTES = 24 * 1024 * 1024"

datatype import_kind = Shows | Movies | Rewatches

definition expectedNames :: "import_kind \<Rightarrow> string" where
  "expectedNames kind =
     (case kind of Shows \<Rightarrow> ''shows.json'' | Movies \<Rightarrow> ''movies.json'' | Rewatches \<Rightarrow> ''rewatched_episode.csv'')"

record selected_file =
  sf_uri :: string
  sf_name :: jstr
  sf_mimeType :: string
  sf_size :: "int option"

record picked_asset =
  pa_uri :: string
  pa_name :: jstr
  pa_mimeType :: "string option"
  pa_size :: "int option"

datatype import_error = Wrong_File import_kind jstr | File_Too_Large jstr | No_File_Chosen | Upload_Too_Large

text \<open>\<open>toLowerCase\<close> on the letters A to Z. The other characters that it turns into ASCII letters give a \<open>k\<close>
  (the Kelvin sign), which is in none of the names.\<close>

definition lower_unit :: "16 word \<Rightarrow> 16 word" where
  "lower_unit u = (if 0x41 \<le> u \<and> u \<le> 0x5A then u + 0x20 else u)"

definition named_as_expected :: "import_kind \<Rightarrow> jstr \<Rightarrow> bool" where
  "named_as_expected kind name \<longleftrightarrow> map lower_unit name = units_of (expectedNames kind)"

text \<open>The picker was left (\<open>None\<close>), or returned a list of files of which the first counts.\<close>

definition pickTVTimeImportFile :: "import_kind \<Rightarrow> picked_asset list option \<Rightarrow> import_error + selected_file option" where
  "pickTVTimeImportFile kind result =
     (case result of
        None \<Rightarrow> Inr None
      | Some [] \<Rightarrow> Inl (Wrong_File kind [])
      | Some (asset # _) \<Rightarrow>
          if \<not> named_as_expected kind (pa_name asset) then Inl (Wrong_File kind (pa_name asset))
          else if (case pa_size asset of None \<Rightarrow> False | Some n \<Rightarrow> MAX_FILE_BYTES < n) then Inl (File_Too_Large (pa_name asset))
          else Inr (Some \<lparr>sf_uri = pa_uri asset, sf_name = pa_name asset,
            sf_mimeType = (case pa_mimeType asset of
                Some t \<Rightarrow> t
              | None \<Rightarrow> if kind = Rewatches then ''text/csv'' else ''application/json''),
            sf_size = pa_size asset\<rparr>))"

section \<open>Sending\<close>

type_synonym selected_files = "import_kind \<Rightarrow> selected_file option"

definition size_of :: "selected_file option \<Rightarrow> int" where
  "size_of file = (case Option.bind file sf_size of None \<Rightarrow> 0 | Some n \<Rightarrow> n)"

definition knownTotal :: "selected_files \<Rightarrow> int" where
  "knownTotal files = size_of (files Shows) + size_of (files Movies) + size_of (files Rewatches)"

definition validateTVTimeImportFiles :: "selected_files \<Rightarrow> import_error option" where
  "validateTVTimeImportFiles files =
     (if files Shows = None \<and> files Movies = None then Some No_File_Chosen
      else if MAX_UPLOAD_BYTES < knownTotal files then Some Upload_Too_Large
      else None)"

definition import_form :: "selected_files \<Rightarrow> (import_kind \<times> selected_file) list" where
  "import_form files =
     concat (map (\<lambda>kind. case files kind of None \<Rightarrow> [] | Some file \<Rightarrow> [(kind, file)]) [Shows, Movies, Rewatches])"

definition startTVTimeImport :: "selected_files \<Rightarrow> import_error + (import_kind \<times> selected_file) list" where
  "startTVTimeImport files =
     (case validateTVTimeImportFiles files of Some e \<Rightarrow> Inl e | None \<Rightarrow> Inr (import_form files))"

text \<open>The screen: the chosen files and the forms that were sent.\<close>

record import_screen =
  im_files :: selected_files
  im_sent :: "(import_kind \<times> selected_file) list list"

datatype import_event =
    File_Chosen import_kind "picked_asset list option"
  | File_Removed import_kind
  | Import_Submitted
  | Import_Accepted

definition import_step :: "import_event \<Rightarrow> import_screen \<Rightarrow> import_screen" where
  "import_step e s =
     (case e of
        File_Chosen kind result \<Rightarrow>
          (case pickTVTimeImportFile kind result of
             Inr (Some file) \<Rightarrow> s\<lparr>im_files := (im_files s)(kind := Some file)\<rparr>
           | _ \<Rightarrow> s)
      | File_Removed kind \<Rightarrow> s\<lparr>im_files := (im_files s)(kind := None)\<rparr>
      | Import_Submitted \<Rightarrow>
          (case startTVTimeImport (im_files s) of Inl _ \<Rightarrow> s | Inr form \<Rightarrow> s\<lparr>im_sent := form # im_sent s\<rparr>)
      | Import_Accepted \<Rightarrow> s\<lparr>im_files := (\<lambda>_. None)\<rparr>)"

inductive import_reachable :: "import_screen \<Rightarrow> bool" where
  import_start: "import_reachable \<lparr>im_files = (\<lambda>_. None), im_sent = []\<rparr>"
| import_next: "import_reachable s \<Longrightarrow> import_reachable (import_step e s)"

section \<open>What is sent\<close>

definition file_fits :: "import_kind \<Rightarrow> selected_file \<Rightarrow> bool" where
  "file_fits kind file \<longleftrightarrow>
     named_as_expected kind (sf_name file) \<and> (\<forall>n. sf_size file = Some n \<longrightarrow> n \<le> MAX_FILE_BYTES)"

definition form_fits :: "(import_kind \<times> selected_file) list \<Rightarrow> bool" where
  "form_fits form \<longleftrightarrow>
     map fst form \<in> set (filter (\<lambda>ks. Shows \<in> set ks \<or> Movies \<in> set ks) (subseqs [Shows, Movies, Rewatches])) \<and>
     (\<forall>(kind, file) \<in> set form. file_fits kind file) \<and>
     sum_list (map (\<lambda>(_, file). size_of (Some file)) form) \<le> MAX_UPLOAD_BYTES"

lemma picked_fits: "pickTVTimeImportFile kind result = Inr (Some file) \<Longrightarrow> file_fits kind file"
  by (auto simp: pickTVTimeImportFile_def file_fits_def split: option.splits list.splits if_splits)

lemma started_fits:
  assumes "\<And>kind file. files kind = Some file \<Longrightarrow> file_fits kind file" "startTVTimeImport files = Inr form"
  shows "form_fits form"
proof -
  have form: "form = import_form files" and ok: "validateTVTimeImportFiles files = None"
    using assms(2) by (auto simp: startTVTimeImport_def split: option.splits)
  have fits: "file_fits kind f" if "(kind, f) \<in> set form" for kind f
    using that assms(1) by (auto simp: form import_form_def split: option.splits)
  show ?thesis
    using ok fits
    by (cases "files Shows"; cases "files Movies"; cases "files Rewatches")
      (auto simp: form_fits_def form import_form_def validateTVTimeImportFiles_def knownTotal_def size_of_def
        split: if_splits)
qed

lemma import_invariant:
  assumes "import_reachable s"
  shows "(\<forall>kind file. im_files s kind = Some file \<longrightarrow> file_fits kind file) \<and> (\<forall>form \<in> set (im_sent s). form_fits form)"
  using assms
proof (induction rule: import_reachable.induct)
  case (import_next s e)
  then show ?case
    using picked_fits started_fits [of "im_files s"]
    by (cases e) (auto simp: import_step_def split: sum.splits option.splits)
qed simp

text \<open>Whatever is picked, removed and submitted in whatever order, every form the import screen sends has
  \<open>shows\<close> or \<open>movies\<close>, each kind once at most and in the fixed order, every file under the name its kind
  expects, no file known to be over 16 MiB and no form known to be over 24 MiB. Sizes the picker does not
  report count as nothing.\<close>

theorem import_forms_fit:
  assumes "import_reachable s" "form \<in> set (im_sent s)"
  shows "map fst form \<in> {[Shows], [Movies], [Shows, Movies], [Shows, Rewatches], [Movies, Rewatches],
           [Shows, Movies, Rewatches]} \<and>
         (\<forall>(kind, file) \<in> set form.
            named_as_expected kind (sf_name file) \<and> (\<forall>n. sf_size file = Some n \<longrightarrow> n \<le> 16 * 1024 * 1024)) \<and>
         sum_list (map (\<lambda>(_, file). size_of (Some file)) form) \<le> 24 * 1024 * 1024"
proof -
  have "form_fits form" using import_invariant [OF assms(1)] assms(2) by blast
  then show ?thesis
    unfolding form_fits_def file_fits_def MAX_FILE_BYTES_def MAX_UPLOAD_BYTES_def
    by (elim conjE, intro conjI) (auto split: if_splits)
qed

text \<open>A file under another name is refused, and the two that are left are sent.\<close>

definition sample_import :: import_screen where
  "sample_import =
     foldl (\<lambda>s e. import_step e s) \<lparr>im_files = (\<lambda>_. None), im_sent = []\<rparr>
       [File_Chosen Movies (Some [\<lparr>pa_uri = ''f1'', pa_name = units_of ''Movies.JSON'', pa_mimeType = None, pa_size = Some 100\<rparr>]),
        File_Chosen Shows (Some [\<lparr>pa_uri = ''f2'', pa_name = units_of ''notes.txt'', pa_mimeType = None, pa_size = None\<rparr>]),
        Import_Submitted]"

lemma import_forms_fit_witness:
  "map (map fst) (im_sent sample_import) = [[Movies]] \<and>
   (\<forall>(kind, file) \<in> set (hd (im_sent sample_import)). named_as_expected kind (sf_name file))"
proof -
  have names: "named_as_expected Movies (units_of ''Movies.JSON'')" "\<not> named_as_expected Shows (units_of ''notes.txt'')"
    by code_simp+
  have sent: "map (map fst) (im_sent sample_import) = [[Movies]]"
    using names by (simp add: sample_import_def import_step_def pickTVTimeImportFile_def startTVTimeImport_def
        validateTVTimeImportFiles_def import_form_def knownTotal_def size_of_def MAX_FILE_BYTES_def MAX_UPLOAD_BYTES_def)
  then obtain form where form: "im_sent sample_import = [form]" by auto
  have "import_reachable sample_import"
    unfolding sample_import_def by (simp only: foldl.simps) (intro import_reachable.intros)
  from import_forms_fit [OF this, of form] form sent show ?thesis by auto
qed

section \<open>The end of an import\<close>

text \<open>What the screen marks when a job has been completed. No query of the client has the root \<open>up-next\<close>; the
  watched episodes and the progress of a show, which an import changes, are not marked.\<close>

definition import_completed :: "key_part list list" where
  "import_completed =
     [[ks ''tracking''], [ks ''history''], [ks ''stats''], [ks ''calendar''], [ks ''up-next''], [ks ''discovery'']]"

lemma no_up_next_query: "root_of q \<noteq> ''up-next''"
proof (cases q)
  case (Library x) then show ?thesis by (cases x) simp_all
next
  case (Social x) then show ?thesis by (simp add: social_root_def split: social_query.splits)
next
  case (Stats x) then show ?thesis by (simp add: stats_root_def split: stats_query.splits)
next
  case (Media x) then show ?thesis by (cases x) simp_all
next
  case (Account x) then show ?thesis by (cases x) simp_all
next
  case (Contact x) then show ?thesis by (cases x) simp_all
qed simp

lemma import_completed_marks:
  "list_ex (\<lambda>f. prefix f (key_of q)) import_completed \<longleftrightarrow>
     root_of q \<in> set [''tracking'', ''history'', ''stats'', ''calendar'', ''discovery'']"
  using no_up_next_query [of q] by (auto simp: import_completed_def)

end
