(* ===== verification/Form_Rules.thy ===== *)
theory Form_Rules
  imports Query_Mutations
begin

text \<open>
  What the forms of the mobile client accept and send: the account (mobile/src/lib/account.ts), lists,
  second factors, reviews, reports and reactions (the files of the same names under mobile/src/lib), and two
  small rules of the screens, the grouping of \<open>up-next.ts\<close> and the language of \<open>locale.ts\<close>.
\<close>

section \<open>Characters\<close>

definition unit_in :: "nat \<Rightarrow> nat \<Rightarrow> 16 word \<Rightarrow> bool" where
  "unit_in a b u \<longleftrightarrow> a \<le> unat u \<and> unat u \<le> b"

definition unit_letter :: "16 word \<Rightarrow> bool" where
  "unit_letter u \<longleftrightarrow> unit_in 65 90 u \<or> unit_in 97 122 u"

definition unit_digit :: "16 word \<Rightarrow> bool" where "unit_digit u \<longleftrightarrow> unit_in 48 57 u"

section \<open>The account\<close>

datatype password_error =
    Current_Missing | Current_Too_Long | New_Length | New_Format | Passwords_Differ

definition validatePasswordChange :: "jstr \<Rightarrow> jstr \<Rightarrow> jstr \<Rightarrow> password_error option" where
  "validatePasswordChange currentPassword newPassword confirmation =
     (if currentPassword = [] then Some Current_Missing
      else if 128 < length currentPassword then Some Current_Too_Long
      else if length newPassword < 8 \<or> 128 < length newPassword then Some New_Length
      else if \<not> list_ex unit_letter newPassword \<or> \<not> list_ex unit_digit newPassword then Some New_Format
      else if newPassword \<noteq> confirmation then Some Passwords_Differ
      else None)"

lemma password_accepted_iff:
  "validatePasswordChange c n d = None \<longleftrightarrow>
     length c \<in> {1 .. 128} \<and> length n \<in> {8 .. 128} \<and> (\<exists>u \<in> set n. unit_letter u) \<and> (\<exists>u \<in> set n. unit_digit u) \<and> d = n"
  by (cases c) (auto simp: validatePasswordChange_def list_ex_iff)

text \<open>\<open>...(code ? { totp_code: code } : {})\<close> for the trimmed code.\<close>

definition totp_entry :: "jstr option \<Rightarrow> (string \<times> query_value) list" where
  "totp_entry totpCode =
     (case map_option js_trim totpCode of
        None \<Rightarrow> []
      | Some code \<Rightarrow> if code = [] then [] else [(''totp_code'', Q_Text code)])"

datatype account_call =
    Update_Profile jstr jstr bool
  | Change_Email jstr jstr "jstr option"
  | Change_Password jstr jstr "jstr option"
  | Revoke_Session string
  | Logout_All
  | Resend_Verification
  | Setup_Two_Factor jstr
  | Enable_Two_Factor jstr
  | Disable_Two_Factor jstr jstr
  | Delete_Account jstr "jstr option"

text \<open>The bodies, function by function.\<close>

definition updateAccountProfile :: "jstr \<Rightarrow> jstr \<Rightarrow> bool \<Rightarrow> hook_call" where
  "updateAccountProfile username bio isPublic =
     write_call PATCH ''/users/me''
       (Object [(''username'', Q_Text (js_trim username)), (''bio'', Q_Text (js_trim bio)), (''is_public'', Q_Bool isPublic)])"

definition requestAccountEmailChange :: "jstr \<Rightarrow> jstr \<Rightarrow> jstr option \<Rightarrow> hook_call" where
  "requestAccountEmailChange currentPassword newEmail totpCode =
     write_call POST ''/auth/email/change''
       (Object ([(''current_password'', Q_Text currentPassword), (''new_email'', Q_Text newEmail)] @ totp_entry totpCode))"

definition changeAccountPassword :: "jstr \<Rightarrow> jstr \<Rightarrow> jstr option \<Rightarrow> hook_call" where
  "changeAccountPassword currentPassword newPassword totpCode =
     write_call PATCH ''/auth/password''
       (Object ([(''current_password'', Q_Text currentPassword), (''new_password'', Q_Text newPassword)] @ totp_entry totpCode))"

definition revokeAccountSession :: "string \<Rightarrow> hook_call" where
  "revokeAccountSession i = write_call DELETE (''/auth/sessions/'' @ encodeURIComponent i) No_Body"

definition logoutAllAccountSessions :: hook_call where
  "logoutAllAccountSessions = write_call POST ''/auth/sessions/logout-all'' No_Body"

definition resendEmailVerification :: hook_call where
  "resendEmailVerification = write_call POST ''/auth/email/resend'' No_Body"

definition setupTwoFactor :: "jstr \<Rightarrow> hook_call" where
  "setupTwoFactor password = write_call POST ''/auth/2fa/setup'' (Object [(''password'', Q_Text password)])"

definition enableTwoFactor :: "jstr \<Rightarrow> hook_call" where
  "enableTwoFactor code = write_call POST ''/auth/2fa/enable'' (Object [(''code'', Q_Text (js_trim code))])"

definition disableTwoFactor :: "jstr \<Rightarrow> jstr \<Rightarrow> hook_call" where
  "disableTwoFactor password totpCode =
     write_call POST ''/auth/2fa/disable''
       (Object [(''password'', Q_Text password), (''totp_code'', Q_Text (js_trim totpCode))])"

definition deleteAccountSession :: "jstr \<Rightarrow> jstr option \<Rightarrow> hook_call" where
  "deleteAccountSession password totpCode =
     write_call DELETE ''/users/me'' (Object ((''password'', Q_Text password) # totp_entry totpCode))"

primrec account_request :: "account_call \<Rightarrow> hook_call" where
  "account_request (Update_Profile u b p) = updateAccountProfile u b p"
| "account_request (Change_Email p e c) = requestAccountEmailChange p e c"
| "account_request (Change_Password p n c) = changeAccountPassword p n c"
| "account_request (Revoke_Session i) = revokeAccountSession i"
| "account_request Logout_All = logoutAllAccountSessions"
| "account_request Resend_Verification = resendEmailVerification"
| "account_request (Setup_Two_Factor p) = setupTwoFactor p"
| "account_request (Enable_Two_Factor c) = enableTwoFactor c"
| "account_request (Disable_Two_Factor p c) = disableTwoFactor p c"
| "account_request (Delete_Account p c) = deleteAccountSession p c"

text \<open>After three of the calls the local session is cleared; a call that throws clears nothing.\<close>

definition clears_session :: "account_call \<Rightarrow> bool" where
  "clears_session c =
     (case c of Change_Password _ _ _ \<Rightarrow> True | Logout_All \<Rightarrow> True | Delete_Account _ _ \<Rightarrow> True | _ \<Rightarrow> False)"

definition run_account_call :: "account_call \<Rightarrow> 'e option \<Rightarrow> hook_call \<times> 'e option \<times> bool" where
  "run_account_call c failure =
     (account_request c, failure, (case failure of None \<Rightarrow> clears_session c | Some _ \<Rightarrow> False))"

text \<open>\<open>listAccountSessions\<close>: the token is read again when the server refuses it. The arguments are the token
  at the two reads and the answers to the two requests; the results the tokens sent and the outcome.\<close>

datatype 'e sessions_error = No_Saved_Session | Sessions_Refused 'e

definition listAccountSessions ::
  "('e \<Rightarrow> bool) \<Rightarrow> string option \<Rightarrow> string option \<Rightarrow> (nat \<Rightarrow> 'e + 'a) \<Rightarrow> string list \<times> ('e sessions_error + 'a)" where
  "listAccountSessions is_401 first_read second_read answer =
     (case first_read of
        None \<Rightarrow> ([], Inl No_Saved_Session)
      | Some refreshToken \<Rightarrow>
          if refreshToken = [] then ([], Inl No_Saved_Session)
          else (case answer 0 of
            Inr sessions \<Rightarrow> ([refreshToken], Inr sessions)
          | Inl e \<Rightarrow>
              if \<not> is_401 e then ([refreshToken], Inl (Sessions_Refused e))
              else (case second_read of
                None \<Rightarrow> ([refreshToken], Inl (Sessions_Refused e))
              | Some latest \<Rightarrow>
                  if latest = [] \<or> latest = refreshToken then ([refreshToken], Inl (Sessions_Refused e))
                  else ([refreshToken, latest],
                    (case answer 1 of Inr sessions \<Rightarrow> Inr sessions | Inl e' \<Rightarrow> Inl (Sessions_Refused e'))))))"

text \<open>No token is sent twice, and the outcome is the answer to the last request.\<close>

lemma sessions_asked_once_per_token:
  assumes "listAccountSessions is_401 a b answer = (sent, outcome)"
  shows "distinct sent \<and> [] \<notin> set sent \<and> length sent \<le> 2 \<and> set sent \<subseteq> set_option a \<union> set_option b \<and>
    outcome = (if sent = [] then Inl No_Saved_Session
               else case answer (length sent - 1) of Inl e \<Rightarrow> Inl (Sessions_Refused e) | Inr x \<Rightarrow> Inr x) \<and>
    (length sent = 2 \<longrightarrow> (\<exists>e. answer 0 = Inl e \<and> is_401 e))"
  using assms by (auto simp: listAccountSessions_def split: option.splits sum.splits if_splits)

section \<open>Second factors\<close>

datatype second_factor_mode = Authenticator | Recovery

definition normalizeSecondFactorInput :: "jstr \<Rightarrow> jstr" where
  "normalizeSecondFactorInput value = map (\<lambda>u. if unit_in 65 90 u then u + 32 else u) (js_trim value)"

definition hex_unit :: "16 word \<Rightarrow> bool" where
  "hex_unit u \<longleftrightarrow> unit_digit u \<or> unit_in 97 102 u \<or> unit_in 65 70 u"

text \<open>\<open>^[a-f0-9]{4}(?:-[a-f0-9]{4}){3}$\<close>\<close>

definition recovery_code_pattern :: "jstr \<Rightarrow> bool" where
  "recovery_code_pattern s \<longleftrightarrow>
     length s = 19 \<and> (\<forall>i < 19. if i mod 5 = 4 then s ! i = 0x2D else hex_unit (s ! i))"

definition validateSecondFactorInput :: "second_factor_mode \<Rightarrow> jstr \<Rightarrow> bool" where
  "validateSecondFactorInput mode value =
     (let normalized = normalizeSecondFactorInput value in
      case mode of
        Authenticator \<Rightarrow> length normalized = 6 \<and> list_all unit_digit normalized
      | Recovery \<Rightarrow> recovery_code_pattern normalized)"

section \<open>Lists, reviews, reports and reactions\<close>

datatype list_draft_error = Name_Blank | Name_Too_Long nat | Description_Too_Long nat

definition LIST_NAME_MAX_LENGTH :: nat where "LIST_NAME_MAX_LENGTH = 200"
definition LIST_DESCRIPTION_MAX_LENGTH :: nat where "LIST_DESCRIPTION_MAX_LENGTH = 1000"

record list_input =
  li_name :: jstr
  li_description :: jstr
  li_is_public :: bool

definition listInputFromDraft :: "jstr \<Rightarrow> jstr \<Rightarrow> bool \<Rightarrow> list_draft_error + list_input" where
  "listInputFromDraft name description isPublic =
     (let normalizedName = js_trim name; normalizedDescription = js_trim description in
      if normalizedName = [] then Inl Name_Blank
      else if LIST_NAME_MAX_LENGTH < length normalizedName then Inl (Name_Too_Long LIST_NAME_MAX_LENGTH)
      else if LIST_DESCRIPTION_MAX_LENGTH < length normalizedDescription
      then Inl (Description_Too_Long LIST_DESCRIPTION_MAX_LENGTH)
      else Inr \<lparr>li_name = normalizedName, li_description = normalizedDescription, li_is_public = isPublic\<rparr>)"

definition buildTrackingFeedbackPayload :: "int option \<Rightarrow> jstr \<Rightarrow> int option \<times> jstr option" where
  "buildTrackingFeedbackPayload rating review =
     (rating, (let normalizedReview = js_trim review in if normalizedReview = [] then None else Some normalizedReview))"

text \<open>The evidence of a report is the text and the franking key of a message that was opened.\<close>

definition reportInputFromDraft ::
  "string \<Rightarrow> string \<Rightarrow> string \<Rightarrow> jstr \<Rightarrow> (jstr \<times> string) option \<Rightarrow> (string \<times> query_value) list" where
  "reportInputFromDraft targetType targetId reason details evidence =
     (let normalizedDetails = js_trim details in
      [(''target_type'', text_value targetType), (''target_id'', text_value targetId), (''reason'', text_value reason)] @
      (if normalizedDetails = [] then [] else [(''details'', Q_Text normalizedDetails)]) @
      (case evidence of
         None \<Rightarrow> []
       | Some (revealed, key) \<Rightarrow> [(''revealed_plaintext'', Q_Text revealed), (''franking_key'', text_value key)]))"

definition nextReaction :: "'r \<Rightarrow> 'r option \<Rightarrow> 'r option" where
  "nextReaction tapped current = (if Some tapped = current then None else Some tapped)"

definition totalReactions :: "('r \<times> int) list \<Rightarrow> int" where
  "totalReactions reactions = foldl (\<lambda>sum entry. sum + snd entry) 0 reactions"

datatype reaction_caption = Mark_To_React | Be_First | Count_One | Count_Many int

definition reactionCaption :: "('r \<times> int) list \<Rightarrow> bool \<Rightarrow> reaction_caption" where
  "reactionCaption reactions canReact =
     (if \<not> canReact then Mark_To_React
      else let total = totalReactions reactions in
        if total = 0 then Be_First else if total = 1 then Count_One else Count_Many total)"

text \<open>Tapping a reaction twice leaves none, whatever was there, except when it was there itself.\<close>

lemma tapped_twice:
  "nextReaction r (nextReaction r current) = (if current = Some r then Some r else None)"
  by (simp add: nextReaction_def)

section \<open>Up next\<close>

definition RESUME_AFTER_DAYS :: int where "RESUME_AFTER_DAYS = 30"
definition DAY_MS :: int where "DAY_MS = 24 * 60 * 60 * 1000"

text \<open>The instant of the last watch is read by the platform; \<open>None\<close> is a date that is not a number.\<close>

definition isDormant :: "('i \<Rightarrow> int option) \<Rightarrow> int \<Rightarrow> 'i \<Rightarrow> bool" where
  "isDormant last_watched now item =
     (case last_watched item of None \<Rightarrow> False | Some t \<Rightarrow> RESUME_AFTER_DAYS * DAY_MS < now - t)"

datatype up_next_key = Continuing | Dormant

definition groupUpNext :: "('i \<Rightarrow> int option) \<Rightarrow> int \<Rightarrow> 'i list \<Rightarrow> (up_next_key \<times> 'i list) list" where
  "groupUpNext last_watched now items =
     filter (\<lambda>(_, its). 0 < length its)
       [(Continuing, filter (\<lambda>i. \<not> isDormant last_watched now i) items),
        (Dormant, filter (isDormant last_watched now) items)]"

text \<open>The groups share the items out: none is empty, each keeps the order, and the group of an item is whether
  it is dormant.\<close>

lemma group_members:
  "(k, its) \<in> set (groupUpNext f now items) \<longleftrightarrow>
     its \<noteq> [] \<and> its = filter (\<lambda>i. isDormant f now i = (k = Dormant)) items"
  unfolding groupUpNext_def set_filter by (cases k) auto

lemma every_item_grouped:
  assumes "item \<in> set items"
  shows "\<exists>k its. (k, its) \<in> set (groupUpNext f now items) \<and> item \<in> set its"
proof -
  let ?k = "if isDormant f now item then Dormant else Continuing"
  let ?its = "filter (\<lambda>i. isDormant f now i = (?k = Dormant)) items"
  have "item \<in> set ?its" using assms by simp
  then have "?its \<noteq> []" by (metis empty_iff list.set(1))
  then have "(?k, ?its) \<in> set (groupUpNext f now items)" unfolding group_members by (intro conjI refl)
  with \<open>item \<in> set ?its\<close> show ?thesis by blast
qed

datatype elapsed = Days int | Months int | A_Year | Years int

text \<open>\<open>Math.round\<close> rounds halves up.\<close>

definition elapsedSince :: "int \<Rightarrow> int \<Rightarrow> elapsed" where
  "elapsedSince value now =
     (let days = (now - value) div DAY_MS in
      if days < 60 then Days days
      else if days < 365 then Months ((2 * days + 30) div 60)
      else let years = days div 365 in if years = 1 then A_Year else Years years)"

text \<open>The unit is the largest that says at least two of itself, a single year apart, and months stop at twelve.\<close>

lemma elapsed_ranges:
  "(case elapsedSince value now of
      Days d \<Rightarrow> d < 60 \<and> value + d * DAY_MS \<le> now \<and> now < value + (d + 1) * DAY_MS
    | Months m \<Rightarrow> 2 \<le> m \<and> m \<le> 12
    | A_Year \<Rightarrow> value + 365 * DAY_MS \<le> now \<and> now < value + 730 * DAY_MS
    | Years y \<Rightarrow> 2 \<le> y \<and> value + y * 365 * DAY_MS \<le> now)"
proof -
  let ?days = "(now - value) div DAY_MS"
  have d: "?days * DAY_MS \<le> now - value" "now - value < (?days + 1) * DAY_MS"
    by (simp_all add: DAY_MS_def)
  then show ?thesis
    by (auto simp: elapsedSince_def Let_def DAY_MS_def)
qed

section \<open>The language\<close>

record media_locale =
  ml_languageCode :: "string option"
  ml_languageRegionCode :: "string option"
  ml_languageTag :: string

definition two_letters :: "string \<Rightarrow> bool" where
  "two_letters s \<longleftrightarrow> length s = 2 \<and> list_all (\<lambda>c. of_char c \<in> {65 .. 90 :: nat} \<union> {97 .. 122}) s"

definition languageFromTag :: "string \<Rightarrow> string option" where
  "languageFromTag languageTag =
     (let language = takeWhile (\<lambda>c. c \<noteq> CHR ''-'' \<and> c \<noteq> CHR ''_'') (str_trim languageTag)
      in if two_letters language then Some (to_lower language) else None)"

definition upper_char :: "char \<Rightarrow> char" where
  "upper_char c = (if of_char c \<in> {97 .. 122 :: nat} then char_of (of_char c - 32 :: nat) else c)"

definition mediaLanguageFromLocales :: "media_locale list \<Rightarrow> string" where
  "mediaLanguageFromLocales locales =
     (case locales of
        [] \<Rightarrow> ''en-US''
      | locale # _ \<Rightarrow>
          let language = (case ml_languageCode locale of
              Some c \<Rightarrow> if two_letters c then Some (to_lower c) else languageFromTag (ml_languageTag locale)
            | None \<Rightarrow> languageFromTag (ml_languageTag locale)) in
          (case language of
             None \<Rightarrow> ''en-US''
           | Some l \<Rightarrow>
               (case map_option str_trim (ml_languageRegionCode locale) of
                  None \<Rightarrow> l
                | Some region \<Rightarrow> if two_letters region then l @ ''-'' @ map upper_char region else l)))"

text \<open>The language is always two small letters, with a region of two capital letters or without.\<close>

definition small_letter :: "char \<Rightarrow> bool" where "small_letter c \<longleftrightarrow> of_char c \<in> {97 .. 122 :: nat}"
definition capital_letter :: "char \<Rightarrow> bool" where "capital_letter c \<longleftrightarrow> of_char c \<in> {65 .. 90 :: nat}"

lemma letters_cased:
  assumes "two_letters s"
  shows "length (to_lower s) = 2 \<and> list_all small_letter (to_lower s)"
    and "length (map upper_char s) = 2 \<and> list_all capital_letter (map upper_char s)"
proof -
  have len: "length s = 2" and each: "\<And>c. c \<in> set s \<Longrightarrow> of_char c \<in> {65 .. 90 :: nat} \<union> {97 .. 122}"
    using assms by (auto simp: two_letters_def list_all_iff)
  have low: "small_letter (lower_char c)" if "of_char c \<in> {65 .. 90 :: nat} \<union> {97 .. 122}" for c
    using that by (auto simp: small_letter_def lower_char_def Let_def char_code_def)
  have up: "capital_letter (upper_char c)" if "of_char c \<in> {65 .. 90 :: nat} \<union> {97 .. 122}" for c
    using that by (auto simp: capital_letter_def upper_char_def)
  show "length (to_lower s) = 2 \<and> list_all small_letter (to_lower s)"
    using len each low by (simp add: to_lower_def list_all_iff)
  show "length (map upper_char s) = 2 \<and> list_all capital_letter (map upper_char s)"
    using len each up by (simp add: list_all_iff)
qed

lemma language_form:
  "\<exists>l r. mediaLanguageFromLocales locales = l @ r \<and> length l = 2 \<and> list_all small_letter l \<and>
     (r = [] \<or> (\<exists>region. r = CHR ''-'' # region \<and> length region = 2 \<and> list_all capital_letter region))"
proof -
  have en: "length ''en'' = 2 \<and> list_all small_letter ''en''" "length ''US'' = 2 \<and> list_all capital_letter ''US''"
    by (simp_all add: small_letter_def capital_letter_def)
  have fallback: ?thesis if "mediaLanguageFromLocales locales = ''en'' @ CHR ''-'' # ''US''"
    using that en by blast
  show ?thesis
  proof (cases locales)
    case Nil
    then show ?thesis by (intro fallback) (simp add: mediaLanguageFromLocales_def)
  next
    case (Cons loc rest)
    let ?language = "case ml_languageCode loc of
      Some c \<Rightarrow> if two_letters c then Some (to_lower c) else languageFromTag (ml_languageTag loc)
      | None \<Rightarrow> languageFromTag (ml_languageTag loc)"
    show ?thesis
    proof (cases ?language)
      case None
      then show ?thesis using Cons by (intro fallback) (simp add: mediaLanguageFromLocales_def)
    next
      case (Some l)
      then have l: "length l = 2 \<and> list_all small_letter l"
        using letters_cased(1) by (auto simp: languageFromTag_def Let_def split: option.splits if_splits)
      have result: "mediaLanguageFromLocales locales =
        (case map_option str_trim (ml_languageRegionCode loc) of
           None \<Rightarrow> l | Some region \<Rightarrow> if two_letters region then l @ ''-'' @ map upper_char region else l)"
        using Cons Some by (simp add: mediaLanguageFromLocales_def)
      show ?thesis
      proof (cases "\<exists>region. map_option str_trim (ml_languageRegionCode loc) = Some region \<and> two_letters region")
        case True
        then obtain region where region: "map_option str_trim (ml_languageRegionCode loc) = Some region" "two_letters region"
          by blast
        then have "mediaLanguageFromLocales locales = l @ CHR ''-'' # map upper_char region"
          unfolding result by (simp only: option.case if_True) simp
        then show ?thesis using l letters_cased(2) [OF region(2)] by blast
      next
        case False
        then have "mediaLanguageFromLocales locales = l @ []" unfolding result by (auto split: option.splits)
        then show ?thesis using l by blast
      qed
    qed
  qed
qed

end
