(* ===== verification/Spec2Isabelle.thy ===== *)
theory Spec2Isabelle
  imports Core_Claims Message_Claims Peer_Trust Key_Claims Key_Lifecycle Web_Keys Session_Claims Release_Sync Feed_Claims Notification_Cache
    Message_Screen Event_Stream Api_Request Web_Claims Client_Errors Heatmap History_Dates Web_Navigation Deep_Links Derive_Worker
    Query_Claims Query_Mutations Query_Persistence App_Lifecycle Web_Change_Claims
    Keyed_Tasks Data_Export Wrapped_Recap Tv_Time_Import Form_Rules
begin

text \<open>
  A verification library for the TypeScript clients of cineTrack (Vazute): the mobile app (mobile/src,
  Expo and React Native) and the web client (frontend/src, React). Both talk to one backend over HTTP and
  a stream of server-sent events; the backend is written in Rust and is not part of this library.

  \<^bold>\<open>The program.\<close> Each client keeps a session (an access token in memory, a refresh token in the
  keychain of the phone or in a cookie), and every authenticated request goes through it. Above it are the
  query hooks, whose answers live in a cache that the mutation hooks, the event stream and the application
  lifecycle mark stale or clear. Direct messages are encrypted end to end: an identity key pair per account, kept on the
  device and sealed on the server under a recovery code; messages sealed to the peer with a franking
  commitment and a signature; the peer's keys pinned on first use. Around this are push registrations,
  error reports, the offline copy of the cache, the import and the export of an account, and the screens.

  \<^bold>\<open>Conventions.\<close> A UTF-16 string a person typed is a \<open>jstr\<close> (a list of 16-bit words); identifiers,
  hexadecimal text and protocol text are \<open>string\<close>. Bytes are 8-bit words. A \<open>number\<close> that is a whole
  number by its use is \<open>int\<close> or \<open>nat\<close>, one that may not be is \<open>rat\<close>. A \<open>Map\<close> is an association list in
  insertion order (\<open>jsmap\<close>). Errors are the left of a sum; a missing value is \<open>None\<close>. An \<open>async\<close> function is
  cut at its awaits into the steps of a machine, whose events carry what the platform, the network or the server
  answers; the machine is composed of the steps of all operations that can be under way, in any
  interleaving. Random values, clocks and time zones are arguments. Third-party code (the noble
  primitives, zod, TanStack Query, axios, Expo) is a parameter or an input; what is relied on of it is a
  named predicate (such as \<open>primitives_ok\<close> and \<open>aes_ok\<close>), and each property that uses one has a witness
  with a concrete instance. Loops are recursive functions with a termination proof; there is no fuel except
  for following page cursors, where the liveness properties give the bound that suffices.

  \<^bold>\<open>Interfaces.\<close> What several components rely on is a locale, interpreted on the model's definitions:
  \<open>forgetful_store\<close> (\<open>Prelude\<close>; the cache of opened messages), \<open>revocation_queue\<close> (\<open>Revocations\<close>; refresh
  tokens and push tokens), \<open>feed_merge\<close> and \<open>ordered_feed_merge\<close> (\<open>Feeds\<close>; the five paged lists),
  \<open>identity_store\<close> (\<open>Key_Lifecycle\<close>; the keychain and IndexedDB), \<open>chunk_reader\<close> (\<open>Event_Stream\<close>), \<open>rooted_keys\<close> and \<open>grouped_keys\<close> (\<open>Query_Claims\<close>; the cache keys of the
  two clients).

  \<^bold>\<open>Foundations.\<close> \<open>Prelude\<close>, \<open>Js_Text\<close>, \<open>Text_Codec\<close>, \<open>Bytes_Hex\<close>, \<open>Json_Value\<close> and \<open>Js_Date\<close> model the
  parts of the language the code uses: insertion-ordered maps, decimal text, code points and UTF-8,
  hexadecimal text, values of \<open>JSON.parse\<close>, and the calendar behind \<open>Date\<close>, each with its round trips.

  \<^bold>\<open>Encryption.\<close>
  \<^item> \<open>Crypto_Core\<close>, \<open>Core_Claims\<close>: lib/crypto/core.ts, the same file on both clients. What is sealed opens
    for its recipient and its author; backups and recovery codes open what they sealed.
  \<^item> \<open>Message_Crypto\<close>, \<open>Message_Claims\<close>: lib/crypto/cache.ts and messages.ts. The cache of opened messages
    never changes a verdict. A message that fails a check it can be put to is not drawn; one that comes
    without a signature, or in the clear, is.
  \<^item> \<open>Peer_Trust\<close>: lib/crypto/trust.ts, pins.ts and hooks/use-peer-trust.ts. The stored pins refine a map
    from contact to fingerprint.
  \<^item> \<open>Key_Session\<close>, \<open>Key_Claims\<close>: lib/crypto/session.ts and storage.ts of the mobile client. The keychain keeps
    accounts apart, and a restore installs only keys the directory lists.
  \<^item> \<open>Key_Lifecycle\<close>: store/encryption.ts and hooks/use-encryption.ts: the loaded identity over sign-in,
    sign-out, the reading of the storage, and set-ups and restores under way. The keys in memory are those
    of the signed-in account as long as no set-up or restore ends after its session.
  \<^item> \<open>Web_Keys\<close>: the same on frontend/src over IndexedDB, with the derivations off the main thread and the
    sign-out that forgets the keys. Both clients write and open the same backups; a switch of accounts
    without a sign-out keeps the keys of the previous account in use.
  \<^item> \<open>Derive_Worker\<close>: frontend/src/lib/crypto/derive.ts and derive.worker.ts, the page and its worker.

  \<^bold>\<open>Sessions.\<close>
  \<^item> \<open>Secure_Session\<close>, \<open>Revocations\<close>, \<open>Mobile_Session\<close>, \<open>Session_Claims\<close>: mobile/src/lib/secure-session.ts,
    session.ts and store/auth.ts. \<open>Revocations\<close> states the queue of what the server must still be told as
    a locale, interpreted for refresh tokens here and for push tokens in \<open>Release_Store\<close>. The machine of
    \<open>Mobile_Session\<close> runs sign-in, sign-out, restoring and refreshing interleaved; a generation counter fences
    superseded operations, and a sign-out is final but for a refresh called after it.
  \<^item> \<open>Http_Client\<close>, \<open>Api_Request\<close>: mobile/src/lib/http.ts and api.ts. An answer belongs to the session that
    asked.
  \<^item> \<open>Web_Session\<close>, \<open>Web_Claims\<close>: frontend/src/store/auth.ts, lib/api.ts and what hooks/useAuth.ts writes into the
    store. The success of a rotation is fenced by the session, its refusal is not; profile answers are stored
    unchecked.
  \<^item> \<open>App_Lifecycle\<close>: mobile/src/providers/app-providers.tsx, with the query cache, its copy, and what is in
    flight when accounts change. No cached answer crosses accounts but for two: notifications that a failed
    read mark puts back, and a copy whose restore ends after its account was left.
  \<^item> \<open>Web_Navigation\<close>, \<open>Deep_Links\<close>: where a sign-in returns to, on the web and on the phone. The URL parser of
    the browser is written out for the references that pass the checks.

  \<^bold>\<open>Messages, notifications and events.\<close>
  \<^item> \<open>Feeds\<close>, \<open>Feed_Paging\<close>, \<open>Feed_Claims\<close>: the paged lists of mobile/src/lib (notifications.ts, messages.ts,
    social.ts, history.ts, tracking-lookup.ts). \<open>serve_notifications\<close> and \<open>serve_thread\<close> state the documented order and
    cursors of the two server queries; following the cursors shows everything once.
  \<^item> \<open>Notification_Cache\<close>: the optimistic read marks of hooks/use-notifications.ts, several in flight at once.
  \<^item> \<open>Message_Screen\<close>: the send mutation of hooks/use-messages.ts over the cached directory answer, and the
    conversation screen. A text is in the clear exactly after a failed lookup of the last five minutes.
  \<^item> \<open>Event_Stream\<close>: mobile/src/lib/events.ts and hooks/use-event-stream.ts, frames and reconnection.
  \<^item> \<open>Release_Store\<close>, \<open>Release_Sync\<close>: secure-release-notifications.ts and release-notifications.ts.
  \<^item> \<open>Client_Errors\<close>: mobile/src/lib/client-errors.ts.

  \<^bold>\<open>Queries.\<close>
  \<^item> \<open>Query_Hooks\<close>, \<open>Query_Claims\<close>, \<open>Query_Mutations\<close>: mobile/src/hooks, every query hook and every mutation
    hook. A key of the cache names the request; a change marks the answers it makes stale, exactly.
  \<^item> \<open>Web_Queries\<close>, \<open>Web_Query_Claims\<close>, \<open>Web_Mutations\<close>, \<open>Web_Change_Claims\<close>: the same for
    frontend/src/hooks, and which answers no change marks.
  \<^item> \<open>Query_Persistence\<close>: query-cache-policy.ts, query-persistence.ts and encrypted-storage.ts.

  \<^bold>\<open>The rest of the mobile client.\<close>
  \<^item> \<open>Heatmap\<close> (statistics.ts), \<open>History_Dates\<close> (history.ts), \<open>Wrapped_Recap\<close> (wrapped.ts): what is shown of a
    year and what is recorded for a date.
  \<^item> \<open>Data_Export\<close> (data-export.ts), \<open>Tv_Time_Import\<close> (import.ts and its screen), \<open>Keyed_Tasks\<close>
    (keyed-task-gate.ts).
  \<^item> \<open>Form_Rules\<close>: account.ts, two-factor.ts, lists.ts, tracking-feedback.ts, community-safety.ts,
    episode-reactions.ts, up-next.ts and locale.ts.

  \<^bold>\<open>Not modelled.\<close> The backend, its migrations, the deployment scripts and the tests, which are in other
  languages or exercise the code above. The pages and components of both clients, beyond the screens named
  above: they lay out what the hooks and the rules return. The dictionaries (lib/i18n), the type
  declarations, themes, fonts and service-worker registration, which hold data or only call the platform.
  The upload and the preparation of an avatar, which only call the image packages. The shapes that zod
  checks are modelled where a check goes beyond naming fields and types. Timing is modelled where the code
  computes with it (backoff, expiry, dates), not as real time; a render of React is not an event unless an
  effect depends on it.
\<close>

end
